(* ===== verification/Prelude.thy ===== *)
theory Prelude
  imports Main "HOL-Library.Sublist" "HOL-Library.Char_ord" "HOL-Library.List_Lexorder"
begin

text \<open>
  Go strings and the functions of Go's \<^verbatim>\<open>strings\<close>, \<^verbatim>\<open>unicode\<close> and \<^verbatim>\<open>strconv\<close>
  packages that the drivers call, on \<^typ>\<open>string\<close> read as a Go string: a list of bytes.

  Two limits hold throughout.  Case mapping (\<open>ToLower\<close>, \<open>EqualFold\<close>) and white space
  (\<open>TrimSpace\<close>) are the ASCII ones: bytes from 128 on are left alone, so the model differs
  from Go on inputs with upper-case or space code points outside ASCII.  A loop over runes is
  a loop over bytes, which classifies every byte of a multi-byte rune alike.

  The theory also opens the collections that the component theories fill:
  \<open>go_str\<close> for equations about strings and \<open>io_rules\<close> for the trace rules.
\<close>

named_theorems go_str \<open>equations about Go string functions\<close>
named_theorems io_rules \<open>trace rules of client operations\<close>

type_synonym bytes = "char list"

section \<open>Character classes\<close>

abbreviation ch :: "char \<Rightarrow> nat" where
  "ch c \<equiv> of_char c"

definition is_lower :: "char \<Rightarrow> bool" where
  "is_lower c \<longleftrightarrow> 97 \<le> ch c \<and> ch c \<le> 122"

definition is_upper :: "char \<Rightarrow> bool" where
  "is_upper c \<longleftrightarrow> 65 \<le> ch c \<and> ch c \<le> 90"

definition is_digit :: "char \<Rightarrow> bool" where
  "is_digit c \<longleftrightarrow> 48 \<le> ch c \<and> ch c \<le> 57"

definition is_hex_digit :: "char \<Rightarrow> bool" where
  "is_hex_digit c \<longleftrightarrow> is_digit c \<or> (97 \<le> ch c \<and> ch c \<le> 102) \<or> (65 \<le> ch c \<and> ch c \<le> 70)"

definition is_space :: "char \<Rightarrow> bool" where
  "is_space c \<longleftrightarrow> ch c = 32 \<or> (9 \<le> ch c \<and> ch c \<le> 13)"

definition lower_alnum :: "char \<Rightarrow> bool" where
  "lower_alnum c \<longleftrightarrow> is_lower c \<or> is_digit c"

definition to_lower_char :: "char \<Rightarrow> char" where
  "to_lower_char c = (if is_upper c then char_of (ch c + 32) else c)"

definition ToLower :: "string \<Rightarrow> string" where
  "ToLower = map to_lower_char"

definition EqualFold :: "string \<Rightarrow> string \<Rightarrow> bool" where
  "EqualFold a b \<longleftrightarrow> ToLower a = ToLower b"

text \<open>\<open>strings.IndexFunc(s, unicode.IsControl) >= 0\<close>: the control characters are
  0--31, 127 and, in UTF-8 as the byte pair C2 80--9F, U+0080--U+009F.\<close>

fun has_control :: "string \<Rightarrow> bool" where
  "has_control [] \<longleftrightarrow> False"
| "has_control [c] \<longleftrightarrow> ch c < 32 \<or> ch c = 127"
| "has_control (c # d # s) \<longleftrightarrow>
     ch c < 32 \<or> ch c = 127 \<or> (ch c = 194 \<and> 128 \<le> ch d \<and> ch d < 160) \<or> has_control (d # s)"

section \<open>Prefixes, trimming, searching, splitting\<close>

definition HasPrefix :: "string \<Rightarrow> string \<Rightarrow> bool" where
  "HasPrefix s p \<longleftrightarrow> take (length p) s = p"

definition TrimPrefix :: "string \<Rightarrow> string \<Rightarrow> string" where
  "TrimPrefix s p = (if HasPrefix s p then drop (length p) s else s)"

definition TrimSuffix :: "string \<Rightarrow> string \<Rightarrow> string" where
  "TrimSuffix s p = (if HasPrefix (rev s) (rev p) then take (length s - length p) s else s)"

definition TrimLeft :: "string \<Rightarrow> string \<Rightarrow> string" where
  "TrimLeft s cs = dropWhile (\<lambda>c. c \<in> set cs) s"

definition TrimRight :: "string \<Rightarrow> string \<Rightarrow> string" where
  "TrimRight s cs = rev (dropWhile (\<lambda>c. c \<in> set cs) (rev s))"

definition Trim :: "string \<Rightarrow> string \<Rightarrow> string" where
  "Trim s cs = TrimRight (TrimLeft s cs) cs"

definition TrimSpace :: "string \<Rightarrow> string" where
  "TrimSpace s = rev (dropWhile is_space (rev (dropWhile is_space s)))"

fun Contains :: "string \<Rightarrow> string \<Rightarrow> bool" where
  "Contains [] p \<longleftrightarrow> p = []"
| "Contains (c # s) p \<longleftrightarrow> HasPrefix (c # s) p \<or> Contains s p"

definition ContainsAny :: "string \<Rightarrow> string \<Rightarrow> bool" where
  "ContainsAny s cs \<longleftrightarrow> list_ex (\<lambda>c. c \<in> set cs) s"

text \<open>\<open>strings.Cut\<close> at a one-byte separator: the parts before and after the first
  occurrence, and whether it occurs.\<close>

definition Cut :: "string \<Rightarrow> char \<Rightarrow> string \<times> string \<times> bool" where
  "Cut s c = (case dropWhile (\<lambda>x. x \<noteq> c) s of
      [] \<Rightarrow> (s, [], False)
    | _ # t \<Rightarrow> (takeWhile (\<lambda>x. x \<noteq> c) s, t, True))"

fun SplitN :: "char \<Rightarrow> nat \<Rightarrow> string \<Rightarrow> string list" where
  "SplitN c 0 s = []"
| "SplitN c (Suc 0) s = [s]"
| "SplitN c (Suc (Suc n)) s =
     (case Cut s c of (a, b, found) \<Rightarrow> if found then a # SplitN c (Suc n) b else [s])"

fun split_on :: "char \<Rightarrow> string \<Rightarrow> string \<Rightarrow> string list" where
  "split_on c acc [] = [rev acc]"
| "split_on c acc (x # s) =
     (if x = c then rev acc # split_on c [] s else split_on c (x # acc) s)"

definition Split :: "string \<Rightarrow> char \<Rightarrow> string list" where
  "Split s c = split_on c [] s"

fun Join :: "string list \<Rightarrow> string \<Rightarrow> string" where
  "Join [] sep = []"
| "Join [x] sep = x"
| "Join (x # y # ys) sep = x @ sep @ Join (y # ys) sep"

text \<open>\<open>firstNonEmpty\<close> of the naming and CSI packages.\<close>

fun firstNonEmpty :: "string list \<Rightarrow> string" where
  "firstNonEmpty [] = []"
| "firstNonEmpty (v # vs) = (if v \<noteq> [] then v else firstNonEmpty vs)"

section \<open>Numbers and quoting\<close>

fun nat_digits :: "nat \<Rightarrow> string" where
  "nat_digits n = (if n < 10 then [char_of (48 + n)] else nat_digits (n div 10) @ [char_of (48 + n mod 10)])"

declare nat_digits.simps [simp del]

definition itoa :: "int \<Rightarrow> string" where
  "itoa i = (if i < 0 then ''-'' @ nat_digits (nat (- i)) else nat_digits (nat i))"

definition digits_val :: "nat \<Rightarrow> string \<Rightarrow> nat" where
  "digits_val base s = foldl (\<lambda>a c. base * a + (ch c - 48)) 0 s"

text \<open>\<open>strconv.ParseUint(s, base, bits)\<close> for bases up to ten.\<close>

definition ParseUint :: "nat \<Rightarrow> nat \<Rightarrow> string \<Rightarrow> nat option" where
  "ParseUint base bits s =
     (if s \<noteq> [] \<and> list_all (\<lambda>c. 48 \<le> ch c \<and> ch c < 48 + base) s \<and> digits_val base s < 2 ^ bits
      then Some (digits_val base s) else None)"

text \<open>\<open>strconv.ParseInt(s, 10, 64)\<close> and \<open>strconv.Atoi\<close> on a 64-bit platform.\<close>

definition ParseInt64 :: "string \<Rightarrow> int option" where
  "ParseInt64 s =
     (let neg = HasPrefix s ''-''; t = (if neg \<or> HasPrefix s ''+'' then drop 1 s else s)
      in if t \<noteq> [] \<and> list_all is_digit t
         then (let v = (if neg then - int (digits_val 10 t) else int (digits_val 10 t))
               in if - (2 ^ 63) \<le> v \<and> v < 2 ^ 63 then Some v else None)
         else None)"

definition ParseBool :: "string \<Rightarrow> bool option" where
  "ParseBool s =
     (if s \<in> set [''1'', ''t'', ''T'', ''TRUE'', ''true'', ''True''] then Some True
      else if s \<in> set [''0'', ''f'', ''F'', ''FALSE'', ''false'', ''False''] then Some False
      else None)"

definition hexd :: "nat \<Rightarrow> char" where
  "hexd n = ''0123456789abcdef'' ! n"

definition HEXD :: "nat \<Rightarrow> char" where
  "HEXD n = ''0123456789ABCDEF'' ! n"

definition unhex :: "char \<Rightarrow> nat option" where
  "unhex c = (if is_digit c then Some (ch c - 48)
              else if 97 \<le> ch c \<and> ch c \<le> 102 then Some (ch c - 87)
              else if 65 \<le> ch c \<and> ch c \<le> 70 then Some (ch c - 55) else None)"

text \<open>The \<^verbatim>\<open>%q\<close> verb, on bytes below 128; higher bytes are copied.\<close>

definition quote_char :: "char \<Rightarrow> string" where
  "quote_char c =
     (if ch c = 34 then [CHR 0x5C, CHR 0x22] else if ch c = 92 then [CHR 0x5C, CHR 0x5C]
      else if ch c = 7 then [CHR 0x5C] @ ''a'' else if ch c = 8 then [CHR 0x5C] @ ''b''
      else if ch c = 12 then [CHR 0x5C] @ ''f'' else if ch c = 10 then [CHR 0x5C] @ ''n''
      else if ch c = 13 then [CHR 0x5C] @ ''r'' else if ch c = 9 then [CHR 0x5C] @ ''t''
      else if ch c = 11 then [CHR 0x5C] @ ''v''
      else if ch c < 32 \<or> ch c = 127 then [CHR 0x5C] @ ''x'' @ [hexd (ch c div 16), hexd (ch c mod 16)]
      else [c])"

definition fmt_q :: "string \<Rightarrow> string" where
  "fmt_q s = [CHR 0x22] @ concat (map quote_char s) @ [CHR 0x22]"

section \<open>Lemmas\<close>

lemma HasPrefix_append [simp, go_str]: "HasPrefix (p @ s) p"
  by (simp add: HasPrefix_def)

lemma HasPrefix_iff: "HasPrefix s p \<longleftrightarrow> (\<exists>t. s = p @ t)"
  unfolding HasPrefix_def by (metis append_eq_conv_conj append_take_drop_id)

lemma TrimPrefix_append [simp, go_str]: "TrimPrefix (p @ s) p = s"
  by (simp add: TrimPrefix_def)

lemma Cut_here [go_str]: "c \<notin> set a \<Longrightarrow> Cut (a @ c # s) c = (a, s, True)"
  by (induction a) (auto simp: Cut_def split: list.splits)

lemma Cut_none [go_str]: "c \<notin> set s \<Longrightarrow> Cut s c = (s, [], False)"
proof -
  assume "c \<notin> set s"
  then have d: "dropWhile (\<lambda>x. x \<noteq> c) s = []"
    by (subst dropWhile_eq_Nil_conv) blast
  show ?thesis unfolding Cut_def d by simp
qed

lemma Cut_True:
  assumes "Cut s c = (a, b, True)" shows "s = a @ c # b \<and> c \<notin> set a"
proof -
  from assms obtain x where d: "dropWhile (\<lambda>x. x \<noteq> c) s = x # b"
    and a: "a = takeWhile (\<lambda>x. x \<noteq> c) s"
    by (auto simp: Cut_def split: list.splits)
  from d have "x = c" by (auto simp: dropWhile_eq_Cons_conv)
  then have "s = a @ c # b"
    using takeWhile_dropWhile_id [of "\<lambda>x. x \<noteq> c" s] d a by simp
  moreover have "c \<notin> set a" using a by (auto dest: set_takeWhileD)
  ultimately show ?thesis by simp
qed

lemma SplitN_step [go_str]:
  "c \<notin> set a \<Longrightarrow> SplitN c (Suc (Suc n)) (a @ c # s) = a # SplitN c (Suc n) s"
  by (simp add: Cut_here)

lemma SplitN_last [go_str]: "c \<notin> set a \<Longrightarrow> SplitN c (Suc n) a = [a]"
  by (cases n) (simp_all add: Cut_none)

lemma set_TrimRight: "set (TrimRight s cs) \<subseteq> set s"
  by (auto simp: TrimRight_def dest: set_dropWhileD)

lemma set_TrimLeft: "set (TrimLeft s cs) \<subseteq> set s"
  by (auto simp: TrimLeft_def dest: set_dropWhileD)

lemma set_Trim: "set (Trim s cs) \<subseteq> set s"
  unfolding Trim_def using set_TrimRight set_TrimLeft by fast

lemma last_TrimRight: "TrimRight s cs \<noteq> [] \<Longrightarrow> last (TrimRight s cs) \<notin> set cs"
  unfolding TrimRight_def last_rev using hd_dropWhile [of "\<lambda>c. c \<in> set cs" "rev s"]
  by (simp only: rev_is_Nil_conv not_False_eq_True simp_thms)

lemma hd_TrimLeft: "TrimLeft s cs \<noteq> [] \<Longrightarrow> hd (TrimLeft s cs) \<notin> set cs"
  unfolding TrimLeft_def by (metis hd_dropWhile)

lemma prefix_TrimRight: "prefix (TrimRight s cs) s"
proof -
  let ?p = "\<lambda>c. c \<in> set cs"
  have "s = rev (takeWhile ?p (rev s) @ dropWhile ?p (rev s))"
    by (simp only: takeWhile_dropWhile_id rev_rev_ident)
  also have "\<dots> = rev (dropWhile ?p (rev s)) @ rev (takeWhile ?p (rev s))"
    by (rule rev_append)
  finally have "s = rev (dropWhile ?p (rev s)) @ rev (takeWhile ?p (rev s))" .
  then show ?thesis unfolding TrimRight_def by (rule prefixI)
qed

lemma hd_TrimRight: "TrimRight s cs \<noteq> [] \<Longrightarrow> hd (TrimRight s cs) = hd s"
  using prefix_TrimRight [of s cs] unfolding prefix_def by (metis hd_append2)

lemma hd_Trim: "Trim s cs \<noteq> [] \<Longrightarrow> hd (Trim s cs) \<notin> set cs"
  unfolding Trim_def
  by (metis hd_TrimRight hd_TrimLeft prefix_TrimRight prefix_bot.extremum_uniqueI)

lemma last_Trim: "Trim s cs \<noteq> [] \<Longrightarrow> last (Trim s cs) \<notin> set cs"
  unfolding Trim_def by (rule last_TrimRight)

lemma length_TrimRight: "length (TrimRight s cs) \<le> length s"
  unfolding TrimRight_def by (metis length_dropWhile_le length_rev)

lemma TrimRight_id [go_str]: "s \<noteq> [] \<Longrightarrow> last s \<notin> set cs \<Longrightarrow> TrimRight s cs = s"
  unfolding TrimRight_def by (cases s rule: rev_cases) auto

lemma TrimLeft_id [go_str]: "s \<noteq> [] \<Longrightarrow> hd s \<notin> set cs \<Longrightarrow> TrimLeft s cs = s"
  unfolding TrimLeft_def by (cases s) auto

lemma Trim_id [go_str]:
  "s \<noteq> [] \<Longrightarrow> hd s \<notin> set cs \<Longrightarrow> last s \<notin> set cs \<Longrightarrow> Trim s cs = s"
  by (simp add: Trim_def TrimLeft_id TrimRight_id)

lemma length_ToLower [simp]: "length (ToLower s) = length s"
  by (simp add: ToLower_def)

lemma ToLower_Nil [simp]: "ToLower s = [] \<longleftrightarrow> s = []"
  by (simp add: ToLower_def)

lemma to_lower_char_lower [simp]: "lower_alnum c \<Longrightarrow> to_lower_char c = c"
  by (auto simp: to_lower_char_def lower_alnum_def is_lower_def is_upper_def is_digit_def)

lemma below_16: "list_all P [0, 1, 2, 3, 4, 5, 6, 7, 8, 9, 10, 11, 12, 13, 14, 15] \<Longrightarrow> n < 16 \<Longrightarrow> P (n::nat)"
  by (simp add: numeral_eq_Suc less_Suc_eq) blast

lemma unhex_hexd [simp]: "n < 16 \<Longrightarrow> unhex (hexd n) = Some n"
  by (erule below_16 [rotated]) (simp add: hexd_def unhex_def is_digit_def)

lemma unhex_HEXD [simp]: "n < 16 \<Longrightarrow> unhex (HEXD n) = Some n"
  by (erule below_16 [rotated]) (simp add: HEXD_def unhex_def is_digit_def)

lemma is_hex_digit_hexd: "n < 16 \<Longrightarrow> is_hex_digit (hexd n) \<and> lower_alnum (hexd n)"
  by (erule below_16 [rotated])
    (simp add: hexd_def is_hex_digit_def is_digit_def lower_alnum_def is_lower_def)

lemma HEXD_alnum: "n < 16 \<Longrightarrow> is_digit (HEXD n) \<or> is_upper (HEXD n)"
  by (erule below_16 [rotated]) (simp add: HEXD_def is_upper_def is_digit_def)

lemma char_of_nibbles: "char_of (16 * (ch c div 16) + ch c mod 16) = c"
  by simp

lemma SplitN_Join [go_str]:
  "xs \<noteq> [] \<Longrightarrow> (\<And>x. x \<in> set (butlast xs) \<Longrightarrow> c \<notin> set x) \<Longrightarrow> SplitN c (length xs) (Join xs [c]) = xs"
proof (induction xs "[c]" rule: Join.induct)
  case (3 x y ys)
  from "3.prems" have x: "c \<notin> set x" and r: "\<And>z. z \<in> set (butlast (y # ys)) \<Longrightarrow> c \<notin> set z"
    by auto
  have "SplitN c (length (x # y # ys)) (Join (x # y # ys) [c])
      = SplitN c (Suc (Suc (length ys))) (x @ c # Join (y # ys) [c])" by simp
  also have "\<dots> = x # SplitN c (length (y # ys)) (Join (y # ys) [c])"
    using SplitN_step [OF x] by simp
  also have "\<dots> = x # y # ys" using "3.hyps" r by simp
  finally show ?case .
qed simp_all

lemma Contains_char: "Contains s [c] \<longleftrightarrow> c \<in> set s"
  by (induction s) (auto simp: HasPrefix_def)

end
