(* ===== verification/Go_Encoding.thy ===== *)
theory Go_Encoding
  imports Prelude "HOL-Library.Word"
begin

text \<open>
  The encodings of Go's standard library that the identifiers and signatures rest on:
  \<^verbatim>\<open>encoding/hex\<close>, the percent encodings of \<^verbatim>\<open>net/url\<close>, unpadded URL-safe base64, SHA-256
  and HMAC-SHA-256, and \<^verbatim>\<open>path.Clean\<close> and \<^verbatim>\<open>path.Join\<close>.  The lemmas are the round trips, the lengths and
  the alphabets that the component theories use.
\<close>

section \<open>Hexadecimal\<close>

definition hex_encode :: "bytes \<Rightarrow> string" where
  "hex_encode s = concat (map (\<lambda>c. [hexd (ch c div 16), hexd (ch c mod 16)]) s)"

fun hex_decode :: "string \<Rightarrow> bytes option" where
  "hex_decode [] = Some []"
| "hex_decode [c] = None"
| "hex_decode (c # d # s) =
     (case (unhex c, unhex d, hex_decode s) of
        (Some h, Some l, Some r) \<Rightarrow> Some (char_of (16 * h + l) # r)
      | _ \<Rightarrow> None)"

lemma nibbles [simp]: "ch c div 16 < 16" "ch c mod 16 < (16::nat)"
  using nat_of_char_less_256 [of c] by (simp_all add: less_mult_imp_div_less)

lemma hex_decode_encode [simp]: "hex_decode (hex_encode s) = Some s"
  by (induction s) (simp_all add: hex_encode_def)

lemma length_hex_encode [simp]: "length (hex_encode s) = 2 * length s"
  by (induction s) (simp_all add: hex_encode_def)

lemma hex_encode_hex: "c \<in> set (hex_encode s) \<Longrightarrow> is_hex_digit c \<and> lower_alnum c"
  by (auto simp: hex_encode_def is_hex_digit_hexd)

section \<open>Percent encoding\<close>

definition unreserved :: "char \<Rightarrow> bool" where
  "unreserved c \<longleftrightarrow> is_lower c \<or> is_upper c \<or> is_digit c \<or> c \<in> set ''-_.~''"

definition pct :: "char \<Rightarrow> string" where
  "pct c = [CHR ''%'', HEXD (ch c div 16), HEXD (ch c mod 16)]"

definition QueryEscape :: "string \<Rightarrow> string" where
  "QueryEscape s =
     concat (map (\<lambda>c. if unreserved c then [c] else if c = CHR '' '' then ''+'' else pct c) s)"

definition PathEscape :: "string \<Rightarrow> string" where
  "PathEscape s =
     concat (map (\<lambda>c. if unreserved c \<or> c \<in> set ''$&+:=@'' then [c] else pct c) s)"

text \<open>\<open>url.QueryUnescape\<close>; \<open>None\<close> is its error \<open>EscapeError\<close>.\<close>

fun QueryUnescape :: "string \<Rightarrow> string option" where
  "QueryUnescape [] = Some []"
| "QueryUnescape (c # s) =
     (if c = CHR ''%'' then
        (case s of
           h # l # r \<Rightarrow>
             (case (unhex h, unhex l) of
                (Some a, Some b) \<Rightarrow> map_option ((#) (char_of (16 * a + b))) (QueryUnescape r)
              | _ \<Rightarrow> None)
         | _ \<Rightarrow> None)
      else if c = CHR ''+'' then map_option ((#) (CHR '' '')) (QueryUnescape s)
      else map_option ((#) c) (QueryUnescape s))"

lemma unreserved_not_special: "unreserved c \<Longrightarrow> c \<noteq> CHR ''%'' \<and> c \<noteq> CHR ''+'' \<and> c \<noteq> CHR '':''"
  by (auto simp: unreserved_def is_lower_def is_upper_def is_digit_def)

lemma QueryUnescape_pct [simp]: "QueryUnescape (pct c @ s) = map_option ((#) c) (QueryUnescape s)"
  by (simp add: pct_def)

lemma QueryUnescape_Escape [simp, go_str]: "QueryUnescape (QueryEscape s) = Some s"
  by (induction s) (auto simp: QueryEscape_def dest: unreserved_not_special)

lemma unreserved_HEXD: "n < 16 \<Longrightarrow> unreserved (HEXD n)"
  using HEXD_alnum by (auto simp: unreserved_def)

lemma QueryEscape_chars:
  "c \<in> set (QueryEscape s) \<Longrightarrow> unreserved c \<or> c = CHR ''+'' \<or> c = CHR ''%''"
  by (auto simp: QueryEscape_def pct_def unreserved_HEXD split: if_splits)

lemma QueryEscape_no_colon [simp, go_str]: "CHR '':'' \<notin> set (QueryEscape s)"
  using QueryEscape_chars [of "CHR '':''" s] unreserved_not_special [of "CHR '':''"] by auto

lemma QueryEscape_Nil [simp]: "QueryEscape s = [] \<longleftrightarrow> s = []"
  by (cases s) (auto simp: QueryEscape_def pct_def)

section \<open>SHA-256 and HMAC\<close>

text \<open>\<^verbatim>\<open>crypto/sha256\<close> (FIPS 180-4) on 32-bit words, and \<^verbatim>\<open>crypto/hmac\<close> over it.\<close>

type_synonym u32 = "32 word"

text \<open>The round constants in decimal.\<close>

definition sha_K :: "u32 list" where
  "sha_K =
    [1116352408, 1899447441, 3049323471, 3921009573, 961987163, 1508970993, 2453635748, 2870763221,
     3624381080, 310598401, 607225278, 1426881987, 1925078388, 2162078206, 2614888103, 3248222580,
     3835390401, 4022224774, 264347078, 604807628, 770255983, 1249150122, 1555081692, 1996064986,
     2554220882, 2821834349, 2952996808, 3210313671, 3336571891, 3584528711, 113926993, 338241895,
     666307205, 773529912, 1294757372, 1396182291, 1695183700, 1986661051, 2177026350, 2456956037,
     2730485921, 2820302411, 3259730800, 3345764771, 3516065817, 3600352804, 4094571909, 275423344,
     430227734, 506948616, 659060556, 883997877, 958139571, 1322822218, 1537002063, 1747873779,
     1955562222, 2024104815, 2227730452, 2361852424, 2428436474, 2756734187, 3204031479, 3329325298]"

definition sha_H0 :: "u32 list" where
  "sha_H0 = [0x6a09e667, 0xbb67ae85, 0x3c6ef372, 0xa54ff53a, 0x510e527f, 0x9b05688c, 0x1f83d9ab, 0x5be0cd19]"

unbundle bit_operations_syntax

definition ror :: "nat \<Rightarrow> u32 \<Rightarrow> u32" where
  "ror n w = drop_bit n w OR push_bit (32 - n) w"

definition sha_ssig0 :: "u32 \<Rightarrow> u32" where
  "sha_ssig0 x = ror 7 x XOR ror 18 x XOR drop_bit 3 x"

definition sha_ssig1 :: "u32 \<Rightarrow> u32" where
  "sha_ssig1 x = ror 17 x XOR ror 19 x XOR drop_bit 10 x"

definition sha_bsig0 :: "u32 \<Rightarrow> u32" where
  "sha_bsig0 x = ror 2 x XOR ror 13 x XOR ror 22 x"

definition sha_bsig1 :: "u32 \<Rightarrow> u32" where
  "sha_bsig1 x = ror 6 x XOR ror 11 x XOR ror 25 x"

definition sha_ch :: "u32 \<Rightarrow> u32 \<Rightarrow> u32 \<Rightarrow> u32" where
  "sha_ch x y z = (x AND y) XOR (NOT x AND z)"

definition sha_maj :: "u32 \<Rightarrow> u32 \<Rightarrow> u32 \<Rightarrow> u32" where
  "sha_maj x y z = (x AND y) XOR (x AND z) XOR (y AND z)"

text \<open>The message schedule, newest word first: sixteen words of the block, then \<open>n\<close> more.\<close>

fun sha_extend :: "nat \<Rightarrow> u32 list \<Rightarrow> u32 list" where
  "sha_extend 0 ws = ws"
| "sha_extend (Suc n) ws =
     sha_extend n ((sha_ssig1 (ws ! 1) + ws ! 6 + sha_ssig0 (ws ! 14) + ws ! 15) # ws)"

fun sha_rounds :: "(u32 \<times> u32) list \<Rightarrow> u32 list \<Rightarrow> u32 list" where
  "sha_rounds ((k, w) # kws) [a, b, c, d, e, f, g, h] =
     (let t1 = h + sha_bsig1 e + sha_ch e f g + k + w;
          t2 = sha_bsig0 a + sha_maj a b c
      in sha_rounds kws [t1 + t2, a, b, c, d + t1, e, f, g])"
| "sha_rounds _ hs = hs"

fun be_words :: "bytes \<Rightarrow> u32 list" where
  "be_words (a # b # c # d # s) =
     (((of_char a * 256 + of_char b) * 256 + of_char c) * 256 + of_char d) # be_words s"
| "be_words _ = []"

definition be_bytes :: "nat \<Rightarrow> int \<Rightarrow> bytes" where
  "be_bytes k n = map (\<lambda>i. char_of (n div 256 ^ i mod 256)) (rev [0..<k])"

definition sha_block :: "u32 list \<Rightarrow> bytes \<Rightarrow> u32 list" where
  "sha_block hs blk =
     map2 (+) hs (sha_rounds (zip sha_K (rev (sha_extend 48 (rev (be_words blk))))) hs)"

fun chunks :: "nat \<Rightarrow> nat \<Rightarrow> bytes \<Rightarrow> bytes list" where
  "chunks k 0 s = []"
| "chunks k (Suc n) s = take k s # chunks k n (drop k s)"

definition sha_pad :: "bytes \<Rightarrow> bytes" where
  "sha_pad s = s @ [CHR 0x80] @ replicate ((119 - length s mod 64) mod 64) (CHR 0x00) @ be_bytes 8 (8 * int (length s))"

definition sha256 :: "bytes \<Rightarrow> bytes" where
  "sha256 s =
     (let p = sha_pad s
      in concat (map (\<lambda>w. be_bytes 4 (uint w)) (foldl sha_block sha_H0 (chunks 64 (length p div 64) p))))"

definition char_xor :: "int \<Rightarrow> char \<Rightarrow> char" where
  "char_xor k c = char_of (of_char c XOR k)"

definition hmac_sha256 :: "bytes \<Rightarrow> bytes \<Rightarrow> bytes" where
  "hmac_sha256 key msg =
     (let k0 = (if length key > 64 then sha256 key else key);
          k = k0 @ replicate (64 - length k0) (CHR 0x00)
      in sha256 (map (char_xor 0x5c) k @ sha256 (map (char_xor 0x36) k @ msg)))"

lemma length_sha_rounds: "length hs = 8 \<Longrightarrow> length (sha_rounds kws hs) = 8"
  by (induction kws hs rule: sha_rounds.induct) (simp_all add: Let_def)

lemma length_sha_block: "length hs = 8 \<Longrightarrow> length (sha_block hs b) = 8"
  by (simp add: sha_block_def length_sha_rounds)

lemma length_sha_blocks: "length hs = 8 \<Longrightarrow> length (foldl sha_block hs bs) = 8"
  by (induction bs arbitrary: hs) (simp_all add: length_sha_block)

lemma length_sha256 [simp]: "length (sha256 s) = 32"
proof -
  have "length (concat (map (\<lambda>w::u32. be_bytes 4 (uint w)) ws)) = 4 * length ws" for ws
    by (induction ws) (simp_all add: be_bytes_def)
  moreover have "length (foldl sha_block sha_H0 bs) = 8" for bs
    by (rule length_sha_blocks) (simp add: sha_H0_def)
  ultimately show ?thesis by (simp add: sha256_def Let_def)
qed

section \<open>Unpadded URL-safe base64\<close>

definition b64d :: "nat \<Rightarrow> char" where
  "b64d n = (if n < 26 then char_of (n + 65) else if n < 52 then char_of (n + 71)
             else if n < 62 then char_of (n - 4) else if n = 62 then CHR ''-'' else CHR ''_'')"

definition b64v :: "char \<Rightarrow> nat option" where
  "b64v c = (if is_upper c then Some (ch c - 65) else if is_lower c then Some (ch c - 71)
             else if is_digit c then Some (ch c + 4) else if c = CHR ''-'' then Some 62
             else if c = CHR ''_'' then Some 63 else None)"

fun b64_encode :: "bytes \<Rightarrow> string" where
  "b64_encode [] = []"
| "b64_encode [a] = [b64d (ch a div 4), b64d (ch a mod 4 * 16)]"
| "b64_encode [a, b] = [b64d (ch a div 4), b64d (ch a mod 4 * 16 + ch b div 16), b64d (ch b mod 16 * 4)]"
| "b64_encode (a # b # c # s) =
     b64d (ch a div 4) # b64d (ch a mod 4 * 16 + ch b div 16)
     # b64d (ch b mod 16 * 4 + ch c div 64) # b64d (ch c mod 64) # b64_encode s"

text \<open>Trailing bits are not checked: \<open>RawURLEncoding\<close> is not in strict mode.  Go also skips CR and LF
  bytes in its input; here they are an error.\<close>

fun b64_decode :: "string \<Rightarrow> bytes option" where
  "b64_decode [] = Some []"
| "b64_decode [a] = None"
| "b64_decode [a, b] =
     (case (b64v a, b64v b) of (Some w, Some x) \<Rightarrow> Some [char_of (w * 4 + x div 16)] | _ \<Rightarrow> None)"
| "b64_decode [a, b, c] =
     (case (b64v a, b64v b, b64v c) of
        (Some w, Some x, Some y) \<Rightarrow> Some [char_of (w * 4 + x div 16), char_of (x mod 16 * 16 + y div 4)]
      | _ \<Rightarrow> None)"
| "b64_decode (a # b # c # d # s) =
     (case (b64v a, b64v b, b64v c, b64v d, b64_decode s) of
        (Some w, Some x, Some y, Some z, Some r) \<Rightarrow>
          Some (char_of (w * 4 + x div 16) # char_of (x mod 16 * 16 + y div 4) # char_of (y mod 4 * 64 + z) # r)
      | _ \<Rightarrow> None)"

lemma b64v_b64d [simp]: "n < 64 \<Longrightarrow> b64v (b64d n) = Some n"
  by (auto simp: b64d_def b64v_def is_upper_def is_lower_def is_digit_def)

lemma b64d_no_dot [simp]: "b64d n \<noteq> CHR ''.''"
proof
  assume "b64d n = CHR ''.''"
  then have "ch (b64d n) = 46" by simp
  then show False by (auto simp: b64d_def split: if_splits)
qed

lemma b64_bounds [simp]:
  "ch a div 4 < 64" "ch a mod 4 * 16 + ch b div 16 < 64" "ch a mod 4 * 16 < 64"
  "ch b mod 16 * 4 + ch c div 64 < 64" "ch b mod 16 * 4 < 64" "ch c mod 64 < 64"
  using nat_of_char_less_256 [of a] nat_of_char_less_256 [of b] nat_of_char_less_256 [of c] by linarith+

lemma b64_quarter [simp]: "ch c div 64 div 4 = 0" "ch c div 64 mod 4 = ch c div 64"
proof -
  have "ch c div 64 < 4" using nat_of_char_less_256 [of c] by linarith
  then show "ch c div 64 div 4 = 0" "ch c div 64 mod 4 = ch c div 64" by simp_all
qed

lemma b64_decode_encode [simp]: "b64_decode (b64_encode s) = Some s"
  by (induction s rule: b64_encode.induct) simp_all

lemma b64_encode_no_dot: "CHR ''.'' \<notin> set (b64_encode s)"
  by (induction s rule: b64_encode.induct) (auto simp: b64d_no_dot [symmetric])

end
