(* ===== verification/Json.thy ===== *)
theory Json
  imports Prelude "HOL-Library.Monad_Syntax"
begin

text \<open>
  JSON values and the way \<^verbatim>\<open>encoding/json\<close> fills a Go struct from an object: a missing key or a
  null leaves the zero value, keys match up to ASCII case, the last matching key wins, and a value of the wrong
  type is an error.  A decoder is a function \<open>json \<Rightarrow> 'a option\<close> with \<open>None\<close> for that error.
  Numbers are integers; insignificant white space is not represented.
\<close>

datatype json =
    JNull
  | JBool bool
  | JNum int
  | JStr string
  | JArr "json list"
  | JObj "(string \<times> json) list"

fun jfind :: "string \<Rightarrow> (string \<times> json) list \<Rightarrow> json option" where
  "jfind k [] = None"
| "jfind k ((k', v) # kvs) =
     (case jfind k kvs of
        Some x \<Rightarrow> Some x
      | None \<Rightarrow> if EqualFold k k' \<and> v \<noteq> JNull then Some v else None)"

text \<open>A field of type \<^verbatim>\<open>json.RawMessage\<close> or \<^verbatim>\<open>any\<close>: the last value under the key, a null included.\<close>

fun get_raw :: "string \<Rightarrow> (string \<times> json) list \<Rightarrow> json option" where
  "get_raw k [] = None"
| "get_raw k ((k', v) # kvs) =
     (case get_raw k kvs of Some x \<Rightarrow> Some x | None \<Rightarrow> if EqualFold k k' then Some v else None)"

definition get_str :: "string \<Rightarrow> (string \<times> json) list \<Rightarrow> string option" where
  "get_str k kvs = (case jfind k kvs of None \<Rightarrow> Some [] | Some (JStr s) \<Rightarrow> Some s | _ \<Rightarrow> None)"

definition get_bool :: "string \<Rightarrow> (string \<times> json) list \<Rightarrow> bool option" where
  "get_bool k kvs = (case jfind k kvs of None \<Rightarrow> Some False | Some (JBool b) \<Rightarrow> Some b | _ \<Rightarrow> None)"

definition get_int :: "string \<Rightarrow> (string \<times> json) list \<Rightarrow> int option" where
  "get_int k kvs =
     (case jfind k kvs of
        None \<Rightarrow> Some 0
      | Some (JNum i) \<Rightarrow> if - (2 ^ 63) \<le> i \<and> i < 2 ^ 63 then Some i else None
      | _ \<Rightarrow> None)"

text \<open>A pointer to a string: \<open>None\<close> inside is nil.\<close>

definition get_str_ptr :: "string \<Rightarrow> (string \<times> json) list \<Rightarrow> string option option" where
  "get_str_ptr k kvs =
     (case jfind k kvs of None \<Rightarrow> Some None | Some (JStr s) \<Rightarrow> Some (Some s) | _ \<Rightarrow> None)"

definition get_int_ptr :: "string \<Rightarrow> (string \<times> json) list \<Rightarrow> int option option" where
  "get_int_ptr k kvs =
     (case jfind k kvs of
        None \<Rightarrow> Some None
      | Some (JNum i) \<Rightarrow> if - (2 ^ 63) \<le> i \<and> i < 2 ^ 63 then Some (Some i) else None
      | _ \<Rightarrow> None)"

fun decode_all :: "(json \<Rightarrow> 'a option) \<Rightarrow> json list \<Rightarrow> 'a list option" where
  "decode_all d [] = Some []"
| "decode_all d (j # js) =
     (case (d j, decode_all d js) of (Some x, Some xs) \<Rightarrow> Some (x # xs) | _ \<Rightarrow> None)"

text \<open>A slice: nil and empty slices are both \<open>[]\<close>.\<close>

definition get_list :: "(json \<Rightarrow> 'a option) \<Rightarrow> string \<Rightarrow> (string \<times> json) list \<Rightarrow> 'a list option" where
  "get_list d k kvs =
     (case jfind k kvs of None \<Rightarrow> Some [] | Some (JArr js) \<Rightarrow> decode_all d js | _ \<Rightarrow> None)"

text \<open>A slice whose nil matters: \<open>None\<close> inside is nil.\<close>

definition get_slice :: "(json \<Rightarrow> 'a option) \<Rightarrow> string \<Rightarrow> (string \<times> json) list \<Rightarrow> 'a list option option" where
  "get_slice d k kvs =
     (case jfind k kvs of None \<Rightarrow> Some None | Some (JArr js) \<Rightarrow> map_option Some (decode_all d js) | _ \<Rightarrow> None)"

definition get_obj :: "(json \<Rightarrow> 'a option) \<Rightarrow> string \<Rightarrow> (string \<times> json) list \<Rightarrow> 'a option" where
  "get_obj d k kvs = (case jfind k kvs of None \<Rightarrow> d JNull | Some j \<Rightarrow> d j)"

text \<open>The fields of an object; null leaves a struct at its zero value.\<close>

fun obj_fields :: "json \<Rightarrow> (string \<times> json) list option" where
  "obj_fields (JObj kvs) = Some kvs"
| "obj_fields JNull = Some []"
| "obj_fields _ = None"

fun json_str :: "json \<Rightarrow> string option" where
  "json_str (JStr s) = Some s"
| "json_str JNull = Some []"
| "json_str _ = None"

definition str_list :: "string list \<Rightarrow> json" where
  "str_list xs = JArr (map JStr xs)"

text \<open>Fields with \<open>omitempty\<close>.\<close>

definition opt_str :: "string \<Rightarrow> string \<Rightarrow> (string \<times> json) list" where
  "opt_str k v = (if v = [] then [] else [(k, JStr v)])"

definition opt_bool :: "string \<Rightarrow> bool option \<Rightarrow> (string \<times> json) list" where
  "opt_bool k v = (case v of None \<Rightarrow> [] | Some b \<Rightarrow> [(k, JBool b)])"

lemma decode_all_length: "decode_all d js = Some xs \<Longrightarrow> length xs = length js"
  by (induction js arbitrary: xs) (auto split: option.splits)

lemma decode_all_map [simp]: "(\<And>x. x \<in> set xs \<Longrightarrow> d (e x) = Some x) \<Longrightarrow> decode_all d (map e xs) = Some xs"
  by (induction xs) auto

end
