(* ===== verification/Go_Error.thy ===== *)
theory Go_Error
  imports Json
begin

text \<open>
  Go errors as values, and \<^verbatim>\<open>internal/qumulo/errors.go\<close>: the error envelope of the Qumulo REST API and
  its classification.  An error is a text, a context error, one of the packages' sentinels, an API error, a
  gRPC status, or a wrapping of another error (\<open>fmt.Errorf\<close> with one \<open>%w\<close>) between two texts; \<open>EDiverged\<close> marks a loop that
  ran out of the fuel of the model and is no error of the code;
  \<open>errors.As\<close> and \<open>errors.Is\<close> follow the wrapping.  An operation that can fail returns \<open>go_error + 'a\<close>.
\<close>

datatype code =
    OK | Canceled | Unknown | InvalidArgument | DeadlineExceeded | NotFound | AlreadyExists
  | PermissionDenied | FailedPrecondition | Aborted | OutOfRange | Unimplemented | Internal
  | Unavailable | Unauthenticated

datatype ctx_err = CtxCanceled | CtxDeadlineExceeded

datatype sentinel =
    ErrPolicyUnchanged | ErrResourceClaimConflict
  | errVolumeConflict | errVolumeNotFound | errVolumeIdentityChanged | errVolumeResourceMissing

record api_error =
  ae_StatusCode :: int
  ae_Description :: string
  ae_Module :: string
  ae_ErrorClass :: string
  ae_UserVisible :: bool

datatype go_error =
    EMsg string
  | ECtx ctx_err
  | ESentinel sentinel
  | EApi api_error
  | EStatus code string
  | EWrap string go_error string
  | EDiverged

type_synonym 'a res = "go_error + 'a"

section \<open>Error classes\<close>

definition ErrClassFSEntryExists :: string where "ErrClassFSEntryExists = ''fs_entry_exists_error''"
definition ErrClassFSNoSuchEntry :: string where "ErrClassFSNoSuchEntry = ''fs_no_such_entry_error''"
definition ErrClassFSNotEmpty :: string where "ErrClassFSNotEmpty = ''fs_not_empty_error''"
definition ErrClassS3BucketExists :: string where "ErrClassS3BucketExists = ''s3_bucket_already_exists_error''"
definition ErrClassS3BucketNotFound :: string where "ErrClassS3BucketNotFound = ''s3_bucket_not_found_error''"
definition ErrClassS3UploadsInProgress :: string where "ErrClassS3UploadsInProgress = ''s3_uploads_in_progress_error''"
definition ErrClassAuthNoSuchUser :: string where "ErrClassAuthNoSuchUser = ''auth_no_such_user_error''"
definition ErrClassAuthUserExists :: string where "ErrClassAuthUserExists = ''auth_user_already_exists_error''"
definition ErrClassAuthInvalidCreds :: string where "ErrClassAuthInvalidCreds = ''auth_invalid_credentials_error''"
definition ErrClassAuthNotAuthorized :: string where "ErrClassAuthNotAuthorized = ''auth_not_authorized_error''"
definition ErrClassRESTNotFound :: string where "ErrClassRESTNotFound = ''rest_not_found_error''"
definition ErrClassRESTInvalidRequest :: string where "ErrClassRESTInvalidRequest = ''rest_invalid_request_error''"
definition ErrClassRESTPrecondition :: string where "ErrClassRESTPrecondition = ''rest_precondition_failed_error''"
definition ErrClassQuotaExists :: string where "ErrClassQuotaExists = ''fs_quota_already_exists_error''"

lemmas err_class_defs =
  ErrClassFSEntryExists_def ErrClassFSNoSuchEntry_def ErrClassFSNotEmpty_def ErrClassS3BucketExists_def
  ErrClassS3BucketNotFound_def ErrClassS3UploadsInProgress_def ErrClassAuthNoSuchUser_def
  ErrClassAuthUserExists_def ErrClassAuthInvalidCreds_def ErrClassAuthNotAuthorized_def
  ErrClassRESTNotFound_def ErrClassRESTInvalidRequest_def ErrClassRESTPrecondition_def ErrClassQuotaExists_def

section \<open>Classification\<close>

definition api_Error :: "api_error \<Rightarrow> string" where
  "api_Error e =
     (let cls = (if ae_ErrorClass e = [] then ''unknown'' else ae_ErrorClass e)
      in if ae_Description e \<noteq> []
         then ''qumulo '' @ cls @ '' ('' @ itoa (ae_StatusCode e) @ ''): '' @ ae_Description e
         else ''qumulo '' @ cls @ '' ('' @ itoa (ae_StatusCode e) @ '')'')"

definition IsClass :: "api_error \<Rightarrow> string \<Rightarrow> bool" where
  "IsClass e cls \<longleftrightarrow> ae_ErrorClass e = cls"

definition IsNotFound :: "api_error \<Rightarrow> bool" where
  "IsNotFound e \<longleftrightarrow> ae_StatusCode e = 404 \<or>
     ae_ErrorClass e \<in> set [ErrClassFSNoSuchEntry, ErrClassS3BucketNotFound, ErrClassAuthNoSuchUser, ErrClassRESTNotFound]"

definition IsNotEmpty :: "api_error \<Rightarrow> bool" where
  "IsNotEmpty e \<longleftrightarrow>
     ae_ErrorClass e = ErrClassFSNotEmpty \<or> ae_ErrorClass e = ErrClassS3UploadsInProgress \<or>
     (let d = ToLower (ae_Description e) in Contains d ''bucketnotempty'' \<or> Contains d ''not empty'')"

definition IsAlreadyExists :: "api_error \<Rightarrow> bool" where
  "IsAlreadyExists e \<longleftrightarrow> \<not> IsNotEmpty e \<and>
     (ae_ErrorClass e \<in> set [ErrClassFSEntryExists, ErrClassS3BucketExists, ErrClassAuthUserExists, ErrClassQuotaExists]
      \<or> ae_StatusCode e = 409)"

definition IsAuth :: "api_error \<Rightarrow> bool" where
  "IsAuth e \<longleftrightarrow> ae_StatusCode e = 401 \<or> ae_StatusCode e = 403 \<or>
     ae_ErrorClass e \<in> set [ErrClassAuthInvalidCreds, ErrClassAuthNotAuthorized]"

fun AsAPIError :: "go_error \<Rightarrow> api_error option" where
  "AsAPIError (EApi a) = Some a"
| "AsAPIError (EWrap pre e post) = AsAPIError e"
| "AsAPIError _ = None"

fun Is_ctx :: "go_error \<Rightarrow> ctx_err \<Rightarrow> bool" where
  "Is_ctx (ECtx c) c' = (c = c')"
| "Is_ctx (EWrap pre e post) c' = Is_ctx e c'"
| "Is_ctx _ c' = False"

fun Is_sentinel :: "go_error \<Rightarrow> sentinel \<Rightarrow> bool" where
  "Is_sentinel (ESentinel s) s' = (s = s')"
| "Is_sentinel (EWrap pre e post) s' = Is_sentinel e s'"
| "Is_sentinel _ s' = False"

text \<open>\<open>status.FromError\<close>: the gRPC status an error carries, if any.\<close>

fun FromError :: "go_error \<Rightarrow> code option" where
  "FromError (EStatus c m) = Some c"
| "FromError (EWrap pre e post) = FromError e"
| "FromError _ = None"

fun code_text :: "code \<Rightarrow> string" where
  "code_text OK = ''OK''" | "code_text Canceled = ''Canceled''" | "code_text Unknown = ''Unknown''"
| "code_text InvalidArgument = ''InvalidArgument''" | "code_text DeadlineExceeded = ''DeadlineExceeded''"
| "code_text NotFound = ''NotFound''" | "code_text AlreadyExists = ''AlreadyExists''"
| "code_text PermissionDenied = ''PermissionDenied''" | "code_text FailedPrecondition = ''FailedPrecondition''"
| "code_text Aborted = ''Aborted''" | "code_text OutOfRange = ''OutOfRange''"
| "code_text Unimplemented = ''Unimplemented''" | "code_text Internal = ''Internal''"
| "code_text Unavailable = ''Unavailable''" | "code_text Unauthenticated = ''Unauthenticated''"

fun sentinel_text :: "sentinel \<Rightarrow> string" where
  "sentinel_text ErrPolicyUnchanged = ''bucket policy unchanged''"
| "sentinel_text ErrResourceClaimConflict = ''protocol resource is claimed by a different specification''"
| "sentinel_text errVolumeConflict = ''volume name is already in use with different parameters''"
| "sentinel_text errVolumeNotFound = ''volume no longer exists''"
| "sentinel_text errVolumeIdentityChanged = ''volume resource identity changed''"
| "sentinel_text errVolumeResourceMissing = ''volume resource is missing before deletion was claimed''"

text \<open>\<open>err.Error()\<close>.\<close>

fun error_text :: "go_error \<Rightarrow> string" where
  "error_text (EMsg m) = m"
| "error_text (ECtx CtxCanceled) = ''context canceled''"
| "error_text (ECtx CtxDeadlineExceeded) = ''context deadline exceeded''"
| "error_text (ESentinel s) = sentinel_text s"
| "error_text (EApi a) = api_Error a"
| "error_text (EStatus c m) = ''rpc error: code = '' @ code_text c @ '' desc = '' @ m"
| "error_text (EWrap pre e post) = pre @ error_text e @ post"
| "error_text EDiverged = []"

definition isAPINotFound :: "go_error \<Rightarrow> bool" where
  "isAPINotFound err \<longleftrightarrow> (case AsAPIError err of Some a \<Rightarrow> IsNotFound a | None \<Rightarrow> False)"

definition isAPIAlreadyExists :: "go_error \<Rightarrow> bool" where
  "isAPIAlreadyExists err \<longleftrightarrow> (case AsAPIError err of Some a \<Rightarrow> IsAlreadyExists a | None \<Rightarrow> False)"

definition isAPIPreconditionFailed :: "go_error \<Rightarrow> bool" where
  "isAPIPreconditionFailed err \<longleftrightarrow>
     (case AsAPIError err of
        Some a \<Rightarrow> ae_StatusCode a = 412 \<or> IsClass a ErrClassRESTPrecondition
      | None \<Rightarrow> False)"

definition isAmbiguousCreateError :: "go_error \<Rightarrow> bool" where
  "isAmbiguousCreateError err \<longleftrightarrow>
     (if Is_ctx err CtxCanceled \<or> Is_ctx err CtxDeadlineExceeded then False
      else case AsAPIError err of Some a \<Rightarrow> ae_StatusCode a \<ge> 500 | None \<Rightarrow> True)"

section \<open>Parsing the error envelope\<close>

text \<open>
  \<open>json.Unmarshal\<close> into the envelope: a field of the wrong type makes the call fail but leaves the
  other fields filled, and a body that is not an object or null fills nothing.  The first component tells whether
  it failed.
\<close>

definition unmarshal_api_error :: "json option \<Rightarrow> api_error \<Rightarrow> bool \<times> api_error" where
  "unmarshal_api_error j a =
     (case j of
        None \<Rightarrow> (True, a)
      | Some v \<Rightarrow>
        (case obj_fields v of
           None \<Rightarrow> (True, a)
         | Some kvs \<Rightarrow>
           (let d = get_str ''description'' kvs; m = get_str ''module'' kvs;
                c = get_str ''error_class'' kvs; u = get_bool ''user_visible'' kvs
            in (d = None \<or> m = None \<or> c = None \<or> u = None,
                a\<lparr>ae_Description := (case d of Some x \<Rightarrow> x | None \<Rightarrow> []),
                  ae_Module := (case m of Some x \<Rightarrow> x | None \<Rightarrow> []),
                  ae_ErrorClass := (case c of Some x \<Rightarrow> x | None \<Rightarrow> []),
                  ae_UserVisible := (case u of Some x \<Rightarrow> x | None \<Rightarrow> False)\<rparr>))))"

definition default_error_class :: "int \<Rightarrow> string" where
  "default_error_class status =
     (if status = 404 then ErrClassRESTNotFound
      else if status = 401 \<or> status = 403 then ErrClassAuthNotAuthorized
      else if status = 409 then ErrClassFSEntryExists
      else if status = 412 then ErrClassRESTPrecondition
      else if status = 400 then ErrClassRESTInvalidRequest
      else [])"

definition parseAPIError :: "int \<Rightarrow> string \<Rightarrow> json option \<Rightarrow> api_error" where
  "parseAPIError status raw j =
     (let api = \<lparr>ae_StatusCode = status, ae_Description = [], ae_Module = [], ae_ErrorClass = [], ae_UserVisible = False\<rparr>;
          api = (if raw = [] then api
                 else case unmarshal_api_error j api of
                        (failed, a) \<Rightarrow> if failed then a\<lparr>ae_Description := TrimSpace raw\<rparr> else a)
      in if ae_ErrorClass api = [] then api\<lparr>ae_ErrorClass := default_error_class status\<rparr> else api)"

section \<open>Lemmas\<close>

lemma unmarshal_status [simp]: "ae_StatusCode (snd (unmarshal_api_error j a)) = ae_StatusCode a"
  by (simp add: unmarshal_api_error_def Let_def split: option.splits)

lemma parseAPIError_status [simp]: "ae_StatusCode (parseAPIError st raw j) = st"
proof -
  have "ae_StatusCode (case unmarshal_api_error j a of
      (failed, b) \<Rightarrow> if failed then b\<lparr>ae_Description := d\<rparr> else b) = ae_StatusCode a" for a d
    using unmarshal_status [of j a] by (cases "unmarshal_api_error j a") auto
  then show ?thesis by (simp add: parseAPIError_def Let_def)
qed

lemma if_Inl_Inr: "(if b then Inl e else m) = Inr y \<longleftrightarrow> \<not> b \<and> m = Inr y"
  by simp

lemma IsNotFound_404: "ae_StatusCode a = 404 \<Longrightarrow> IsNotFound a"
  by (simp add: IsNotFound_def)

end
