(* ===== verification/Naming.thy ===== *)
theory Naming
  imports Go_Encoding Go_Error
begin

text \<open>
  \<^verbatim>\<open>internal/naming/naming.go\<close>: the versioned opaque bucket and account identifiers, bucket names, local
  user names, filesystem roots and endpoint addresses of the COSI driver.  The identifiers are shown to
  survive a print and parse, the derived names to be legal for every input and the user names to be recognised
  as the driver's own.
\<close>

section \<open>Constants\<close>

definition IDVersion :: string where "IDVersion = ''q1''"
definition BucketIDVersion :: string where "BucketIDVersion = ''q2''"
definition ManagedBucketIDVersion :: string where "ManagedBucketIDVersion = ''q3''"
definition AccountIDAuthVersion :: string where "AccountIDAuthVersion = ''q2''"
definition AccountIDVersion :: string where "AccountIDVersion = ''q3''"
definition DefaultRESTPort :: string where "DefaultRESTPort = ''8000''"
definition DefaultS3Port :: string where "DefaultS3Port = ''9000''"
definition DefaultRegion :: string where "DefaultRegion = ''us-east-1''"
definition minBucketLen :: nat where "minBucketLen = 3"
definition maxBucketLen :: nat where "maxBucketLen = 63"
definition userPrefix :: string where "userPrefix = ''cosi-''"
definition userHashLen :: nat where "userHashLen = 32"
definition legacyUserHashLen :: nat where "legacyUserHashLen = 12"
definition nameHashLen :: nat where "nameHashLen = 32"

lemmas naming_consts =
  IDVersion_def BucketIDVersion_def ManagedBucketIDVersion_def AccountIDAuthVersion_def AccountIDVersion_def
  minBucketLen_def maxBucketLen_def userPrefix_def userHashLen_def legacyUserHashLen_def nameHashLen_def

section \<open>Bucket identifiers\<close>

record BucketID =
  bid_Endpoint :: string
  bid_RESTPort :: string
  bid_BucketName :: string
  bid_RootPath :: string
  bid_RootFileID :: string
  bid_Managed :: bool

definition BucketID_String :: "BucketID \<Rightarrow> string" where
  "BucketID_String b =
     (if bid_RootPath b \<noteq> [] \<and> bid_RootFileID b \<noteq> [] then
        if bid_Managed b then
          ManagedBucketIDVersion @ '':qumulo:'' @ QueryEscape (bid_Endpoint b) @ '':'' @ bid_RESTPort b @ '':''
            @ QueryEscape (bid_BucketName b) @ '':'' @ QueryEscape (bid_RootPath b) @ '':''
            @ QueryEscape (bid_RootFileID b) @ '':managed''
        else
          BucketIDVersion @ '':qumulo:'' @ QueryEscape (bid_Endpoint b) @ '':'' @ bid_RESTPort b @ '':''
            @ QueryEscape (bid_BucketName b) @ '':'' @ QueryEscape (bid_RootPath b) @ '':''
            @ QueryEscape (bid_RootFileID b)
      else
        IDVersion @ '':qumulo:'' @ QueryEscape (bid_Endpoint b) @ '':'' @ bid_RESTPort b @ '':'' @ bid_BucketName b)"

text \<open>The decoding of the fields 2--6 that the \<^verbatim>\<open>q3\<close> and the \<^verbatim>\<open>q2\<close> branches of \<open>ParseBucketID\<close> share word for word.\<close>

definition parse_bucket_fields :: "string \<Rightarrow> string list \<Rightarrow> bool \<Rightarrow> BucketID res" where
  "parse_bucket_fields raw parts managed =
     (if list_ex (\<lambda>i. parts ! i = []) [2, 3, 4, 5, 6] then Inl (EMsg (''invalid bucket_id '' @ fmt_q raw @ '': empty field''))
      else case QueryUnescape (parts ! 2) of
        None \<Rightarrow> Inl (EMsg ''invalid bucket_id endpoint encoding'')
      | Some ep \<Rightarrow>
     (case QueryUnescape (parts ! 4) of
        None \<Rightarrow> Inl (EMsg ''invalid bucket_id bucket-name encoding'')
      | Some name \<Rightarrow>
     (case QueryUnescape (parts ! 5) of
        None \<Rightarrow> Inl (EMsg ''invalid bucket_id root-path encoding'')
      | Some root \<Rightarrow>
     (case QueryUnescape (parts ! 6) of
        None \<Rightarrow> Inl (EMsg ''invalid bucket_id root-file-id encoding'')
      | Some fileID \<Rightarrow>
        if \<not> HasPrefix root ''/'' then Inl (EMsg (''invalid bucket_id '' @ fmt_q raw @ '': root path must be absolute''))
        else Inr \<lparr>bid_Endpoint = ep, bid_RESTPort = parts ! 3, bid_BucketName = name,
                  bid_RootPath = root, bid_RootFileID = fileID, bid_Managed = managed\<rparr>))))"

definition ParseBucketID :: "string \<Rightarrow> BucketID res" where
  "ParseBucketID raw =
     (if HasPrefix raw (ManagedBucketIDVersion @ '':qumulo:'') then
        (let parts = SplitN (CHR '':'') 8 raw
         in if length parts \<noteq> 8 \<or> parts ! 0 \<noteq> ManagedBucketIDVersion \<or> parts ! 1 \<noteq> ''qumulo'' \<or> parts ! 7 \<noteq> ''managed''
            then Inl (EMsg (''invalid bucket_id '' @ fmt_q raw))
            else parse_bucket_fields raw parts True)
      else if HasPrefix raw (BucketIDVersion @ '':qumulo:'') then
        (let parts = SplitN (CHR '':'') 7 raw
         in if length parts \<noteq> 7 \<or> parts ! 0 \<noteq> BucketIDVersion \<or> parts ! 1 \<noteq> ''qumulo''
            then Inl (EMsg (''invalid bucket_id '' @ fmt_q raw))
            else parse_bucket_fields raw parts False)
      else
        (let parts = SplitN (CHR '':'') 5 raw
         in if length parts \<noteq> 5 \<or> parts ! 0 \<noteq> IDVersion \<or> parts ! 1 \<noteq> ''qumulo''
            then Inl (EMsg (''invalid bucket_id '' @ fmt_q raw))
            else if parts ! 2 = [] \<or> parts ! 3 = [] \<or> parts ! 4 = []
            then Inl (EMsg (''invalid bucket_id '' @ fmt_q raw @ '': empty field''))
            else case QueryUnescape (parts ! 2) of
                None \<Rightarrow> Inl (EMsg ''invalid bucket_id endpoint encoding'')
              | Some ep \<Rightarrow> Inr \<lparr>bid_Endpoint = ep, bid_RESTPort = parts ! 3, bid_BucketName = parts ! 4,
                              bid_RootPath = [], bid_RootFileID = [], bid_Managed = False\<rparr>))"

section \<open>Account identifiers\<close>

record AccountID =
  aid_Endpoint :: string
  aid_Username :: string
  aid_AccessKeyPfx :: string
  aid_AuthID :: string
  aid_RestoreMode :: string

definition AccountID_String :: "AccountID \<Rightarrow> string" where
  "AccountID_String a =
     (if aid_AuthID a \<noteq> [] \<and> aid_RestoreMode a \<noteq> [] then
        AccountIDVersion @ '':qumulo:'' @ QueryEscape (aid_Endpoint a) @ '':'' @ QueryEscape (aid_Username a) @ '':''
          @ QueryEscape (aid_AccessKeyPfx a) @ '':'' @ QueryEscape (aid_AuthID a) @ '':'' @ QueryEscape (aid_RestoreMode a)
      else if aid_AuthID a \<noteq> [] then
        AccountIDAuthVersion @ '':qumulo:'' @ QueryEscape (aid_Endpoint a) @ '':'' @ QueryEscape (aid_Username a) @ '':''
          @ QueryEscape (aid_AccessKeyPfx a) @ '':'' @ QueryEscape (aid_AuthID a)
      else
        IDVersion @ '':qumulo:'' @ QueryEscape (aid_Endpoint a) @ '':'' @ aid_Username a @ '':'' @ aid_AccessKeyPfx a)"

definition validRestoreMode :: "string \<Rightarrow> bool" where
  "validRestoreMode mode \<longleftrightarrow> length mode = 4 \<and> hd mode = CHR ''0'' \<and> list_all (\<lambda>r. 48 \<le> ch r \<and> ch r \<le> 55) (tl mode)"

definition ParseAccountID :: "string \<Rightarrow> AccountID res" where
  "ParseAccountID raw =
     (if HasPrefix raw (AccountIDVersion @ '':qumulo:'') then
        (let parts = SplitN (CHR '':'') 7 raw
         in if length parts \<noteq> 7 \<or> parts ! 0 \<noteq> AccountIDVersion \<or> parts ! 1 \<noteq> ''qumulo''
            then Inl (EMsg (''invalid account_id '' @ fmt_q raw))
            else if list_ex (\<lambda>i. parts ! i = []) [2, 3, 5, 6]
            then Inl (EMsg (''invalid account_id '' @ fmt_q raw @ '': empty field''))
            else case (QueryUnescape (parts ! 2), QueryUnescape (parts ! 3), QueryUnescape (parts ! 4),
                       QueryUnescape (parts ! 5), QueryUnescape (parts ! 6)) of
                (Some ep, Some user, Some key, Some auth, Some mode) \<Rightarrow>
                  if \<not> validRestoreMode mode then Inl (EMsg (''invalid account_id restore mode '' @ fmt_q mode))
                  else Inr \<lparr>aid_Endpoint = ep, aid_Username = user, aid_AccessKeyPfx = key, aid_AuthID = auth, aid_RestoreMode = mode\<rparr>
              | _ \<Rightarrow> Inl (EMsg ''invalid account_id field encoding''))
      else if HasPrefix raw (AccountIDAuthVersion @ '':qumulo:'') then
        (let parts = SplitN (CHR '':'') 6 raw
         in if length parts \<noteq> 6 \<or> parts ! 0 \<noteq> AccountIDAuthVersion \<or> parts ! 1 \<noteq> ''qumulo''
            then Inl (EMsg (''invalid account_id '' @ fmt_q raw))
            else if list_ex (\<lambda>i. parts ! i = []) [2, 3, 5]
            then Inl (EMsg (''invalid account_id '' @ fmt_q raw @ '': empty field''))
            else case QueryUnescape (parts ! 2) of
                None \<Rightarrow> Inl (EMsg ''invalid account_id endpoint encoding'')
              | Some ep \<Rightarrow>
             (case QueryUnescape (parts ! 3) of
                None \<Rightarrow> Inl (EMsg ''invalid account_id username encoding'')
              | Some user \<Rightarrow>
             (case QueryUnescape (parts ! 4) of
                None \<Rightarrow> Inl (EMsg ''invalid account_id access-key encoding'')
              | Some key \<Rightarrow>
             (case QueryUnescape (parts ! 5) of
                None \<Rightarrow> Inl (EMsg ''invalid account_id auth-id encoding'')
              | Some auth \<Rightarrow> Inr \<lparr>aid_Endpoint = ep, aid_Username = user, aid_AccessKeyPfx = key, aid_AuthID = auth, aid_RestoreMode = []\<rparr>))))
      else
        (let parts = SplitN (CHR '':'') 5 raw
         in if length parts \<noteq> 5 \<or> parts ! 0 \<noteq> IDVersion \<or> parts ! 1 \<noteq> ''qumulo''
            then Inl (EMsg (''invalid account_id '' @ fmt_q raw))
            else if parts ! 2 = [] \<or> parts ! 3 = []
            then Inl (EMsg (''invalid account_id '' @ fmt_q raw @ '': empty field''))
            else case QueryUnescape (parts ! 2) of
                None \<Rightarrow> Inl (EMsg ''invalid account_id endpoint encoding'')
              | Some ep \<Rightarrow> Inr \<lparr>aid_Endpoint = ep, aid_Username = parts ! 3, aid_AccessKeyPfx = parts ! 4,
                              aid_AuthID = [], aid_RestoreMode = []\<rparr>))"

definition AccessKeyPrefix :: "string \<Rightarrow> string" where
  "AccessKeyPrefix k = (if length k \<le> 8 then k else take 8 k)"

section \<open>Bucket and user names\<close>

definition hashHex :: "string \<Rightarrow> nat \<Rightarrow> string" where
  "hashHex s n = (let h = hex_encode (sha256 s); n = (if n > length h then length h else n) in take n h)"

text \<open>The loop of \<open>Sanitize\<close>: \<open>b\<close> is the builder, \<open>prev\<close> is \<open>prevHyphen\<close>.\<close>

fun sanitize_loop :: "string \<Rightarrow> string \<Rightarrow> bool \<Rightarrow> string" where
  "sanitize_loop [] b prev = b"
| "sanitize_loop (r # rs) b prev =
     (if r = CHR ''.'' then sanitize_loop rs b prev
      else if lower_alnum r then sanitize_loop rs (b @ [r]) False
      else if \<not> prev \<and> b \<noteq> [] then sanitize_loop rs (b @ ''-'') True
      else sanitize_loop rs b prev)"

definition Sanitize :: "string \<Rightarrow> string" where
  "Sanitize input = Trim (sanitize_loop (ToLower input) [] False) ''-''"

text \<open>The character loop of \<open>ValidateBucketName\<close>; \<open>i\<close> is the index and \<open>n\<close> the length of the name.\<close>

fun validate_chars :: "string \<Rightarrow> nat \<Rightarrow> nat \<Rightarrow> string \<Rightarrow> unit res" where
  "validate_chars name n i [] = Inr ()"
| "validate_chars name n i (r # rs) =
     (if is_upper r then Inl (EMsg (''bucket name '' @ fmt_q name @ '' must be lowercase''))
      else if \<not> (lower_alnum r \<or> r = CHR ''-'') then Inl (EMsg (''bucket name '' @ fmt_q name @ '' contains invalid character''))
      else if (i = 0 \<or> i = n - 1) \<and> r = CHR ''-'' then Inl (EMsg (''bucket name '' @ fmt_q name @ '' must start and end with a letter or digit''))
      else validate_chars name n (Suc i) rs)"

definition ValidateBucketName :: "string \<Rightarrow> unit res" where
  "ValidateBucketName name =
     (if length name < minBucketLen \<or> length name > maxBucketLen
      then Inl (EMsg (''bucket name '' @ fmt_q name @ '' must be 3-63 characters''))
      else if Contains name ''.'' then Inl (EMsg (''bucket name '' @ fmt_q name @ '' must not contain periods''))
      else validate_chars name (length name) 0 name)"

definition BucketName :: "string \<Rightarrow> string \<Rightarrow> string res" where
  "BucketName pfx input =
     (let sanitized = Sanitize input;
          combined = pfx @ sanitized;
          changed = (sanitized \<noteq> ToLower input \<or> Contains input ''.'');
          truncated = (length combined > maxBucketLen);
          suffix = ''-'' @ hashHex input nameHashLen
      in if (changed \<or> truncated) \<and> maxBucketLen < length suffix + minBucketLen
         then Inl (EMsg (''bucket prefix '' @ fmt_q pfx @ '' leaves no room for a legal name''))
         else
          (let combined =
                 (if changed \<or> truncated
                  then TrimRight (take (maxBucketLen - length suffix) combined) ''-'' @ suffix
                  else combined);
               combined = Trim combined ''-''
           in if length combined < minBucketLen
              then Inl (EMsg (''bucket name '' @ fmt_q combined @ '' is shorter than 3 characters after sanitizing''))
              else if length combined > maxBucketLen
              then Inl (EMsg (''bucket name '' @ fmt_q combined @ '' exceeds 63 characters''))
              else case ValidateBucketName combined of Inl e \<Rightarrow> Inl e | Inr _ \<Rightarrow> Inr combined))"

definition Username :: "string \<Rightarrow> string \<Rightarrow> string" where
  "Username bucketID accessName = userPrefix @ hashHex (bucketID @ '':'' @ accessName) userHashLen"

definition IsDriverUser :: "string \<Rightarrow> bool" where
  "IsDriverUser username \<longleftrightarrow>
     HasPrefix username userPrefix \<and>
     (let rest = drop (length userPrefix) username
      in (length rest = userHashLen \<or> length rest = legacyUserHashLen) \<and> list_all is_hex_digit rest)"

definition PolicySID :: "string \<Rightarrow> string" where
  "PolicySID username = userPrefix @ username"

definition RootPath :: "string \<Rightarrow> string \<Rightarrow> string" where
  "RootPath basePath bucketName =
     (let b = TrimRight basePath ''/''; b = (if b = [] then ''/'' else b)
      in if b = ''/'' then ''/'' @ bucketName else b @ ''/'' @ bucketName)"

section \<open>Endpoint addresses\<close>

text \<open>\<open>net.SplitHostPort\<close>; \<open>None\<close> is its error.\<close>

definition SplitHostPort :: "string \<Rightarrow> (string \<times> string) option" where
  "SplitHostPort hp =
     (let rest = takeWhile (\<lambda>c. c \<noteq> CHR '':'') (rev hp); i = length hp - length rest - 1
      in if CHR '':'' \<notin> set hp then None
         else if HasPrefix hp ''['' then
           (let end = length (takeWhile (\<lambda>c. c \<noteq> CHR '']'') hp)
            in if end < length hp \<and> end + 1 = i \<and> CHR ''['' \<notin> set (drop 1 hp) \<and> CHR '']'' \<notin> set (drop (end + 1) hp)
               then Some (drop 1 (take end hp), drop (i + 1) hp) else None)
         else if CHR '':'' \<in> set (take i hp) \<or> CHR ''['' \<in> set hp \<or> CHR '']'' \<in> set hp then None
         else Some (take i hp, drop (i + 1) hp))"

definition JoinHostPort :: "string \<Rightarrow> string \<Rightarrow> string" where
  "JoinHostPort host port =
     (if CHR '':'' \<in> set host then ''['' @ host @ '']:'' @ port else host @ '':'' @ port)"

definition HostPort :: "string \<Rightarrow> string \<Rightarrow> string \<times> string" where
  "HostPort endpoint defaultPort =
     (let endpoint = TrimRight (TrimPrefix (TrimPrefix (TrimSpace endpoint) ''https://'') ''http://'') ''/''
      in case SplitHostPort endpoint of Some (host, p) \<Rightarrow> (host, p) | None \<Rightarrow> (endpoint, defaultPort))"

definition RESTBaseURL :: "string \<Rightarrow> string \<Rightarrow> string" where
  "RESTBaseURL endpoint restPort =
     (case HostPort endpoint (firstNonEmpty [restPort, DefaultRESTPort]) of
        (host, port) \<Rightarrow> ''https://'' @ JoinHostPort host (if restPort \<noteq> [] then restPort else port))"

definition S3Endpoint :: "string \<Rightarrow> string \<Rightarrow> string" where
  "S3Endpoint endpoint s3Port =
     (case HostPort endpoint DefaultRESTPort of
        (host, _) \<Rightarrow> ''https://'' @ JoinHostPort host (firstNonEmpty [s3Port, DefaultS3Port]))"

section \<open>Identifiers survive a print and a parse\<close>

text \<open>The identifiers the driver builds: no empty field, a port without a colon, and a root that is either
  recorded with its file id or not at all.\<close>

definition wf_BucketID :: "BucketID \<Rightarrow> bool" where
  "wf_BucketID b \<longleftrightarrow> bid_Endpoint b \<noteq> [] \<and> bid_RESTPort b \<noteq> [] \<and> CHR '':'' \<notin> set (bid_RESTPort b) \<and> bid_BucketName b \<noteq> [] \<and>
     (if bid_RootPath b = [] then bid_RootFileID b = [] \<and> \<not> bid_Managed b
      else bid_RootFileID b \<noteq> [] \<and> HasPrefix (bid_RootPath b) ''/'')"

definition wf_AccountID :: "AccountID \<Rightarrow> bool" where
  "wf_AccountID a \<longleftrightarrow> aid_Endpoint a \<noteq> [] \<and> aid_Username a \<noteq> [] \<and>
     (if aid_AuthID a = [] then aid_RestoreMode a = [] \<and> CHR '':'' \<notin> set (aid_Username a)
      else aid_RestoreMode a = [] \<or> validRestoreMode (aid_RestoreMode a))"

lemma BucketID_String_Join:
  "BucketID_String b =
    (if bid_RootPath b \<noteq> [] \<and> bid_RootFileID b \<noteq> [] then
       if bid_Managed b then
         Join [''q3'', ''qumulo'', QueryEscape (bid_Endpoint b), bid_RESTPort b, QueryEscape (bid_BucketName b),
               QueryEscape (bid_RootPath b), QueryEscape (bid_RootFileID b), ''managed''] '':''
       else
         Join [''q2'', ''qumulo'', QueryEscape (bid_Endpoint b), bid_RESTPort b, QueryEscape (bid_BucketName b),
               QueryEscape (bid_RootPath b), QueryEscape (bid_RootFileID b)] '':''
     else Join [''q1'', ''qumulo'', QueryEscape (bid_Endpoint b), bid_RESTPort b, bid_BucketName b] '':'')"
  by (simp add: BucketID_String_def naming_consts)

lemma AccountID_String_Join:
  "AccountID_String a =
    (if aid_AuthID a \<noteq> [] \<and> aid_RestoreMode a \<noteq> [] then
       Join [''q3'', ''qumulo'', QueryEscape (aid_Endpoint a), QueryEscape (aid_Username a), QueryEscape (aid_AccessKeyPfx a),
             QueryEscape (aid_AuthID a), QueryEscape (aid_RestoreMode a)] '':''
     else if aid_AuthID a \<noteq> [] then
       Join [''q2'', ''qumulo'', QueryEscape (aid_Endpoint a), QueryEscape (aid_Username a), QueryEscape (aid_AccessKeyPfx a),
             QueryEscape (aid_AuthID a)] '':''
     else Join [''q1'', ''qumulo'', QueryEscape (aid_Endpoint a), aid_Username a, aid_AccessKeyPfx a] '':'')"
  by (simp add: AccountID_String_def naming_consts)

text \<open>The number of parts the decoders ask for is the number of fields the printers join.\<close>

lemma SplitN_fields:
  assumes "n = length xs" "xs \<noteq> []" "\<And>x. x \<in> set (butlast xs) \<Longrightarrow> CHR '':'' \<notin> set x"
  shows "SplitN (CHR '':'') n (Join xs '':'') = xs"
  using SplitN_Join [OF assms(2,3)] assms(1) by simp

lemma HasPrefix_version:
  "HasPrefix (Join ([a, b] # ''qumulo'' # x # xs) '':'') ([c, d] @ '':qumulo:'') \<longleftrightarrow> a = c \<and> b = d"
  by (cases xs) (auto simp: HasPrefix_def)

lemma ParseBucketID_String:
  assumes "wf_BucketID b"
  shows "ParseBucketID (BucketID_String b) = Inr b"
proof (cases "bid_RootPath b = []")
  case True
  have s: "SplitN (CHR '':'') 5 (BucketID_String b)
      = [''q1'', ''qumulo'', QueryEscape (bid_Endpoint b), bid_RESTPort b, bid_BucketName b]"
    unfolding BucketID_String_Join using True assms
    by (simp only: simp_thms if_False, intro SplitN_fields) (auto simp: wf_BucketID_def)
  have "\<not> HasPrefix (BucketID_String b) (''q3'' @ '':qumulo:'')" "\<not> HasPrefix (BucketID_String b) (''q2'' @ '':qumulo:'')"
    unfolding BucketID_String_Join using True by (simp_all add: HasPrefix_version del: Join.simps append.simps)
  with s True assms show ?thesis
    by (simp add: ParseBucketID_def naming_consts wf_BucketID_def del: SplitN.simps)
next
  case False
  then have ne: "bid_RootFileID b \<noteq> []" using assms by (simp add: wf_BucketID_def)
  show ?thesis
  proof (cases "bid_Managed b")
    case True
    have s: "SplitN (CHR '':'') 8 (BucketID_String b)
        = [''q3'', ''qumulo'', QueryEscape (bid_Endpoint b), bid_RESTPort b, QueryEscape (bid_BucketName b),
           QueryEscape (bid_RootPath b), QueryEscape (bid_RootFileID b), ''managed'']"
      unfolding BucketID_String_Join using True False ne assms
      by (simp only: simp_thms if_True, intro SplitN_fields) (auto simp: wf_BucketID_def)
    have "HasPrefix (BucketID_String b) (''q3'' @ '':qumulo:'')"
      unfolding BucketID_String_Join using True False ne by (simp add: HasPrefix_version del: Join.simps append.simps)
    with s True False ne assms show ?thesis
      by (simp add: ParseBucketID_def parse_bucket_fields_def naming_consts wf_BucketID_def del: SplitN.simps)
  next
    case unmanaged: False
    have s: "SplitN (CHR '':'') 7 (BucketID_String b)
        = [''q2'', ''qumulo'', QueryEscape (bid_Endpoint b), bid_RESTPort b, QueryEscape (bid_BucketName b),
           QueryEscape (bid_RootPath b), QueryEscape (bid_RootFileID b)]"
      unfolding BucketID_String_Join using unmanaged False ne assms
      by (simp only: simp_thms if_True if_False, intro SplitN_fields) (auto simp: wf_BucketID_def)
    have "\<not> HasPrefix (BucketID_String b) (''q3'' @ '':qumulo:'')" "HasPrefix (BucketID_String b) (''q2'' @ '':qumulo:'')"
      unfolding BucketID_String_Join using unmanaged False ne
      by (simp_all add: HasPrefix_version del: Join.simps append.simps)
    with s unmanaged False ne assms show ?thesis
      by (simp add: ParseBucketID_def parse_bucket_fields_def naming_consts wf_BucketID_def del: SplitN.simps)
  qed
qed

text \<open>C27: a bucket identifier the driver builds is read back unchanged, in every version of the format, so the
  endpoint, the root path, the immutable file id and the ownership marker survive the round trip through the
  COSI sidecar.\<close>

theorem bucket_id_roundtrip:
  assumes "wf_BucketID b"
  shows "ParseBucketID (BucketID_String b) = Inr b"
  by (rule ParseBucketID_String [OF assms])

lemma ParseAccountID_String:
  assumes "wf_AccountID a"
  shows "ParseAccountID (AccountID_String a) = Inr a"
proof (cases "aid_AuthID a = []")
  case True
  have s: "SplitN (CHR '':'') 5 (AccountID_String a)
      = [''q1'', ''qumulo'', QueryEscape (aid_Endpoint a), aid_Username a, aid_AccessKeyPfx a]"
    unfolding AccountID_String_Join using True assms
    by (simp only: simp_thms if_False, intro SplitN_fields) (auto simp: wf_AccountID_def)
  have "\<not> HasPrefix (AccountID_String a) (''q3'' @ '':qumulo:'')" "\<not> HasPrefix (AccountID_String a) (''q2'' @ '':qumulo:'')"
    unfolding AccountID_String_Join using True by (simp_all add: HasPrefix_version del: Join.simps append.simps)
  with s True assms show ?thesis
    by (simp add: ParseAccountID_def naming_consts wf_AccountID_def del: SplitN.simps)
next
  case auth: False
  show ?thesis
  proof (cases "aid_RestoreMode a = []")
    case True
    have s: "SplitN (CHR '':'') 6 (AccountID_String a)
        = [''q2'', ''qumulo'', QueryEscape (aid_Endpoint a), QueryEscape (aid_Username a),
           QueryEscape (aid_AccessKeyPfx a), QueryEscape (aid_AuthID a)]"
      unfolding AccountID_String_Join using True auth assms
      by (simp only: simp_thms if_True if_False, intro SplitN_fields) (auto simp: wf_AccountID_def)
    have "\<not> HasPrefix (AccountID_String a) (''q3'' @ '':qumulo:'')" "HasPrefix (AccountID_String a) (''q2'' @ '':qumulo:'')"
      unfolding AccountID_String_Join using True auth
      by (simp_all add: HasPrefix_version del: Join.simps append.simps)
    with s True auth assms show ?thesis
      by (simp add: ParseAccountID_def naming_consts wf_AccountID_def del: SplitN.simps)
  next
    case False
    have s: "SplitN (CHR '':'') 7 (AccountID_String a)
        = [''q3'', ''qumulo'', QueryEscape (aid_Endpoint a), QueryEscape (aid_Username a),
           QueryEscape (aid_AccessKeyPfx a), QueryEscape (aid_AuthID a), QueryEscape (aid_RestoreMode a)]"
      unfolding AccountID_String_Join using False auth assms
      by (simp only: simp_thms if_True, intro SplitN_fields) (auto simp: wf_AccountID_def)
    have "HasPrefix (AccountID_String a) (''q3'' @ '':qumulo:'')"
      unfolding AccountID_String_Join using False auth by (simp add: HasPrefix_version del: Join.simps append.simps)
    with s False auth assms show ?thesis
      by (simp add: ParseAccountID_def naming_consts wf_AccountID_def del: SplitN.simps)
  qed
qed

text \<open>an account identifier the driver builds is read back unchanged, so a revoke sees the user, the stable
  auth id and the mode to restore that the grant recorded.\<close>

theorem account_id_roundtrip:
  assumes "wf_AccountID a"
  shows "ParseAccountID (AccountID_String a) = Inr a"
  by (rule ParseAccountID_String [OF assms])

section \<open>Names are legal\<close>

text \<open>The bucket-name rules as a specification: 3 to 63 lower-case letters, digits and hyphens, with no hyphen at either end.\<close>

definition name_char :: "char \<Rightarrow> bool" where
  "name_char c \<longleftrightarrow> lower_alnum c \<or> c = CHR ''-''"

definition legal_bucket :: "string \<Rightarrow> bool" where
  "legal_bucket s \<longleftrightarrow> 3 \<le> length s \<and> length s \<le> 63 \<and> list_all name_char s \<and> hd s \<noteq> CHR ''-'' \<and> last s \<noteq> CHR ''-''"

lemma name_char_not_upper: "name_char c \<Longrightarrow> \<not> is_upper c"
  by (auto simp: name_char_def lower_alnum_def is_lower_def is_digit_def is_upper_def)

lemma hyphen_not_alnum [simp]: "\<not> lower_alnum (CHR ''-'')"
  by (simp add: lower_alnum_def is_lower_def is_digit_def)

lemma name_char_no_dot: "list_all name_char s \<Longrightarrow> \<not> Contains s ''.''"
  by (auto simp: Contains_char list_all_iff name_char_def lower_alnum_def is_lower_def is_digit_def)

lemma validate_chars_Inr:
  "i + length s = n \<Longrightarrow> validate_chars name n i s = Inr () \<longleftrightarrow>
     list_all name_char s \<and> (s \<noteq> [] \<longrightarrow> (i = 0 \<longrightarrow> hd s \<noteq> CHR ''-'') \<and> last s \<noteq> CHR ''-'')"
proof (induction s arbitrary: i)
  case (Cons r s)
  show ?case
  proof (cases "name_char r")
    case True
    then have "\<not> is_upper r" by (rule name_char_not_upper)
    with True Cons show ?thesis by (cases "s = []") (auto simp: name_char_def)
  next
    case False
    then show ?thesis by (auto simp: name_char_def)
  qed
qed simp

text \<open>the name check accepts exactly the legal bucket names.\<close>

theorem ValidateBucketName_iff: "ValidateBucketName s = Inr () \<longleftrightarrow> legal_bucket s"
proof (cases "3 \<le> length s \<and> length s \<le> 63")
  case True
  then have "s \<noteq> []" by auto
  with True show ?thesis
    using validate_chars_Inr [of 0 s "length s" s] name_char_no_dot [of s]
    by (auto simp: ValidateBucketName_def legal_bucket_def naming_consts)
next
  case False
  then show ?thesis by (auto simp: ValidateBucketName_def legal_bucket_def naming_consts)
qed

text \<open>What \<open>Sanitize\<close> leaves: name characters, no hyphen at either end, no two hyphens in a row.\<close>

fun no_double :: "string \<Rightarrow> bool" where
  "no_double (a # b # s) \<longleftrightarrow> \<not> (a = CHR ''-'' \<and> b = CHR ''-'') \<and> no_double (b # s)"
| "no_double _ \<longleftrightarrow> True"

definition loop_ok :: "string \<Rightarrow> bool \<Rightarrow> bool" where
  "loop_ok b prev \<longleftrightarrow> list_all name_char b \<and> (b \<noteq> [] \<longrightarrow> hd b \<noteq> CHR ''-'') \<and> no_double b \<and>
     (prev \<longleftrightarrow> b \<noteq> [] \<and> last b = CHR ''-'')"

definition sanitized :: "string \<Rightarrow> bool" where
  "sanitized s \<longleftrightarrow> list_all name_char s \<and> no_double s \<and> (s \<noteq> [] \<longrightarrow> hd s \<noteq> CHR ''-'' \<and> last s \<noteq> CHR ''-'')"

lemma no_double_snoc: "no_double (s @ [c]) \<longleftrightarrow> no_double s \<and> \<not> (s \<noteq> [] \<and> last s = CHR ''-'' \<and> c = CHR ''-'')"
  by (induction s rule: no_double.induct) auto

lemma no_double_appendD: "no_double (s @ t) \<Longrightarrow> no_double s"
  by (induction t rule: rev_induct) (auto simp: no_double_snoc simp flip: append_assoc)

lemma sanitize_loop_ok: "loop_ok b prev \<Longrightarrow> \<exists>prev'. loop_ok (sanitize_loop rs b prev) prev'"
proof (induction rs b prev rule: sanitize_loop.induct)
  case (2 r rs b prev)
  consider "r = CHR ''.''" | "r \<noteq> CHR ''.''" "lower_alnum r" | "r \<noteq> CHR ''.''" "\<not> lower_alnum r" "\<not> prev \<and> b \<noteq> []"
    | "r \<noteq> CHR ''.''" "\<not> lower_alnum r" "\<not> (\<not> prev \<and> b \<noteq> [])" by blast
  then show ?case
  proof cases
    case 2
    then have "r \<noteq> CHR ''-''" by auto
    with 2 "2.prems" have "loop_ok (b @ [r]) False"
      by (auto simp: loop_ok_def no_double_snoc name_char_def hd_append)
    with 2 "2.IH"(2) show ?thesis by simp
  next
    case 3
    with "2.prems" have "loop_ok (b @ ''-'') True"
      by (auto simp: loop_ok_def no_double_snoc name_char_def hd_append)
    with 3 "2.IH"(3) show ?thesis by simp
  qed (use "2.IH" "2.prems" in \<open>auto split: if_splits\<close>)
qed auto

lemma set_prefix_all: "prefix a b \<Longrightarrow> list_all P b \<Longrightarrow> list_all P a"
  by (auto simp: prefix_def)

lemma TrimLeft_Nil_iff: "s = [] \<or> hd s \<notin> set cs \<Longrightarrow> TrimLeft s cs = s"
  by (cases "s = []") (simp_all add: TrimLeft_id, simp add: TrimLeft_def)

lemma sanitized_Sanitize: "sanitized (Sanitize s)"
proof -
  let ?l = "sanitize_loop (ToLower s) [] False"
  have "loop_ok [] False" by (simp add: loop_ok_def)
  then obtain p where l: "loop_ok ?l p" using sanitize_loop_ok by blast
  then have e: "Sanitize s = TrimRight ?l ''-''"
    unfolding Sanitize_def Trim_def by (subst TrimLeft_Nil_iff) (auto simp: loop_ok_def)
  have p: "prefix (Sanitize s) ?l" unfolding e by (rule prefix_TrimRight)
  then have "no_double (Sanitize s)" using l no_double_appendD by (auto simp: loop_ok_def prefix_def)
  moreover have "list_all name_char (Sanitize s)" using p l set_prefix_all by (auto simp: loop_ok_def)
  moreover have "Sanitize s \<noteq> [] \<Longrightarrow> hd (Sanitize s) \<noteq> CHR ''-'' \<and> last (Sanitize s) \<noteq> CHR ''-''"
    using hd_Trim [of ?l "''-''"] last_Trim [of ?l "''-''"] by (simp add: Sanitize_def)
  ultimately show ?thesis by (simp add: sanitized_def)
qed

lemma to_lower_char_name [simp]: "name_char c \<Longrightarrow> to_lower_char c = c"
  using name_char_not_upper by (simp add: to_lower_char_def)

lemma ToLower_name: "list_all name_char s \<Longrightarrow> ToLower s = s"
  by (induction s) (simp_all add: ToLower_def)

lemma sanitize_loop_id:
  "list_all name_char s \<Longrightarrow> no_double (b @ s) \<Longrightarrow> (b = [] \<longrightarrow> s \<noteq> [] \<longrightarrow> hd s \<noteq> CHR ''-'') \<Longrightarrow>
     prev = (b \<noteq> [] \<and> last b = CHR ''-'') \<Longrightarrow> sanitize_loop s b prev = b @ s"
proof (induction s arbitrary: b prev)
  case (Cons r s)
  have nd: "no_double ((b @ [r]) @ s)" using Cons.prems by simp
  then have nr: "no_double (b @ [r])" by (rule no_double_appendD)
  have dot: "r \<noteq> CHR ''.''" using Cons.prems(1)
    by (auto simp: name_char_def lower_alnum_def is_lower_def is_digit_def)
  show ?case
  proof (cases "r = CHR ''-''")
    case True
    with Cons.prems have b: "b \<noteq> []" by auto
    with True nr Cons.prems(4) have "\<not> prev" by (auto simp: no_double_snoc)
    with True b show ?thesis using Cons.IH [of "b @ [r]" True] nd Cons.prems(1) by simp
  next
    case False
    with Cons.prems(1) have "lower_alnum r" by (simp add: name_char_def)
    with False dot show ?thesis using Cons.IH [of "b @ [r]" False] nd Cons.prems(1) by simp
  qed
qed simp

lemma Sanitize_sanitized: "sanitized s \<Longrightarrow> Sanitize s = s"
proof -
  assume s: "sanitized s"
  then have "sanitize_loop (ToLower s) [] False = s"
    using sanitize_loop_id [of s "[]" False] by (auto simp: sanitized_def ToLower_name)
  then show ?thesis
    using s by (cases "s = []") (simp add: Sanitize_def Trim_def TrimLeft_def TrimRight_def,
      simp add: Sanitize_def sanitized_def Trim_id)
qed

text \<open>sanitizing is idempotent and leaves only name characters, without a hyphen at an end or two in a row.\<close>

theorem Sanitize_normal: "sanitized (Sanitize s) \<and> Sanitize (Sanitize s) = Sanitize s"
  using sanitized_Sanitize Sanitize_sanitized by blast

lemma hex_name_char: "c \<in> set (hashHex s n) \<Longrightarrow> is_hex_digit c \<and> lower_alnum c"
  using set_take_subset hex_encode_hex by (fastforce simp: hashHex_def Let_def)

lemma length_hashHex: "length (hashHex s n) = min n 64"
  by (simp add: hashHex_def Let_def)

lemma hashHex_all: "list_all name_char (hashHex s n)"
  using hex_name_char by (auto simp: list_all_iff name_char_def)

lemma last_hashHex: "0 < n \<Longrightarrow> last (hashHex s n) \<noteq> CHR ''-''"
proof -
  assume "0 < n"
  then have "hashHex s n \<noteq> []" using length_hashHex [of s n] by (cases "hashHex s n") auto
  then show ?thesis using hex_name_char [OF last_in_set] by force
qed

lemma legal_Trim: "legal_bucket s \<Longrightarrow> Trim s ''-'' = s"
  by (cases "s = []") (auto simp: legal_bucket_def Trim_id)

lemma suffixed_legal:
  assumes "list_all name_char p" "p \<noteq> []" "hd p \<noteq> CHR ''-''" "length p \<le> 30"
  shows "legal_bucket (TrimRight p ''-'' @ ''-'' @ hashHex s 32)"
proof -
  have "TrimRight p ''-'' \<noteq> []"
    using assms(2,3) by (cases p) (auto simp: TrimRight_def)
  moreover have "hd (TrimRight p ''-'') = hd p" using calculation by (rule hd_TrimRight)
  moreover have "list_all name_char (TrimRight p ''-'')" using prefix_TrimRight assms(1) by (rule set_prefix_all)
  moreover have "length (TrimRight p ''-'') \<le> 30" using length_TrimRight [of p "''-''"] assms(4) by simp
  moreover have "hashHex s 32 \<noteq> []" using length_hashHex [of s 32] by (cases "hashHex s 32") auto
  ultimately show ?thesis
    using assms hashHex_all last_hashHex [of 32 s] length_hashHex [of s 32]
    by (auto simp: legal_bucket_def name_char_def)
qed

text \<open>for a prefix made of name characters, every input that leaves something after sanitizing gets a legal bucket
  name, whatever its length and characters; one that was altered or cut carries 32 hexadecimal digits of the hash of the input.\<close>

theorem BucketName_legal:
  assumes "list_all name_char pfx" "pfx = [] \<or> hd pfx \<noteq> CHR ''-''" "Sanitize input \<noteq> []"
    and "3 \<le> length (pfx @ Sanitize input)"
  shows "\<exists>n. BucketName pfx input = Inr n \<and> legal_bucket n \<and>
    (if Sanitize input \<noteq> ToLower input \<or> CHR ''.'' \<in> set input \<or> 63 < length (pfx @ Sanitize input)
     then n = TrimRight (take 30 (pfx @ Sanitize input)) ''-'' @ ''-'' @ hashHex input 32
     else n = pfx @ ToLower input)"
proof -
  let ?c = "pfx @ Sanitize input"
  have all: "list_all name_char ?c" and hd: "hd ?c \<noteq> CHR ''-''" and last: "last ?c \<noteq> CHR ''-''" and ne: "?c \<noteq> []"
    using assms sanitized_Sanitize [of input] by (auto simp: sanitized_def hd_append)
  let ?s = "TrimRight (take 30 ?c) ''-'' @ ''-'' @ hashHex input 32"
  have "list_all name_char (take 30 ?c)" using take_is_prefix all by (rule set_prefix_all)
  then have legal_s: "legal_bucket ?s"
    using suffixed_legal [of "take 30 ?c" input] hd ne by (simp add: hd_take del: take_append)
  show ?thesis
  proof (cases "Sanitize input \<noteq> ToLower input \<or> CHR ''.'' \<in> set input \<or> 63 < length ?c")
    case True
    then have "BucketName pfx input = Inr ?s"
      using legal_s legal_Trim [OF legal_s] ValidateBucketName_iff [of ?s]
      by (simp add: BucketName_def Let_def naming_consts length_hashHex Contains_char legal_bucket_def)
    with True legal_s show ?thesis by simp
  next
    case False
    then have l: "legal_bucket ?c" using assms(4) all hd last by (simp add: legal_bucket_def)
    with False show ?thesis
      using legal_Trim [OF l] ValidateBucketName_iff [of ?c]
      by (simp add: BucketName_def Let_def naming_consts Contains_char legal_bucket_def)
  qed
qed

text \<open>Names that differ only in case get the same bucket name: the change of case alone adds no hash.\<close>

lemma BucketName_case_collision:
  assumes "Sanitize a = ToLower a" "CHR ''.'' \<notin> set a" "length (pfx @ a) \<le> 63"
  shows "BucketName pfx a = BucketName pfx (ToLower a)"
proof -
  have n: "list_all name_char (ToLower a)" using assms(1) sanitized_Sanitize [of a] by (simp add: sanitized_def)
  then have l: "ToLower (ToLower a) = ToLower a" by (rule ToLower_name)
  then have "Sanitize (ToLower a) = Sanitize a" by (simp add: Sanitize_def)
  moreover have "CHR ''.'' \<notin> set (ToLower a)" using name_char_no_dot [OF n] by (simp add: Contains_char)
  ultimately show ?thesis using assms l by (simp add: BucketName_def Let_def naming_consts Contains_char)
qed

text \<open>the user name made for an access is recognised as the driver's own, so a revoke accepts what a grant made, and
  the two grants differ only if the hash of bucket id and access name does.\<close>

theorem Username_IsDriverUser:
  "IsDriverUser (Username bucketID name) \<and> length (Username bucketID name) = 37 \<and>
   (Username b n = Username b' n' \<longleftrightarrow> hashHex (b @ '':'' @ n) 32 = hashHex (b' @ '':'' @ n') 32)"
  using hex_name_char [of _ "bucketID @ '':'' @ name" 32] length_hashHex [of "bucketID @ '':'' @ name" 32]
  by (auto simp: IsDriverUser_def Username_def naming_consts list_all_iff Let_def HasPrefix_def)

text \<open>an identifier is parsed as driver-owned only from the version that carries the ownership marker, and then it
  has an absolute root path.\<close>

theorem ParseBucketID_managed:
  assumes "ParseBucketID raw = Inr b" "bid_Managed b"
  shows "HasPrefix raw ''q3:qumulo:'' \<and> HasPrefix (bid_RootPath b) ''/'' \<and> SplitN (CHR '':'') 8 raw ! 7 = ''managed''"
  using assms
  by (auto simp: ParseBucketID_def parse_bucket_fields_def naming_consts Let_def
      simp del: SplitN.simps split: if_splits option.splits)

end
