(* ===== verification/Go_Url.thy ===== *)
theory Go_Url
  imports Go_Encoding
begin

text \<open>
  \<^verbatim>\<open>net/url\<close> as the drivers use it: \<open>url.Parse\<close> with its errors, \<open>Hostname\<close>, \<open>Port\<close>, \<open>ParseQuery\<close> and
  \<open>Values.Get\<close>, and \<open>path.Clean\<close>.  A URL is the record of the fields the drivers look at; the error of a parse
  is \<open>None\<close>.  IPv6 zone identifiers are not treated specially.
\<close>

record URL =
  u_Scheme :: string
  u_Opaque :: string
  u_User :: "string option"
  u_Host :: string
  u_Path :: string
  u_RawQuery :: string
  u_Fragment :: string

definition is_letter :: "char \<Rightarrow> bool" where
  "is_letter c \<longleftrightarrow> is_lower c \<or> is_upper c"

text \<open>\<open>getScheme\<close>: the outer option is the error \<^verbatim>\<open>missing protocol scheme\<close>; \<open>seen\<close> is the part already read, reversed.\<close>

fun getScheme :: "string \<Rightarrow> string \<Rightarrow> string \<Rightarrow> (string \<times> string) option" where
  "getScheme whole seen [] = Some ([], whole)"
| "getScheme whole seen (c # s) =
     (if is_letter c then getScheme whole (c # seen) s
      else if is_digit c \<or> c \<in> set ''+-.'' then (if seen = [] then Some ([], whole) else getScheme whole (c # seen) s)
      else if c = CHR '':'' then (if seen = [] then None else Some (rev seen, s))
      else Some ([], whole))"

text \<open>The percent decoding of \<open>unescape\<close> in the path, fragment and user modes, where \<open>+\<close> stands for itself.\<close>

fun PathUnescape :: "string \<Rightarrow> string option" where
  "PathUnescape [] = Some []"
| "PathUnescape (c # s) =
     (if c = CHR ''%'' then
        (case s of
           h # l # r \<Rightarrow>
             (case (unhex h, unhex l) of
                (Some a, Some b) \<Rightarrow> map_option ((#) (char_of (16 * a + b))) (PathUnescape r)
              | _ \<Rightarrow> None)
         | _ \<Rightarrow> None)
      else map_option ((#) c) (PathUnescape s))"

definition host_char :: "char \<Rightarrow> bool" where
  "host_char c \<longleftrightarrow> is_letter c \<or> is_digit c \<or> 128 \<le> ch c \<or>
     c \<in> set ''!$&()*+,;=:[]<>-_.~'' \<or> ch c = 34 \<or> ch c = 39"

text \<open>\<open>unescape\<close> in the host mode: only escapes of bytes from 128 on and of the percent sign are allowed.\<close>

fun HostUnescape :: "string \<Rightarrow> string option" where
  "HostUnescape [] = Some []"
| "HostUnescape (c # s) =
     (if c = CHR ''%'' then
        (case s of
           h # l # r \<Rightarrow>
             (case (unhex h, unhex l) of
                (Some a, Some b) \<Rightarrow>
                  if a < 8 \<and> [h, l] \<noteq> ''25'' then None
                  else map_option ((#) (char_of (16 * a + b))) (HostUnescape r)
              | _ \<Rightarrow> None)
         | _ \<Rightarrow> None)
      else if host_char c then map_option ((#) c) (HostUnescape s) else None)"

definition validOptionalPort :: "string \<Rightarrow> bool" where
  "validOptionalPort p \<longleftrightarrow> p = [] \<or> (hd p = CHR '':'' \<and> list_all is_digit (tl p))"

text \<open>The part of \<open>s\<close> from the last occurrence of \<open>c\<close> on, or all of it.\<close>

definition from_last :: "char \<Rightarrow> string \<Rightarrow> string" where
  "from_last c s = c # rev (takeWhile (\<lambda>x. x \<noteq> c) (rev s))"

definition parseHost :: "string \<Rightarrow> string option" where
  "parseHost host =
     (if HasPrefix host ''['' then
        if CHR '']'' \<notin> set host \<or> \<not> validOptionalPort (tl (from_last (CHR '']'') host)) then None
        else HostUnescape host
      else if CHR '':'' \<in> set host \<and> \<not> validOptionalPort (from_last (CHR '':'') host) then None
      else HostUnescape host)"

definition userinfo_char :: "char \<Rightarrow> bool" where
  "userinfo_char c \<longleftrightarrow> is_letter c \<or> is_digit c \<or> c \<in> set ''-._:~!$&()*+,;=%@'' \<or> ch c = 39"

definition parseAuthority :: "string \<Rightarrow> (string option \<times> string) option" where
  "parseAuthority a =
     (if CHR ''@'' \<notin> set a then map_option (Pair None) (parseHost a)
      else (let h = tl (from_last (CHR ''@'') a); u = take (length a - length h - 1) a
            in case parseHost h of
                 None \<Rightarrow> None
               | Some host \<Rightarrow>
                   if list_all userinfo_char u \<and> PathUnescape u \<noteq> None then Some (Some u, host) else None))"

definition url_Parse :: "string \<Rightarrow> URL option" where
  "url_Parse raw =
     (case Cut raw (CHR ''#'') of (body, frag, _) \<Rightarrow>
      if list_ex (\<lambda>c. ch c < 32 \<or> ch c = 127) body then None
      else if body = ''*'' then
        Some \<lparr>u_Scheme = [], u_Opaque = [], u_User = None, u_Host = [], u_Path = ''*'', u_RawQuery = [], u_Fragment = frag\<rparr>
      else case getScheme body [] body of
        None \<Rightarrow> None
      | Some (scheme, rest) \<Rightarrow>
        (case Cut rest (CHR ''?'') of (rest, query, _) \<Rightarrow>
          if \<not> HasPrefix rest ''/'' \<and> scheme \<noteq> [] then
            (case PathUnescape frag of
               None \<Rightarrow> None
             | Some f \<Rightarrow> Some \<lparr>u_Scheme = ToLower scheme, u_Opaque = rest, u_User = None, u_Host = [], u_Path = [],
                             u_RawQuery = query, u_Fragment = f\<rparr>)
          else if \<not> HasPrefix rest ''/'' \<and> CHR '':'' \<in> set (fst (Cut rest (CHR ''/''))) then None
          else
            (let auth = (scheme \<noteq> [] \<or> \<not> HasPrefix rest ''///'') \<and> HasPrefix rest ''//'';
                 a = takeWhile (\<lambda>c. c \<noteq> CHR ''/'') (drop 2 rest);
                 pth = (if auth then drop (2 + length a) rest else rest)
             in case (if auth then parseAuthority a else Some (None, [])) of
                  None \<Rightarrow> None
                | Some (user, host) \<Rightarrow>
                   (case (PathUnescape pth, PathUnescape frag) of
                      (Some p, Some f) \<Rightarrow>
                        Some \<lparr>u_Scheme = ToLower scheme, u_Opaque = [], u_User = user, u_Host = host, u_Path = p,
                              u_RawQuery = query, u_Fragment = f\<rparr>
                    | _ \<Rightarrow> None))))"

definition host_Hostname :: "string \<Rightarrow> string" where
  "host_Hostname h =
     (let h = (if CHR '':'' \<in> set h \<and> validOptionalPort (from_last (CHR '':'') h)
               then take (length h - length (from_last (CHR '':'') h)) h else h)
      in if HasPrefix h ''['' \<and> last h = CHR '']'' then butlast (tl h) else h)"

definition host_Port :: "string \<Rightarrow> string" where
  "host_Port h =
     (if CHR '':'' \<in> set h \<and> validOptionalPort (from_last (CHR '':'') h) then tl (from_last (CHR '':'') h) else [])"

definition url_Hostname :: "URL \<Rightarrow> string" where
  "url_Hostname u = host_Hostname (u_Host u)"

definition url_Port :: "URL \<Rightarrow> string" where
  "url_Port u = host_Port (u_Host u)"

text \<open>\<open>url.ParseQuery\<close>: the pairs in order, or the error of the first malformed one.\<close>

fun parse_pairs :: "string list \<Rightarrow> (string \<times> string) list option" where
  "parse_pairs [] = Some []"
| "parse_pairs (kv # kvs) =
     (if kv = [] then parse_pairs kvs
      else if CHR '';'' \<in> set kv then None
      else case Cut kv (CHR ''='') of (k, v, _) \<Rightarrow>
        (case (QueryUnescape k, QueryUnescape v, parse_pairs kvs) of
           (Some k', Some v', Some r) \<Rightarrow> Some ((k', v') # r)
         | _ \<Rightarrow> None))"

definition ParseQuery :: "string \<Rightarrow> (string \<times> string) list option" where
  "ParseQuery q = parse_pairs (Split q (CHR ''&''))"

definition Values_Get :: "(string \<times> string) list \<Rightarrow> string \<Rightarrow> string" where
  "Values_Get kvs k = (case map_of kvs k of None \<Rightarrow> [] | Some v \<Rightarrow> v)"

section \<open>path.Clean\<close>

text \<open>The segments of a path, each empty or dot segment dropped and each dot-dot resolved; the accumulator is reversed.\<close>

fun clean_segs :: "bool \<Rightarrow> string list \<Rightarrow> string list \<Rightarrow> string list" where
  "clean_segs rooted acc [] = rev acc"
| "clean_segs rooted acc (s # ss) =
     (if s = [] \<or> s = ''.'' then clean_segs rooted acc ss
      else if s = ''..'' then
        (case acc of
           [] \<Rightarrow> clean_segs rooted (if rooted then [] else [s]) ss
         | a # r \<Rightarrow> if a = ''..'' then clean_segs rooted (s # acc) ss else clean_segs rooted r ss)
      else clean_segs rooted (s # acc) ss)"

definition path_Clean :: "string \<Rightarrow> string" where
  "path_Clean p =
     (let rooted = HasPrefix p ''/''; b = Join (clean_segs rooted [] (Split p (CHR ''/''))) ''/''
      in if rooted then ''/'' @ b else if b = [] then ''.'' else b)"

definition path_Join :: "string list \<Rightarrow> string" where
  "path_Join es = (let ne = filter (\<lambda>e. e \<noteq> []) es in if ne = [] then [] else path_Clean (Join ne ''/''))"

definition path_Base :: "string \<Rightarrow> string" where
  "path_Base p =
     (if p = [] then ''.''
      else (let s = TrimRight p ''/''; b = rev (takeWhile (\<lambda>c. c \<noteq> CHR ''/'') (rev s)) in if b = [] then ''/'' else b))"

definition path_Dir :: "string \<Rightarrow> string" where
  "path_Dir p = path_Clean (rev (dropWhile (\<lambda>c. c \<noteq> CHR ''/'') (rev p)))"

section \<open>Lemmas\<close>

lemma split_on_no_sep: "x \<in> set (split_on c acc s) \<Longrightarrow> c \<notin> set acc \<Longrightarrow> c \<notin> set x"
  by (induction c acc s rule: split_on.induct) (auto split: if_splits)

lemma Split_no_sep: "x \<in> set (Split s c) \<Longrightarrow> c \<notin> set x"
  by (auto simp: Split_def dest: split_on_no_sep)

text \<open>The segments of a rooted clean path name no parent and no empty component.\<close>

definition plain_seg :: "string \<Rightarrow> bool" where
  "plain_seg s \<longleftrightarrow> s \<noteq> [] \<and> s \<noteq> ''.'' \<and> s \<noteq> ''..'' \<and> CHR ''/'' \<notin> set s"

lemma clean_segs_plain:
  "list_all plain_seg acc \<Longrightarrow> list_all (\<lambda>s. CHR ''/'' \<notin> set s) ss \<Longrightarrow> list_all plain_seg (clean_segs True acc ss)"
proof (induction ss arbitrary: acc)
  case Nil
  then show ?case by (simp add: list_all_iff)
next
  case (Cons s ss)
  show ?case
  proof (cases "s = ''..''")
    case True
    with Cons show ?thesis by (cases acc) (auto simp: plain_seg_def)
  next
    case False
    with Cons show ?thesis by (simp add: plain_seg_def)
  qed
qed

lemma clean_segs_plain_id:
  "list_all plain_seg ss \<Longrightarrow> clean_segs r acc ss = rev acc @ ss"
  by (induction ss arbitrary: acc) (simp_all add: plain_seg_def)

lemma path_Clean_rooted:
  assumes "HasPrefix p ''/''"
  shows "\<exists>ss. list_all plain_seg ss \<and> path_Clean p = ''/'' @ Join ss ''/''"
proof -
  have "list_all (\<lambda>s. CHR ''/'' \<notin> set s) (Split p (CHR ''/''))"
    using Split_no_sep by (auto simp: list_all_iff)
  then have "list_all plain_seg (clean_segs True [] (Split p (CHR ''/'')))" by (intro clean_segs_plain) simp_all
  then show ?thesis using assms unfolding path_Clean_def Let_def by auto
qed

lemma split_on_step: "c \<notin> set x \<Longrightarrow> split_on c acc (x @ c # s) = (rev acc @ x) # split_on c [] s"
  by (induction x arbitrary: acc) auto

lemma split_on_last: "c \<notin> set x \<Longrightarrow> split_on c acc x = [rev acc @ x]"
  by (induction x arbitrary: acc) auto

lemma Split_Join:
  assumes "ss \<noteq> []" "\<And>x. x \<in> set ss \<Longrightarrow> c \<notin> set x"
  shows "Split (Join ss [c]) c = ss"
  using assms
proof (induction ss)
  case (Cons x xs)
  show ?case
  proof (cases xs)
    case Nil
    then show ?thesis using Cons.prems by (simp add: Split_def split_on_last)
  next
    case (Cons y ys)
    then have "Split (Join (x # xs) [c]) c = x # Split (Join xs [c]) c"
      using Cons.prems split_on_step [of c x "[]" "Join xs [c]"] by (simp add: Split_def)
    then show ?thesis using Cons.IH Cons.prems Cons by simp
  qed
qed simp

lemma Split_slash: "Split (CHR ''/'' # s) (CHR ''/'') = [] # Split s (CHR ''/'')"
  by (simp add: Split_def)

lemma plain_no_slash: "list_all plain_seg ss \<Longrightarrow> x \<in> set ss \<Longrightarrow> CHR ''/'' \<notin> set x"
  by (auto simp: list_all_iff plain_seg_def)

lemma path_Clean_segs:
  assumes "list_all plain_seg ss"
  shows "path_Clean (''/'' @ Join ss ''/'') = ''/'' @ Join ss ''/''"
proof (cases "ss = []")
  case True
  then show ?thesis by (simp add: path_Clean_def Split_def HasPrefix_def)
next
  case False
  then have "Split (''/'' @ Join ss ''/'') (CHR ''/'') = [] # ss"
    using Split_Join [OF False plain_no_slash [OF assms]] by (simp add: Split_slash)
  then show ?thesis using clean_segs_plain_id [OF assms, of True "[]"] by (simp add: path_Clean_def HasPrefix_def)
qed

lemma Join_append: "xs \<noteq> [] \<Longrightarrow> ys \<noteq> [] \<Longrightarrow> Join (xs @ ys) sep = Join xs sep @ sep @ Join ys sep"
proof (induction xs)
  case (Cons x xs)
  then show ?case by (cases "xs = []"; cases xs; cases ys) auto
qed simp

text \<open>Joining plain components below a clean path appends them.\<close>

lemma path_Join_below:
  assumes "path_Clean b = b" "HasPrefix b ''/''" "list_all plain_seg ts" "ts \<noteq> []"
  shows "path_Join (b # ts) = (if b = ''/'' then [] else b) @ ''/'' @ Join ts ''/''"
proof -
  obtain ss where ss: "list_all plain_seg ss" "b = ''/'' @ Join ss ''/''" using path_Clean_rooted [OF assms(2)] assms(1) by auto
  have ne: "filter (\<lambda>e. e \<noteq> []) (b # ts) = b # ts" using ss(2) assms(3) by (auto simp: filter_id_conv list_all_iff plain_seg_def)
  have J: "Join (b # ts) ''/'' = b @ ''/'' @ Join ts ''/''" using assms(4) by (cases ts) simp_all
  show ?thesis
  proof (cases "ss = []")
    case True
    then have b: "b = ''/''" using ss(2) by simp
    have "Split (''//'' @ Join ts ''/'') (CHR ''/'') = [] # [] # ts"
      using Split_Join [OF assms(4) plain_no_slash [OF assms(3)]] by (simp add: Split_slash)
    then have "path_Clean (''//'' @ Join ts ''/'') = ''/'' @ Join ts ''/''"
      using clean_segs_plain_id [OF assms(3), of True "[]"] by (simp add: path_Clean_def HasPrefix_def)
    then show ?thesis unfolding path_Join_def ne Let_def J using b by simp
  next
    case False
    then have e: "Join (b # ts) ''/'' = ''/'' @ Join (ss @ ts) ''/''" unfolding J using ss(2) by (simp add: Join_append assms(4))
    have "path_Clean (Join (b # ts) ''/'') = Join (b # ts) ''/''" unfolding e using ss(1) assms(3) by (intro path_Clean_segs) simp
    moreover have "b \<noteq> ''/''"
    proof
      assume "b = ''/''"
      then have "Join ss ''/'' = []" using ss(2) by simp
      then show False using False ss(1) by (cases ss; cases "tl ss") (auto simp: plain_seg_def)
    qed
    ultimately show ?thesis unfolding path_Join_def ne Let_def using J by simp
  qed
qed

end
