(* ===== verification/Rest_Client.thy ===== *)
theory Rest_Client
  imports Naming Go_Url "HOL-Library.State_Monad"
begin

text \<open>
  \<^verbatim>\<open>internal/qumulo/client.go\<close>: a connection to a cluster and its request loop with login, backoff and
  replay rules.

  A program is a state monad over \<open>world\<close>: the trace of what happened so far and the fields a
  connection keeps.  The cluster, with every other client of it, is the function \<open>c_cluster\<close> of the connection: it answers a
  request given the whole trace before it, so a statement for all connections is a statement for every behaviour of the
  cluster, of concurrent clients and of the network.  Context errors (\<open>ctx.Err()\<close>) and random numbers are functions of the
  trace in the same way.  The loops of the code that have no bound of their own (paging, polling) run on \<open>c_fuel\<close>; running out of
  it is the error \<open>EDiverged\<close>, which no operation of the code returns, and the theorems that need it show that enough fuel
  rules it out.
\<close>

section \<open>Requests, replies and the trace\<close>

record request =
  rq_method :: string
  rq_path :: string
  rq_query :: "(string \<times> string) list"
  rq_ifmatch :: "string option"
  rq_body :: "json option"
  rq_auth :: string

text \<open>A reply of the transport: it failed (\<open>http.Do\<close> returned an error, with or without a context error), or it
  delivered a status, an \<^verbatim>\<open>ETag\<close> header and a body, given as its text and what the text parses to.\<close>

datatype reply =
    NetErr string
  | CtxDone ctx_err
  | Http int string string "json option"

datatype event = Sent request reply | Slept int

record Credentials =
  cr_Token :: string
  cr_Username :: string
  cr_Password :: string

definition HasToken :: "Credentials \<Rightarrow> bool" where
  "HasToken c \<longleftrightarrow> TrimSpace (cr_Token c) \<noteq> []"

definition HasPassword :: "Credentials \<Rightarrow> bool" where
  "HasPassword c \<longleftrightarrow> TrimSpace (cr_Username c) \<noteq> [] \<and> TrimSpace (cr_Password c) \<noteq> []"

record S3Settings =
  s3_Enabled :: bool
  s3_BasePath :: string
  s3_HTTPS :: bool
  s3_Port :: int

record Connection =
  c_creds :: Credentials
  c_host :: string
  c_port :: string
  c_base_url :: string
  c_cluster :: "event list \<Rightarrow> request \<Rightarrow> reply"
  c_ctx_err :: "event list \<Rightarrow> ctx_err option"
  c_rand :: "event list \<Rightarrow> nat"
  c_password :: "event list \<Rightarrow> string"
  c_fuel :: nat

record world =
  w_events :: "event list"
  w_bearer :: string
  w_version :: string
  w_s3settings :: "S3Settings option"

type_synonym 'a prog = "(world, 'a) state"
type_synonym 'a io = "(world, 'a res) state"

section \<open>Programs\<close>

abbreviation ret :: "'a \<Rightarrow> 'a prog" where "ret \<equiv> State_Monad.return"
abbreviation ok :: "'a \<Rightarrow> 'a io" where "ok x \<equiv> ret (Inr x)"
abbreviation fail :: "go_error \<Rightarrow> 'a io" where "fail e \<equiv> ret (Inl e)"

text \<open>\<open>x, err := m; if err != nil { return err }; k x\<close>\<close>

definition andThen :: "'a io \<Rightarrow> ('a \<Rightarrow> 'b io) \<Rightarrow> 'b io" where
  "andThen m k = do { r \<leftarrow> m; case r of Inl e \<Rightarrow> fail e | Inr x \<Rightarrow> k x }"

text \<open>\<open>if err := m; err != nil { return fmt.Errorf(pre + "%w", err) }\<close>\<close>

definition wrap :: "string \<Rightarrow> 'a io \<Rightarrow> 'a io" where
  "wrap pre m = do { r \<leftarrow> m; ret (case r of Inl e \<Rightarrow> Inl (EWrap pre e []) | Inr x \<Rightarrow> Inr x) }"

definition lift_res :: "'a res \<Rightarrow> 'a io" where
  "lift_res r = ret r"

definition getw :: "(world \<Rightarrow> 'a) \<Rightarrow> 'a prog" where
  "getw f = State (\<lambda>w. (f w, w))"

definition putw :: "(world \<Rightarrow> world) \<Rightarrow> unit prog" where
  "putw f = State (\<lambda>w. ((), f w))"

definition emit :: "event \<Rightarrow> unit prog" where
  "emit e = putw (\<lambda>w. w\<lparr>w_events := w_events w @ [e]\<rparr>)"

text \<open>\<open>http.Client.Do\<close>: the request goes on the trace together with the answer.\<close>

definition http_Do :: "Connection \<Rightarrow> request \<Rightarrow> reply prog" where
  "http_Do c rq = do {
     h \<leftarrow> getw w_events;
     let rp = c_cluster c h rq;
     _ \<leftarrow> emit (Sent rq rp);
     ret rp }"

section \<open>Login\<close>

definition login_path :: string where "login_path = ''/v1/session/login''"

definition login_request :: "Connection \<Rightarrow> request" where
  "login_request c =
     \<lparr>rq_method = ''POST'', rq_path = login_path, rq_query = [], rq_ifmatch = None,
      rq_body = Some (JObj [(''username'', JStr (cr_Username (c_creds c))), (''password'', JStr (cr_Password (c_creds c)))]),
      rq_auth = []\<rparr>"

definition decode_login :: "json option \<Rightarrow> string option" where
  "decode_login j = Option.bind (Option.bind j obj_fields) (get_str ''bearer_token'')"

definition doLogin :: "Connection \<Rightarrow> unit io" where
  "doLogin c = do {
     rp \<leftarrow> http_Do c (login_request c);
     case rp of
       NetErr m \<Rightarrow> fail (EWrap ''login: '' (EMsg m) [])
     | CtxDone x \<Rightarrow> fail (EWrap ''login: '' (ECtx x) [])
     | Http st etag raw j \<Rightarrow>
         if st \<ge> 400 then fail (EApi (parseAPIError st raw j))
         else case decode_login j of
             None \<Rightarrow> fail (EMsg ''decode login'')
           | Some tok \<Rightarrow>
               if tok = [] then fail (EMsg ''login returned empty bearer_token'')
               else do { _ \<leftarrow> putw (\<lambda>w. w\<lparr>w_bearer := tok\<rparr>); ok () } }"

definition relogin :: "Connection \<Rightarrow> unit io" where
  "relogin c =
     (if \<not> HasPassword (c_creds c) then
        fail (EApi \<lparr>ae_StatusCode = 401,
                    ae_Description = ''access token rejected and no username/password configured for re-login'',
                    ae_Module = [], ae_ErrorClass = ErrClassAuthInvalidCreds, ae_UserVisible = False\<rparr>)
      else doLogin c)"

definition authorize :: "Connection \<Rightarrow> string io" where
  "authorize c = do {
     tok \<leftarrow> getw w_bearer;
     if tok = [] then andThen (relogin c) (\<lambda>_. do { t \<leftarrow> getw w_bearer; ok t })
     else ok tok }"

section \<open>The request loop\<close>

definition maxRetries :: nat where "maxRetries = 5"
definition retryBase :: int where "retryBase = 200000000"
definition retryMax :: int where "retryMax = 5000000000"

text \<open>The wait before attempt \<open>n\<close> in nanoseconds, for the random draw \<open>r\<close>.\<close>

definition backoff :: "nat \<Rightarrow> nat \<Rightarrow> int" where
  "backoff attempt r =
     (let d = retryBase * 2 ^ (attempt - 1); d = (if d > retryMax then retryMax else d);
          j = int r mod (d div 3 + 1) - d div 6
      in d + j)"

definition sleepBackoff :: "Connection \<Rightarrow> nat \<Rightarrow> unit io" where
  "sleepBackoff c attempt = do {
     h \<leftarrow> getw w_events;
     case c_ctx_err c h of
       Some x \<Rightarrow> fail (ECtx x)
     | None \<Rightarrow> do { _ \<leftarrow> emit (Slept (backoff attempt (c_rand c h))); ok () } }"

definition replaySafeMethod :: "string \<Rightarrow> bool" where
  "replaySafeMethod m \<longleftrightarrow> m \<in> set [''GET'', ''HEAD'', ''OPTIONS'', ''PUT'', ''PATCH'']"

text \<open>The loop of \<open>DoJSON\<close> with \<open>n\<close> attempts left, up to the reading of the body.  The answer is the \<^verbatim>\<open>ETag\<close>
  header and the body of the response.\<close>

fun request_loop :: "Connection \<Rightarrow> request \<Rightarrow> nat \<Rightarrow> bool \<Rightarrow> go_error option \<Rightarrow> (string \<times> string \<times> json option) io" where
  "request_loop c rq 0 relogged lastErr =
     fail (case lastErr of None \<Rightarrow> EMsg ''qumulo request failed after retries'' | Some e \<Rightarrow> e)"
| "request_loop c rq (Suc n) relogged lastErr =
     (let attempt = maxRetries - n
      in andThen (if attempt > 0 then sleepBackoff c attempt else ok ()) (\<lambda>_.
         andThen (authorize c) (\<lambda>tok. do {
         rp \<leftarrow> http_Do c (rq\<lparr>rq_auth := tok\<rparr>);
         case rp of
           CtxDone x \<Rightarrow> fail (ECtx x)
         | NetErr m \<Rightarrow>
             (let e = EWrap ''qumulo request: '' (EMsg m) []
              in if \<not> replaySafeMethod (rq_method rq) then fail e else request_loop c rq n relogged (Some e))
         | Http st etag raw j \<Rightarrow>
             (let e = EApi (parseAPIError st raw j)
              in if st = 401 \<and> HasPassword (c_creds c) \<and> \<not> relogged then
                   andThen (relogin c) (\<lambda>_. request_loop c rq n True (Some e))
                 else if st = 429 \<or> st \<ge> 500 then
                   (if \<not> replaySafeMethod (rq_method rq) then fail e else request_loop c rq n relogged (Some e))
                 else if st \<ge> 400 then fail e
                 else ok (etag, raw, j)) })))"

text \<open>A decoder of a response body.  \<open>into zero d\<close> is a call with \<open>out\<close> set to a variable at its zero value, which an empty body leaves
  alone; \<open>noOut\<close> is a call with \<open>out = nil\<close>.\<close>

type_synonym 'a decoder = "string \<Rightarrow> json option \<Rightarrow> 'a option"

definition into :: "'a \<Rightarrow> (json \<Rightarrow> 'a option) \<Rightarrow> 'a decoder" where
  "into zero d raw j = (if raw = [] then Some zero else Option.bind j d)"

definition noOut :: "unit decoder" where
  "noOut raw j = Some ()"

definition mk_request :: "string \<Rightarrow> string \<Rightarrow> (string \<times> string) list \<Rightarrow> string option \<Rightarrow> json option \<Rightarrow> request" where
  "mk_request method pth query ifmatch body =
     \<lparr>rq_method = method, rq_path = (if HasPrefix pth ''/'' then pth else ''/'' @ pth), rq_query = query,
      rq_ifmatch = ifmatch, rq_body = body, rq_auth = []\<rparr>"

definition DoJSON ::
    "Connection \<Rightarrow> string \<Rightarrow> string \<Rightarrow> (string \<times> string) list \<Rightarrow> string option \<Rightarrow> json option \<Rightarrow> 'a decoder \<Rightarrow> (string \<times> 'a) io" where
  "DoJSON c method pth query ifmatch body out =
     andThen (request_loop c (mk_request method pth query ifmatch body) (Suc maxRetries) False None) (\<lambda>(etag, raw, j).
       case out raw j of
         None \<Rightarrow> fail (EMsg (''decode response from '' @ pth))
       | Some x \<Rightarrow> ok (etag, x))"

section \<open>Paging\<close>

text \<open>\<open>nextPageAfter\<close>: \<open>seen\<close> is the set of cursors followed so far, returned with the new one added.\<close>

definition nextPageAfter :: "string option \<Rightarrow> string list \<Rightarrow> (string option \<times> string list) res" where
  "nextPageAfter next seen =
     (case next of
        None \<Rightarrow> Inr (None, seen)
      | Some uri \<Rightarrow>
        (let nextURI = TrimSpace uri
         in case url_Parse nextURI of
              None \<Rightarrow> Inl (EMsg (''parse paging.next URI '' @ fmt_q nextURI))
            | Some u \<Rightarrow>
              (case ParseQuery (u_RawQuery u) of
                 None \<Rightarrow> Inl (EMsg (''parse paging.next query '' @ fmt_q nextURI))
               | Some query \<Rightarrow>
                 (let after = Values_Get query ''after''
                  in if after = [] then Inl (EMsg (''paging.next URI '' @ fmt_q nextURI @ '' has no after cursor''))
                     else if after \<in> set seen then Inl (EMsg (''pagination made no progress: repeated after cursor '' @ fmt_q after))
                     else Inr (Some after, after # seen)))))"

text \<open>The loop of the listings that follow \<^verbatim>\<open>paging.next\<close>: \<open>page\<close> fetches the page after a cursor, \<open>what\<close> is the text put before a
  paging error.\<close>

fun list_pages ::
    "(string \<Rightarrow> ('a list \<times> string option) io) \<Rightarrow> string \<Rightarrow> nat \<Rightarrow> string \<Rightarrow> string list \<Rightarrow> 'a list \<Rightarrow> 'a list io" where
  "list_pages page what 0 after seen all = fail EDiverged"
| "list_pages page what (Suc n) after seen all =
     andThen (page after) (\<lambda>(entries, next).
       case nextPageAfter next seen of
         Inl e \<Rightarrow> fail (EWrap what e [])
       | Inr (None, _) \<Rightarrow> ok (all @ entries)
       | Inr (Some a, seen') \<Rightarrow> list_pages page what n a seen' (all @ entries))"

definition decode_paging :: "(string \<times> json) list \<Rightarrow> string option option" where
  "decode_paging kvs = get_obj (\<lambda>j. Option.bind (obj_fields j) (get_str_ptr ''next'')) ''paging'' kvs"

definition ifMatchHeader :: "string \<Rightarrow> string option" where
  "ifMatchHeader etag = (if etag = [] then None else Some etag)"

end
