(* ===== verification/Trace_Logic.thy ===== *)
theory Trace_Logic
  imports Rest_Client
begin

text \<open>
  What a program adds to the trace.  \<open>emits m Q\<close> says that \<open>m\<close>, from every state, appends events \<open>es\<close> and returns \<open>r\<close> with
  \<open>Q es r\<close>; \<open>sends R m\<close> that every request it sends is a login or satisfies \<open>R\<close>.  Both follow the structure of the program by
  the rules in \<open>io_rules\<close>, down to the rules of \<open>DoJSON\<close> at the end of the theory, which say what a REST call sends and what
  its result tells about the answers of the cluster.
\<close>

definition emits :: "'a prog \<Rightarrow> (event list \<Rightarrow> 'a \<Rightarrow> bool) \<Rightarrow> bool" where
  "emits m Q \<longleftrightarrow>
     (\<forall>w. \<exists>es. w_events (snd (run_state m w)) = w_events w @ es \<and> Q es (fst (run_state m w)))"

lemma run_bind: "run_state (m \<bind> f) w = (case run_state m w of (x, w') \<Rightarrow> run_state (f x) w')"
  by (cases m) (simp add: State_Monad.bind_def split: prod.splits)

lemma run_ret [simp]: "run_state (State_Monad.return x) w = (x, w)"
  by (simp add: State_Monad.return_def)

lemma run_getw [simp]: "run_state (getw f) w = (f w, w)"
  by (simp add: getw_def)

lemma run_putw [simp]: "run_state (putw f) w = ((), f w)"
  by (simp add: putw_def)

lemma run_emit [simp]: "run_state (emit e) w = ((), w\<lparr>w_events := w_events w @ [e]\<rparr>)"
  by (simp add: emit_def)

lemma run_http_Do [simp]:
  "run_state (http_Do c rq) w =
     (c_cluster c (w_events w) rq, w\<lparr>w_events := w_events w @ [Sent rq (c_cluster c (w_events w) rq)]\<rparr>)"
  by (simp add: http_Do_def run_bind Let_def)

lemma run_andThen:
  "run_state (andThen m k) w =
     (case run_state m w of (Inl e, w') \<Rightarrow> (Inl e, w') | (Inr x, w') \<Rightarrow> run_state (k x) w')"
  by (simp add: andThen_def run_bind split: prod.splits sum.splits)

lemmas run_simps = run_bind run_andThen

lemma emitsI: "(\<And>w. \<exists>es. w_events (snd (run_state m w)) = w_events w @ es \<and> Q es (fst (run_state m w))) \<Longrightarrow> emits m Q"
  by (simp add: emits_def)

lemma emitsD:
  assumes "emits m Q" "run_state m w = (r, w')"
  obtains es where "w_events w' = w_events w @ es" "Q es r"
  using assms unfolding emits_def by (metis fst_conv snd_conv)

lemma emits_weaken: "emits m P \<Longrightarrow> (\<And>es r. P es r \<Longrightarrow> Q es r) \<Longrightarrow> emits m Q"
  unfolding emits_def by blast

lemma emits_ret: "Q [] x \<Longrightarrow> emits (ret x) Q"
  by (simp add: emits_def)

lemma emits_bind:
  assumes "emits m P" "\<And>es x. P es x \<Longrightarrow> emits (f x) (\<lambda>es' r. Q (es @ es') r)"
  shows "emits (m \<bind> f) Q"
proof (rule emitsI)
  fix w
  obtain x w1 where m: "run_state m w = (x, w1)" by (cases "run_state m w")
  obtain es where 1: "w_events w1 = w_events w @ es" "P es x" using assms(1) m by (rule emitsD)
  obtain r w2 where f: "run_state (f x) w1 = (r, w2)" by (cases "run_state (f x) w1")
  then obtain es' where "w_events w2 = w_events w1 @ es'" "Q (es @ es') r"
    using emitsD [OF assms(2) [OF 1(2)] f] by blast
  with 1 m f show "\<exists>es. w_events (snd (run_state (m \<bind> f) w)) = w_events w @ es \<and> Q es (fst (run_state (m \<bind> f) w))"
    by (auto simp: run_bind)
qed

lemma emits_andThen:
  assumes "emits m P" "\<And>es e. P es (Inl e) \<Longrightarrow> Q es (Inl e)"
    and "\<And>es x. P es (Inr x) \<Longrightarrow> emits (k x) (\<lambda>es' r. Q (es @ es') r)"
  shows "emits (andThen m k) Q"
  unfolding andThen_def
proof (rule emits_bind [OF assms(1)])
  fix es r assume "P es r"
  then show "emits (case r of Inl e \<Rightarrow> fail e | Inr x \<Rightarrow> k x) (\<lambda>es'. Q (es @ es'))"
    by (cases r) (simp_all add: emits_ret assms(2,3))
qed

lemma emits_wrap: "emits m (\<lambda>es r. Q es (case r of Inl e \<Rightarrow> Inl (EWrap pre e []) | Inr x \<Rightarrow> Inr x)) \<Longrightarrow> emits (wrap pre m) Q"
  unfolding wrap_def by (rule emits_bind, assumption, rule emits_ret, simp)

lemma emits_getw: "(\<And>w. Q [] (f w)) \<Longrightarrow> emits (getw f) Q"
  by (simp add: emits_def)

lemma emits_emit: "Q [e] () \<Longrightarrow> emits (emit e) Q"
  by (simp add: emits_def)

lemma emits_putw: "(\<And>w. w_events (f w) = w_events w) \<Longrightarrow> Q [] () \<Longrightarrow> emits (putw f) Q"
  by (simp add: emits_def)

lemma emits_http_Do: "(\<And>rp. Q [Sent rq rp] rp) \<Longrightarrow> emits (http_Do c rq) Q"
  by (simp add: emits_def)

section \<open>Which requests are sent\<close>

definition is_login :: "request \<Rightarrow> bool" where
  "is_login rq \<longleftrightarrow> rq_method rq = ''POST'' \<and> rq_path rq = login_path"

definition unauth :: "request \<Rightarrow> request" where
  "unauth rq = rq\<lparr>rq_auth := []\<rparr>"

fun ev_ok :: "(request \<Rightarrow> bool) \<Rightarrow> event \<Rightarrow> bool" where
  "ev_ok R (Sent rq rp) \<longleftrightarrow> is_login rq \<or> R (unauth rq)"
| "ev_ok R (Slept d) \<longleftrightarrow> True"

text \<open>All events satisfy \<open>P\<close>; in particular, all requests sent are logins or satisfy \<open>R\<close>.\<close>

definition evs :: "(event \<Rightarrow> bool) \<Rightarrow> 'a prog \<Rightarrow> bool" where
  "evs P m \<longleftrightarrow> emits m (\<lambda>es r. list_all P es)"

abbreviation sends :: "(request \<Rightarrow> bool) \<Rightarrow> 'a prog \<Rightarrow> bool" where
  "sends R m \<equiv> evs (ev_ok R) m"

lemma sendsD:
  assumes "sends R m" "run_state m w = (r, w')"
  obtains es where "w_events w' = w_events w @ es" "list_all (ev_ok R) es"
  by (rule emitsD [OF assms(1) [unfolded evs_def] assms(2)]) (rule that)

lemma ev_ok_mono: "(\<And>rq. R rq \<Longrightarrow> S rq) \<Longrightarrow> ev_ok R e \<Longrightarrow> ev_ok S e"
  by (cases e) auto

lemma sends_mono: "sends R m \<Longrightarrow> (\<And>rq. R rq \<Longrightarrow> S rq) \<Longrightarrow> sends S m"
  unfolding evs_def by (erule emits_weaken) (auto simp: list_all_iff intro: ev_ok_mono)

lemma sends_ret [intro!, io_rules]: "evs P (ret x)"
  unfolding evs_def by (rule emits_ret) simp

lemma sends_bind [io_rules]: "evs P m \<Longrightarrow> (\<And>x. evs P (f x)) \<Longrightarrow> evs P (m \<bind> f)"
  unfolding evs_def by (erule emits_bind, rule emits_weaken, blast) simp

lemma sends_andThen [io_rules]: "evs P m \<Longrightarrow> (\<And>x. evs P (k x)) \<Longrightarrow> evs P (andThen m k)"
  unfolding evs_def by (erule emits_andThen, simp, rule emits_weaken, blast) simp

lemma sends_wrap [io_rules]: "evs P m \<Longrightarrow> evs P (wrap pre m)"
  unfolding evs_def by (rule emits_wrap) simp

lemma sends_getw [io_rules]: "evs P (getw f)"
  unfolding evs_def by (rule emits_getw) simp

lemma ev_ok_Slept [io_rules]: "ev_ok R (Slept d)"
  by simp

lemma sends_emit [io_rules]: "P e \<Longrightarrow> evs P (emit e)"
  unfolding evs_def by (rule emits_emit) simp

lemma sends_putw [io_rules]: "(\<And>w. w_events (f w) = w_events w) \<Longrightarrow> evs P (putw f)"
  unfolding evs_def by (rule emits_putw) simp_all

lemma sends_lift_res [io_rules]: "evs P (lift_res r)"
  unfolding lift_res_def by (rule sends_ret)

lemma sends_http_Do: "is_login rq \<or> R (unauth rq) \<Longrightarrow> sends R (http_Do c rq)"
  unfolding evs_def by (rule emits_http_Do) simp

lemma sends_if [io_rules]: "(b \<Longrightarrow> evs P m) \<Longrightarrow> (\<not> b \<Longrightarrow> evs P n) \<Longrightarrow> evs P (if b then m else n)"
  by simp

lemma sends_case_sum [io_rules]:
  "(\<And>e. r = Inl e \<Longrightarrow> evs P (f e)) \<Longrightarrow> (\<And>x. r = Inr x \<Longrightarrow> evs P (g x)) \<Longrightarrow> evs P (case_sum f g r)"
  by (cases r) simp_all

lemma sends_case_option [io_rules]:
  "(r = None \<Longrightarrow> evs P f) \<Longrightarrow> (\<And>x. r = Some x \<Longrightarrow> evs P (g x)) \<Longrightarrow> evs P (case_option f g r)"
  by (cases r) simp_all

lemma sends_case_prod [io_rules]: "(\<And>a b. p = (a, b) \<Longrightarrow> evs P (f a b)) \<Longrightarrow> evs P (case_prod f p)"
  by (cases p) simp

lemma sends_case_list [io_rules]:
  "(xs = [] \<Longrightarrow> evs P f) \<Longrightarrow> (\<And>y ys. xs = y # ys \<Longrightarrow> evs P (g y ys)) \<Longrightarrow> evs P (case_list f g xs)"
  by (cases xs) simp_all

lemma sends_Let [io_rules]: "(\<And>x. x = t \<Longrightarrow> evs P (f x)) \<Longrightarrow> evs P (Let t f)"
  by simp

lemma sends_case_reply [io_rules]:
  "(\<And>m. evs P (f m)) \<Longrightarrow> (\<And>x. evs P (g x)) \<Longrightarrow> (\<And>a b d e. evs P (h a b d e)) \<Longrightarrow> evs P (case_reply f g h rp)"
  by (cases rp) simp_all

section \<open>What a REST call sends and learns\<close>

lemma is_login_request [simp]: "is_login (login_request c)"
  by (simp add: is_login_def login_request_def)

lemma unauth_simps [simp]: "unauth (rq\<lparr>rq_auth := t\<rparr>) = unauth rq" "unauth (unauth rq) = unauth rq"
  by (simp_all add: unauth_def)

lemma unauth_mk [simp]: "unauth (mk_request m p q h b) = mk_request m p q h b"
  by (simp add: unauth_def mk_request_def)

lemma mk_request_sel [simp]:
  "rq_method (mk_request m p q h b) = m" "rq_query (mk_request m p q h b) = q"
  "rq_ifmatch (mk_request m p q h b) = h" "rq_body (mk_request m p q h b) = b"
  "rq_path (mk_request m p q h b) = (if HasPrefix p ''/'' then p else ''/'' @ p)"
  by (simp_all add: mk_request_def)

lemma sends_doLogin: "sends R (doLogin c)"
  unfolding doLogin_def by (intro io_rules sends_http_Do) simp_all

lemma sends_relogin: "sends R (relogin c)"
  unfolding relogin_def by (intro io_rules sends_doLogin)

lemma sends_authorize: "sends R (authorize c)"
  unfolding authorize_def by (intro io_rules sends_relogin)

lemma sends_sleepBackoff: "sends R (sleepBackoff c n)"
  unfolding sleepBackoff_def by (intro io_rules)

lemma sends_request_loop: "R (unauth rq) \<Longrightarrow> sends R (request_loop c rq n relogged err)"
proof (induction n arbitrary: relogged err)
  case (Suc n)
  then show ?case
    unfolding request_loop.simps
    by (intro io_rules sends_sleepBackoff sends_authorize sends_http_Do sends_relogin) simp_all
qed (simp only: request_loop.simps sends_ret)

lemma sends_DoJSON: "R (mk_request m p q h b) \<Longrightarrow> sends R (DoJSON c m p q h b out)"
  unfolding DoJSON_def by (intro io_rules sends_request_loop) simp

text \<open>\<open>answered rq es etag raw j\<close>: the last event is an answer below 400 to \<open>rq\<close>.  \<open>api_seen rq es e\<close>: an API error \<open>e\<close>
  is the reading of an answer from 400 on to \<open>rq\<close>, or to a login on the way, or says that no password is configured.\<close>

definition answered :: "request \<Rightarrow> event list \<Rightarrow> string \<Rightarrow> string \<Rightarrow> json option \<Rightarrow> bool" where
  "answered rq es etag raw j \<longleftrightarrow>
     (\<exists>es0 rq' st. es = es0 @ [Sent rq' (Http st etag raw j)] \<and> unauth rq' = rq \<and> st < 400)"

definition api_seen :: "request \<Rightarrow> event list \<Rightarrow> go_error \<Rightarrow> bool" where
  "api_seen rq es e \<longleftrightarrow>
     (\<forall>a. AsAPIError e = Some a \<longrightarrow>
        (\<exists>rq' st etag raw j. Sent rq' (Http st etag raw j) \<in> set es \<and> (unauth rq' = rq \<or> is_login rq') \<and>
            a = parseAPIError st raw j \<and> 400 \<le> st)
        \<or> ae_StatusCode a = 401 \<and> ae_ErrorClass a = ErrClassAuthInvalidCreds)"

fun is_call :: "event \<Rightarrow> bool" where
  "is_call (Sent rq rp) \<longleftrightarrow> \<not> is_login rq"
| "is_call (Slept d) \<longleftrightarrow> False"

text \<open>A request that may have taken effect: it was sent and the answer is not a 401.\<close>

fun is_risky :: "event \<Rightarrow> bool" where
  "is_risky (Sent rq (Http st _ _ _)) \<longleftrightarrow> \<not> is_login rq \<and> st \<noteq> 401"
| "is_risky (Sent rq _) \<longleftrightarrow> \<not> is_login rq"
| "is_risky (Slept d) \<longleftrightarrow> False"

definition calls :: "event list \<Rightarrow> nat" where
  "calls es = length (filter is_call es)"

definition risky :: "event list \<Rightarrow> nat" where
  "risky es = length (filter is_risky es)"

lemma calls_simps [simp]: "calls [] = 0" "calls (e # es) = (if is_call e then 1 else 0) + calls es"
    "calls (es @ es') = calls es + calls es'"
  by (simp_all add: calls_def)

lemma risky_simps [simp]: "risky [] = 0" "risky (e # es) = (if is_risky e then 1 else 0) + risky es"
    "risky (es @ es') = risky es + risky es'"
  by (simp_all add: risky_def)

definition quiet :: "event list \<Rightarrow> bool" where
  "quiet es \<longleftrightarrow> list_all (ev_ok (\<lambda>_. False)) es"

lemma ev_ok_False: "ev_ok (\<lambda>_. False) e \<Longrightarrow> ev_ok R e \<and> \<not> is_call e \<and> \<not> is_risky e"
proof (cases e)
  case (Sent rq rp)
  then show "ev_ok (\<lambda>_. False) e \<Longrightarrow> ?thesis" by (cases rp) auto
qed auto

lemma quiet_facts: "quiet es \<Longrightarrow> list_all (ev_ok R) es \<and> calls es = 0 \<and> risky es = 0"
  by (induction es) (auto simp: quiet_def dest: ev_ok_False)

lemma quiet_simps [simp]: "quiet []" "quiet (es @ es') \<longleftrightarrow> quiet es \<and> quiet es'"
  by (simp_all add: quiet_def)

lemma api_seen_mono: "api_seen rq es e \<Longrightarrow> set es \<subseteq> set es' \<Longrightarrow> api_seen rq es' e"
  unfolding api_seen_def by blast

lemma api_seen_no_api [simp]: "AsAPIError e = None \<Longrightarrow> api_seen rq es e"
  by (simp add: api_seen_def)

lemma emits_doLogin: "emits (doLogin c) (\<lambda>es r. quiet es \<and> (\<forall>e. r = Inl e \<longrightarrow> api_seen rq es e))"
  unfolding doLogin_def
proof (rule emits_bind [where P = "\<lambda>es rp. es = [Sent (login_request c) rp]"], rule emits_http_Do, rule refl)
  fix es rp assume es: "es = [Sent (login_request c) rp]"
  have q: "quiet es" using es by (simp add: quiet_def)
  show "emits (case rp of NetErr m \<Rightarrow> fail (EWrap ''login: '' (EMsg m) []) | CtxDone x \<Rightarrow> fail (EWrap ''login: '' (ECtx x) [])
      | Http st etag raw j \<Rightarrow> if 400 \<le> st then fail (EApi (parseAPIError st raw j))
          else case decode_login j of None \<Rightarrow> fail (EMsg ''decode login'')
            | Some tok \<Rightarrow> if tok = [] then fail (EMsg ''login returned empty bearer_token'')
                else putw (w_bearer_update (\<lambda>_. tok)) \<bind> (\<lambda>_. ok ()))
      (\<lambda>es' r. quiet (es @ es') \<and> (\<forall>e. r = Inl e \<longrightarrow> api_seen rq (es @ es') e))"
    (is "emits ?m ?Q")
  proof (cases rp)
    case (Http st etag raw j)
    show ?thesis
    proof (cases "400 \<le> st")
      case True
      have "api_seen rq (es @ []) (EApi (parseAPIError st raw j))"
        using True Http es unfolding api_seen_def by (auto intro!: exI [of _ st] exI [of _ raw])
      with True Http q show ?thesis by (simp add: emits_ret)
    next
      case False
      have "emits (putw (w_bearer_update (\<lambda>_. tok)) \<bind> (\<lambda>_. ok ())) ?Q" for tok
        by (rule emits_bind [where P = "\<lambda>es _. es = []"], rule emits_putw) (simp_all add: emits_ret q)
      with False Http q show ?thesis by (simp add: emits_ret split: option.split)
    qed
  qed (simp_all add: emits_ret q)
qed

lemma emits_relogin: "emits (relogin c) (\<lambda>es r. quiet es \<and> (\<forall>e. r = Inl e \<longrightarrow> api_seen rq es e))"
  unfolding relogin_def using emits_doLogin [of c rq]
  by (auto intro!: emits_ret simp: api_seen_def)

lemma emits_authorize: "emits (authorize c) (\<lambda>es r. quiet es \<and> (\<forall>e. r = Inl e \<longrightarrow> api_seen rq es e))"
  unfolding authorize_def
proof (rule emits_bind [where P = "\<lambda>es _. es = []"], rule emits_getw, simp)
  fix es :: "event list" and tok :: string assume es: "es = []"
  let ?Q = "\<lambda>es r. quiet es \<and> (\<forall>e. r = Inl e \<longrightarrow> api_seen rq es e)"
  have "emits (andThen (relogin c) (\<lambda>_. getw w_bearer \<bind> ok)) ?Q"
    by (rule emits_andThen [OF emits_relogin [of c rq]], simp)
      (rule emits_bind [where P = "\<lambda>es _. es = []"], rule emits_getw, simp, rule emits_ret, simp)
  then show "emits (if tok = [] then andThen (relogin c) (\<lambda>_. getw w_bearer \<bind> ok) else ok tok) (\<lambda>es'. ?Q (es @ es'))"
    using es by (simp add: emits_ret)
qed

lemma emits_sleepBackoff: "emits (sleepBackoff c n) (\<lambda>es r. quiet es \<and> (\<forall>e. r = Inl e \<longrightarrow> AsAPIError e = None))"
  unfolding sleepBackoff_def
  by (rule emits_bind [where P = "\<lambda>es _. es = []"], rule emits_getw, simp)
    (auto split: option.split intro!: emits_ret emits_bind [OF emits_emit [where Q = "\<lambda>es _. quiet es"]] simp: quiet_def)

lemma answered_append: "answered rq es etag raw j \<Longrightarrow> answered rq (es' @ es) etag raw j"
  unfolding answered_def by (metis append.assoc)

text \<open>The contract of the loop with \<open>n\<close> attempts left.\<close>

definition loop_post ::
    "request \<Rightarrow> nat \<Rightarrow> bool \<Rightarrow> go_error option \<Rightarrow> event list \<Rightarrow> (string \<times> string \<times> json option) res \<Rightarrow> bool" where
  "loop_post rq n relogged lastErr es r \<longleftrightarrow>
     list_all (ev_ok ((=) (unauth rq))) es \<and> calls es \<le> n \<and>
     (\<not> replaySafeMethod (rq_method rq) \<longrightarrow> risky es \<le> 1 \<and> calls es \<le> (if relogged then 1 else 2)) \<and>
     (case r of
        Inr (etag, raw, j) \<Rightarrow> answered (unauth rq) es etag raw j
      | Inl e \<Rightarrow> lastErr = Some e \<or> api_seen (unauth rq) es e)"

lemma loop_post_quiet: "quiet es \<Longrightarrow> api_seen (unauth rq) es e \<Longrightarrow> loop_post rq n b l es (Inl e)"
  using quiet_facts [of es] by (simp add: loop_post_def)

lemma loop_post_stop:
  assumes "quiet es" "unauth rq' = unauth rq" "api_seen (unauth rq) (es @ [Sent rq' rp]) e"
  shows "loop_post rq (Suc n) b l (es @ [Sent rq' rp]) (Inl e)"
  using quiet_facts [OF assms(1)] assms(2,3) by (simp add: loop_post_def)

lemma loop_post_more:
  assumes "quiet es" "quiet es'" "unauth rq' = unauth rq" "loop_post rq n b' (Some e) es2 r"
    and "api_seen (unauth rq) (es @ [Sent rq' rp]) e"
    and "replaySafeMethod (rq_method rq) \<or> (\<not> b \<and> b' \<and> \<not> is_risky (Sent rq' rp))"
  shows "loop_post rq (Suc n) b l (es @ Sent rq' rp # es' @ es2) r"
proof -
  have "case r of
        Inr (etag, raw, j) \<Rightarrow> answered (unauth rq) (es @ Sent rq' rp # es' @ es2) etag raw j
      | Inl e' \<Rightarrow> l = Some e' \<or> api_seen (unauth rq) (es @ Sent rq' rp # es' @ es2) e'"
  proof (cases r)
    case (Inl e')
    then have "e' = e \<or> api_seen (unauth rq) es2 e'" using assms(4) by (auto simp: loop_post_def)
    then show ?thesis
      using Inl api_seen_mono [OF assms(5), of "es @ Sent rq' rp # es' @ es2"]
        api_seen_mono [of "unauth rq" es2 e' "es @ Sent rq' rp # es' @ es2"] by fastforce
  next
    case (Inr x)
    obtain etag raw j where x: "x = (etag, raw, j)" by (cases x)
    then have "answered (unauth rq) es2 etag raw j" using Inr assms(4) by (simp add: loop_post_def)
    then show ?thesis using Inr x answered_append [of _ es2 etag raw j "es @ Sent rq' rp # es'"] by simp
  qed
  then show ?thesis
    using quiet_facts [OF assms(1)] quiet_facts [OF assms(2)] assms(3,4,6)
    by (auto simp: loop_post_def)
qed

lemma api_seen_here:
  "unauth rq' = rq \<Longrightarrow> 400 \<le> st \<Longrightarrow> api_seen rq (es @ Sent rq' (Http st etag raw j) # es') (EApi (parseAPIError st raw j))"
  unfolding api_seen_def AsAPIError.simps option.inject
  by (intro allI impI disjI1 exI [of _ rq'] exI [of _ st] exI [of _ etag] exI [of _ raw] exI [of _ j]) simp

lemma emits_request_loop: "emits (request_loop c rq n relogged lastErr) (loop_post rq n relogged lastErr)"
proof (induction n arbitrary: relogged lastErr)
  case 0
  show ?case by (auto simp: loop_post_def intro!: emits_ret split: option.split)
next
  case (Suc n)
  let ?a = "maxRetries - n"
  let ?Q = "loop_post rq (Suc n) relogged lastErr"
  have step: "emits (case rp of
           CtxDone x \<Rightarrow> fail (ECtx x)
         | NetErr m \<Rightarrow>
             (let e = EWrap ''qumulo request: '' (EMsg m) []
              in if \<not> replaySafeMethod (rq_method rq) then fail e else request_loop c rq n relogged (Some e))
         | Http st etag raw j \<Rightarrow>
             (let e = EApi (parseAPIError st raw j)
              in if st = 401 \<and> HasPassword (c_creds c) \<and> \<not> relogged then
                   andThen (relogin c) (\<lambda>_. request_loop c rq n True (Some e))
                 else if st = 429 \<or> st \<ge> 500 then
                   (if \<not> replaySafeMethod (rq_method rq) then fail e else request_loop c rq n relogged (Some e))
                 else if st \<ge> 400 then fail e
                 else ok (etag, raw, j))) (\<lambda>es' r. ?Q (es @ Sent rq' rp # es') r)"
    (is "emits ?m _") if q: "quiet es" and u: "unauth rq' = unauth rq" for es rq' rp
  proof (cases rp)
    case (NetErr m)
    let ?e = "EWrap ''qumulo request: '' (EMsg m) []"
    have "emits (request_loop c rq n relogged (Some ?e)) (\<lambda>es' r. ?Q (es @ Sent rq' rp # es') r)"
      if "replaySafeMethod (rq_method rq)"
      by (rule emits_weaken [OF Suc.IH])
        (use loop_post_more [OF q, of "[]" rq' rq n relogged ?e] u that in simp)
    then show ?thesis using NetErr loop_post_stop [OF q u] by (simp add: Let_def emits_ret)
  next
    case (CtxDone x)
    then show ?thesis using loop_post_stop [OF q u] by (simp add: emits_ret)
  next
    case (Http st etag raw j)
    let ?e = "EApi (parseAPIError st raw j)"
    have seen: "400 \<le> st \<Longrightarrow> api_seen (unauth rq) (es @ [Sent rq' rp]) ?e"
      using api_seen_here [OF u, of st es etag raw j "[]"] Http by simp
    have relog: "emits (andThen (relogin c) (\<lambda>_. request_loop c rq n True (Some ?e)))
        (\<lambda>es' r. ?Q (es @ Sent rq' rp # es') r)" if "st = 401" "\<not> relogged"
    proof (rule emits_andThen [OF emits_relogin [of c "unauth rq"]])
      fix es' e assume a: "quiet es' \<and> (\<forall>e'. Inl e = (Inl e' :: unit res) \<longrightarrow> api_seen (unauth rq) es' e')"
      show "?Q (es @ Sent rq' rp # es') (Inl e)"
        using quiet_facts [OF q] quiet_facts [of es'] a u that
          api_seen_mono [of "unauth rq" es' e "es @ Sent rq' rp # es'"]
        by (auto simp: loop_post_def)
    next
      fix es' x assume a: "quiet es' \<and> (\<forall>e'. Inr x = (Inl e' :: unit res) \<longrightarrow> api_seen (unauth rq) es' e')"
      show "emits (request_loop c rq n True (Some ?e)) (\<lambda>es'' r. ?Q (es @ Sent rq' rp # es' @ es'') r)"
        by (rule emits_weaken [OF Suc.IH]) (use loop_post_more [OF q _ u, of es' n True ?e] a that seen Http in simp)
    qed
    have again: "emits (request_loop c rq n relogged (Some ?e)) (\<lambda>es' r. ?Q (es @ Sent rq' rp # es') r)"
      if "replaySafeMethod (rq_method rq)" "400 \<le> st"
      by (rule emits_weaken [OF Suc.IH])
        (use loop_post_more [OF q, of "[]" rq' rq n relogged ?e] u that seen in simp)
    have stop: "emits (fail ?e) (\<lambda>es' r. ?Q (es @ Sent rq' rp # es') r)" if "400 \<le> st"
      using loop_post_stop [OF q u] seen [OF that] by (simp add: emits_ret)
    have good: "emits (ok (etag, raw, j)) (\<lambda>es' r. ?Q (es @ Sent rq' rp # es') r)" if "st < 400"
      using quiet_facts [OF q] u that Http by (intro emits_ret) (auto simp: loop_post_def answered_def)
    show ?thesis using Http relog again stop good by (auto simp: Let_def)
  qed
  have http: "emits (do { rp \<leftarrow> http_Do c (rq\<lparr>rq_auth := tok\<rparr>);
         case rp of
           CtxDone x \<Rightarrow> fail (ECtx x)
         | NetErr m \<Rightarrow>
             (let e = EWrap ''qumulo request: '' (EMsg m) []
              in if \<not> replaySafeMethod (rq_method rq) then fail e else request_loop c rq n relogged (Some e))
         | Http st etag raw j \<Rightarrow>
             (let e = EApi (parseAPIError st raw j)
              in if st = 401 \<and> HasPassword (c_creds c) \<and> \<not> relogged then
                   andThen (relogin c) (\<lambda>_. request_loop c rq n True (Some e))
                 else if st = 429 \<or> st \<ge> 500 then
                   (if \<not> replaySafeMethod (rq_method rq) then fail e else request_loop c rq n relogged (Some e))
                 else if st \<ge> 400 then fail e
                 else ok (etag, raw, j)) }) (\<lambda>es' r. ?Q (es @ es') r)" if "quiet es" for es tok
    by (rule emits_bind [where P = "\<lambda>es rp. es = [Sent (rq\<lparr>rq_auth := tok\<rparr>) rp]"], rule emits_http_Do, rule refl)
      (use step [OF that, of "rq\<lparr>rq_auth := tok\<rparr>"] in simp)
  have sleep: "emits (if ?a > 0 then sleepBackoff c ?a else ok ())
      (\<lambda>es r. quiet es \<and> (\<forall>e. r = Inl e \<longrightarrow> AsAPIError e = None))"
    using emits_sleepBackoff [of c ?a] by (simp add: emits_ret)
  show ?case
    unfolding request_loop.simps Let_def [of ?a]
    apply (rule emits_andThen [OF sleep])
     apply (simp add: loop_post_quiet)
    apply (rule emits_andThen [OF emits_authorize [of c "unauth rq"]])
    subgoal for es x es' e
      using api_seen_mono [of "unauth rq" es' e "es @ es'"] loop_post_quiet [of "es @ es'"] by simp
    subgoal for es x es' tok
      using http [of "es @ es'" tok] by simp
    done
qed

text \<open>The contract of \<open>DoJSON\<close>.\<close>

definition json_post :: "request \<Rightarrow> 'a decoder \<Rightarrow> event list \<Rightarrow> (string \<times> 'a) res \<Rightarrow> bool" where
  "json_post rq out es r \<longleftrightarrow>
     list_all (ev_ok ((=) rq)) es \<and>
     (case r of
        Inr (etag, x) \<Rightarrow> \<exists>raw j. answered rq es etag raw j \<and> out raw j = Some x
      | Inl e \<Rightarrow> api_seen rq es e)"

lemma emits_DoJSON_loop:
  "emits (DoJSON c m p q h b out)
     (\<lambda>es r. json_post (mk_request m p q h b) out es r \<and> calls es \<le> 6 \<and>
             (\<not> replaySafeMethod m \<longrightarrow> risky es \<le> 1 \<and> calls es \<le> 2))"
  unfolding DoJSON_def
proof (rule emits_andThen [OF emits_request_loop])
  fix es e
  assume "loop_post (mk_request m p q h b) (Suc maxRetries) False None es (Inl e)"
  then show "json_post (mk_request m p q h b) out es (Inl e) \<and> calls es \<le> 6 \<and>
             (\<not> replaySafeMethod m \<longrightarrow> risky es \<le> 1 \<and> calls es \<le> 2)"
    by (simp add: loop_post_def json_post_def maxRetries_def)
next
  fix es x
  assume a: "loop_post (mk_request m p q h b) (Suc maxRetries) False None es (Inr x)"
  obtain etag raw j where x: "x = (etag, raw, j)" by (cases x)
  have "json_post (mk_request m p q h b) out es (Inr (etag, y))" if "out raw j = Some y" for y
    using a x that unfolding loop_post_def json_post_def by auto
  moreover have "json_post (mk_request m p q h b) out es (Inl (EMsg t))" for t
    using a x by (simp add: loop_post_def json_post_def)
  ultimately show "emits (case x of (etag, raw, j) \<Rightarrow>
        case out raw j of None \<Rightarrow> fail (EMsg (''decode response from '' @ p)) | Some x \<Rightarrow> ok (etag, x))
      (\<lambda>es' r. json_post (mk_request m p q h b) out (es @ es') r \<and> calls (es @ es') \<le> 6 \<and>
             (\<not> replaySafeMethod m \<longrightarrow> risky (es @ es') \<le> 1 \<and> calls (es @ es') \<le> 2))"
    using a x by (auto simp: loop_post_def maxRetries_def intro!: emits_ret split: option.split)
qed

lemma emits_DoJSON: "emits (DoJSON c m p q h b out) (json_post (mk_request m p q h b) out)"
  by (rule emits_weaken [OF emits_DoJSON_loop]) simp

lemma json_post_InrE:
  assumes "json_post rq out es (Inr (etag, x))"
  obtains raw j where "answered rq es etag raw j" "out raw j = Some x"
  using assms by (auto simp: json_post_def)

text \<open>An answer seen somewhere in a trace.\<close>

definition seen :: "request \<Rightarrow> event list \<Rightarrow> string \<Rightarrow> string \<Rightarrow> json option \<Rightarrow> bool" where
  "seen rq es etag raw j \<longleftrightarrow>
     (\<exists>rq' st. Sent rq' (Http st etag raw j) \<in> set es \<and> unauth rq' = rq \<and> st < 400)"

lemma answered_seen: "answered rq es etag raw j \<Longrightarrow> seen rq es etag raw j"
  unfolding answered_def seen_def by (elim exE conjE, intro exI conjI) auto

definition was_seen :: "request \<Rightarrow> event list \<Rightarrow> bool" where
  "was_seen rq es \<longleftrightarrow> (\<exists>etag raw j. seen rq es etag raw j)"

lemma answered_was_seen: "answered rq es etag raw j \<Longrightarrow> was_seen rq es"
  using answered_seen unfolding was_seen_def by blast

lemma was_seen_append: "was_seen rq es' \<Longrightarrow> was_seen rq (es @ es')"
  unfolding was_seen_def seen_def by fastforce

lemma seen_mono: "seen rq es etag raw j \<Longrightarrow> set es \<subseteq> set es' \<Longrightarrow> seen rq es' etag raw j"
  unfolding seen_def by blast

text \<open>An answer that classifies as not found, to \<open>rq\<close> or to a login on its way.\<close>

definition not_found_answer :: "request \<Rightarrow> event list \<Rightarrow> bool" where
  "not_found_answer rq es \<longleftrightarrow>
     (\<exists>rq' st etag raw j. Sent rq' (Http st etag raw j) \<in> set es \<and> (unauth rq' = rq \<or> is_login rq') \<and>
        400 \<le> st \<and> IsNotFound (parseAPIError st raw j))"

lemma not_found_seen:
  assumes "api_seen rq es e" "AsAPIError e = Some a" "IsNotFound a"
  shows "not_found_answer rq es"
proof -
  have "\<not> (ae_StatusCode a = 401 \<and> ae_ErrorClass a = ErrClassAuthInvalidCreds)"
    using assms(3) by (auto simp: IsNotFound_def err_class_defs)
  then show ?thesis using assms unfolding api_seen_def not_found_answer_def by blast
qed

lemma not_found_mono: "not_found_answer rq es \<Longrightarrow> set es \<subseteq> set es' \<Longrightarrow> not_found_answer rq es'"
  unfolding not_found_answer_def by blast

definition exists_answer :: "request \<Rightarrow> event list \<Rightarrow> bool" where
  "exists_answer rq es \<longleftrightarrow>
     (\<exists>rq' st etag raw j. Sent rq' (Http st etag raw j) \<in> set es \<and> (unauth rq' = rq \<or> is_login rq') \<and>
        400 \<le> st \<and> IsAlreadyExists (parseAPIError st raw j))"

lemma exists_seen:
  assumes "api_seen rq es e" "isAPIAlreadyExists e"
  shows "exists_answer rq es"
proof -
  obtain a where a: "AsAPIError e = Some a" "IsAlreadyExists a"
    using assms(2) by (auto simp: isAPIAlreadyExists_def split: option.splits)
  have "\<not> (ae_StatusCode a = 401 \<and> ae_ErrorClass a = ErrClassAuthInvalidCreds)"
    using a(2) by (auto simp: IsAlreadyExists_def err_class_defs)
  then show ?thesis using assms a unfolding api_seen_def exists_answer_def by blast
qed

lemma not_found_seen': "api_seen rq es e \<Longrightarrow> isAPINotFound e \<Longrightarrow> not_found_answer rq es"
  using not_found_seen by (auto simp: isAPINotFound_def split: option.splits)

text \<open>A statement about success only.\<close>

definition on_ok :: "(event list \<Rightarrow> 'a \<Rightarrow> bool) \<Rightarrow> event list \<Rightarrow> 'a res \<Rightarrow> bool" where
  "on_ok P es r \<longleftrightarrow> (\<forall>x. r = Inr x \<longrightarrow> P es x)"

lemma on_ok_simps [simp]: "on_ok P es (Inl e)" "on_ok P es (Inr x) \<longleftrightarrow> P es x"
  by (simp_all add: on_ok_def)

lemma emits_on_okD:
  assumes "emits m (on_ok P)" "run_state m w = (Inr x, w')"
  shows "\<exists>es. w_events w' = w_events w @ es \<and> P es x"
  using emitsD [OF assms] by auto

text \<open>A call whose answer is decoded and passed on: what holds of the rest holds after the answer.\<close>

lemma emits_call:
  assumes "\<And>es e. api_seen (mk_request m p q h b) es e \<Longrightarrow> Q es (Inl e)"
    and "\<And>es etag x raw j. answered (mk_request m p q h b) es etag raw j \<Longrightarrow> out raw j = Some x \<Longrightarrow>
           emits (k (etag, x)) (\<lambda>es' r. Q (es @ es') r)"
  shows "emits (andThen (DoJSON c m p q h b out) k) Q"
proof (rule emits_andThen [OF emits_DoJSON])
  fix es x assume "json_post (mk_request m p q h b) out es (Inr x)"
  then show "emits (k x) (\<lambda>es' r. Q (es @ es') r)"
    using assms(2) by (cases x) (auto elim!: json_post_InrE)
qed (simp add: json_post_def assms(1))

text \<open>The success of a read-modify-write loop: the events end with a reading \<open>x\<close> that needs no change, or with the accepted write
  that belongs to the reading just before it.\<close>

definition read_then_write ::
    "(event list \<Rightarrow> 'a \<Rightarrow> bool) \<Rightarrow> ('a \<Rightarrow> bool) \<Rightarrow> (event list \<Rightarrow> 'a \<Rightarrow> bool) \<Rightarrow> event list \<Rightarrow> bool" where
  "read_then_write rd settled wr es \<longleftrightarrow>
     (\<exists>es0 es1 es2 x. es = es0 @ es1 @ es2 \<and> rd es1 x \<and> (settled x \<and> es2 = [] \<or> wr es2 x))"

lemma read_settled: "rd es x \<Longrightarrow> settled x \<Longrightarrow> read_then_write rd settled wr es"
  unfolding read_then_write_def by (intro exI [of _ "[]"] exI [of _ es] exI [of _ x]) simp

lemma read_write: "rd es x \<Longrightarrow> wr es' x \<Longrightarrow> read_then_write rd settled wr (es @ es')"
  unfolding read_then_write_def by (intro exI [of _ "[]"] exI [of _ es] exI [of _ es'] exI [of _ x]) simp

lemma read_then_write_append: "read_then_write rd settled wr es \<Longrightarrow> read_then_write rd settled wr (es' @ es)"
  unfolding read_then_write_def by (metis append.assoc)

definition accepted :: "request \<Rightarrow> event list \<Rightarrow> bool" where
  "accepted rq es \<longleftrightarrow> (\<exists>etag raw j. answered rq es etag raw j)"

lemma answered_accepted: "answered rq es etag raw j \<Longrightarrow> accepted rq es"
  unfolding accepted_def by blast

text \<open>The same for a call whose errors are looked at.\<close>

lemma emits_attempt:
  assumes "\<And>es e. api_seen (mk_request m p q h b) es e \<Longrightarrow> emits (k (Inl e)) (\<lambda>es' r. Q (es @ es') r)"
    and "\<And>es etag x raw j. answered (mk_request m p q h b) es etag raw j \<Longrightarrow> out raw j = Some x \<Longrightarrow>
           emits (k (Inr (etag, x))) (\<lambda>es' r. Q (es @ es') r)"
  shows "emits (DoJSON c m p q h b out \<bind> k) Q"
proof (rule emits_bind [OF emits_DoJSON])
  fix es x assume p: "json_post (mk_request m p q h b) out es x"
  show "emits (k x) (\<lambda>es' r. Q (es @ es') r)"
  proof (cases x)
    case (Inl e)
    then show ?thesis using p assms(1) by (simp add: json_post_def)
  next
    case (Inr y)
    then show ?thesis using p assms(2) by (cases y) (auto elim!: json_post_InrE)
  qed
qed

lemma emits_on_ok_wrap: "emits m (on_ok P) \<Longrightarrow> emits (wrap pre m) (on_ok P)"
  by (rule emits_wrap, erule emits_weaken) (simp add: on_ok_def split: sum.split)

lemma emits_on_ok_andThen:
  assumes "emits m (on_ok P)" "\<And>es x. P es x \<Longrightarrow> emits (k x) (on_ok (\<lambda>es'. Q (es @ es')))"
  shows "emits (andThen m k) (on_ok Q)"
  by (rule emits_andThen [OF assms(1)], simp, rule emits_weaken, rule assms(2), simp) (simp add: on_ok_def)

lemma emits_fail: "emits (fail e) (on_ok Q)"
  by (rule emits_ret) simp

lemma emits_ok: "Q [] x \<Longrightarrow> emits (ok x) (on_ok Q)"
  by (rule emits_ret) simp

lemma emits_bind_ok:
  assumes "emits m P" "\<And>es x. P es x \<Longrightarrow> emits (f x) (on_ok (\<lambda>es'. Q (es @ es')))"
  shows "emits (m \<bind> f) (on_ok Q)"
  by (rule emits_bind [OF assms(1)], rule emits_weaken, rule assms(2)) (simp_all add: on_ok_def)

lemma emits_andThen_ok:
  assumes "emits m P" "\<And>es x. P es (Inr x) \<Longrightarrow> emits (k x) (on_ok (\<lambda>es'. Q (es @ es')))"
  shows "emits (andThen m k) (on_ok Q)"
  by (rule emits_andThen [OF assms(1)], simp, rule emits_weaken, rule assms(2)) (simp_all add: on_ok_def)

lemma emits_attempt_ok:
  assumes "\<And>es e. api_seen (mk_request m p q h b) es e \<Longrightarrow> emits (k (Inl e)) (on_ok (\<lambda>es'. Q (es @ es')))"
    and "\<And>es etag x raw j. answered (mk_request m p q h b) es etag raw j \<Longrightarrow> out raw j = Some x \<Longrightarrow>
           emits (k (Inr (etag, x))) (on_ok (\<lambda>es'. Q (es @ es')))"
  shows "emits (DoJSON c m p q h b out \<bind> k) (on_ok Q)"
  by (rule emits_attempt; rule emits_weaken, erule assms, (assumption)?, simp add: on_ok_def)

lemma emits_call_ok:
  assumes "\<And>es etag x raw j. answered (mk_request m p q h b) es etag raw j \<Longrightarrow> out raw j = Some x \<Longrightarrow>
           emits (k (etag, x)) (on_ok (\<lambda>es'. Q (es @ es')))"
  shows "emits (andThen (DoJSON c m p q h b out) k) (on_ok Q)"
  by (rule emits_call, simp, rule emits_weaken, erule assms, assumption, simp add: on_ok_def)

lemma emits_if: "(b \<Longrightarrow> emits m Q) \<Longrightarrow> (\<not> b \<Longrightarrow> emits n Q) \<Longrightarrow> emits (if b then m else n) Q"
  by simp

lemma emits_case_sum:
  "(\<And>e. r = Inl e \<Longrightarrow> emits (f e) Q) \<Longrightarrow> (\<And>x. r = Inr x \<Longrightarrow> emits (g x) Q) \<Longrightarrow> emits (case_sum f g r) Q"
  by (cases r) simp_all

lemma emits_case_option:
  "(r = None \<Longrightarrow> emits f Q) \<Longrightarrow> (\<And>x. r = Some x \<Longrightarrow> emits (g x) Q) \<Longrightarrow> emits (case_option f g r) Q"
  by (cases r) simp_all

lemma emits_any: "emits m P \<Longrightarrow> emits m (\<lambda>_ _. True)"
  by (erule emits_weaken) simp

text \<open>A predicate on requests that lets every reading pass, and the paged listings, which only read.\<close>

definition reads :: "(request \<Rightarrow> bool) \<Rightarrow> bool" where
  "reads R \<longleftrightarrow> (\<forall>rq. rq_method rq = ''GET'' \<longrightarrow> R rq)"

lemma readsD: "reads R \<Longrightarrow> R (mk_request ''GET'' p q h b)"
  by (simp add: reads_def)

lemma sends_GET: "reads R \<Longrightarrow> sends R (DoJSON c ''GET'' p q h b out)"
  by (rule sends_DoJSON) (simp add: reads_def)

lemma sends_list_pages: "(\<And>after. sends R (page after)) \<Longrightarrow> sends R (list_pages page what n after visited all)"
proof (induction n arbitrary: after visited all)
  case (Suc n)
  then show ?case unfolding list_pages.simps by (intro io_rules) simp_all
qed (simp only: list_pages.simps sends_ret)

section \<open>Answers come from the cluster, and loops end\<close>

fun from_cluster :: "Connection \<Rightarrow> event \<Rightarrow> bool" where
  "from_cluster c (Sent rq rp) \<longleftrightarrow> (\<exists>h. rp = c_cluster c h rq)"
| "from_cluster c (Slept d) \<longleftrightarrow> True"

lemma genuine_http_Do: "evs (from_cluster c) (http_Do c rq)"
  by (auto simp: evs_def emits_def)

lemma genuine_doLogin: "evs (from_cluster c) (doLogin c)"
  unfolding doLogin_def by (intro io_rules genuine_http_Do) simp_all

lemma genuine_relogin: "evs (from_cluster c) (relogin c)"
  unfolding relogin_def by (intro io_rules genuine_doLogin)

lemma genuine_authorize: "evs (from_cluster c) (authorize c)"
  unfolding authorize_def by (intro io_rules genuine_relogin)

lemma genuine_sleepBackoff: "evs (from_cluster c) (sleepBackoff c n)"
  unfolding sleepBackoff_def by (intro io_rules) simp

lemma genuine_request_loop: "evs (from_cluster c) (request_loop c rq n relogged err)"
proof (induction n arbitrary: relogged err)
  case (Suc n)
  then show ?case
    unfolding request_loop.simps
    by (intro io_rules genuine_sleepBackoff genuine_authorize genuine_http_Do genuine_relogin)
qed (simp only: request_loop.simps sends_ret)

lemma genuine_DoJSON: "evs (from_cluster c) (DoJSON c m p q h b out)"
  unfolding DoJSON_def by (intro io_rules genuine_request_loop)

lemma emits_conj:
  assumes "emits m P" "emits m Q"
  shows "emits m (\<lambda>es r. P es r \<and> Q es r)"
  unfolding emits_def
proof
  fix w
  from assms obtain es es' where "w_events (snd (run_state m w)) = w_events w @ es" "P es (fst (run_state m w))"
    "w_events (snd (run_state m w)) = w_events w @ es'" "Q es' (fst (run_state m w))"
    unfolding emits_def by meson
  then show "\<exists>es. w_events (snd (run_state m w)) = w_events w @ es \<and> P es (fst (run_state m w)) \<and> Q es (fst (run_state m w))"
    by auto
qed

text \<open>A loop ran out of fuel somewhere below.\<close>

fun diverged :: "go_error \<Rightarrow> bool" where
  "diverged EDiverged \<longleftrightarrow> True"
| "diverged (EWrap pre e post) \<longleftrightarrow> diverged e"
| "diverged _ \<longleftrightarrow> False"

definition returns :: "'a io \<Rightarrow> bool" where
  "returns m \<longleftrightarrow> emits m (\<lambda>_ r. \<forall>e. r = Inl e \<longrightarrow> \<not> diverged e)"

lemma returns_ok: "returns (ok x)"
  by (simp add: returns_def emits_ret)

lemma returns_fail: "\<not> diverged e \<Longrightarrow> returns (fail e)"
  by (simp add: returns_def emits_ret)

lemma returns_andThen: "returns m \<Longrightarrow> (\<And>x. returns (k x)) \<Longrightarrow> returns (andThen m k)"
  unfolding returns_def by (rule emits_andThen, assumption) simp_all

lemma returns_bind: "(\<And>x. returns (f x)) \<Longrightarrow> emits m (\<lambda>_ _. True) \<Longrightarrow> returns (m \<bind> f)"
  unfolding returns_def by (rule emits_bind, assumption) simp

lemma returns_if: "(b \<Longrightarrow> returns m) \<Longrightarrow> (\<not> b \<Longrightarrow> returns n) \<Longrightarrow> returns (if b then m else n)"
  by simp

lemma emits_http_any: "emits (http_Do c rq) (\<lambda>_ _. True)"
  by (rule emits_http_Do) simp

lemma emits_getw_any: "emits (getw f) (\<lambda>_ _. True)"
  by (rule emits_getw) simp

lemma returns_doLogin: "returns (doLogin c)"
  unfolding doLogin_def
  by (intro returns_bind emits_http_any)
    (auto split: reply.split option.split intro!: returns_fail returns_ok returns_bind emits_putw)

lemma returns_relogin: "returns (relogin c)"
  unfolding relogin_def by (intro returns_if returns_fail returns_doLogin) simp

lemma returns_authorize: "returns (authorize c)"
  unfolding authorize_def
  by (intro returns_bind returns_if returns_andThen returns_relogin returns_ok emits_getw_any)

lemma returns_sleepBackoff: "returns (sleepBackoff c n)"
  unfolding sleepBackoff_def
  by (intro returns_bind emits_getw_any) (auto split: option.split intro!: returns_fail returns_bind returns_ok emits_emit)

lemma returns_request_loop: "(\<And>e. err = Some e \<Longrightarrow> \<not> diverged e) \<Longrightarrow> returns (request_loop c rq n relogged err)"
proof (induction n arbitrary: relogged err)
  case 0
  then show ?case by (auto split: option.split intro: returns_fail)
next
  case (Suc n)
  have again: "returns (request_loop c rq n b (Some e))" if "\<not> diverged e" for b e
    by (rule Suc.IH) (use that in simp)
  show ?case
    unfolding request_loop.simps Let_def
    by (intro returns_andThen returns_if returns_sleepBackoff returns_ok returns_authorize returns_bind emits_http_any)
      (auto split: reply.split intro!: returns_fail returns_ok returns_andThen returns_relogin again)
qed

lemma returns_DoJSON: "returns (DoJSON c m p q h b out)"
  unfolding DoJSON_def
  by (intro returns_andThen returns_request_loop) (auto split: option.split intro!: returns_fail returns_ok)

text \<open>The cursor a page offers, if it is new, and the finite set of cursors a cluster has to offer.\<close>

definition offers :: "string option \<Rightarrow> string \<Rightarrow> bool" where
  "offers nxt a \<longleftrightarrow> (\<exists>visited visited'. nextPageAfter nxt visited = Inr (Some a, visited'))"

lemma nextPageAfter_new:
  "nextPageAfter nxt visited = Inr (Some a, visited') \<Longrightarrow> a \<notin> set visited \<and> visited' = a # visited"
  by (auto simp: nextPageAfter_def Let_def split: option.splits if_splits)

lemma nextPageAfter_no_div: "nextPageAfter nxt visited = Inl e \<Longrightarrow> \<not> diverged e"
  by (auto simp: nextPageAfter_def Let_def split: option.splits if_splits)

text \<open>A listing follows each cursor at most once, so it ends when its pages offer cursors from a finite set only.\<close>

lemma list_pages_returns:
  assumes "finite S"
    and page: "\<And>after. emits (page after) (\<lambda>_ r. (\<forall>e. r = Inl e \<longrightarrow> \<not> diverged e) \<and>
                 (\<forall>xs nxt a. r = Inr (xs, nxt) \<longrightarrow> offers nxt a \<longrightarrow> a \<in> S))"
  shows "distinct visited \<Longrightarrow> set visited \<subseteq> S \<Longrightarrow> card S - length visited < n \<Longrightarrow>
    returns (list_pages page what n after visited all)"
proof (induction n arbitrary: after visited all)
  case (Suc n)
  show ?case
    unfolding list_pages.simps returns_def
  proof (rule emits_andThen [OF page])
    fix es and x :: "'a list \<times> string option"
    assume x: "(\<forall>e. Inr x = Inl e \<longrightarrow> \<not> diverged e) \<and> (\<forall>xs nxt a. Inr x = Inr (xs, nxt) \<longrightarrow> offers nxt a \<longrightarrow> a \<in> S)"
    obtain xs nxt where e: "x = (xs, nxt)" by (cases x)
    have more: "returns (list_pages page what n a (a # visited) (all @ xs))"
      if "nextPageAfter nxt visited = Inr (Some a, visited')" for a visited'
    proof (rule Suc.IH)
      have a: "a \<in> S" "a \<notin> set visited" using that x e nextPageAfter_new unfolding offers_def by blast+
      then show "distinct (a # visited)" "set (a # visited) \<subseteq> S" using Suc.prems by simp_all
      have "length (a # visited) \<le> card S"
        using card_mono [OF assms(1) \<open>set (a # visited) \<subseteq> S\<close>] distinct_card [OF \<open>distinct (a # visited)\<close>] by simp
      then show "card S - length (a # visited) < n" using Suc.prems(3) by simp
    qed
    have "returns (case nextPageAfter nxt visited of
         Inl e \<Rightarrow> fail (EWrap what e [])
       | Inr (None, _) \<Rightarrow> ok (all @ xs)
       | Inr (Some a, v) \<Rightarrow> list_pages page what n a v (all @ xs))"
    proof (cases "nextPageAfter nxt visited")
      case (Inl e)
      then show ?thesis using nextPageAfter_no_div by (auto intro: returns_fail)
    next
      case (Inr y)
      then show ?thesis
        using more nextPageAfter_new by (cases y) (auto split: option.split intro: returns_ok)
    qed
    then show "emits (case x of (entries, next) \<Rightarrow>
          (case nextPageAfter next visited of
             Inl e \<Rightarrow> fail (EWrap what e [])
           | Inr (None, _) \<Rightarrow> ok (all @ entries)
           | Inr (Some a, v) \<Rightarrow> list_pages page what n a v (all @ entries)))
        (\<lambda>es' r. \<forall>e. r = Inl e \<longrightarrow> \<not> diverged e)"
      unfolding e returns_def by simp
  qed simp
qed simp

section \<open>The accepted answer is the result\<close>

text \<open>A call sees one answer below 400 at most, and its result is the decoding of that answer; so a call that fails without a decoding error
  was answered by refusals only.\<close>

lemma seen_append: "seen rq (es @ es') etag raw j \<longleftrightarrow> seen rq es etag raw j \<or> seen rq es' etag raw j"
  unfolding seen_def by auto

lemma not_seen_sends: "\<not> D rq \<Longrightarrow> \<not> is_login rq \<Longrightarrow> list_all (ev_ok D) es \<Longrightarrow> \<not> seen rq es etag raw j"
proof
  assume n: "\<not> D rq" "\<not> is_login rq" "list_all (ev_ok D) es" and "seen rq es etag raw j"
  then obtain rq' st where "Sent rq' (Http st etag raw j) \<in> set es" "unauth rq' = rq" by (auto simp: seen_def)
  moreover have "is_login rq' \<longleftrightarrow> is_login (unauth rq')" by (simp add: is_login_def unauth_def)
  ultimately show False using n by (fastforce simp: list_all_iff)
qed

lemma quiet_not_seen: "\<not> is_login rq \<Longrightarrow> quiet es \<Longrightarrow> \<not> seen rq es etag raw j"
  unfolding quiet_def using not_seen_sends [of "\<lambda>_. False" rq es etag raw j] by simp

definition only_answer :: "request \<Rightarrow> event list \<Rightarrow> (string \<times> string \<times> json option) res \<Rightarrow> bool" where
  "only_answer rq es r \<longleftrightarrow> (\<forall>etag raw j. seen rq es etag raw j \<longrightarrow> r = Inr (etag, raw, j))"

lemma only_answer_skip: "(\<And>etag raw j. \<not> seen rq es etag raw j) \<Longrightarrow> only_answer rq es' r \<Longrightarrow> only_answer rq (es @ es') r"
  by (simp add: only_answer_def seen_append)

lemma emits_skip:
  assumes "emits m (only_answer rq)" "\<And>etag raw j. \<not> seen rq es etag raw j"
  shows "emits m (\<lambda>es' r. only_answer rq (es @ es') r)"
  by (rule emits_weaken [OF assms(1)]) (rule only_answer_skip [OF assms(2)])

lemma only_quiet:
  assumes "emits m (\<lambda>es r. quiet es \<and> Q es r)" "\<not> is_login rq" "\<And>x. emits (k x) (only_answer rq)"
  shows "emits (andThen m k) (only_answer rq)"
proof (rule emits_andThen [OF assms(1)], goal_cases)
  case (1 es e)
  then show ?case using quiet_not_seen [OF assms(2)] by (simp add: only_answer_def)
next
  case (2 es x)
  then show ?case using emits_skip [OF assms(3)] quiet_not_seen [OF assms(2)] by blast
qed

lemma emits_request_loop_only:
  assumes l: "\<not> is_login (unauth rq)"
  shows "emits (request_loop c rq n relogged lastErr) (only_answer (unauth rq))"
proof (induction n arbitrary: relogged lastErr)
  case 0
  show ?case by (simp add: emits_ret only_answer_def seen_def)
next
  case (Suc n)
  have sleep: "emits (if a > 0 then sleepBackoff c a else ok ()) (\<lambda>es r. quiet es \<and> True)" for a
    using emits_sleepBackoff [of c a] by (auto intro: emits_ret elim: emits_weaken)
  have again: "emits (andThen (relogin c) (\<lambda>_. request_loop c rq n b e)) (only_answer (unauth rq))" for b e
    by (rule only_quiet [OF emits_relogin l Suc.IH])
  have answer: "emits (case rp of
         CtxDone x \<Rightarrow> fail (ECtx x)
       | NetErr m \<Rightarrow>
           (if \<not> replaySafeMethod (rq_method rq) then fail (EWrap ''qumulo request: '' (EMsg m) [])
            else request_loop c rq n relogged (Some (EWrap ''qumulo request: '' (EMsg m) [])))
       | Http st etag raw j \<Rightarrow>
           (if st = 401 \<and> HasPassword (c_creds c) \<and> \<not> relogged then
              andThen (relogin c) (\<lambda>_. request_loop c rq n True (Some (EApi (parseAPIError st raw j))))
            else if st = 429 \<or> st \<ge> 500 then
              (if \<not> replaySafeMethod (rq_method rq) then fail (EApi (parseAPIError st raw j))
               else request_loop c rq n relogged (Some (EApi (parseAPIError st raw j))))
            else if st \<ge> 400 then fail (EApi (parseAPIError st raw j))
            else ok (etag, raw, j))) (\<lambda>es' r. only_answer (unauth rq) ([Sent (rq\<lparr>rq_auth := tok\<rparr>) rp] @ es') r)" for tok rp
  proof (cases rp)
    case (Http st etag raw j)
    let ?P = "[Sent (rq\<lparr>rq_auth := tok\<rparr>) rp]"
    have n: "\<not> seen (unauth rq) ?P e x y" if "400 \<le> st" for e x y
      using that Http by (simp add: seen_def)
    note later = emits_skip [OF Suc.IH n] and relog = emits_skip [OF again n]
    have stop: "only_answer (unauth rq) (?P @ []) (Inl e)" if "400 \<le> st" for e
      using n [OF that] by (simp add: only_answer_def)
    have good: "only_answer (unauth rq) (?P @ []) (Inr (etag, raw, j))"
      using Http by (auto simp: only_answer_def seen_def)
    show ?thesis
      unfolding Http reply.case unfolding Http [symmetric]
      by (intro emits_if emits_ret later relog stop good) auto
  next
    case (NetErr m)
    have n: "\<not> seen (unauth rq) [Sent (rq\<lparr>rq_auth := tok\<rparr>) rp] e x y" for e x y
      using NetErr by (simp add: seen_def)
    show ?thesis
      unfolding NetErr reply.case unfolding NetErr [symmetric]
      by (intro emits_if emits_skip [OF Suc.IH n] emits_ret) (simp add: only_answer_def n)
  qed (simp add: emits_ret only_answer_def seen_def)
  show ?case
    unfolding request_loop.simps Let_def
  proof (intro only_quiet [OF sleep l] only_quiet [OF emits_authorize [of c rq] l], goal_cases)
    case (1 x tok)
    show ?case
      by (rule emits_bind [where P = "\<lambda>es rp. es = [Sent (rq\<lparr>rq_auth := tok\<rparr>) rp]"], rule emits_http_Do, rule refl)
        (use answer in simp)
  qed
qed

lemma seen_inside: "seen rq es etag raw j \<Longrightarrow> seen rq (es0 @ es @ es') etag raw j"
  by (erule seen_mono) auto

text \<open>An answer below 400 to the request of a call that failed did not decode.\<close>

lemma emits_DoJSON_only:
  assumes "\<not> is_login (mk_request m p q h b)"
  shows "emits (DoJSON c m p q h b out) (\<lambda>es r. \<forall>etag raw j. seen (mk_request m p q h b) es etag raw j \<longrightarrow>
    (case r of Inr (etag', x) \<Rightarrow> etag' = etag \<and> out raw j = Some x | Inl e \<Rightarrow> out raw j = None))"
  unfolding DoJSON_def
proof (rule emits_andThen [OF emits_request_loop_only], goal_cases)
  case 1
  show ?case using assms by simp
next
  case (2 es e)
  then show ?case by (simp add: only_answer_def)
next
  case (3 es x)
  then show ?case by (cases x) (auto simp: only_answer_def intro!: emits_ret split: option.split)
qed

text \<open>The events are those of a run of \<open>m\<close>.\<close>

definition ran :: "'a prog \<Rightarrow> event list \<Rightarrow> bool" where
  "ran m es \<longleftrightarrow> (\<exists>w. w_events (snd (run_state m w)) = w_events w @ es)"

lemma emits_ran: "emits m P \<Longrightarrow> emits m (\<lambda>es r. ran m es)"
  unfolding emits_def ran_def by blast

section \<open>Nothing before its guard\<close>

text \<open>Every request in \<open>D\<close> comes after events that satisfy \<open>G\<close>: in front of each there is a prefix with \<open>G\<close>.\<close>

definition guarded :: "(event list \<Rightarrow> bool) \<Rightarrow> (request \<Rightarrow> bool) \<Rightarrow> event list \<Rightarrow> bool" where
  "guarded G D es \<longleftrightarrow>
     (\<forall>es1 rq rp es2. es = es1 @ Sent rq rp # es2 \<longrightarrow> \<not> is_login rq \<longrightarrow> D (unauth rq) \<longrightarrow> G es1)"

definition grows :: "(event list \<Rightarrow> bool) \<Rightarrow> bool" where
  "grows G \<longleftrightarrow> (\<forall>es es' es0. G es \<longrightarrow> G (es0 @ es @ es'))"

lemma growsD: "grows G \<Longrightarrow> G es \<Longrightarrow> G (es @ es')" "grows G \<Longrightarrow> G es \<Longrightarrow> G (es0 @ es)"
  unfolding grows_def by (metis append.left_neutral, metis append.right_neutral)

lemma guarded_none: "list_all (ev_ok (\<lambda>rq. \<not> D rq)) es \<Longrightarrow> guarded G D es"
  unfolding guarded_def by auto

lemma guarded_append:
  assumes "grows G" "guarded G D es" "guarded G D es' \<or> G es"
  shows "guarded G D (es @ es')"
  unfolding guarded_def
proof (intro allI impI)
  fix es1 rq rp es2
  assume e: "es @ es' = es1 @ Sent rq rp # es2" and n: "\<not> is_login rq" "D (unauth rq)"
  from e consider (l) us where "es = es1 @ us" "us @ es' = Sent rq rp # es2"
    | (r) us where "es @ us = es1" "es' = us @ Sent rq rp # es2"
    unfolding append_eq_append_conv2 by blast
  then show "G es1"
  proof cases
    case l
    show ?thesis
    proof (cases us)
      case Nil
      then show ?thesis
      proof (cases "G es")
        case True with Nil l show ?thesis by simp
      next
        case False
        then have "guarded G D es'" using assms(3) by blast
        then have "G []" using l Nil n unfolding guarded_def by (metis append_Nil)
        then show ?thesis using growsD(1) [OF assms(1), of "[]" es1] by simp
      qed
    next
      case (Cons u us')
      then show ?thesis using l n assms(2) unfolding guarded_def by (metis append_Cons list.inject)
    qed
  next
    case r
    from assms(3) show ?thesis
    proof
      assume "guarded G D es'"
      then have "G us" using r n unfolding guarded_def by blast
      then show ?thesis using growsD(2) [OF assms(1)] r by blast
    qed (use growsD(1) [OF assms(1)] r in blast)
  qed
qed

text \<open>A program that sends nothing in \<open>D\<close>, then one that may rely on what the first has shown.\<close>

lemma guards_bind:
  assumes G: "grows G" and m: "sends (\<lambda>rq. \<not> D rq) m"
    and P: "emits m P"
    and f: "\<And>es x. P es x \<Longrightarrow> G es \<or> emits (f x) (\<lambda>es r. guarded G D es)"
    and any: "\<And>x. sends (\<lambda>_. True) (f x)"
  shows "emits (m \<bind> f) (\<lambda>es r. guarded G D es)"
proof (rule emits_bind [OF emits_conj [OF m [unfolded evs_def] P]], elim conjE)
  fix es x assume es: "list_all (ev_ok (\<lambda>rq. \<not> D rq)) es" "P es x"
  from f [OF es(2)] show "emits (f x) (\<lambda>es' r. guarded G D (es @ es'))"
  proof
    assume "G es"
    then show ?thesis
      by (intro emits_weaken [OF any [unfolded evs_def]] guarded_append [OF G guarded_none [OF es(1)]]) simp
  next
    assume "emits (f x) (\<lambda>es r. guarded G D es)"
    then show ?thesis
      by (rule emits_weaken) (intro guarded_append [OF G guarded_none [OF es(1)]], simp)
  qed
qed

lemma guards_andThen:
  assumes G: "grows G" and m: "sends (\<lambda>rq. \<not> D rq) m"
    and P: "emits m (on_ok P)"
    and k: "\<And>es x. P es x \<Longrightarrow> G es \<or> emits (k x) (\<lambda>es r. guarded G D es)"
    and any: "\<And>x. sends (\<lambda>_. True) (k x)"
  shows "emits (andThen m k) (\<lambda>es r. guarded G D es)"
  unfolding andThen_def
proof (rule guards_bind [OF G m P])
  fix es r assume "on_ok P es r"
  then show "G es \<or> emits (case r of Inl e \<Rightarrow> fail e | Inr x \<Rightarrow> k x) (\<lambda>es r. guarded G D es)"
    using k by (cases r) (auto simp: guarded_def intro!: emits_ret)
next
  fix r show "sends (\<lambda>_. True) (case r of Inl e \<Rightarrow> fail e | Inr x \<Rightarrow> k x)"
    using any by (intro io_rules)
qed

lemma andThen_lift: "andThen (lift_res r) k = (case r of Inl e \<Rightarrow> fail e | Inr x \<Rightarrow> k x)"
  by (simp add: andThen_def lift_res_def)

text \<open>The second program may rely on what the first has shown.\<close>

lemma sends_andThen_on:
  assumes "sends R m" "emits m (on_ok P)" "\<And>es x. P es x \<Longrightarrow> sends R (k x)"
  shows "sends R (andThen m k)"
  unfolding evs_def
proof (rule emits_andThen [OF emits_conj [OF assms(1) [unfolded evs_def] assms(2)]], goal_cases)
  case (1 es e)
  then show ?case by simp
next
  case (2 es x)
  then have "sends R (k x)" using assms(3) [of es x] by simp
  then show ?case unfolding evs_def by (rule emits_weaken) (use 2 in simp)
qed

lemma guards_sends: "sends (\<lambda>rq. \<not> D rq) m \<Longrightarrow> emits m (\<lambda>es r. guarded G D es)"
  unfolding evs_def by (erule emits_weaken) (rule guarded_none)

section \<open>Properties of the request loop\<close>


text \<open>C21: a call sends its request at most six times, its result is the decoding of the last answer, and an API error it
  returns was answered to it or to a login it needed.\<close>

theorem DoJSON_grounded:
  "emits (DoJSON c m p q h b out) (\<lambda>es r. calls es \<le> 6 \<and> list_all (ev_ok ((=) (mk_request m p q h b))) es \<and>
     (case r of
        Inr (etag, x) \<Rightarrow> \<exists>raw j. answered (mk_request m p q h b) es etag raw j \<and> out raw j = Some x
      | Inl e \<Rightarrow> api_seen (mk_request m p q h b) es e))"
  by (rule emits_weaken [OF emits_DoJSON_loop]) (simp add: json_post_def)

lemma jitter_bounds:
  fixes d r :: int
  assumes "6 \<le> d"
  shows "d - d div 6 \<le> d + (r mod (d div 3 + 1) - d div 6)" "d + (r mod (d div 3 + 1) - d div 6) \<le> d + d div 3 - d div 6"
    "0 < d + (r mod (d div 3 + 1) - d div 6)"
proof -
  have p: "0 < d div 3 + 1" using assms by linarith
  have "0 \<le> r mod (d div 3 + 1)" using p by (rule pos_mod_sign)
  moreover have "r mod (d div 3 + 1) < d div 3 + 1" using p by (rule pos_mod_bound)
  moreover have "d div 6 < d" using assms by linarith
  ultimately show "d - d div 6 \<le> d + (r mod (d div 3 + 1) - d div 6)" "d + (r mod (d div 3 + 1) - d div 6) \<le> d + d div 3 - d div 6"
    "0 < d + (r mod (d div 3 + 1) - d div 6)" by linarith+
qed

definition backoff_base :: "nat \<Rightarrow> int" where
  "backoff_base attempt = min (retryBase * 2 ^ (attempt - 1)) retryMax"

lemma backoff_base_ge: "6 \<le> backoff_base attempt"
proof -
  have "(1::int) \<le> 2 ^ (attempt - 1)" by simp
  then have "6 \<le> 200000000 * (2::int) ^ (attempt - 1)" by linarith
  then show ?thesis unfolding backoff_base_def retryBase_def retryMax_def by (intro min.boundedI) simp_all
qed

text \<open>the wait before a retry doubles from 200 ms, is capped at 5 s, and the random draw moves it by at most a sixth either way.\<close>

theorem backoff_bounds:
  "let d = backoff_base attempt
   in d - d div 6 \<le> backoff attempt r \<and> backoff attempt r \<le> d + d div 3 - d div 6 \<and> 0 < backoff attempt r"
proof -
  have e: "backoff attempt r = backoff_base attempt + (int r mod (backoff_base attempt div 3 + 1) - backoff_base attempt div 6)"
    unfolding backoff_def Let_def backoff_base_def min_def by (simp only: not_le if_distrib) (simp add: not_less)
  show ?thesis unfolding Let_def e using jitter_bounds [OF backoff_base_ge] by blast
qed

text \<open>A cluster that answers every request alike, and a fresh connection with a token, for concrete runs.\<close>

definition const_conn :: "reply \<Rightarrow> Connection" where
  "const_conn rp = \<lparr>c_creds = \<lparr>cr_Token = ''t'', cr_Username = [], cr_Password = []\<rparr>, c_host = ''h'', c_port = ''8000'', c_base_url = ''https://h:8000'',
     c_cluster = (\<lambda>_ _. rp), c_ctx_err = (\<lambda>_. None), c_rand = (\<lambda>_. 0), c_password = (\<lambda>_. []), c_fuel = 5\<rparr>"

definition world0 :: world where
  "world0 = \<lparr>w_events = [], w_bearer = ''t'', w_version = [], w_s3settings = None\<rparr>"

end
