(* ===== verification/Interfaces.thy ===== *)
theory Interfaces
  imports Main
begin

text \<open>
  The contracts that several components share, as locales: a store of keyed entries (the statements of a bucket policy, the
  entries of a directory ACL) with the laws its two updates promise, and what a client of the store may conclude.
\<close>

locale keyed_store =
  fixes entries :: "'s \<Rightarrow> 'v list"
    and key :: "'v \<Rightarrow> 'k"
    and put :: "'v \<Rightarrow> 's \<Rightarrow> 's"
    and del :: "'k \<Rightarrow> 's \<Rightarrow> 's"
  assumes put_here: "find (\<lambda>e. key e = key v) (entries (put v s)) = Some v"
    and put_rest: "filter (\<lambda>e. key e \<noteq> key v) (entries (put v s)) = filter (\<lambda>e. key e \<noteq> key v) (entries s)"
    and del_entries: "entries (del k s) = filter (\<lambda>e. key e \<noteq> k) (entries s)"
begin

definition look :: "'s \<Rightarrow> 'k \<Rightarrow> 'v option" where
  "look s k = find (\<lambda>e. key e = k) (entries s)"

lemma find_filter_other: "k \<noteq> k' \<Longrightarrow> find (\<lambda>e. key e = k') (filter (\<lambda>e. key e \<noteq> k) xs) = find (\<lambda>e. key e = k') xs"
  by (induction xs) auto

lemma look_put: "look (put v s) = (look s)(key v \<mapsto> v)"
proof
  fix k
  show "look (put v s) k = ((look s)(key v \<mapsto> v)) k"
  proof (cases "k = key v")
    case False
    then have "look (put v s) k = find (\<lambda>e. key e = k) (filter (\<lambda>e. key e \<noteq> key v) (entries (put v s)))"
      by (simp add: look_def find_filter_other)
    then show ?thesis using False by (simp add: look_def put_rest find_filter_other)
  qed (simp add: look_def put_here)
qed

lemma look_del: "look (del k s) = (look s)(k := None)"
proof
  fix k'
  show "look (del k s) k' = ((look s)(k := None)) k'"
    by (cases "k' = k") (auto simp: look_def del_entries find_filter_other find_None_iff)
qed

lemma put_put: "key v = key v' \<Longrightarrow> look (put v (put v' s)) = look (put v s)"
  by (simp add: look_put)

lemma put_commute: "key v \<noteq> key v' \<Longrightarrow> look (put v (put v' s)) = look (put v' (put v s))"
  by (simp add: look_put fun_upd_twist)

lemma del_put_entries: "entries (del (key v) (put v s)) = entries (del (key v) s)"
  by (simp add: del_entries put_rest)

lemma del_gone: "e \<in> set (entries (del k s)) \<Longrightarrow> key e \<noteq> k"
  by (simp add: del_entries)

lemma put_member: "v \<in> set (entries (put v s))"
  using put_here [of v s] by (metis find_Some_iff nth_mem)

end

end
