(* ===== verification/Cosi_Policy.thy ===== *)
theory Cosi_Policy
  imports Trace_Logic Interfaces
begin

text \<open>
  \<^verbatim>\<open>internal/policy/actions.go\<close> and \<^verbatim>\<open>internal/qumulo/policy.go\<close>: bucket policies, the statement a grant inserts
  and a revoke removes, and the read-modify-write loop that changes a policy under its ETag.  The statement list is shown to be
  a keyed store, and the loop to write only what it computed from the policy it last read, under that policy's ETag.
\<close>

section \<open>Documents\<close>

text \<open>\<open>ps_Principal\<close> is a raw message (\<open>None\<close> when empty), \<open>ps_Action\<close> and \<open>ps_Resource\<close> are of type \<^verbatim>\<open>any\<close>, the nil of the
  latter being \<open>None\<close>.\<close>

record PolicyStatement =
  ps_Sid :: string
  ps_Effect :: string
  ps_Principal :: "json option"
  ps_Action :: json
  ps_Resource :: "json option"

record Policy =
  p_Version :: string
  p_Statement :: "PolicyStatement list"

definition EmptyPolicy :: Policy where
  "EmptyPolicy = \<lparr>p_Version = ''2012-10-17'', p_Statement = []\<rparr>"

definition decode_statement :: "json \<Rightarrow> PolicyStatement option" where
  "decode_statement j = do {
     kvs \<leftarrow> obj_fields j;
     sid \<leftarrow> get_str ''Sid'' kvs;
     eff \<leftarrow> get_str ''Effect'' kvs;
     Some \<lparr>ps_Sid = sid, ps_Effect = eff, ps_Principal = get_raw ''Principal'' kvs,
           ps_Action = (case jfind ''Action'' kvs of None \<Rightarrow> JNull | Some a \<Rightarrow> a),
           ps_Resource = jfind ''Resource'' kvs\<rparr> }"

text \<open>\<open>decodePolicy\<close>; the argument \<open>None\<close> is an empty raw message, the result \<open>None\<close> an error.\<close>

definition decodePolicy :: "json option \<Rightarrow> Policy option" where
  "decodePolicy raw =
     (case raw of
        None \<Rightarrow> Some EmptyPolicy
      | Some JNull \<Rightarrow> Some EmptyPolicy
      | Some j \<Rightarrow> do {
          kvs \<leftarrow> obj_fields j;
          v \<leftarrow> get_str ''Version'' kvs;
          st \<leftarrow> get_list decode_statement ''Statement'' kvs;
          Some (if v = [] \<and> st = [] then EmptyPolicy else \<lparr>p_Version = v, p_Statement = st\<rparr>) })"

definition encode_statement :: "PolicyStatement \<Rightarrow> json" where
  "encode_statement s = JObj
     (opt_str ''Sid'' (ps_Sid s) @ [(''Effect'', JStr (ps_Effect s))]
      @ (case ps_Principal s of None \<Rightarrow> [] | Some p \<Rightarrow> [(''Principal'', p)])
      @ [(''Action'', ps_Action s)]
      @ (case ps_Resource s of None \<Rightarrow> [] | Some r \<Rightarrow> [(''Resource'', r)]))"

definition encode_policy :: "Policy \<Rightarrow> json" where
  "encode_policy p = JObj [(''Version'', JStr (p_Version p)), (''Statement'', JArr (map encode_statement (p_Statement p)))]"

section \<open>Access modes and statements\<close>

definition ModeRO :: string where "ModeRO = ''ro''"
definition ModeRW :: string where "ModeRW = ''rw''"
definition ModeFull :: string where "ModeFull = ''full''"

definition Actions :: "string \<Rightarrow> string list" where
  "Actions m =
     (if m = ModeRO then [''s3:GetObject'', ''s3:GetObjectAttributes'', ''s3:ListBucket'', ''s3:GetBucketLocation'']
      else if m = ModeRW then
        [''s3:GetObject'', ''s3:GetObjectAttributes'', ''s3:ListBucket'', ''s3:GetBucketLocation'', ''s3:PutObject'',
         ''s3:DeleteObject'', ''s3:AbortMultipartUpload'', ''s3:ListBucketMultipartUploads'', ''s3:ListMultipartUploadParts'']
      else if m = ModeFull then [''s3:*''] else [])"

definition NormalizeMode :: "string \<Rightarrow> string res" where
  "NormalizeMode m =
     (if m \<in> set [[], ModeRW, ''readwrite'', ''ReadWrite''] then Inr ModeRW
      else if m \<in> set [ModeRO, ''readonly'', ''ReadOnly''] then Inr ModeRO
      else if m \<in> set [ModeFull, ''*'', ''admin''] then Inr ModeFull
      else Inl (EMsg (''unknown accessMode '' @ fmt_q m @ '' (want ro, rw, or full)'')))"

definition ActionsFor :: "string \<Rightarrow> string list res" where
  "ActionsFor mode = (case NormalizeMode mode of Inl e \<Rightarrow> Inl e | Inr m \<Rightarrow> Inr (Actions m))"

definition QumuloPrincipal :: "string \<Rightarrow> json" where
  "QumuloPrincipal authID = JObj [(''Qumulo'', JArr [JStr (''auth_id:'' @ authID)])]"

text \<open>The loop of \<open>UpsertStatement\<close>: replace the first statement with the sid, or append.\<close>

fun upsert_loop :: "PolicyStatement \<Rightarrow> PolicyStatement list \<Rightarrow> PolicyStatement list" where
  "upsert_loop st [] = [st]"
| "upsert_loop st (s # ss) = (if ps_Sid s = ps_Sid st then st # ss else s # upsert_loop st ss)"

definition upsert_policy :: "PolicyStatement \<Rightarrow> Policy \<Rightarrow> Policy" where
  "upsert_policy stmt p =
     \<lparr>p_Version = (if p_Version p = [] then ''2012-10-17'' else p_Version p), p_Statement = upsert_loop stmt (p_Statement p)\<rparr>"

definition grant_statement :: "string \<Rightarrow> string \<Rightarrow> string list \<Rightarrow> PolicyStatement" where
  "grant_statement sid authID actions =
     \<lparr>ps_Sid = sid, ps_Effect = ''Allow'', ps_Principal = Some (QumuloPrincipal authID), ps_Action = str_list actions,
      ps_Resource = None\<rparr>"

definition UpsertStatement :: "Policy \<Rightarrow> string \<Rightarrow> string \<Rightarrow> string \<Rightarrow> Policy res" where
  "UpsertStatement p sid authID mode =
     (case ActionsFor mode of
        Inl e \<Rightarrow> Inl e
      | Inr actions \<Rightarrow> Inr (upsert_policy (grant_statement sid authID actions) p))"

definition RemoveStatement :: "Policy \<Rightarrow> string \<Rightarrow> Policy" where
  "RemoveStatement p sid = p\<lparr>p_Statement := filter (\<lambda>s. ps_Sid s \<noteq> sid) (p_Statement p)\<rparr>"

definition principalHasAuthID :: "json option \<Rightarrow> string \<Rightarrow> bool" where
  "principalHasAuthID raw authID =
     (let want = ''auth_id:'' @ authID
      in case raw of
           Some (JObj kvs) \<Rightarrow>
             (case map_of (rev kvs) ''Qumulo'' of
                Some (JArr js) \<Rightarrow> (case decode_all json_str js of Some values \<Rightarrow> want \<in> set values | None \<Rightarrow> False)
              | Some (JStr one) \<Rightarrow> one = want
              | _ \<Rightarrow> False)
         | _ \<Rightarrow> False)"

definition RemoveStatementForAuthID :: "Policy \<Rightarrow> string \<Rightarrow> string \<Rightarrow> Policy" where
  "RemoveStatementForAuthID p sid authID =
     p\<lparr>p_Statement := filter (\<lambda>s. ps_Sid s \<noteq> sid \<or> (authID \<noteq> [] \<and> \<not> principalHasAuthID (ps_Principal s) authID)) (p_Statement p)\<rparr>"

section \<open>Reading and writing the policy of a bucket\<close>

definition policy_path :: "string \<Rightarrow> string" where
  "policy_path bucket = ''/v1/s3/buckets/'' @ PathEscape bucket @ ''/policy''"

text \<open>What \<open>GetBucketPolicy\<close> makes of the header and the body: the policy and its ETag, or the error with the ETag.\<close>

definition read_policy :: "string \<Rightarrow> json option \<Rightarrow> (Policy \<times> string) res" where
  "read_policy hdr raw =
     (let quote = [CHR 0x22]; etag = Trim hdr quote
      in case decodePolicy raw of
           Some p \<Rightarrow> Inr (p, etag)
         | None \<Rightarrow>
            (case Option.bind raw obj_fields of
               None \<Rightarrow> Inl (EMsg ''decode bucket policy'')
             | Some kvs \<Rightarrow>
               (case (get_raw ''policy'' kvs, get_str ''etag'' kvs) of
                  (Some inner, Some e) \<Rightarrow>
                    (case decodePolicy (Some inner) of
                       None \<Rightarrow> Inl (EMsg ''decode bucket policy'')
                     | Some p \<Rightarrow> Inr (p, if e \<noteq> [] then Trim e quote else etag))
                | _ \<Rightarrow> Inl (EMsg ''decode bucket policy''))))"

definition GetBucketPolicy :: "Connection \<Rightarrow> string \<Rightarrow> (Policy \<times> string) io" where
  "GetBucketPolicy c bucket =
     andThen (DoJSON c ''GET'' (policy_path bucket) [] None None (into None (\<lambda>j. Some (Some j)))) (\<lambda>(hdr, raw).
       lift_res (read_policy hdr raw))"

definition putBucketPolicy :: "Connection \<Rightarrow> string \<Rightarrow> Policy \<Rightarrow> string \<Rightarrow> unit io" where
  "putBucketPolicy c bucket policy etag =
     andThen (DoJSON c ''PUT'' (policy_path bucket) [(''allow-remove-self'', ''true'')]
           (if etag \<noteq> [] then Some etag else None) (Some (encode_policy policy)) noOut) (\<lambda>_. ok ())"

definition resourceSpecified :: "go_error \<Rightarrow> bool" where
  "resourceSpecified err =
     (case AsAPIError err of None \<Rightarrow> False | Some api \<Rightarrow> Contains (ToLower (ae_Description api)) ''resourcespecified'')"

definition stripPolicyResources :: "Policy \<Rightarrow> Policy" where
  "stripPolicyResources p = p\<lparr>p_Statement := map (\<lambda>s. s\<lparr>ps_Resource := None\<rparr>) (p_Statement p)\<rparr>"

definition PutBucketPolicy :: "Connection \<Rightarrow> string \<Rightarrow> Policy \<Rightarrow> string \<Rightarrow> unit io" where
  "PutBucketPolicy c bucket policy etag = do {
     r \<leftarrow> putBucketPolicy c bucket policy etag;
     case r of
       Inl err \<Rightarrow> if resourceSpecified err then putBucketPolicy c bucket (stripPolicyResources policy) etag else fail err
     | Inr u \<Rightarrow> ok u }"

definition policy_conflict :: "go_error \<Rightarrow> bool" where
  "policy_conflict err =
     (case AsAPIError err of
        None \<Rightarrow> False
      | Some api \<Rightarrow> ae_StatusCode api = 412 \<or> ae_ErrorClass api = ErrClassRESTPrecondition \<or> ae_StatusCode api = 409)"

text \<open>The wait between the rounds: the context's end or the timer.\<close>

definition sleep_for :: "Connection \<Rightarrow> int \<Rightarrow> unit io" where
  "sleep_for c d = do {
     h \<leftarrow> getw w_events;
     case c_ctx_err c h of Some x \<Rightarrow> fail (ECtx x) | None \<Rightarrow> do { _ \<leftarrow> emit (Slept d); ok () } }"

text \<open>The loop of \<open>MutateBucketPolicy\<close> with \<open>n\<close> rounds left; the round is \<open>i = 8 - n\<close>.\<close>

fun mutate_loop :: "Connection \<Rightarrow> string \<Rightarrow> (Policy \<Rightarrow> Policy res) \<Rightarrow> nat \<Rightarrow> go_error option \<Rightarrow> unit io" where
  "mutate_loop c bucket mutate 0 last_err =
     fail (case last_err of None \<Rightarrow> EMsg ''policy mutate exhausted retries'' | Some e \<Rightarrow> e)"
| "mutate_loop c bucket mutate (Suc n) last_err = do {
     g \<leftarrow> GetBucketPolicy c bucket;
     case (case g of
             Inr pe \<Rightarrow> Inr pe
           | Inl err \<Rightarrow>
              (case AsAPIError err of
                 Some api \<Rightarrow> if IsNotFound api then Inr (EmptyPolicy, []) else Inl err
               | None \<Rightarrow> Inl err)) of
       Inl err \<Rightarrow> fail err
     | Inr (p, etag) \<Rightarrow>
        (case mutate p of
           Inl err \<Rightarrow> if Is_sentinel err ErrPolicyUnchanged then ok () else fail err
         | Inr p' \<Rightarrow> do {
             r \<leftarrow> PutBucketPolicy c bucket p' etag;
             case r of
               Inr u \<Rightarrow> ok ()
             | Inl err \<Rightarrow>
                 if policy_conflict err then
                   andThen (sleep_for c (50000000 * (int (7 - n) + 1))) (\<lambda>_. mutate_loop c bucket mutate n (Some err))
                 else fail err }) }"

definition MutateBucketPolicy :: "Connection \<Rightarrow> string \<Rightarrow> (Policy \<Rightarrow> Policy res) \<Rightarrow> unit io" where
  "MutateBucketPolicy c bucket mutate = mutate_loop c bucket mutate 8 None"

section \<open>The statements are a keyed store\<close>

lemma upsert_loop_here: "find (\<lambda>s. ps_Sid s = ps_Sid st) (upsert_loop st ss) = Some st"
  by (induction ss) auto

lemma upsert_loop_rest:
  "filter (\<lambda>s. ps_Sid s \<noteq> ps_Sid st) (upsert_loop st ss) = filter (\<lambda>s. ps_Sid s \<noteq> ps_Sid st) ss"
  by (induction ss) auto

interpretation statements: keyed_store p_Statement ps_Sid upsert_policy "\<lambda>sid p. RemoveStatement p sid"
  by unfold_locales (simp_all add: upsert_policy_def RemoveStatement_def upsert_loop_here upsert_loop_rest)

text \<open>C23: a successful upsert makes the first statement with the sid the grant itself, an Allow for exactly the one auth id and
  the actions of the mode, and leaves every statement with another sid as it was and in order.\<close>

theorem UpsertStatement_exact:
  assumes "UpsertStatement p sid authID mode = Inr p'"
  shows "\<exists>actions. ActionsFor mode = Inr actions \<and> actions \<noteq> [] \<and>
      find (\<lambda>s. ps_Sid s = sid) (p_Statement p') = Some (grant_statement sid authID actions) \<and>
      filter (\<lambda>s. ps_Sid s \<noteq> sid) (p_Statement p') = filter (\<lambda>s. ps_Sid s \<noteq> sid) (p_Statement p) \<and>
      principalHasAuthID (ps_Principal (grant_statement sid authID actions)) authID"
proof -
  obtain actions where a: "ActionsFor mode = Inr actions" and p': "p' = upsert_policy (grant_statement sid authID actions) p"
    using assms by (auto simp: UpsertStatement_def split: sum.splits)
  have k: "ps_Sid (grant_statement sid authID actions) = sid" by (simp add: grant_statement_def)
  have "actions \<noteq> []"
    using a by (auto simp: ActionsFor_def NormalizeMode_def Actions_def ModeRO_def ModeRW_def ModeFull_def split: if_splits)
  moreover have "principalHasAuthID (ps_Principal (grant_statement sid authID actions)) authID"
    by (simp add: grant_statement_def QumuloPrincipal_def principalHasAuthID_def)
  ultimately show ?thesis
    using a statements.put_here [of "grant_statement sid authID actions" p]
      statements.put_rest [of "grant_statement sid authID actions" p] k p' by auto
qed

lemma principal_other: "a \<noteq> a' \<Longrightarrow> \<not> principalHasAuthID (Some (QumuloPrincipal a)) a'"
  by (simp add: QumuloPrincipal_def principalHasAuthID_def)

text \<open>a revoke that knows its auth id removes exactly the statements with the sid that name this identity: the grant of
  a recreated user of the same name survives a late revoke for the old one, and so does every other statement, in order.\<close>

theorem RemoveStatementForAuthID_exact:
  assumes "authID \<noteq> []" "UpsertStatement p sid other mode = Inr p'" "other \<noteq> authID"
  shows "find (\<lambda>s. ps_Sid s = sid) (p_Statement (RemoveStatementForAuthID p' sid authID)) = find (\<lambda>s. ps_Sid s = sid) (p_Statement p') \<and>
    filter (\<lambda>s. ps_Sid s \<noteq> sid) (p_Statement (RemoveStatementForAuthID p' sid authID)) = filter (\<lambda>s. ps_Sid s \<noteq> sid) (p_Statement p) \<and>
    \<not> list_ex (\<lambda>s. ps_Sid s = sid \<and> principalHasAuthID (ps_Principal s) authID) (p_Statement (RemoveStatementForAuthID p' sid authID))"
proof -
  obtain actions where p': "p' = upsert_policy (grant_statement sid other actions) p"
    using assms(2) by (auto simp: UpsertStatement_def split: sum.splits)
  let ?st = "grant_statement sid other actions"
  have k: "ps_Sid ?st = sid" by (simp add: grant_statement_def)
  have f: "find (\<lambda>s. ps_Sid s = sid) (p_Statement p') = Some ?st" using statements.put_here [of ?st p] k p' by simp
  have keep: "\<not> principalHasAuthID (ps_Principal ?st) authID" using principal_other assms(3) by (simp add: grant_statement_def)
  have "find (\<lambda>s. ps_Sid s = sid) (filter Q xs) = find (\<lambda>s. ps_Sid s = sid) xs"
    if "find (\<lambda>s. ps_Sid s = sid) xs = Some st" "Q st" for Q st xs
    using that by (induction xs) (auto split: if_splits)
  from this [OF f, of "\<lambda>s. ps_Sid s \<noteq> sid \<or> (authID \<noteq> [] \<and> \<not> principalHasAuthID (ps_Principal s) authID)"] keep
  have "find (\<lambda>s. ps_Sid s = sid) (p_Statement (RemoveStatementForAuthID p' sid authID)) = find (\<lambda>s. ps_Sid s = sid) (p_Statement p')"
    by (simp add: RemoveStatementForAuthID_def assms(1))
  moreover have "filter (\<lambda>s. ps_Sid s \<noteq> sid) (p_Statement (RemoveStatementForAuthID p' sid authID))
      = filter (\<lambda>s. ps_Sid s \<noteq> sid) (p_Statement p')"
    by (simp add: RemoveStatementForAuthID_def conj_disj_distribR) (metis (mono_tags, lifting) filter_cong)
  moreover have "filter (\<lambda>s. ps_Sid s \<noteq> sid) (p_Statement p') = filter (\<lambda>s. ps_Sid s \<noteq> sid) (p_Statement p)"
    using statements.put_rest [of ?st p] k p' by simp
  ultimately show ?thesis using assms(1) by (auto simp: RemoveStatementForAuthID_def list_ex_iff)
qed

section \<open>The read-modify-write loop\<close>

definition policy_get :: "string \<Rightarrow> request" where
  "policy_get bucket = mk_request ''GET'' (policy_path bucket) [] None None"

definition policy_put :: "string \<Rightarrow> string \<Rightarrow> Policy \<Rightarrow> request" where
  "policy_put bucket etag p =
     mk_request ''PUT'' (policy_path bucket) [(''allow-remove-self'', ''true'')] (if etag \<noteq> [] then Some etag else None)
       (Some (encode_policy p))"

text \<open>\<open>es\<close> ends with the reading of the policy \<open>p\<close> under \<open>etag\<close>; the policy of a bucket that has none is the empty one.\<close>

definition policy_read :: "string \<Rightarrow> event list \<Rightarrow> Policy \<Rightarrow> string \<Rightarrow> bool" where
  "policy_read bucket es p etag \<longleftrightarrow>
     (\<exists>hdr raw j. answered (policy_get bucket) es hdr raw j \<and> read_policy hdr (if raw = [] then None else j) = Inr (p, etag))
     \<or> not_found_answer (policy_get bucket) es \<and> p = EmptyPolicy \<and> etag = []"

text \<open>\<open>es\<close> ends with an accepted write of \<open>p\<close>, or of \<open>p\<close> without its resources, conditional on \<open>etag\<close>.\<close>

definition policy_written :: "string \<Rightarrow> event list \<Rightarrow> Policy \<Rightarrow> string \<Rightarrow> bool" where
  "policy_written bucket es p etag \<longleftrightarrow>
     (\<exists>p0 \<in> {p, stripPolicyResources p}. \<exists>hdr raw j. answered (policy_put bucket etag p0) es hdr raw j)"

lemma read_policy_no_api: "read_policy hdr d = Inl e \<Longrightarrow> AsAPIError e = None"
  unfolding read_policy_def Let_def
  by (simp split: option.splits) (auto split: option.splits)

lemma policy_readI:
  "answered (policy_get b) es hdr raw j \<Longrightarrow> read_policy hdr (if raw = [] then None else j) = Inr (p, etag) \<Longrightarrow> policy_read b es p etag"
  unfolding policy_read_def by blast

lemma emits_GetBucketPolicy:
  "emits (GetBucketPolicy c b) (\<lambda>es r.
     case r of
       Inr (p, etag) \<Rightarrow> policy_read b es p etag
     | Inl e \<Rightarrow> (case AsAPIError e of Some a \<Rightarrow> IsNotFound a \<longrightarrow> policy_read b es EmptyPolicy [] | None \<Rightarrow> True))"
  (is "emits _ ?Q")
  unfolding GetBucketPolicy_def
proof (rule emits_andThen [OF emits_DoJSON])
  fix es e
  assume "json_post (mk_request ''GET'' (policy_path b) [] None None) (into None (\<lambda>j. Some (Some j))) es (Inl e :: (string \<times> json option) res)"
  then show "?Q es (Inl e)"
    using not_found_seen by (auto simp: json_post_def policy_read_def policy_get_def split: option.split)
next
  fix es and x :: "string \<times> json option"
  assume a: "json_post (mk_request ''GET'' (policy_path b) [] None None) (into None (\<lambda>j. Some (Some j))) es (Inr x)"
  obtain hdr d where x: "x = (hdr, d)" by (cases x)
  obtain raw j where r: "answered (policy_get b) es hdr raw j" "into None (\<lambda>j. Some (Some j)) raw j = Some d"
    using a unfolding x policy_get_def [symmetric] by (rule json_post_InrE)
  then have d: "d = (if raw = [] then None else j)" by (cases j) (auto simp: into_def split: if_splits)
  show "emits (case x of (hdr, raw) \<Rightarrow> lift_res (read_policy hdr raw)) (\<lambda>es'. ?Q (es @ es'))"
  proof (cases "read_policy hdr d")
    case (Inl e)
    then show ?thesis using x read_policy_no_api by (simp add: lift_res_def emits_ret)
  next
    case (Inr pe)
    then have "policy_read b es (fst pe) (snd pe)" using r(1) d by (intro policy_readI [OF r(1)]) simp
    then show ?thesis using x Inr by (cases pe) (simp add: lift_res_def emits_ret)
  qed
qed

lemma policy_writtenI: "answered (policy_put b etag p) es hdr raw j \<Longrightarrow> policy_written b es p etag"
  unfolding policy_written_def by blast

lemma emits_putBucketPolicy:
  "emits (putBucketPolicy c b p etag) (\<lambda>es r. case r of Inl _ \<Rightarrow> True | Inr _ \<Rightarrow> policy_written b es p etag)"
  unfolding putBucketPolicy_def
proof (rule emits_andThen [OF emits_DoJSON])
  fix es and x :: "string \<times> unit"
  assume "json_post (mk_request ''PUT'' (policy_path b) [(''allow-remove-self'', ''true'')] (if etag \<noteq> [] then Some etag else None)
      (Some (encode_policy p))) noOut es (Inr x)"
  then show "emits (ok ()) (\<lambda>es' r. case r of Inl (_::go_error) \<Rightarrow> True | Inr _ \<Rightarrow> policy_written b (es @ es') p etag)"
    unfolding policy_put_def [symmetric]
    by (cases x) (auto elim!: json_post_InrE intro!: emits_ret policy_writtenI)
qed simp

lemma strip_idem [simp]: "stripPolicyResources (stripPolicyResources p) = stripPolicyResources p"
  by (simp add: stripPolicyResources_def)

lemma policy_written_append: "policy_written b es p etag \<Longrightarrow> policy_written b (es' @ es) p etag"
  unfolding policy_written_def using answered_append by blast

lemma emits_PutBucketPolicy:
  "emits (PutBucketPolicy c b p etag) (\<lambda>es r. case r of Inl _ \<Rightarrow> True | Inr _ \<Rightarrow> policy_written b es p etag)"
  unfolding PutBucketPolicy_def
proof (rule emits_bind [OF emits_putBucketPolicy])
  fix es and x :: "unit res"
  let ?Q = "\<lambda>es' r. case r of Inl (_::go_error) \<Rightarrow> True | Inr (_::unit) \<Rightarrow> policy_written b (es @ es') p etag"
  assume x: "case x of Inl _ \<Rightarrow> True | Inr _ \<Rightarrow> policy_written b es p etag"
  have "emits (putBucketPolicy c b (stripPolicyResources p) etag) ?Q"
  proof (rule emits_weaken [OF emits_putBucketPolicy])
    fix es' and r :: "unit res"
    assume "case r of Inl _ \<Rightarrow> True | Inr _ \<Rightarrow> policy_written b es' (stripPolicyResources p) etag"
    then show "?Q es' r"
      using policy_written_append [of b es' p etag es] by (auto simp: policy_written_def split: sum.splits)
  qed
  with x show "emits (case x of Inl err \<Rightarrow> if resourceSpecified err then putBucketPolicy c b (stripPolicyResources p) etag else fail err
      | Inr u \<Rightarrow> ok u) ?Q"
    by (cases x) (simp_all add: emits_ret)
qed

text \<open>The success of the loop: the events end with a reading and, unless the callback found nothing to change, the conditional
  write of what it made of that reading.\<close>

definition mutated :: "string \<Rightarrow> (Policy \<Rightarrow> Policy res) \<Rightarrow> event list \<Rightarrow> bool" where
  "mutated b f es \<longleftrightarrow>
     (\<exists>es0 es1 es2 p etag. es = es0 @ es1 @ es2 \<and> policy_read b es1 p etag \<and>
        (case f p of
           Inl e \<Rightarrow> Is_sentinel e ErrPolicyUnchanged \<and> es2 = []
         | Inr p' \<Rightarrow> policy_written b es2 p' etag))"

lemma mutated_append: "mutated b f es \<Longrightarrow> mutated b f (es' @ es)"
  unfolding mutated_def by (metis append.assoc)

lemma emits_sleep_for: "emits (sleep_for c d) (\<lambda>es r. quiet es)"
  unfolding sleep_for_def
  by (rule emits_bind [where P = "\<lambda>es _. es = []"], rule emits_getw, simp)
    (auto split: option.split intro!: emits_ret emits_bind [OF emits_emit [where Q = "\<lambda>es _. quiet es"]] simp: quiet_def)

lemma emits_mutate_loop:
  "emits (mutate_loop c b f n l) (\<lambda>es r. case r of Inl _ \<Rightarrow> True | Inr _ \<Rightarrow> mutated b f es)"
proof (induction n arbitrary: l)
  case (Suc n)
  let ?Q = "\<lambda>es r. case r of Inl (_::go_error) \<Rightarrow> True | Inr (_::unit) \<Rightarrow> mutated b f es"
  let ?put = "\<lambda>p' etag. do { r \<leftarrow> PutBucketPolicy c b p' etag;
       case r of Inr u \<Rightarrow> ok ()
       | Inl err \<Rightarrow> if policy_conflict err then
             andThen (sleep_for c (50000000 * (int (7 - n) + 1))) (\<lambda>_. mutate_loop c b f n (Some err))
           else fail err }"
  have again: "emits (mutate_loop c b f n l') (\<lambda>es' r. ?Q (es @ es') r)" for es l'
    by (rule emits_weaken [OF Suc.IH]) (auto split: sum.splits intro: mutated_append)
  have put: "emits (?put p' etag) (\<lambda>es' r. ?Q (es @ es') r)"
    if "policy_read b es p etag" "f p = Inr p'" for es p etag p'
  proof (rule emits_bind [OF emits_PutBucketPolicy])
    fix es' and x :: "unit res"
    assume x: "case x of Inl _ \<Rightarrow> True | Inr _ \<Rightarrow> policy_written b es' p' etag"
    have "emits (andThen (sleep_for c d) (\<lambda>_. mutate_loop c b f n (Some e))) (\<lambda>es'' r. ?Q (es @ es' @ es'') r)" for d e
      apply (rule emits_andThen [OF emits_sleep_for])
       apply simp
      subgoal for es'' using again [of "Some e" "es @ es' @ es''"] unfolding append_assoc by blast
      done
    moreover have "mutated b f (es @ es')" if "policy_written b es' p' etag"
      unfolding mutated_def
      by (rule exI [of _ "[]"], rule exI [of _ es], rule exI [of _ es'], rule exI [of _ p], rule exI [of _ etag])
        (use that \<open>policy_read b es p etag\<close> \<open>f p = Inr p'\<close> in simp)
    ultimately show "emits (case x of Inl err \<Rightarrow> if policy_conflict err then
             andThen (sleep_for c (50000000 * (int (7 - n) + 1))) (\<lambda>_. mutate_loop c b f n (Some err)) else fail err
           | Inr u \<Rightarrow> ok ()) (\<lambda>es'' r. ?Q (es @ es' @ es'') r)"
      using x by (cases x) (simp_all add: emits_ret)
  qed
  have rest: "emits (case f p of Inl err \<Rightarrow> if Is_sentinel err ErrPolicyUnchanged then ok () else fail err
        | Inr p' \<Rightarrow> ?put p' etag) (\<lambda>es' r. ?Q (es @ es') r)" if "policy_read b es p etag" for es p etag
  proof (cases "f p")
    case (Inl e)
    have "mutated b f es" if "Is_sentinel e ErrPolicyUnchanged"
      unfolding mutated_def
      by (rule exI [of _ "[]"], rule exI [of _ es], rule exI [of _ "[]"], rule exI [of _ p], rule exI [of _ etag])
        (use that \<open>policy_read b es p etag\<close> Inl in simp)
    then show ?thesis using Inl by (simp add: emits_ret)
  qed (use put that in simp)
  show ?case
    unfolding mutate_loop.simps
  proof (rule emits_bind [OF emits_GetBucketPolicy])
    fix es and g :: "(Policy \<times> string) res"
    assume g: "case g of
       Inr (p, etag) \<Rightarrow> policy_read b es p etag
     | Inl e \<Rightarrow> (case AsAPIError e of Some a \<Rightarrow> IsNotFound a \<longrightarrow> policy_read b es EmptyPolicy [] | None \<Rightarrow> True)"
    show "emits (case (case g of Inl err \<Rightarrow> (case AsAPIError err of None \<Rightarrow> Inl err
              | Some api \<Rightarrow> if IsNotFound api then Inr (EmptyPolicy, []) else Inl err) | Inr pe \<Rightarrow> Inr pe) of
           Inl err \<Rightarrow> fail err
         | Inr (p, etag) \<Rightarrow> (case f p of Inl err \<Rightarrow> if Is_sentinel err ErrPolicyUnchanged then ok () else fail err
             | Inr p' \<Rightarrow> ?put p' etag)) (\<lambda>es' r. ?Q (es @ es') r)"
    proof (cases g)
      case (Inl e)
      then show ?thesis
        using g rest [of es EmptyPolicy "[]"] by (cases "AsAPIError e") (simp_all add: emits_ret)
    next
      case (Inr pe)
      obtain p etag where pe: "pe = (p, etag)" by (cases pe)
      then show ?thesis using g Inr rest [of es p etag] by simp
    qed
  qed
qed (simp add: emits_ret)

lemma emits_MutateBucketPolicy: "emits (MutateBucketPolicy c b f) (on_ok (\<lambda>es _. mutated b f es))"
  unfolding MutateBucketPolicy_def by (rule emits_weaken [OF emits_mutate_loop]) (auto simp: on_ok_def)

text \<open>C22: a policy change that reports success wrote, as its last request, exactly what the callback made of the policy it
  had just read, on condition of that policy's ETag, so it overwrites no change in between; or the callback found nothing to do.\<close>

theorem MutateBucketPolicy_atomic:
  assumes "run_state (MutateBucketPolicy c b f) w = (Inr (), w')"
  shows "\<exists>es. w_events w' = w_events w @ es \<and> mutated b f es"
  using emitsD [OF emits_mutate_loop assms [unfolded MutateBucketPolicy_def]] by auto

text \<open>A body that wraps the policy with its ETag is read as the empty policy: the branch for it is never reached, because the
  decoder accepts any object.\<close>

lemma read_policy_wrapped:
  "read_policy hdr (Some (JObj [(''policy'', j), (''etag'', JStr e)])) = Inr (EmptyPolicy, Trim hdr [CHR 0x22])"
proof -
  have "\<not> EqualFold ''Version'' ''policy''" "\<not> EqualFold ''Version'' ''etag''"
    "\<not> EqualFold ''Statement'' ''policy''" "\<not> EqualFold ''Statement'' ''etag''"
    by (simp_all add: EqualFold_def ToLower_def to_lower_char_def is_upper_def)
  then show ?thesis by (simp add: read_policy_def decodePolicy_def get_str_def get_list_def Let_def)
qed

text \<open>A condition of a statement does not survive a read and a write: the statement is written back without it.\<close>

lemma statement_condition_lost:
  "map_option encode_statement (decode_statement (JObj [(''Effect'', JStr ''Allow''), (''Action'', JStr ''s3:*''), (''Condition'', cond)]))
   = Some (JObj [(''Effect'', JStr ''Allow''), (''Action'', JStr ''s3:*'')])"
  by (simp add: decode_statement_def encode_statement_def get_str_def opt_str_def EqualFold_def ToLower_def
      to_lower_char_def is_upper_def)

section \<open>What the operations send\<close>

lemma sends_GetBucketPolicy: "reads R \<Longrightarrow> sends R (GetBucketPolicy c b)"
  unfolding GetBucketPolicy_def by (intro io_rules sends_GET)

lemma sends_PutBucketPolicy: "(\<And>p. R (policy_put b etag p)) \<Longrightarrow> sends R (PutBucketPolicy c b p etag)"
  unfolding PutBucketPolicy_def putBucketPolicy_def policy_put_def by (intro io_rules sends_DoJSON)

lemma sends_sleep_for: "sends R (sleep_for c d)"
  unfolding sleep_for_def by (intro io_rules)

lemma sends_mutate_loop: "reads R \<Longrightarrow> (\<And>p etag. R (policy_put b etag p)) \<Longrightarrow> sends R (mutate_loop c b f n l)"
proof (induction n arbitrary: l)
  case 0
  show ?case by simp (rule sends_ret)
next
  case (Suc n)
  then show ?case
    unfolding mutate_loop.simps
    by (intro io_rules sends_GetBucketPolicy sends_PutBucketPolicy sends_sleep_for) simp_all
qed

lemma sends_MutateBucketPolicy: "reads R \<Longrightarrow> (\<And>p etag. R (policy_put b etag p)) \<Longrightarrow> sends R (MutateBucketPolicy c b f)"
  unfolding MutateBucketPolicy_def by (rule sends_mutate_loop)

section \<open>Witnesses\<close>

lemma UpsertStatement_exact_witness:
  "\<exists>actions. ActionsFor ''ro'' = Inr actions \<and> actions \<noteq> [] \<and>
     find (\<lambda>s. ps_Sid s = ''a'') (p_Statement (upsert_policy (grant_statement ''a'' ''7'' (Actions ''ro'')) EmptyPolicy))
       = Some (grant_statement ''a'' ''7'' actions)"
proof -
  have "UpsertStatement EmptyPolicy ''a'' ''7'' ''ro'' = Inr (upsert_policy (grant_statement ''a'' ''7'' (Actions ''ro'')) EmptyPolicy)"
    by (simp add: UpsertStatement_def ActionsFor_def NormalizeMode_def ModeRO_def ModeRW_def)
  from UpsertStatement_exact [OF this] show ?thesis by blast
qed

lemma RemoveStatementForAuthID_exact_witness:
  "\<not> list_ex (\<lambda>s. ps_Sid s = ''a'' \<and> principalHasAuthID (ps_Principal s) ''7'')
     (p_Statement (RemoveStatementForAuthID (upsert_policy (grant_statement ''a'' ''8'' (Actions ''ro'')) EmptyPolicy) ''a'' ''7''))"
proof -
  have "UpsertStatement EmptyPolicy ''a'' ''8'' ''ro'' = Inr (upsert_policy (grant_statement ''a'' ''8'' (Actions ''ro'')) EmptyPolicy)"
    by (simp add: UpsertStatement_def ActionsFor_def NormalizeMode_def ModeRO_def ModeRW_def)
  from RemoveStatementForAuthID_exact [OF _ this, of "''7''"] show ?thesis by simp
qed

lemmas run_defs = run_simps const_conn_def world0_def authorize_def Let_def maxRetries_def DoJSON_def into_def noOut_def

lemma MutateBucketPolicy_atomic_witness:
  "\<exists>es. w_events (snd (run_state (MutateBucketPolicy (const_conn (Http 200 ''e'' [] None)) ''b'' (\<lambda>p. Inr p)) world0))
     = w_events world0 @ es \<and> mutated ''b'' (\<lambda>p. Inr p) es"
proof -
  have "fst (run_state (MutateBucketPolicy (const_conn (Http 200 ''e'' [] None)) ''b'' (\<lambda>p. Inr p)) world0) = Inr ()"
    by (simp add: MutateBucketPolicy_def numeral_eq_Suc GetBucketPolicy_def lift_res_def read_policy_def decodePolicy_def
        PutBucketPolicy_def putBucketPolicy_def run_defs mk_request_def EmptyPolicy_def)
  then show ?thesis by (intro MutateBucketPolicy_atomic [of _ _ _ world0]) (simp add: prod_eq_iff)
qed

end
