(* ===== verification/Buckets.thy ===== *)
theory Buckets
  imports Trace_Logic
begin

text \<open>
  \<^verbatim>\<open>internal/qumulo/buckets.go\<close>: S3 buckets and multipart uploads.  The lookup of a bucket is shown to report absence only on
  an authoritative listing without it, and the listings to follow each cursor at most once.
\<close>

record LockConfig =
  lk_Enabled :: bool
  lk_DefaultRetention :: "(string \<times> int) option"

record Bucket =
  b_Name :: string
  b_CreationTime :: string
  b_Path :: string
  b_AnonymousAccessEnabled :: bool
  b_Versioning :: string
  b_LockConfig :: LockConfig

record CreateBucketRequest =
  cb_Name :: string
  cb_Path :: string
  cb_CreateFSPath :: "bool option"
  cb_ObjectLockEnabled :: "bool option"
  cb_Private :: "bool option"

record PatchBucketRequest =
  pb_Versioning :: "string option"
  pb_LockConfig :: "LockConfig option"
  pb_AnonymousAccessEnabled :: "bool option"

record MultipartUpload =
  mu_UploadID :: string
  mu_Key :: string
  mu_Initiated :: string

definition no_lock :: LockConfig where
  "no_lock = \<lparr>lk_Enabled = False, lk_DefaultRetention = None\<rparr>"

definition no_bucket :: Bucket where
  "no_bucket = \<lparr>b_Name = [], b_CreationTime = [], b_Path = [], b_AnonymousAccessEnabled = False, b_Versioning = [],
                b_LockConfig = no_lock\<rparr>"

definition decode_retention :: "json \<Rightarrow> (string \<times> int) option" where
  "decode_retention j = do { kvs \<leftarrow> obj_fields j; u \<leftarrow> get_str ''units'' kvs; v \<leftarrow> get_int ''value'' kvs; Some (u, v) }"

definition decode_lock :: "json \<Rightarrow> LockConfig option" where
  "decode_lock j = do {
     kvs \<leftarrow> obj_fields j;
     e \<leftarrow> get_bool ''enabled'' kvs;
     r \<leftarrow> (case jfind ''default_retention'' kvs of None \<Rightarrow> Some None | Some d \<Rightarrow> map_option Some (decode_retention d));
     Some \<lparr>lk_Enabled = e, lk_DefaultRetention = r\<rparr> }"

definition decode_bucket :: "json \<Rightarrow> Bucket option" where
  "decode_bucket j = do {
     kvs \<leftarrow> obj_fields j;
     n \<leftarrow> get_str ''name'' kvs;
     t \<leftarrow> get_str ''creation_time'' kvs;
     p \<leftarrow> get_str ''path'' kvs;
     a \<leftarrow> get_bool ''anonymous_access_enabled'' kvs;
     v \<leftarrow> get_str ''versioning'' kvs;
     l \<leftarrow> get_obj decode_lock ''lock_config'' kvs;
     Some \<lparr>b_Name = n, b_CreationTime = t, b_Path = p, b_AnonymousAccessEnabled = a, b_Versioning = v, b_LockConfig = l\<rparr> }"

definition decode_bucket_list :: "json \<Rightarrow> Bucket list option" where
  "decode_bucket_list j = do { kvs \<leftarrow> obj_fields j; get_list decode_bucket ''buckets'' kvs }"

definition encode_lock :: "LockConfig \<Rightarrow> json" where
  "encode_lock l = JObj ([(''enabled'', JBool (lk_Enabled l))] @
     (case lk_DefaultRetention l of None \<Rightarrow> []
      | Some (u, v) \<Rightarrow> [(''default_retention'', JObj [(''units'', JStr u), (''value'', JNum v)])]))"

definition encode_create_bucket :: "CreateBucketRequest \<Rightarrow> json" where
  "encode_create_bucket r = JObj
     ([(''name'', JStr (cb_Name r))] @ opt_str ''path'' (cb_Path r) @ opt_bool ''create_fs_path'' (cb_CreateFSPath r)
      @ opt_bool ''object_lock_enabled'' (cb_ObjectLockEnabled r) @ opt_bool ''private'' (cb_Private r))"

definition encode_patch_bucket :: "PatchBucketRequest \<Rightarrow> json" where
  "encode_patch_bucket r = JObj
     ((case pb_Versioning r of None \<Rightarrow> [] | Some v \<Rightarrow> [(''versioning'', JStr v)])
      @ (case pb_LockConfig r of None \<Rightarrow> [] | Some l \<Rightarrow> [(''lock_config'', encode_lock l)])
      @ opt_bool ''anonymous_access_enabled'' (pb_AnonymousAccessEnabled r))"

definition buckets_path :: string where "buckets_path = ''/v1/s3/buckets/''"

definition bucket_path :: "string \<Rightarrow> string" where
  "bucket_path name = buckets_path @ PathEscape name"

definition CreateBucket :: "Connection \<Rightarrow> CreateBucketRequest \<Rightarrow> Bucket io" where
  "CreateBucket c req =
     andThen (DoJSON c ''POST'' buckets_path [] None (Some (encode_create_bucket req)) (into no_bucket decode_bucket)) (\<lambda>(_, b).
       ok (if b_Name b = [] then b\<lparr>b_Name := cb_Name req\<rparr> else b))"

definition ListBuckets :: "Connection \<Rightarrow> Bucket list io" where
  "ListBuckets c =
     andThen (DoJSON c ''GET'' buckets_path [] None None (into [] decode_bucket_list)) (\<lambda>(_, bs). ok bs)"

definition bucket_not_found :: "string \<Rightarrow> go_error" where
  "bucket_not_found name = EApi \<lparr>ae_StatusCode = 404, ae_Description = ''bucket '' @ fmt_q name @ '' not found'', ae_Module = [],
     ae_ErrorClass = ErrClassS3BucketNotFound, ae_UserVisible = False\<rparr>"

definition GetBucket :: "Connection \<Rightarrow> string \<Rightarrow> Bucket io" where
  "GetBucket c name = do {
     r \<leftarrow> DoJSON c ''GET'' (bucket_path name) [] None None (into no_bucket decode_bucket);
     let direct = (case r of Inr (_, b) \<Rightarrow> if b_Name b \<noteq> [] then Some b else None | Inl _ \<Rightarrow> None);
     case direct of
       Some b \<Rightarrow> ok b
     | None \<Rightarrow>
         andThen (ListBuckets c) (\<lambda>bs.
           case find (\<lambda>b. b_Name b = name) bs of
             Some b \<Rightarrow> ok b
           | None \<Rightarrow> fail (bucket_not_found name)) }"

definition PatchBucket :: "Connection \<Rightarrow> string \<Rightarrow> PatchBucketRequest \<Rightarrow> Bucket io" where
  "PatchBucket c name req =
     andThen (DoJSON c ''PATCH'' (bucket_path name) [] None (Some (encode_patch_bucket req)) (into no_bucket decode_bucket)) (\<lambda>(_, b). ok b)"

definition DeleteBucket :: "Connection \<Rightarrow> string \<Rightarrow> bool \<Rightarrow> unit io" where
  "DeleteBucket c name deleteRootDir =
     andThen (DoJSON c ''DELETE'' (bucket_path name)
         [(''delete-root-dir'', if deleteRootDir then ''true'' else ''false'')] None None noOut) (\<lambda>_. ok ())"

definition decode_upload :: "json \<Rightarrow> MultipartUpload option" where
  "decode_upload j = do {
     kvs \<leftarrow> obj_fields j;
     i \<leftarrow> get_str ''id'' kvs; k \<leftarrow> get_str ''key'' kvs; t \<leftarrow> get_str ''initiated'' kvs;
     Some \<lparr>mu_UploadID = i, mu_Key = k, mu_Initiated = t\<rparr> }"

text \<open>A page of uploads: \<open>uploads\<close>, or \<open>entries\<close> when that is empty, and the link to the next page.\<close>

definition decode_upload_page :: "json \<Rightarrow> (MultipartUpload list \<times> string option) option" where
  "decode_upload_page j = do {
     kvs \<leftarrow> obj_fields j;
     us \<leftarrow> get_list decode_upload ''uploads'' kvs;
     es \<leftarrow> get_list decode_upload ''entries'' kvs;
     nxt \<leftarrow> decode_paging kvs;
     Some (if us = [] then es else us, nxt) }"

definition uploads_page :: "Connection \<Rightarrow> string \<Rightarrow> string \<Rightarrow> (MultipartUpload list \<times> string option) io" where
  "uploads_page c bucket after =
     andThen (DoJSON c ''GET'' (bucket_path bucket @ ''/uploads/'')
         ((if after \<noteq> [] then [(''after'', after)] else []) @ [(''limit'', ''100'')]) None None
         (into ([], None) decode_upload_page)) (\<lambda>(_, p). ok p)"

definition ListUploads :: "Connection \<Rightarrow> string \<Rightarrow> MultipartUpload list io" where
  "ListUploads c bucket =
     list_pages (uploads_page c bucket) (''list multipart uploads for bucket '' @ fmt_q bucket @ '': '') (c_fuel c) [] [] []"

definition AbortUpload :: "Connection \<Rightarrow> string \<Rightarrow> string \<Rightarrow> unit io" where
  "AbortUpload c bucket uploadID =
     andThen (DoJSON c ''DELETE'' (bucket_path bucket @ ''/uploads/'' @ PathEscape uploadID) [] None None noOut) (\<lambda>_. ok ())"

fun abort_loop :: "Connection \<Rightarrow> string \<Rightarrow> MultipartUpload list \<Rightarrow> nat \<Rightarrow> nat io" where
  "abort_loop c bucket [] n = ok n"
| "abort_loop c bucket (u # us) n =
     (if mu_UploadID u = [] then abort_loop c bucket us n
      else do {
        r \<leftarrow> AbortUpload c bucket (mu_UploadID u);
        case r of
          Inl err \<Rightarrow> if isAPINotFound err then abort_loop c bucket us n else fail err
        | Inr _ \<Rightarrow> abort_loop c bucket us (Suc n) })"

definition AbortAllUploads :: "Connection \<Rightarrow> string \<Rightarrow> nat io" where
  "AbortAllUploads c bucket = do {
     r \<leftarrow> ListUploads c bucket;
     case r of
       Inl err \<Rightarrow> if isAPINotFound err then ok 0 else fail err
     | Inr ups \<Rightarrow> abort_loop c bucket ups 0 }"

section \<open>Absence is authoritative\<close>

definition list_get :: request where
  "list_get = mk_request ''GET'' buckets_path [] None None"

text \<open>\<open>es\<close> ends with a listing \<open>bs\<close> of all buckets.\<close>

definition listed :: "event list \<Rightarrow> Bucket list \<Rightarrow> bool" where
  "listed es bs \<longleftrightarrow> (\<exists>etag raw j. answered list_get es etag raw j \<and> into [] decode_bucket_list raw j = Some bs)"

definition bucket_direct :: "string \<Rightarrow> event list \<Rightarrow> Bucket \<Rightarrow> bool" where
  "bucket_direct name es b \<longleftrightarrow>
     b_Name b \<noteq> [] \<and> (\<exists>etag raw j. answered (mk_request ''GET'' (bucket_path name) [] None None) es etag raw j \<and>
        into no_bucket decode_bucket raw j = Some b)"

definition bucket_known :: "string \<Rightarrow> event list \<Rightarrow> Bucket \<Rightarrow> bool" where
  "bucket_known name es b \<longleftrightarrow>
     bucket_direct name es b \<or> b_Name b = name \<and> (\<exists>es0 es1 bs. es = es0 @ es1 \<and> listed es1 bs \<and> b \<in> set bs)"

text \<open>No bucket of this name: the last events are a listing without it, or the listing itself was not found.\<close>

definition bucket_absent :: "string \<Rightarrow> event list \<Rightarrow> bool" where
  "bucket_absent name es \<longleftrightarrow>
     (\<exists>es0 es1 bs. es = es0 @ es1 \<and> listed es1 bs \<and> (\<forall>b \<in> set bs. b_Name b \<noteq> name)) \<or> not_found_answer list_get es"

lemma emits_ListBuckets:
  "emits (ListBuckets c) (\<lambda>es r. case r of Inr bs \<Rightarrow> listed es bs | Inl e \<Rightarrow> isAPINotFound e \<longrightarrow> not_found_answer list_get es)"
  unfolding ListBuckets_def
proof (rule emits_call, fold list_get_def, goal_cases)
  case (1 es e)
  then show ?case using not_found_seen' by simp
next
  case (2 es etag bs raw j)
  then have "listed es bs" unfolding listed_def by blast
  then show ?case by (simp add: emits_ret)
qed

lemma emits_GetBucket:
  "emits (GetBucket c name) (\<lambda>es r. case r of Inr b \<Rightarrow> bucket_known name es b | Inl e \<Rightarrow> isAPINotFound e \<longrightarrow> bucket_absent name es)"
  (is "emits _ ?Q")
proof -
  let ?tail = "andThen (ListBuckets c) (\<lambda>bs.
           case find (\<lambda>b. b_Name b = name) bs of Some b \<Rightarrow> ok b | None \<Rightarrow> fail (bucket_not_found name))"
  have tail: "emits ?tail (\<lambda>es' r. ?Q (es @ es') r)" for es
  proof (rule emits_andThen [OF emits_ListBuckets], goal_cases)
    case (1 es' e)
    then have "isAPINotFound e \<Longrightarrow> not_found_answer list_get (es @ es')" by (simp add: not_found_mono)
    then show ?case by (simp add: bucket_absent_def)
  next
    case (2 es' bs)
    then have l: "listed es' bs" by simp
    show ?case
    proof (cases "find (\<lambda>b. b_Name b = name) bs")
      case None
      then have "bucket_absent name (es @ es')"
        using l unfolding bucket_absent_def find_None_iff by blast
      then show ?thesis using None by (simp add: emits_ret)
    next
      case (Some b)
      then have "b_Name b = name" "b \<in> set bs" by (auto simp: find_Some_iff)
      then have "bucket_known name (es @ es') b" using l unfolding bucket_known_def by blast
      then show ?thesis using Some by (simp add: emits_ret)
    qed
  qed
  show ?thesis
    unfolding GetBucket_def Let_def
  proof (rule emits_attempt, goal_cases)
    case (1 es e)
    then show ?case using tail [of es] by simp
  next
    case (2 es etag b raw j)
    show ?case
    proof (cases "b_Name b = []")
      case True
      then show ?thesis using tail [of es] by simp
    next
      case False
      then have "bucket_known name es b" using 2 unfolding bucket_known_def bucket_direct_def by blast
      then show ?thesis using False by (simp add: emits_ret)
    qed
  qed
qed

text \<open>a bucket lookup says not found only when the last thing it saw was a complete listing without the name, or the listing
  itself was not found; the answer of the direct lookup, a 405 on current Core, never decides it.\<close>

theorem GetBucket_absent:
  assumes "run_state (GetBucket c name) w = (Inl e, w')" "isAPINotFound e"
  shows "\<exists>es. w_events w' = w_events w @ es \<and> bucket_absent name es"
  using emitsD [OF emits_GetBucket assms(1)] assms(2) by auto

section \<open>The listing of uploads ends\<close>

text \<open>The cursors a cluster offers after uploads of a bucket are in \<open>S\<close>.\<close>

definition upload_cursors_in :: "Connection \<Rightarrow> string set \<Rightarrow> bool" where
  "upload_cursors_in c S \<longleftrightarrow>
     (\<forall>h rq st etag raw j us nxt a. c_cluster c h rq = Http st etag raw j \<longrightarrow>
        into ([], None) decode_upload_page raw j = Some (us, nxt) \<longrightarrow> offers nxt a \<longrightarrow> a \<in> S)"

lemma uploads_page_cursors:
  assumes "upload_cursors_in c S"
  shows "emits (uploads_page c bucket after) (\<lambda>_ r. (\<forall>e. r = Inl e \<longrightarrow> \<not> diverged e) \<and>
           (\<forall>us nxt a. r = Inr (us, nxt) \<longrightarrow> offers nxt a \<longrightarrow> a \<in> S))"
proof -
  let ?q = "(if after \<noteq> [] then [(''after'', after)] else []) @ [(''limit'', ''100'')]"
  let ?D = "DoJSON c ''GET'' (bucket_path bucket @ ''/uploads/'') ?q None None (into ([], None) decode_upload_page)"
  have "emits ?D (\<lambda>es r. (json_post (mk_request ''GET'' (bucket_path bucket @ ''/uploads/'') ?q None None)
          (into ([], None) decode_upload_page) es r \<and> list_all (from_cluster c) es) \<and> (\<forall>e. r = Inl e \<longrightarrow> \<not> diverged e))"
    by (intro emits_conj emits_DoJSON genuine_DoJSON [unfolded evs_def] returns_DoJSON [unfolded returns_def])
  then show ?thesis
    unfolding uploads_page_def
  proof (rule emits_andThen, simp, goal_cases)
    case (1 es x)
    obtain etag us nxt where x: "x = (etag, us, nxt)" by (cases x)
    with 1 obtain raw j where "answered (mk_request ''GET'' (bucket_path bucket @ ''/uploads/'') ?q None None) es etag raw j"
      "into ([], None) decode_upload_page raw j = Some (us, nxt)" "list_all (from_cluster c) es"
      by (auto simp: json_post_def)
    then have "offers nxt a \<Longrightarrow> a \<in> S" for a
      using assms unfolding answered_def upload_cursors_in_def by (metis append_is_Nil_conv from_cluster.simps(1)
        list.pred_inject(2) list_all_append)
    then show ?case using x by (simp add: emits_ret)
  qed
qed

text \<open>C31: the listing of uploads ends on every cluster that has finitely many cursors to offer: it follows each cursor at most once, so
  fuel above their number is never used up.\<close>

theorem ListUploads_returns:
  assumes "finite S" "upload_cursors_in c S" "card S < c_fuel c"
  shows "returns (ListUploads c bucket)"
  unfolding ListUploads_def
  by (rule list_pages_returns [OF assms(1) uploads_page_cursors [OF assms(2)]]) (use assms(3) in simp_all)

section \<open>What the operations send\<close>

definition bucket_post :: "CreateBucketRequest \<Rightarrow> request" where
  "bucket_post req = mk_request ''POST'' buckets_path [] None (Some (encode_create_bucket req))"

definition bucket_delete :: "string \<Rightarrow> bool \<Rightarrow> request" where
  "bucket_delete name deleteRootDir =
     mk_request ''DELETE'' (bucket_path name) [(''delete-root-dir'', if deleteRootDir then ''true'' else ''false'')] None None"

definition bucket_patch :: "string \<Rightarrow> PatchBucketRequest \<Rightarrow> request" where
  "bucket_patch name req = mk_request ''PATCH'' (bucket_path name) [] None (Some (encode_patch_bucket req))"

definition upload_delete :: "string \<Rightarrow> string \<Rightarrow> request" where
  "upload_delete bucket i = mk_request ''DELETE'' (bucket_path bucket @ ''/uploads/'' @ PathEscape i) [] None None"

lemma sends_ListBuckets: "reads R \<Longrightarrow> sends R (ListBuckets c)"
  unfolding ListBuckets_def by (intro io_rules sends_GET)

lemma sends_GetBucket: "reads R \<Longrightarrow> sends R (GetBucket c name)"
  unfolding GetBucket_def by (intro io_rules sends_GET sends_ListBuckets)

lemma sends_CreateBucket: "R (bucket_post req) \<Longrightarrow> sends R (CreateBucket c req)"
  unfolding CreateBucket_def bucket_post_def by (intro io_rules sends_DoJSON)

lemma sends_PatchBucket: "R (bucket_patch name req) \<Longrightarrow> sends R (PatchBucket c name req)"
  unfolding PatchBucket_def bucket_patch_def by (intro io_rules sends_DoJSON)

lemma sends_DeleteBucket: "R (bucket_delete name d) \<Longrightarrow> sends R (DeleteBucket c name d)"
  unfolding DeleteBucket_def bucket_delete_def by (intro io_rules sends_DoJSON)

lemma sends_ListUploads: "reads R \<Longrightarrow> sends R (ListUploads c b)"
  unfolding ListUploads_def uploads_page_def by (intro sends_list_pages io_rules sends_GET)

lemma sends_abort_loop: "(\<And>i. R (upload_delete b i)) \<Longrightarrow> sends R (abort_loop c b us n)"
proof (induction us arbitrary: n)
  case (Cons u us)
  then show ?case
    unfolding abort_loop.simps AbortUpload_def upload_delete_def by (intro io_rules sends_DoJSON) simp_all
qed (simp only: abort_loop.simps sends_ret)

lemma sends_AbortAllUploads: "reads R \<Longrightarrow> (\<And>i. R (upload_delete b i)) \<Longrightarrow> sends R (AbortAllUploads c b)"
  unfolding AbortAllUploads_def by (intro io_rules sends_ListUploads sends_abort_loop)

end
