(* ===== verification/Users_Keys.thy ===== *)
theory Users_Keys
  imports Trace_Logic
begin

text \<open>
  \<^verbatim>\<open>internal/qumulo/users.go\<close> and \<^verbatim>\<open>internal/qumulo/accesskeys.go\<close>: local users, groups and S3 access keys.  The owner listing is
  shown never to return a key of another identity once the immutable auth id is known.
\<close>

section \<open>Users and groups\<close>

record LocalUser =
  lu_ID :: string
  lu_Name :: string
  lu_PrimaryGroup :: string
  lu_SID :: string
  lu_UID :: int
  lu_HomeDir :: string

record LocalGroup =
  lg_ID :: string
  lg_Name :: string

text \<open>\<open>qint\<close>: a number, a numeric string, an empty string or null.\<close>

fun decode_qint :: "json \<Rightarrow> int option" where
  "decode_qint JNull = Some 0"
| "decode_qint (JStr s) = (if s = [] then Some 0 else ParseInt64 s)"
| "decode_qint (JNum i) = (if - (2 ^ 63) \<le> i \<and> i < 2 ^ 63 then Some i else None)"
| "decode_qint _ = None"

definition get_qint :: "string \<Rightarrow> (string \<times> json) list \<Rightarrow> int option" where
  "get_qint k kvs = (case jfind k kvs of None \<Rightarrow> Some 0 | Some j \<Rightarrow> decode_qint j)"

definition no_user :: LocalUser where
  "no_user = \<lparr>lu_ID = [], lu_Name = [], lu_PrimaryGroup = [], lu_SID = [], lu_UID = 0, lu_HomeDir = []\<rparr>"

definition decode_user :: "json \<Rightarrow> LocalUser option" where
  "decode_user j = do {
     kvs \<leftarrow> obj_fields j;
     i \<leftarrow> get_str ''id'' kvs; n \<leftarrow> get_str ''name'' kvs; g \<leftarrow> get_str ''primary_group'' kvs; s \<leftarrow> get_str ''sid'' kvs;
     u \<leftarrow> get_qint ''uid'' kvs; h \<leftarrow> get_str ''home_directory'' kvs;
     Some \<lparr>lu_ID = i, lu_Name = n, lu_PrimaryGroup = g, lu_SID = s, lu_UID = u, lu_HomeDir = h\<rparr> }"

definition decode_group :: "json \<Rightarrow> LocalGroup option" where
  "decode_group j = do { kvs \<leftarrow> obj_fields j; i \<leftarrow> get_str ''id'' kvs; n \<leftarrow> get_str ''name'' kvs; Some \<lparr>lg_ID = i, lg_Name = n\<rparr> }"

fun decode_array :: "(json \<Rightarrow> 'a option) \<Rightarrow> json \<Rightarrow> 'a list option" where
  "decode_array d (JArr js) = decode_all d js"
| "decode_array d JNull = Some []"
| "decode_array d _ = None"

definition decodeGroupList :: "json option \<Rightarrow> LocalGroup list res" where
  "decodeGroupList raw =
     (case Option.bind raw (decode_array decode_group) of
        Some gs \<Rightarrow> Inr gs
      | None \<Rightarrow>
        (case do { j \<leftarrow> raw; kvs \<leftarrow> obj_fields j; gs \<leftarrow> get_list decode_group ''groups'' kvs;
                   es \<leftarrow> get_list decode_group ''entries'' kvs; Some (if gs \<noteq> [] then gs else es) } of
           None \<Rightarrow> Inl (EMsg ''decode groups'')
         | Some gs \<Rightarrow> Inr gs))"

text \<open>A null decodes to no users in the first form and in the second, so the test on the length in the code makes no difference.\<close>

definition decodeUserList :: "json option \<Rightarrow> LocalUser list res" where
  "decodeUserList raw =
     (case Option.bind raw (decode_array decode_user) of
        Some us \<Rightarrow> Inr us
      | None \<Rightarrow>
        (case do { j \<leftarrow> raw; kvs \<leftarrow> obj_fields j; us \<leftarrow> get_list decode_user ''users'' kvs;
                   es \<leftarrow> get_list decode_user ''entries'' kvs; Some (if us \<noteq> [] then us else es) } of
           None \<Rightarrow> Inl (EMsg ''decode users'')
         | Some us \<Rightarrow> Inr us))"

definition DefaultUsersGroupID :: string where "DefaultUsersGroupID = ''513''"

definition raw_out :: "json option decoder" where
  "raw_out = into None (\<lambda>j. Some (Some j))"

definition ListGroups :: "Connection \<Rightarrow> LocalGroup list io" where
  "ListGroups c =
     andThen (DoJSON c ''GET'' ''/v1/groups/'' [] None None raw_out) (\<lambda>(_, raw). lift_res (decodeGroupList raw))"

definition UsersGroupID :: "Connection \<Rightarrow> string io" where
  "UsersGroupID c =
     andThen (ListGroups c) (\<lambda>groups.
       case find (\<lambda>g. EqualFold (lg_Name g) ''Users'') groups of
         Some g \<Rightarrow> ok (lg_ID g)
       | None \<Rightarrow> ok DefaultUsersGroupID)"

definition encode_create_user :: "string \<Rightarrow> string \<Rightarrow> string \<Rightarrow> json" where
  "encode_create_user name password primaryGroup =
     JObj ([(''name'', JStr name)] @ opt_str ''password'' password @ opt_str ''primary_group'' primaryGroup)"

definition createUser :: "Connection \<Rightarrow> string \<Rightarrow> string \<Rightarrow> string \<Rightarrow> LocalUser io" where
  "createUser c name password primaryGroup =
     andThen (DoJSON c ''POST'' ''/v1/users/'' [] None (Some (encode_create_user name password primaryGroup))
         (into no_user decode_user)) (\<lambda>(_, u). ok (if lu_Name u = [] then u\<lparr>lu_Name := name\<rparr> else u))"

definition primaryGroupRejected :: "go_error \<Rightarrow> bool" where
  "primaryGroupRejected err =
     (case AsAPIError err of None \<Rightarrow> False | Some api \<Rightarrow> Contains (ToLower (ae_Description api)) ''primary_group'')"

definition CreateUser :: "Connection \<Rightarrow> string \<Rightarrow> string \<Rightarrow> LocalUser io" where
  "CreateUser c name unusablePassword = do {
     g \<leftarrow> UsersGroupID c;
     let gid = (case g of Inr gid \<Rightarrow> if gid = [] then DefaultUsersGroupID else gid | Inl _ \<Rightarrow> DefaultUsersGroupID);
     r \<leftarrow> createUser c name unusablePassword gid;
     case r of
       Inl err \<Rightarrow> if primaryGroupRejected err then createUser c name unusablePassword [] else fail err
     | Inr u \<Rightarrow> ok u }"

definition ListUsers :: "Connection \<Rightarrow> LocalUser list io" where
  "ListUsers c =
     andThen (DoJSON c ''GET'' ''/v1/users/'' [] None None raw_out) (\<lambda>(_, raw). lift_res (decodeUserList raw))"

definition user_not_found :: "string \<Rightarrow> go_error" where
  "user_not_found name = EApi \<lparr>ae_StatusCode = 404, ae_Description = ''user '' @ fmt_q name @ '' not found'', ae_Module = [],
     ae_ErrorClass = ErrClassAuthNoSuchUser, ae_UserVisible = False\<rparr>"

definition GetUserByName :: "Connection \<Rightarrow> string \<Rightarrow> LocalUser io" where
  "GetUserByName c name =
     andThen (ListUsers c) (\<lambda>users.
       case find (\<lambda>u. lu_Name u = name) users of Some u \<Rightarrow> ok u | None \<Rightarrow> fail (user_not_found name))"

definition DeleteUserByID :: "Connection \<Rightarrow> string \<Rightarrow> unit io" where
  "DeleteUserByID c authID =
     andThen (DoJSON c ''DELETE'' (''/v1/users/'' @ PathEscape authID) [] None None noOut) (\<lambda>_. ok ())"

definition DeleteUser :: "Connection \<Rightarrow> string \<Rightarrow> unit io" where
  "DeleteUser c idOrName =
     (if ParseInt64 idOrName = None then
        andThen (GetUserByName c idOrName) (\<lambda>u. DeleteUserByID c (if lu_ID u \<noteq> [] then lu_ID u else idOrName))
      else DeleteUserByID c idOrName)"

section \<open>Access keys\<close>

record Identity =
  id_Domain :: string
  id_AuthID :: string
  id_UID :: "int option"
  id_GID :: "int option"
  id_SID :: string
  id_Name :: string

record AccessKey =
  ak_AccessKeyID :: string
  ak_SecretAccessKey :: string
  ak_Owner :: Identity
  ak_CreationTime :: string

definition no_identity :: Identity where
  "no_identity = \<lparr>id_Domain = [], id_AuthID = [], id_UID = None, id_GID = None, id_SID = [], id_Name = []\<rparr>"

definition no_key :: AccessKey where
  "no_key = \<lparr>ak_AccessKeyID = [], ak_SecretAccessKey = [], ak_Owner = no_identity, ak_CreationTime = []\<rparr>"

definition decode_identity :: "json \<Rightarrow> Identity option" where
  "decode_identity j = do {
     kvs \<leftarrow> obj_fields j;
     d \<leftarrow> get_str ''domain'' kvs; a \<leftarrow> get_str ''auth_id'' kvs; u \<leftarrow> get_int_ptr ''uid'' kvs; g \<leftarrow> get_int_ptr ''gid'' kvs;
     s \<leftarrow> get_str ''sid'' kvs; n \<leftarrow> get_str ''name'' kvs;
     Some \<lparr>id_Domain = d, id_AuthID = a, id_UID = u, id_GID = g, id_SID = s, id_Name = n\<rparr> }"

definition encode_identity :: "Identity \<Rightarrow> json" where
  "encode_identity i = JObj
     (opt_str ''domain'' (id_Domain i) @ opt_str ''auth_id'' (id_AuthID i)
      @ (case id_UID i of None \<Rightarrow> [] | Some u \<Rightarrow> [(''uid'', JNum u)]) @ (case id_GID i of None \<Rightarrow> [] | Some g \<Rightarrow> [(''gid'', JNum g)])
      @ opt_str ''sid'' (id_SID i) @ opt_str ''name'' (id_Name i))"

definition decode_key :: "json \<Rightarrow> AccessKey option" where
  "decode_key j = do {
     kvs \<leftarrow> obj_fields j;
     i \<leftarrow> get_str ''access_key_id'' kvs; s \<leftarrow> get_str ''secret_access_key'' kvs;
     ow \<leftarrow> get_obj decode_identity ''owner'' kvs; t \<leftarrow> get_str ''creation_time'' kvs;
     Some \<lparr>ak_AccessKeyID = i, ak_SecretAccessKey = s, ak_Owner = ow, ak_CreationTime = t\<rparr> }"

definition decode_key_page :: "json \<Rightarrow> (AccessKey list \<times> string option) option" where
  "decode_key_page j = do {
     kvs \<leftarrow> obj_fields j; es \<leftarrow> get_list decode_key ''entries'' kvs; nxt \<leftarrow> decode_paging kvs; Some (es, nxt) }"

definition keys_path :: string where "keys_path = ''/v1/s3/access-keys/''"

definition CreateAccessKey :: "Connection \<Rightarrow> Identity \<Rightarrow> AccessKey io" where
  "CreateAccessKey c user =
     andThen (DoJSON c ''POST'' keys_path [] None (Some (JObj [(''user'', encode_identity user)])) (into no_key decode_key)) (\<lambda>(_, k). ok k)"

definition keys_page :: "Connection \<Rightarrow> string \<Rightarrow> (AccessKey list \<times> string option) io" where
  "keys_page c after =
     andThen (DoJSON c ''GET'' keys_path ((if after \<noteq> [] then [(''after'', after)] else []) @ [(''limit'', ''100'')]) None None
         (into ([], None) decode_key_page)) (\<lambda>(_, p). ok p)"

definition ListAccessKeys :: "Connection \<Rightarrow> string \<Rightarrow> AccessKey list io" where
  "ListAccessKeys c user =
     (if user \<noteq> [] then
        andThen (DoJSON c ''GET'' keys_path [(''user'', user)] None None (into ([], None) decode_key_page)) (\<lambda>(_, p). ok (fst p))
      else list_pages (keys_page c) ''list access keys: '' (c_fuel c) [] [] [])"

definition owner_match :: "string \<Rightarrow> string \<Rightarrow> AccessKey \<Rightarrow> bool" where
  "owner_match username authID k \<longleftrightarrow>
     (if authID \<noteq> [] then id_AuthID (ak_Owner k) = authID
      else if username \<noteq> [] then id_Name (ak_Owner k) = username else False)"

definition ListAccessKeysByOwner :: "Connection \<Rightarrow> string \<Rightarrow> string \<Rightarrow> AccessKey list io" where
  "ListAccessKeysByOwner c username authID =
     (let full = andThen (ListAccessKeys c []) (\<lambda>all. ok (filter (owner_match username authID) all))
      in if authID \<noteq> [] then do {
           r \<leftarrow> ListAccessKeys c authID;
           case r of
             Inr keys \<Rightarrow> ok keys
           | Inl err \<Rightarrow>
              (case AsAPIError err of
                 None \<Rightarrow> fail err
               | Some api \<Rightarrow> if ae_StatusCode api < 400 \<or> ae_StatusCode api \<ge> 500 then fail err else full) }
         else full)"

definition DeleteAccessKey :: "Connection \<Rightarrow> string \<Rightarrow> unit io" where
  "DeleteAccessKey c accessKeyID =
     andThen (DoJSON c ''DELETE'' (keys_path @ PathEscape accessKeyID) [] None None noOut) (\<lambda>_. ok ())"

section \<open>Lookups and listings\<close>

definition users_get :: request where
  "users_get = mk_request ''GET'' ''/v1/users/'' [] None None"

definition users_listed :: "event list \<Rightarrow> LocalUser list \<Rightarrow> bool" where
  "users_listed es us \<longleftrightarrow>
     (\<exists>etag raw j. answered users_get es etag raw j \<and> decodeUserList (if raw = [] then None else j) = Inr us)"

lemma raw_out_Some: "raw_out raw j = Some d \<Longrightarrow> d = (if raw = [] then None else j)"
  by (cases j) (auto simp: raw_out_def into_def split: if_splits)

lemma decodeUserList_no_api: "decodeUserList raw = Inl e \<Longrightarrow> AsAPIError e = None"
  by (auto simp: decodeUserList_def split: option.splits)

lemma emits_ListUsers:
  "emits (ListUsers c) (\<lambda>es r. case r of Inr us \<Rightarrow> users_listed es us | Inl e \<Rightarrow> isAPINotFound e \<longrightarrow> not_found_answer users_get es)"
  unfolding ListUsers_def
proof (rule emits_call, fold users_get_def, goal_cases)
  case (1 es e)
  then show ?case using not_found_seen' by simp
next
  case (2 es etag d raw j)
  note d = raw_out_Some [OF 2(2)]
  show ?case
  proof (cases "decodeUserList d")
    case (Inl e)
    then show ?thesis using decodeUserList_no_api [OF Inl] by (simp add: lift_res_def emits_ret isAPINotFound_def)
  next
    case (Inr us)
    then have "users_listed es us" using 2(1) d unfolding users_listed_def by blast
    then show ?thesis using Inr by (simp add: lift_res_def emits_ret)
  qed
qed

definition user_absent :: "string \<Rightarrow> event list \<Rightarrow> bool" where
  "user_absent name es \<longleftrightarrow> (\<exists>us. users_listed es us \<and> (\<forall>u \<in> set us. lu_Name u \<noteq> name)) \<or> not_found_answer users_get es"

lemma emits_GetUserByName:
  "emits (GetUserByName c name) (\<lambda>es r.
     case r of
       Inr u \<Rightarrow> lu_Name u = name \<and> (\<exists>us. users_listed es us \<and> u \<in> set us)
     | Inl e \<Rightarrow> isAPINotFound e \<longrightarrow> user_absent name es)"
  unfolding GetUserByName_def
proof (rule emits_andThen [OF emits_ListUsers], goal_cases)
  case (1 es e)
  then show ?case by (simp add: user_absent_def)
next
  case (2 es us)
  show ?case
  proof (cases "find (\<lambda>u. lu_Name u = name) us")
    case None
    then have "user_absent name es" using 2 unfolding user_absent_def find_None_iff by auto
    then show ?thesis using None by (simp add: emits_ret)
  next
    case (Some u)
    then have "lu_Name u = name" "u \<in> set us" by (auto simp: find_Some_iff)
    then show ?thesis using Some 2 by (auto intro!: emits_ret)
  qed
qed

text \<open>a key listed for an owner is the owner's: it carries the auth id (or, when none is known, the user name), except in an answer
  to the query by that very auth id, whose selection is the cluster's.  A key that carries another auth id is never picked by name.\<close>

theorem ListAccessKeysByOwner_owned:
  assumes "run_state (ListAccessKeysByOwner c username authID) w = (Inr ks, w')"
  shows "\<exists>es. w_events w' = w_events w @ es \<and>
    (list_all (owner_match username authID) ks \<or>
     authID \<noteq> [] \<and> (\<exists>etag raw j nxt. answered (mk_request ''GET'' keys_path [(''user'', authID)] None None) es etag raw j \<and>
        into ([], None) decode_key_page raw j = Some (ks, nxt)))"
proof -
  let ?Q = "\<lambda>es ks. list_all (owner_match username authID) ks \<or>
     authID \<noteq> [] \<and> (\<exists>etag raw j nxt. answered (mk_request ''GET'' keys_path [(''user'', authID)] None None) es etag raw j \<and>
        into ([], None) decode_key_page raw j = Some (ks, nxt))"
  have any: "emits (ListAccessKeys c u) (\<lambda>_ _. True)" for u
  proof -
    have "sends (\<lambda>_. True) (ListAccessKeys c u)"
      unfolding ListAccessKeys_def keys_page_def by (intro io_rules sends_list_pages sends_DoJSON TrueI)
    then show ?thesis unfolding evs_def by (rule emits_any)
  qed
  have full: "emits (andThen (ListAccessKeys c []) (\<lambda>all. ok (filter (owner_match username authID) all))) (on_ok (\<lambda>es'. ?Q (es @ es')))" for es
    by (rule emits_andThen_ok [OF any], rule emits_ok) (simp add: list_all_iff)
  have fast: "emits (ListAccessKeys c authID) (on_ok ?Q)" if "authID \<noteq> []"
    unfolding ListAccessKeys_def using that by (auto intro!: emits_call_ok emits_ok)
  have "emits (ListAccessKeysByOwner c username authID) (on_ok ?Q)"
    unfolding ListAccessKeysByOwner_def Let_def
  proof (rule emits_if, goal_cases)
    case 1
    show ?case
    proof (rule emits_bind_ok [OF fast [OF 1]], rule emits_case_sum, goal_cases)
      case (1 es r e)
      show ?case by (intro emits_case_option emits_if emits_fail full)
    next
      case (2 es r ks)
      then show ?case by (intro emits_ok) simp
    qed
  qed (use full [of "[]"] in simp)
  from emits_on_okD [OF this assms] show ?thesis .
qed

section \<open>What the operations send\<close>

definition user_post :: "string \<Rightarrow> string \<Rightarrow> string \<Rightarrow> request" where
  "user_post name password g = mk_request ''POST'' ''/v1/users/'' [] None (Some (encode_create_user name password g))"

definition user_delete :: "string \<Rightarrow> request" where
  "user_delete authID = mk_request ''DELETE'' (''/v1/users/'' @ PathEscape authID) [] None None"

definition key_post :: "Identity \<Rightarrow> request" where
  "key_post user = mk_request ''POST'' keys_path [] None (Some (JObj [(''user'', encode_identity user)]))"

definition key_delete :: "string \<Rightarrow> request" where
  "key_delete k = mk_request ''DELETE'' (keys_path @ PathEscape k) [] None None"

lemma sends_ListGroups: "reads R \<Longrightarrow> sends R (ListGroups c)"
  unfolding ListGroups_def by (intro io_rules sends_GET)

lemma sends_ListUsers: "reads R \<Longrightarrow> sends R (ListUsers c)"
  unfolding ListUsers_def by (intro io_rules sends_GET)

lemma sends_GetUserByName: "reads R \<Longrightarrow> sends R (GetUserByName c name)"
  unfolding GetUserByName_def by (intro io_rules sends_ListUsers)

lemma sends_CreateUser: "reads R \<Longrightarrow> (\<And>g. R (user_post name password g)) \<Longrightarrow> sends R (CreateUser c name password)"
  unfolding CreateUser_def UsersGroupID_def createUser_def user_post_def
  by (intro io_rules sends_ListGroups sends_DoJSON)

lemma sends_DeleteUserByID: "R (user_delete i) \<Longrightarrow> sends R (DeleteUserByID c i)"
  unfolding DeleteUserByID_def user_delete_def by (intro io_rules sends_DoJSON)

lemma sends_CreateAccessKey: "R (key_post u) \<Longrightarrow> sends R (CreateAccessKey c u)"
  unfolding CreateAccessKey_def key_post_def by (intro io_rules sends_DoJSON)

lemma sends_DeleteAccessKey: "R (key_delete k) \<Longrightarrow> sends R (DeleteAccessKey c k)"
  unfolding DeleteAccessKey_def key_delete_def by (intro io_rules sends_DoJSON)

lemma sends_ListAccessKeys: "reads R \<Longrightarrow> sends R (ListAccessKeys c u)"
  unfolding ListAccessKeys_def keys_page_def by (intro io_rules sends_list_pages sends_GET)

lemma sends_ListAccessKeysByOwner: "reads R \<Longrightarrow> sends R (ListAccessKeysByOwner c u a)"
  unfolding ListAccessKeysByOwner_def Let_def by (intro io_rules sends_ListAccessKeys)

end
