(* ===== verification/Quotas.thy ===== *)
theory Quotas
  imports Trace_Logic
begin

text \<open>
  \<^verbatim>\<open>internal/qumulo/quotas.go\<close>: directory quotas.  Growing a quota is shown never to shrink one: the limit it reports
  was read from the cluster or written by it, and is at least the one asked for.
\<close>

record Quota =
  q_ID :: string
  q_Limit :: int
  q_ETag :: string

definition encode_quota :: "string \<Rightarrow> int \<Rightarrow> json" where
  "encode_quota fileID limit = JObj [(''id'', JStr fileID), (''limit'', JStr (itoa limit))]"

text \<open>The limit as a decimal string or as a number.\<close>

definition quota_limit_text :: "json option \<Rightarrow> string option" where
  "quota_limit_text l =
     (case l of Some (JStr s) \<Rightarrow> Some s | Some JNull \<Rightarrow> Some [] | Some (JNum i) \<Rightarrow> Some (itoa i) | _ \<Rightarrow> None)"

definition decode_quota :: "json \<Rightarrow> Quota option" where
  "decode_quota j = do {
     kvs \<leftarrow> obj_fields j;
     i \<leftarrow> get_str ''id'' kvs;
     v \<leftarrow> quota_limit_text (get_raw ''limit'' kvs);
     l \<leftarrow> ParseInt64 v;
     if l < 0 then None else Some \<lparr>q_ID = i, q_Limit = l, q_ETag = []\<rparr> }"

definition no_quota :: Quota where
  "no_quota = \<lparr>q_ID = [], q_Limit = 0, q_ETag = []\<rparr>"

definition quotas_path :: string where "quotas_path = ''/v1/files/quotas/''"

definition quota_path :: "string \<Rightarrow> string" where
  "quota_path fileID = quotas_path @ PathEscape fileID"

definition quota_args_error :: go_error where
  "quota_args_error = EMsg ''quota requires a file ID and non-negative limit''"

definition GetQuota :: "Connection \<Rightarrow> string \<Rightarrow> Quota io" where
  "GetQuota c fileID =
     (if fileID = [] then fail (EMsg ''quota file ID is required'')
      else andThen (DoJSON c ''GET'' (quota_path fileID) [] None None (into no_quota decode_quota)) (\<lambda>(etag, q).
             ok (q\<lparr>q_ETag := etag\<rparr>)))"

definition updateQuota :: "Connection \<Rightarrow> string \<Rightarrow> int \<Rightarrow> string \<Rightarrow> unit io" where
  "updateQuota c fileID limit ifMatch =
     (if fileID = [] \<or> limit < 0 then fail quota_args_error
      else andThen (DoJSON c ''PUT'' (quota_path fileID) [] (ifMatchHeader ifMatch) (Some (encode_quota fileID limit)) noOut) (\<lambda>_. ok ()))"

definition UpdateQuota :: "Connection \<Rightarrow> string \<Rightarrow> int \<Rightarrow> unit io" where
  "UpdateQuota c fileID limit = updateQuota c fileID limit []"

definition post_quota :: "Connection \<Rightarrow> string \<Rightarrow> int \<Rightarrow> unit io" where
  "post_quota c fileID limit =
     andThen (DoJSON c ''POST'' quotas_path [] None (Some (encode_quota fileID limit)) noOut) (\<lambda>_. ok ())"

definition CreateQuota :: "Connection \<Rightarrow> string \<Rightarrow> int \<Rightarrow> unit io" where
  "CreateQuota c fileID limit =
     (if fileID = [] \<or> limit < 0 then fail quota_args_error
      else do {
        r \<leftarrow> post_quota c fileID limit;
        case r of
          Inr _ \<Rightarrow> ok ()
        | Inl err \<Rightarrow>
            if isAPIAlreadyExists err \<or> isAmbiguousCreateError err then do {
              g \<leftarrow> GetQuota c fileID;
              case g of
                Inl getErr \<Rightarrow> fail (EWrap ''reconcile quota create: '' getErr ('' (create error: '' @ error_text err @ '')''))
              | Inr current \<Rightarrow>
                  if q_Limit current = limit then ok ()
                  else updateQuota c fileID limit (q_ETag current) }
            else fail err })"

text \<open>The loop of \<open>EnsureQuotaAtLeast\<close> with \<open>n\<close> rounds left.\<close>

fun ensure_quota_loop :: "Connection \<Rightarrow> string \<Rightarrow> int \<Rightarrow> nat \<Rightarrow> int io" where
  "ensure_quota_loop c fileID limit 0 =
     fail (EMsg (''ensure quota for '' @ fmt_q fileID @ '': concurrent modifications did not settle''))"
| "ensure_quota_loop c fileID limit (Suc n) = do {
     g \<leftarrow> GetQuota c fileID;
     case g of
       Inl err \<Rightarrow>
         if \<not> isAPINotFound err then fail err
         else do {
           r \<leftarrow> post_quota c fileID limit;
           case r of
             Inr _ \<Rightarrow> ok limit
           | Inl createErr \<Rightarrow>
               if isAPIAlreadyExists createErr \<or> isAmbiguousCreateError createErr then ensure_quota_loop c fileID limit n
               else fail createErr }
     | Inr current \<Rightarrow>
         if q_Limit current \<ge> limit then ok (q_Limit current)
         else do {
           r \<leftarrow> updateQuota c fileID limit (q_ETag current);
           case r of
             Inr _ \<Rightarrow> ok limit
           | Inl err \<Rightarrow> if isAPIPreconditionFailed err then ensure_quota_loop c fileID limit n else fail err } }"

definition EnsureQuotaAtLeast :: "Connection \<Rightarrow> string \<Rightarrow> int \<Rightarrow> int io" where
  "EnsureQuotaAtLeast c fileID limit =
     (if fileID = [] \<or> limit < 0 then fail quota_args_error else ensure_quota_loop c fileID limit 4)"

section \<open>A quota is never shrunk\<close>

definition quota_get :: "string \<Rightarrow> request" where
  "quota_get f = mk_request ''GET'' (quota_path f) [] None None"

definition quota_put :: "string \<Rightarrow> int \<Rightarrow> string \<Rightarrow> request" where
  "quota_put f limit etag = mk_request ''PUT'' (quota_path f) [] (ifMatchHeader etag) (Some (encode_quota f limit))"

definition quota_post :: "string \<Rightarrow> int \<Rightarrow> request" where
  "quota_post f limit = mk_request ''POST'' quotas_path [] None (Some (encode_quota f limit))"

definition quota_read :: "string \<Rightarrow> event list \<Rightarrow> Quota \<Rightarrow> bool" where
  "quota_read f es q \<longleftrightarrow>
     (\<exists>etag raw j q0. answered (quota_get f) es etag raw j \<and> into no_quota decode_quota raw j = Some q0 \<and> q = q0\<lparr>q_ETag := etag\<rparr>)"

text \<open>The ways \<open>n\<close> can be the limit in force: it was read and suffices; a smaller one was read and replaced under its ETag; or the quota was
  created.\<close>

definition ensured :: "string \<Rightarrow> int \<Rightarrow> event list \<Rightarrow> int \<Rightarrow> bool" where
  "ensured f limit es n \<longleftrightarrow>
     read_then_write (quota_read f) (\<lambda>q. q_Limit q = n \<and> limit \<le> n)
       (\<lambda>es q. q_Limit q < limit \<and> n = limit \<and> accepted (quota_put f limit (q_ETag q)) es) es
     \<or> n = limit \<and> (\<exists>es0 es1. es = es0 @ es1 \<and> accepted (quota_post f limit) es1)"

lemma ensured_append: "ensured f l es n \<Longrightarrow> ensured f l (es' @ es) n"
proof -
  assume "ensured f l es n"
  then consider "read_then_write (quota_read f) (\<lambda>q. q_Limit q = n \<and> l \<le> n)
       (\<lambda>es q. q_Limit q < l \<and> n = l \<and> accepted (quota_put f l (q_ETag q)) es) es"
    | es0 es1 where "n = l" "es = es0 @ es1" "accepted (quota_post f l) es1" unfolding ensured_def by blast
  then show ?thesis
  proof cases
    case 1
    then show ?thesis unfolding ensured_def by (intro disjI1 read_then_write_append)
  next
    case 2
    then show ?thesis unfolding ensured_def by (intro disjI2 conjI exI [of _ "es' @ es0"] exI [of _ es1]) simp_all
  qed
qed

lemma emits_GetQuota: "emits (GetQuota c f) (\<lambda>es r. case r of Inr q \<Rightarrow> quota_read f es q | Inl e \<Rightarrow> True)"
  unfolding GetQuota_def
proof (intro emits_if emits_call, fold quota_get_def, goal_cases)
  case (3 es etag q raw j)
  then have "quota_read f es (q\<lparr>q_ETag := etag\<rparr>)" unfolding quota_read_def by blast
  then show ?case by (simp add: emits_ret)
qed (simp_all add: emits_ret)

lemma emits_updateQuota: "emits (updateQuota c f l etag) (on_ok (\<lambda>es _. accepted (quota_put f l etag) es))"
  unfolding updateQuota_def
  by (intro emits_if emits_fail emits_call_ok, fold quota_put_def) (auto intro!: emits_ok answered_accepted)

lemma emits_post_quota: "emits (post_quota c f l) (on_ok (\<lambda>es _. accepted (quota_post f l) es))"
  unfolding post_quota_def
  by (rule emits_call_ok, fold quota_post_def) (auto intro!: emits_ok answered_accepted)

lemma emits_ensure_quota_loop: "emits (ensure_quota_loop c f l n) (on_ok (ensured f l))"
proof (induction n)
  case (Suc n)
  have again: "emits (ensure_quota_loop c f l n) (on_ok (\<lambda>es'. ensured f l (es @ es')))" for es
    by (rule emits_weaken [OF Suc.IH]) (simp add: on_ok_def ensured_append)
  show ?case
    unfolding ensure_quota_loop.simps
  proof (rule emits_bind_ok [OF emits_GetQuota], rule emits_case_sum, goal_cases)
    case (1 es r e)
    show ?case
    proof (rule emits_if, rule emits_fail, rule emits_bind_ok [OF emits_post_quota], rule emits_case_sum, goal_cases)
      case (1 es' r e)
      then show ?case using again [of "es @ es'"] by (intro emits_if emits_fail) simp
    next
      case (2 es' r u)
      then have "ensured f l (es @ es') l" unfolding ensured_def by auto
      then show ?case by (simp add: emits_ok)
    qed
  next
    case (2 es r q)
    then have rd: "quota_read f es q" by simp
    show ?case
    proof (rule emits_if, goal_cases)
      case 1
      then have "ensured f l es (q_Limit q)" unfolding ensured_def using rd by (blast intro: read_settled)
      then show ?case by (simp add: emits_ok)
    next
      case 2
      show ?case
      proof (rule emits_bind_ok [OF emits_updateQuota], rule emits_case_sum, goal_cases)
        case (1 es' r e)
        then show ?case using again [of "es @ es'"] by (intro emits_if emits_fail) simp
      next
        case (2 es' r u)
        then have "accepted (quota_put f l (q_ETag q)) es'" by simp
        then have "ensured f l (es @ es') l"
          unfolding ensured_def using rd \<open>\<not> l \<le> q_Limit q\<close> by (intro disjI1 read_write [of _ _ q]) simp_all
        then show ?case by (simp add: emits_ok)
      qed
    qed
  qed
qed (simp add: emits_fail)

lemma ensured_ge: "ensured f l es n \<Longrightarrow> l \<le> n"
  unfolding ensured_def read_then_write_def by auto

text \<open>C26: growing a quota never shrinks one: the limit it reports is at least the one asked for and is in force, either as it was read,
  or by a write under the ETag of a smaller limit read just before, or by a creation.\<close>

theorem EnsureQuotaAtLeast_grows:
  assumes "run_state (EnsureQuotaAtLeast c f l) w = (Inr n, w')"
  shows "l \<le> n \<and> (\<exists>es. w_events w' = w_events w @ es \<and> ensured f l es n)"
proof -
  have "emits (EnsureQuotaAtLeast c f l) (on_ok (ensured f l))"
    unfolding EnsureQuotaAtLeast_def by (intro emits_if emits_fail emits_ensure_quota_loop)
  from emits_on_okD [OF this assms] show ?thesis using ensured_ge by blast
qed

lemma sends_GetQuota: "reads R \<Longrightarrow> sends R (GetQuota c f)"
  unfolding GetQuota_def by (intro io_rules sends_GET)

lemma sends_updateQuota: "R (quota_put f l etag) \<Longrightarrow> sends R (updateQuota c f l etag)"
  unfolding updateQuota_def quota_put_def by (intro io_rules sends_DoJSON)

lemma sends_post_quota: "R (quota_post f l) \<Longrightarrow> sends R (post_quota c f l)"
  unfolding post_quota_def quota_post_def by (intro io_rules sends_DoJSON)

lemma sends_CreateQuota:
  "reads R \<Longrightarrow> R (quota_post f l) \<Longrightarrow> (\<And>etag. R (quota_put f l etag)) \<Longrightarrow> sends R (CreateQuota c f l)"
  unfolding CreateQuota_def by (intro io_rules sends_GetQuota sends_updateQuota sends_post_quota)

lemma sends_ensure_quota_loop:
  "reads R \<Longrightarrow> R (quota_post f l) \<Longrightarrow> (\<And>etag. R (quota_put f l etag)) \<Longrightarrow> sends R (ensure_quota_loop c f l n)"
proof (induction n)
  case (Suc n)
  then show ?case
    unfolding ensure_quota_loop.simps by (intro io_rules sends_GetQuota sends_updateQuota sends_post_quota) simp_all
qed (simp only: ensure_quota_loop.simps sends_ret)

end
