(* ===== verification/Files_Acl.thy ===== *)
theory Files_Acl
  imports Trace_Logic Interfaces "HOL-Library.Multiset"
begin

text \<open>
  \<^verbatim>\<open>internal/qumulo/files.go\<close>: file attributes and directory ACLs, and the loops that grant and revoke the access of one
  identity to a directory.  The entries of an ACL are a keyed store under their trustee.
\<close>

section \<open>Attributes\<close>

record FileAttributes =
  fa_ID :: string
  fa_Path :: string
  fa_Name :: string
  fa_Mode :: string
  fa_Owner :: string
  fa_Type :: string

definition no_attrs :: FileAttributes where
  "no_attrs = \<lparr>fa_ID = [], fa_Path = [], fa_Name = [], fa_Mode = [], fa_Owner = [], fa_Type = []\<rparr>"

definition decode_attrs :: "json \<Rightarrow> FileAttributes option" where
  "decode_attrs j = do {
     kvs \<leftarrow> obj_fields j;
     i \<leftarrow> get_str ''id'' kvs; p \<leftarrow> get_str ''path'' kvs; n \<leftarrow> get_str ''name'' kvs; m \<leftarrow> get_str ''mode'' kvs;
     ow \<leftarrow> get_str ''owner'' kvs; t \<leftarrow> get_str ''type'' kvs;
     Some \<lparr>fa_ID = i, fa_Path = p, fa_Name = n, fa_Mode = m, fa_Owner = ow, fa_Type = t\<rparr> }"

definition encodeFSPath :: "string \<Rightarrow> string" where
  "encodeFSPath p =
     (let p = (if p = [] then ''/'' else p); p = (if HasPrefix p ''/'' then p else ''/'' @ p)
      in concat (map (\<lambda>c. if c = CHR ''/'' then ''%2F'' else [c]) (PathEscape p)))"

definition filePath :: "string \<Rightarrow> string \<Rightarrow> string" where
  "filePath fsPath tail = ''/v1/files/'' @ encodeFSPath fsPath @ tail"

definition GetFileAttributes :: "Connection \<Rightarrow> string \<Rightarrow> FileAttributes io" where
  "GetFileAttributes c fsPath =
     andThen (DoJSON c ''GET'' (filePath fsPath ''/info/attributes'') [] None None (into no_attrs decode_attrs)) (\<lambda>(_, a). ok a)"

definition PatchFileMode :: "Connection \<Rightarrow> string \<Rightarrow> string \<Rightarrow> unit io" where
  "PatchFileMode c fsPath mode =
     andThen (DoJSON c ''PATCH'' (filePath fsPath ''/info/attributes'') [] None (Some (JObj [(''mode'', JStr mode)])) noOut) (\<lambda>_. ok ())"

section \<open>ACLs\<close>

record ACE =
  ace_Type :: string
  ace_Flags :: "string list"
  ace_Trustee :: string
  ace_Rights :: "string list"

record ACL =
  acl_Control :: "string list option"
  acl_Posix :: "json list"
  acl_ACES :: "ACE list"
  acl_ETag :: string

definition fsRightsRW :: "string list" where
  "fsRightsRW = [''READ'', ''READ_EA'', ''READ_ATTR'', ''READ_ACL'', ''WRITE_EA'', ''WRITE_ATTR'', ''EXECUTE'', ''MODIFY'',
     ''EXTEND'', ''DELETE_CHILD'', ''SYNCHRONIZE'']"

definition fsRightsRO :: "string list" where
  "fsRightsRO = [''READ'', ''READ_EA'', ''READ_ATTR'', ''READ_ACL'', ''EXECUTE'', ''SYNCHRONIZE'']"

definition fsInherit :: "string list" where
  "fsInherit = [''OBJECT_INHERIT'', ''CONTAINER_INHERIT'']"

definition decode_ace :: "json \<Rightarrow> ACE option" where
  "decode_ace j = do {
     kvs \<leftarrow> obj_fields j;
     t \<leftarrow> get_str ''type'' kvs; f \<leftarrow> get_list json_str ''flags'' kvs; tr \<leftarrow> get_str ''trustee'' kvs;
     r \<leftarrow> get_list json_str ''rights'' kvs;
     Some \<lparr>ace_Type = t, ace_Flags = f, ace_Trustee = tr, ace_Rights = r\<rparr> }"

definition decode_acl :: "json \<Rightarrow> ACL option" where
  "decode_acl j = do {
     kvs \<leftarrow> obj_fields j;
     co \<leftarrow> get_slice json_str ''control'' kvs; po \<leftarrow> get_list Some ''posix_special_permissions'' kvs;
     aces \<leftarrow> get_list decode_ace ''aces'' kvs;
     Some \<lparr>acl_Control = co, acl_Posix = po, acl_ACES = aces, acl_ETag = []\<rparr> }"

text \<open>\<open>decodeACL\<close>: the ACL under \<open>acl\<close>, or at the top of the document, or an empty one.\<close>

definition decodeACL :: "json option \<Rightarrow> ACL res" where
  "decodeACL raw =
     (case do {
        j \<leftarrow> raw; kvs \<leftarrow> obj_fields j; _ \<leftarrow> get_bool ''generated'' kvs;
        inner \<leftarrow> get_obj decode_acl ''acl'' kvs; co \<leftarrow> get_slice json_str ''control'' kvs;
        aces \<leftarrow> get_list decode_ace ''aces'' kvs;
        Some (if acl_ACES inner \<noteq> [] \<or> acl_Control inner \<notin> {None, Some []} then inner
              else if aces \<noteq> [] \<or> co \<notin> {None, Some []} then \<lparr>acl_Control = co, acl_Posix = [], acl_ACES = aces, acl_ETag = []\<rparr>
              else \<lparr>acl_Control = Some [''PRESENT''], acl_Posix = [], acl_ACES = [], acl_ETag = []\<rparr>) } of
        None \<Rightarrow> Inl (EMsg ''decode ACL'')
      | Some acl \<Rightarrow> Inr acl)"

definition acl_path :: "string \<Rightarrow> string" where
  "acl_path fsPath = filePath fsPath ''/info/acl''"

definition GetACL :: "Connection \<Rightarrow> string \<Rightarrow> ACL io" where
  "GetACL c fsPath =
     andThen (DoJSON c ''GET'' (acl_path fsPath) [] None None (into None (\<lambda>j. Some (Some j)))) (\<lambda>(etag, raw).
       case decodeACL raw of Inl e \<Rightarrow> fail e | Inr acl \<Rightarrow> ok (acl\<lparr>acl_ETag := etag\<rparr>))"

definition encode_ace :: "ACE \<Rightarrow> json" where
  "encode_ace a = JObj [(''type'', JStr (ace_Type a)), (''flags'', str_list (ace_Flags a)),
     (''trustee'', JStr (ace_Trustee a)), (''rights'', str_list (ace_Rights a))]"

text \<open>The body \<open>PutACL\<close> sends: a nil \<open>Control\<close> becomes \<^verbatim>\<open>["PRESENT"]\<close>, every other nil slice an empty one.\<close>

definition encode_acl :: "ACL \<Rightarrow> json" where
  "encode_acl acl = JObj
     [(''control'', str_list (case acl_Control acl of None \<Rightarrow> [''PRESENT''] | Some co \<Rightarrow> co)),
      (''posix_special_permissions'', JArr (acl_Posix acl)),
      (''aces'', JArr (map encode_ace (acl_ACES acl)))]"

definition PutACL :: "Connection \<Rightarrow> string \<Rightarrow> ACL \<Rightarrow> unit io" where
  "PutACL c fsPath acl =
     andThen (DoJSON c ''PUT'' (acl_path fsPath) [] (ifMatchHeader (acl_ETag acl)) (Some (encode_acl acl)) noOut) (\<lambda>_. ok ())"

section \<open>Grant and revoke\<close>

definition sameStringsAsSet :: "string list \<Rightarrow> string list \<Rightarrow> bool" where
  "sameStringsAsSet left right \<longleftrightarrow> length left = length right \<and> sort left = sort right"

text \<open>The loop of \<open>aclHasExactTrusteeGrant\<close> with its match count.\<close>

fun exact_grant_loop :: "ACE \<Rightarrow> ACE list \<Rightarrow> nat \<Rightarrow> bool" where
  "exact_grant_loop desired [] n \<longleftrightarrow> n = 1"
| "exact_grant_loop desired (a # as) n \<longleftrightarrow>
     (if ace_Trustee a \<noteq> ace_Trustee desired then exact_grant_loop desired as n
      else if Suc n > 1 \<or> ace_Type a \<noteq> ace_Type desired \<or> \<not> sameStringsAsSet (ace_Flags a) (ace_Flags desired)
              \<or> \<not> sameStringsAsSet (ace_Rights a) (ace_Rights desired)
      then False
      else exact_grant_loop desired as (Suc n))"

definition aclHasExactTrusteeGrant :: "ACL \<Rightarrow> ACE \<Rightarrow> bool" where
  "aclHasExactTrusteeGrant acl desired = exact_grant_loop desired (acl_ACES acl) 0"

definition aclHasTrustee :: "ACL \<Rightarrow> string \<Rightarrow> bool" where
  "aclHasTrustee acl trusteeID = list_ex (\<lambda>a. ace_Trustee a = trusteeID) (acl_ACES acl)"

definition desired_ace :: "string \<Rightarrow> string \<Rightarrow> ACE" where
  "desired_ace trusteeID accessMode =
     (let readOnly = EqualFold accessMode ''ro'' \<or> EqualFold accessMode ''readonly''
      in \<lparr>ace_Type = ''ALLOWED'', ace_Flags = fsInherit, ace_Trustee = trusteeID,
          ace_Rights = (if readOnly then fsRightsRO else fsRightsRW)\<rparr>)"

definition grant_ace :: "ACE \<Rightarrow> ACL \<Rightarrow> ACL" where
  "grant_ace desired acl = acl\<lparr>acl_ACES := filter (\<lambda>a. ace_Trustee a \<noteq> ace_Trustee desired) (acl_ACES acl) @ [desired]\<rparr>"

definition revoke_ace :: "string \<Rightarrow> ACL \<Rightarrow> ACL" where
  "revoke_ace trusteeID acl = acl\<lparr>acl_ACES := filter (\<lambda>a. ace_Trustee a \<noteq> trusteeID) (acl_ACES acl)\<rparr>"

fun grant_loop :: "Connection \<Rightarrow> string \<Rightarrow> ACE \<Rightarrow> nat \<Rightarrow> unit io" where
  "grant_loop c fsPath desired 0 =
     fail (EMsg (''grant directory access on '' @ fsPath @ '': concurrent ACL modifications did not settle''))"
| "grant_loop c fsPath desired (Suc n) =
     andThen (wrap (''get ACL '' @ fsPath @ '': '') (GetACL c fsPath)) (\<lambda>acl.
       if aclHasExactTrusteeGrant acl desired then ok ()
       else do {
         r \<leftarrow> PutACL c fsPath (grant_ace desired acl);
         case r of
           Inr _ \<Rightarrow> ok ()
         | Inl err \<Rightarrow>
             if isAPIPreconditionFailed err then grant_loop c fsPath desired n
             else fail (EWrap (''put ACL '' @ fsPath @ '': '') err []) })"

text \<open>\<open>GrantDirectoryAccess\<close>; its result type has the one field \<open>RestoreMode\<close>, which every return leaves empty.\<close>

definition GrantDirectoryAccess :: "Connection \<Rightarrow> string \<Rightarrow> string \<Rightarrow> string \<Rightarrow> bool \<Rightarrow> string io" where
  "GrantDirectoryAccess c fsPath trusteeID accessMode fallbackChmod =
     (if trusteeID = [] then fail (EMsg ''grant directory access: empty trustee id'')
      else if fallbackChmod then
        fail (EMsg ''aclFallbackChmod is disabled because its original mode cannot be recovered after a lost response'')
      else andThen (grant_loop c fsPath (desired_ace trusteeID accessMode) 4) (\<lambda>_. ok []))"

fun revoke_loop :: "Connection \<Rightarrow> string \<Rightarrow> string \<Rightarrow> nat \<Rightarrow> unit io" where
  "revoke_loop c fsPath trusteeID 0 =
     fail (EMsg (''revoke directory access on '' @ fsPath @ '': concurrent ACL modifications did not settle''))"
| "revoke_loop c fsPath trusteeID (Suc n) = do {
     g \<leftarrow> GetACL c fsPath;
     case g of
       Inl err \<Rightarrow>
         if isAPINotFound err then ok ()
         else fail (EWrap (''get ACL '' @ fsPath @ '' while revoking trustee '' @ trusteeID @ '': '') err [])
     | Inr acl \<Rightarrow>
         if length (acl_ACES (revoke_ace trusteeID acl)) = length (acl_ACES acl) then ok ()
         else do {
           r \<leftarrow> PutACL c fsPath (revoke_ace trusteeID acl);
           case r of
             Inr _ \<Rightarrow> ok ()
           | Inl err \<Rightarrow> if isAPIPreconditionFailed err then revoke_loop c fsPath trusteeID n else fail err } }"

definition RevokeDirectoryAccess :: "Connection \<Rightarrow> string \<Rightarrow> string \<Rightarrow> unit io" where
  "RevokeDirectoryAccess c fsPath trusteeID = (if trusteeID = [] then ok () else revoke_loop c fsPath trusteeID 4)"

section \<open>The entries are a keyed store\<close>

interpretation acl: keyed_store acl_ACES ace_Trustee grant_ace revoke_ace
proof
  fix v :: ACE and s :: ACL
  have "find (\<lambda>e. ace_Trustee e = ace_Trustee v) (filter (\<lambda>e. ace_Trustee e \<noteq> ace_Trustee v) xs @ [v]) = Some v" for xs
    by (induction xs) auto
  then show "find (\<lambda>e. ace_Trustee e = ace_Trustee v) (acl_ACES (grant_ace v s)) = Some v" by (simp add: grant_ace_def)
qed (simp_all add: grant_ace_def revoke_ace_def)

section \<open>What a grant and a revoke establish\<close>

definition acl_get :: "string \<Rightarrow> request" where
  "acl_get fsPath = mk_request ''GET'' (acl_path fsPath) [] None None"

definition acl_put :: "string \<Rightarrow> ACL \<Rightarrow> request" where
  "acl_put fsPath acl = mk_request ''PUT'' (acl_path fsPath) [] (ifMatchHeader (acl_ETag acl)) (Some (encode_acl acl))"

definition acl_read :: "string \<Rightarrow> event list \<Rightarrow> ACL \<Rightarrow> bool" where
  "acl_read fsPath es acl \<longleftrightarrow>
     (\<exists>etag raw j a. answered (acl_get fsPath) es etag raw j \<and> decodeACL (if raw = [] then None else j) = Inr a \<and>
        acl = a\<lparr>acl_ETag := etag\<rparr>)"

lemma acl_readI:
  "answered (acl_get p) es etag raw j \<Longrightarrow> decodeACL (if raw = [] then None else j) = Inr a \<Longrightarrow> acl_read p es (a\<lparr>acl_ETag := etag\<rparr>)"
  unfolding acl_read_def by blast

lemma decodeACL_no_api: "decodeACL raw = Inl e \<Longrightarrow> AsAPIError e = None"
  unfolding decodeACL_def by (simp split: option.splits) auto

lemma emits_GetACL:
  "emits (GetACL c p) (\<lambda>es r. case r of Inr acl \<Rightarrow> acl_read p es acl | Inl e \<Rightarrow> isAPINotFound e \<longrightarrow> not_found_answer (acl_get p) es)"
  unfolding GetACL_def
proof (rule emits_call, fold acl_get_def, goal_cases)
  case (1 es e)
  then show ?case using not_found_seen' by simp
next
  case (2 es etag x raw j)
  have x: "x = (if raw = [] then None else j)" using 2(2) by (cases j) (auto simp: into_def split: if_splits)
  show ?case
  proof (cases "decodeACL x")
    case (Inl e)
    then show ?thesis using decodeACL_no_api [OF Inl] by (simp add: emits_ret isAPINotFound_def)
  next
    case (Inr a)
    then have "acl_read p es (a\<lparr>acl_ETag := etag\<rparr>)" using 2(1) x by (intro acl_readI) simp_all
    then show ?thesis using Inr by (simp add: emits_ret)
  qed
qed

lemma emits_PutACL: "emits (PutACL c p acl) (on_ok (\<lambda>es _. accepted (acl_put p acl) es))"
  unfolding PutACL_def
  by (rule emits_call_ok, fold acl_put_def) (auto intro!: emits_ok answered_accepted)

definition granted :: "string \<Rightarrow> ACE \<Rightarrow> event list \<Rightarrow> bool" where
  "granted p d = read_then_write (acl_read p) (\<lambda>acl. aclHasExactTrusteeGrant acl d)
     (\<lambda>es acl. accepted (acl_put p (grant_ace d acl)) es)"

definition revoked :: "string \<Rightarrow> string \<Rightarrow> event list \<Rightarrow> bool" where
  "revoked p t es \<longleftrightarrow> not_found_answer (acl_get p) es \<or>
     read_then_write (acl_read p) (\<lambda>acl. \<not> aclHasTrustee acl t) (\<lambda>es acl. accepted (acl_put p (revoke_ace t acl)) es) es"

lemma granted_append: "granted p d es \<Longrightarrow> granted p d (es' @ es)"
  unfolding granted_def by (rule read_then_write_append)

lemma revoked_append: "revoked p t es \<Longrightarrow> revoked p t (es' @ es)"
  unfolding revoked_def by (auto intro: read_then_write_append elim: not_found_mono)

lemma emits_wrap_GetACL: "emits (wrap pre (GetACL c p)) (on_ok (\<lambda>es acl. acl_read p es acl))"
  by (rule emits_on_ok_wrap, rule emits_weaken [OF emits_GetACL]) (simp add: on_ok_def split: sum.splits)

lemma emits_grant_loop: "emits (grant_loop c p d n) (on_ok (\<lambda>es _. granted p d es))"
proof (induction n)
  case (Suc n)
  have again: "emits (grant_loop c p d n) (on_ok (\<lambda>es' _. granted p d (es @ es')))" for es
    by (rule emits_weaken [OF Suc.IH]) (simp add: on_ok_def granted_append)
  show ?case
    unfolding grant_loop.simps
  proof (rule emits_on_ok_andThen [OF emits_wrap_GetACL], rule emits_if, goal_cases)
    case (1 es acl)
    then have "granted p d es" unfolding granted_def by (intro read_settled)
    then show ?case by (simp add: emits_ok)
  next
    case (2 es acl)
    show ?case
    proof (rule emits_bind_ok [OF emits_PutACL], rule emits_case_sum, rule emits_if, goal_cases)
      case (1 es' r e)
      then show ?case using again [of "es @ es'"] by simp
    next
      case (3 es' r u)
      then have "granted p d (es @ es')" using 2(1) unfolding granted_def by (intro read_write) simp_all
      then show ?case by (simp add: emits_ok)
    qed (simp add: emits_fail)
  qed
qed (simp add: emits_fail)

lemma revoke_same_length: "length (acl_ACES (revoke_ace t acl)) = length (acl_ACES acl) \<Longrightarrow> \<not> aclHasTrustee acl t"
proof -
  assume l: "length (acl_ACES (revoke_ace t acl)) = length (acl_ACES acl)"
  have "\<not> list_ex (\<lambda>a. ace_Trustee a = t) xs" if "length (filter (\<lambda>a. ace_Trustee a \<noteq> t) xs) = length xs" for xs
    using that length_filter_less [of _ xs "\<lambda>a. ace_Trustee a \<noteq> t"] by (force simp: list_ex_iff)
  then show ?thesis using l by (simp add: revoke_ace_def aclHasTrustee_def)
qed

lemma emits_revoke_loop: "emits (revoke_loop c p t n) (on_ok (\<lambda>es _. revoked p t es))"
proof (induction n)
  case (Suc n)
  have again: "emits (revoke_loop c p t n) (on_ok (\<lambda>es' _. revoked p t (es @ es')))" for es
    by (rule emits_weaken [OF Suc.IH]) (simp add: on_ok_def revoked_append)
  show ?case
    unfolding revoke_loop.simps
  proof (rule emits_bind_ok [OF emits_GetACL], rule emits_case_sum, goal_cases)
    case (1 es r e)
    then show ?case by (intro emits_if emits_ok emits_fail) (simp add: revoked_def)
  next
    case (2 es r acl)
    then have rd: "acl_read p es acl" by simp
    show ?case
    proof (rule emits_if, goal_cases)
      case 1
      then have "revoked p t es" using rd revoke_same_length unfolding revoked_def by (blast intro: read_settled)
      then show ?case by (simp add: emits_ok)
    next
      case 2
      show ?case
      proof (rule emits_bind_ok [OF emits_PutACL], rule emits_case_sum, rule emits_if, goal_cases)
        case (1 es' r e)
        then show ?case using again [of "es @ es'"] by simp
      next
        case (3 es' r u)
        then have "read_then_write (acl_read p) (\<lambda>acl. \<not> aclHasTrustee acl t)
            (\<lambda>es acl. accepted (acl_put p (revoke_ace t acl)) es) (es @ es')"
          using rd by (intro read_write) simp_all
        then show ?case by (simp add: emits_ok revoked_def)
      qed (simp add: emits_fail)
    qed
  qed
qed (simp add: emits_fail)

text \<open>What the two tests mean.\<close>

lemma sameStringsAsSet_iff: "sameStringsAsSet l r \<longleftrightarrow> mset l = mset r"
  unfolding sameStringsAsSet_def by (metis mset_sort properties_for_sort size_mset sorted_sort)

definition exact_ace :: "ACE \<Rightarrow> ACE \<Rightarrow> bool" where
  "exact_ace d a \<longleftrightarrow> ace_Trustee a = ace_Trustee d \<and> ace_Type a = ace_Type d \<and> mset (ace_Flags a) = mset (ace_Flags d) \<and>
     mset (ace_Rights a) = mset (ace_Rights d)"

lemma exact_grant_loop_1: "exact_grant_loop d xs 1 \<longleftrightarrow> filter (\<lambda>a. ace_Trustee a = ace_Trustee d) xs = []"
  by (induction xs) auto

lemma exact_grant_loop_0:
  "exact_grant_loop d xs 0 \<longleftrightarrow> (\<exists>a. filter (\<lambda>a. ace_Trustee a = ace_Trustee d) xs = [a] \<and> exact_ace d a)"
  using exact_grant_loop_1 by (induction xs) (auto simp: exact_ace_def sameStringsAsSet_iff)

text \<open>The entries of an identity are exactly one grant, equal to \<open>d\<close> up to the order of flags and rights.\<close>

definition exactly_granted :: "ACE \<Rightarrow> ACL \<Rightarrow> bool" where
  "exactly_granted d acl \<longleftrightarrow> (\<exists>a. filter (\<lambda>a. ace_Trustee a = ace_Trustee d) (acl_ACES acl) = [a] \<and> exact_ace d a)"

lemma exactly_granted_grant: "exactly_granted d (grant_ace d acl)"
  by (simp add: exactly_granted_def grant_ace_def exact_ace_def)

lemma emits_GrantDirectoryAccess:
  "emits (GrantDirectoryAccess c p t mode fb) (on_ok (\<lambda>es m. m = [] \<and> granted p (desired_ace t mode) es))"
  unfolding GrantDirectoryAccess_def
  by (intro emits_if emits_fail emits_on_ok_andThen [OF emits_grant_loop] emits_ok) simp

text \<open>C25: a directory grant that reports success last read an ACL in which the identity has exactly the wanted entry, or last wrote
  one, computed from the ACL it had just read and conditional on its ETag, in which it has; entries of others keep their order.\<close>

theorem GrantDirectoryAccess_exact:
  assumes "run_state (GrantDirectoryAccess c p t mode fb) w = (Inr m, w')"
  shows "m = [] \<and> (\<exists>es. w_events w' = w_events w @ es \<and>
    read_then_write (acl_read p) (exactly_granted (desired_ace t mode))
      (\<lambda>es acl. \<exists>acl'. accepted (acl_put p acl') es \<and> exactly_granted (desired_ace t mode) acl' \<and> acl_ETag acl' = acl_ETag acl \<and>
         filter (\<lambda>a. ace_Trustee a \<noteq> t) (acl_ACES acl') = filter (\<lambda>a. ace_Trustee a \<noteq> t) (acl_ACES acl)) es)"
proof -
  let ?d = "desired_ace t mode"
  have t: "ace_Trustee ?d = t" by (simp add: desired_ace_def Let_def)
  from emits_on_okD [OF emits_GrantDirectoryAccess assms] obtain es where es: "m = []" "w_events w' = w_events w @ es" "granted p ?d es" by blast
  from es(3) obtain es0 es1 es2 acl where
    g: "es = es0 @ es1 @ es2" "acl_read p es1 acl"
       "aclHasExactTrusteeGrant acl ?d \<and> es2 = [] \<or> accepted (acl_put p (grant_ace ?d acl)) es2"
    unfolding granted_def read_then_write_def by blast
  have e: "aclHasExactTrusteeGrant acl ?d \<longleftrightarrow> exactly_granted ?d acl"
    by (simp add: aclHasExactTrusteeGrant_def exactly_granted_def exact_grant_loop_0)
  have "acl_ETag (grant_ace ?d acl) = acl_ETag acl" by (simp add: grant_ace_def)
  moreover have "filter (\<lambda>a. ace_Trustee a \<noteq> t) (acl_ACES (grant_ace ?d acl)) = filter (\<lambda>a. ace_Trustee a \<noteq> t) (acl_ACES acl)"
    using acl.put_rest [of ?d acl] by (simp only: t)
  ultimately show ?thesis
    using es g e exactly_granted_grant unfolding read_then_write_def by blast
qed

text \<open>a directory revoke that reports success found no directory, or last read an ACL without the identity, or last wrote the ACL it
  had just read, on condition of its ETag, with the identity's entries removed and every other entry kept in order.\<close>

theorem RevokeDirectoryAccess_exact:
  assumes "run_state (RevokeDirectoryAccess c p t) w = (Inr (), w')" "t \<noteq> []"
  shows "\<exists>es. w_events w' = w_events w @ es \<and> (not_found_answer (acl_get p) es \<or>
    read_then_write (acl_read p) (\<lambda>acl. \<forall>a \<in> set (acl_ACES acl). ace_Trustee a \<noteq> t)
      (\<lambda>es acl. accepted (acl_put p (acl\<lparr>acl_ACES := filter (\<lambda>a. ace_Trustee a \<noteq> t) (acl_ACES acl)\<rparr>)) es) es)"
proof -
  have "emits (RevokeDirectoryAccess c p t) (on_ok (\<lambda>es _. revoked p t es))"
    unfolding RevokeDirectoryAccess_def using assms(2) emits_revoke_loop by simp
  from emits_on_okD [OF this assms(1)] show ?thesis
    unfolding revoked_def revoke_ace_def aclHasTrustee_def list_ex_iff by simp
qed

section \<open>What the operations send\<close>

definition mode_patch :: "string \<Rightarrow> string \<Rightarrow> request" where
  "mode_patch p mode = mk_request ''PATCH'' (filePath p ''/info/attributes'') [] None (Some (JObj [(''mode'', JStr mode)]))"

lemma sends_GetFileAttributes: "reads R \<Longrightarrow> sends R (GetFileAttributes c p)"
  unfolding GetFileAttributes_def by (intro io_rules sends_GET)

lemma sends_PatchFileMode: "R (mode_patch p mode) \<Longrightarrow> sends R (PatchFileMode c p mode)"
  unfolding PatchFileMode_def mode_patch_def by (intro io_rules sends_DoJSON)

lemma sends_GetACL: "reads R \<Longrightarrow> sends R (GetACL c p)"
  unfolding GetACL_def by (intro io_rules sends_GET)

lemma sends_PutACL: "(\<And>acl. R (acl_put p acl)) \<Longrightarrow> sends R (PutACL c p acl)"
  unfolding PutACL_def acl_put_def by (intro io_rules sends_DoJSON)

lemma sends_grant_loop: "reads R \<Longrightarrow> (\<And>acl. R (acl_put p acl)) \<Longrightarrow> sends R (grant_loop c p d n)"
proof (induction n)
  case (Suc n)
  then show ?case unfolding grant_loop.simps by (intro io_rules sends_GetACL sends_PutACL) simp_all
qed (simp only: grant_loop.simps sends_ret)

lemma sends_GrantDirectoryAccess:
  "reads R \<Longrightarrow> (\<And>acl. R (acl_put p acl)) \<Longrightarrow> sends R (GrantDirectoryAccess c p t mode fb)"
  unfolding GrantDirectoryAccess_def by (intro io_rules sends_grant_loop)

lemma sends_revoke_loop: "reads R \<Longrightarrow> (\<And>acl. R (acl_put p acl)) \<Longrightarrow> sends R (revoke_loop c p t n)"
proof (induction n)
  case (Suc n)
  then show ?case unfolding revoke_loop.simps by (intro io_rules sends_GetACL sends_PutACL) simp_all
qed (simp only: revoke_loop.simps sends_ret)

lemma sends_RevokeDirectoryAccess:
  "reads R \<Longrightarrow> (\<And>acl. R (acl_put p acl)) \<Longrightarrow> sends R (RevokeDirectoryAccess c p t)"
  unfolding RevokeDirectoryAccess_def by (intro io_rules sends_revoke_loop)

section \<open>Reading attributes\<close>

definition attrs_get :: "string \<Rightarrow> request" where
  "attrs_get p = mk_request ''GET'' (filePath p ''/info/attributes'') [] None None"

text \<open>The attributes of the object at a path were read somewhere in the trace.\<close>

definition attrs_read :: "string \<Rightarrow> event list \<Rightarrow> FileAttributes \<Rightarrow> bool" where
  "attrs_read p es a \<longleftrightarrow> (\<exists>etag raw j. seen (attrs_get p) es etag raw j \<and> into no_attrs decode_attrs raw j = Some a)"

lemma attrs_readI: "answered (attrs_get p) es etag raw j \<Longrightarrow> into no_attrs decode_attrs raw j = Some a \<Longrightarrow> attrs_read p es a"
  unfolding attrs_read_def using answered_seen by blast

lemma attrs_read_mono: "attrs_read p es a \<Longrightarrow> set es \<subseteq> set es' \<Longrightarrow> attrs_read p es' a"
  unfolding attrs_read_def using seen_mono by blast

lemma emits_GetFileAttributes:
  "emits (GetFileAttributes c p) (\<lambda>es r. case r of Inr a \<Rightarrow> attrs_read p es a | Inl e \<Rightarrow> isAPINotFound e \<longrightarrow> not_found_answer (attrs_get p) es)"
  unfolding GetFileAttributes_def
proof (rule emits_call, fold attrs_get_def, goal_cases)
  case (1 es e)
  then show ?case using not_found_seen' by simp
next
  case (2 es etag a raw j)
  then show ?case using attrs_readI by (simp add: emits_ret)
qed

lemma emits_GetFileAttributes_ok: "emits (GetFileAttributes c p) (on_ok (attrs_read p))"
  by (rule emits_weaken [OF emits_GetFileAttributes]) (auto simp: on_ok_def)

end
