(* ===== verification/Tree_Delete.thy ===== *)
theory Tree_Delete
  imports Trace_Logic
begin

text \<open>
  \<^verbatim>\<open>internal/qumulo/tree_delete.go\<close>: recursive deletion of a directory by its file id.  Success is shown to rest on an answer that
  the job, once known to exist, is gone, or that the target no longer existed; a bare absence of the job before submission or after an
  ambiguous one is never taken for completion.
\<close>

record treeDeleteJobStatus =
  tj_ID :: string
  tj_Status :: string
  tj_LastErrorMessage :: "string option"
  tj_Aborted :: bool

definition no_job :: treeDeleteJobStatus where
  "no_job = \<lparr>tj_ID = [], tj_Status = [], tj_LastErrorMessage = None, tj_Aborted = False\<rparr>"

definition decode_job :: "json \<Rightarrow> treeDeleteJobStatus option" where
  "decode_job j = do {
     kvs \<leftarrow> obj_fields j;
     i \<leftarrow> get_str ''id'' kvs; s \<leftarrow> get_str ''status'' kvs; m \<leftarrow> get_str_ptr ''last_error_message'' kvs; a \<leftarrow> get_bool ''aborted'' kvs;
     Some \<lparr>tj_ID = i, tj_Status = s, tj_LastErrorMessage = m, tj_Aborted = a\<rparr> }"

definition treeDeleteJobsPath :: string where "treeDeleteJobsPath = ''/v1/tree-delete/jobs/''"
definition treeDeletePollInterval :: int where "treeDeletePollInterval = 1000000000"

definition job_path :: "string \<Rightarrow> string" where
  "job_path fileID = treeDeleteJobsPath @ PathEscape fileID"

text \<open>\<open>getTreeDeleteJob\<close>: \<open>None\<close> is not found.\<close>

definition getTreeDeleteJob :: "Connection \<Rightarrow> string \<Rightarrow> treeDeleteJobStatus option io" where
  "getTreeDeleteJob c fileID = do {
     r \<leftarrow> DoJSON c ''GET'' (job_path fileID) [] None None (into no_job decode_job);
     case r of
       Inl err \<Rightarrow> if isAPINotFound err then ok None else fail err
     | Inr (_, s) \<Rightarrow> ok (Some s) }"

definition treeDeleteTerminalError :: "string \<Rightarrow> treeDeleteJobStatus \<Rightarrow> go_error option" where
  "treeDeleteTerminalError fileID status =
     (case tj_LastErrorMessage status of
        Some m \<Rightarrow>
          (let message = TrimSpace m; message = (if message = [] then ''Core did not provide an error message'' else message)
           in Some (EMsg (''tree-delete job for file ID '' @ fmt_q fileID @ '' aborted: '' @ message)))
      | None \<Rightarrow>
          if tj_Aborted status \<or> EqualFold (TrimSpace (tj_Status status)) ''aborted''
          then Some (EMsg (''tree-delete job for file ID '' @ fmt_q fileID @ '' aborted'')) else None)"

definition wait_poll :: "Connection \<Rightarrow> int \<Rightarrow> unit io" where
  "wait_poll c pollInterval = do {
     h \<leftarrow> getw w_events;
     case c_ctx_err c h of Some x \<Rightarrow> fail (ECtx x) | None \<Rightarrow> do { _ \<leftarrow> emit (Slept pollInterval); ok () } }"

text \<open>The polling loop; it has no bound of its own, so it runs on fuel.\<close>

fun waitForTreeDelete :: "Connection \<Rightarrow> string \<Rightarrow> nat \<Rightarrow> treeDeleteJobStatus option \<Rightarrow> int \<Rightarrow> unit io" where
  "waitForTreeDelete c fileID 0 status pollInterval = fail EDiverged"
| "waitForTreeDelete c fileID (Suc n) status pollInterval =
     andThen (case status of
         Some s \<Rightarrow> ok (Some s)
       | None \<Rightarrow> wrap (''poll tree-delete job for file ID '' @ fmt_q fileID @ '': '') (getTreeDeleteJob c fileID)) (\<lambda>found.
       case found of
         None \<Rightarrow> ok ()
       | Some s \<Rightarrow>
          (case treeDeleteTerminalError fileID s of
             Some e \<Rightarrow> fail e
           | None \<Rightarrow> andThen (wait_poll c pollInterval) (\<lambda>_. waitForTreeDelete c fileID n None pollInterval)))"

definition treeDelete :: "Connection \<Rightarrow> string \<Rightarrow> int \<Rightarrow> unit io" where
  "treeDelete c fileID pollInterval0 =
     (if fileID = [] then fail (EMsg ''tree-delete file ID is required'')
      else let pollInterval = (if pollInterval0 \<le> 0 then treeDeletePollInterval else pollInterval0) in
        andThen (wrap (''inspect tree-delete job for file ID '' @ fmt_q fileID @ '': '') (getTreeDeleteJob c fileID)) (\<lambda>found.
          case found of
            Some status \<Rightarrow> waitForTreeDelete c fileID (c_fuel c) (Some status) pollInterval
          | None \<Rightarrow> do {
              r \<leftarrow> DoJSON c ''POST'' treeDeleteJobsPath [] None (Some (JObj [(''id'', JStr fileID)])) noOut;
              case r of
                Inr _ \<Rightarrow> waitForTreeDelete c fileID (c_fuel c) None pollInterval
              | Inl err \<Rightarrow>
                  if isAPINotFound err then ok ()
                  else if isAPIAlreadyExists err then waitForTreeDelete c fileID (c_fuel c) None pollInterval
                  else if \<not> isAmbiguousCreateError err then fail err
                  else do {
                    g \<leftarrow> getTreeDeleteJob c fileID;
                    case g of
                      Inl reconcileErr \<Rightarrow>
                        fail (EWrap (''reconcile ambiguous tree-delete submission for file ID '' @ fmt_q fileID @ '': '') reconcileErr
                               ('' (submit error: '' @ error_text err @ '')''))
                    | Inr None \<Rightarrow>
                        fail (EWrap (''tree-delete submission for file ID '' @ fmt_q fileID @ '' has unknown outcome: '') err [])
                    | Inr (Some status) \<Rightarrow> waitForTreeDelete c fileID (c_fuel c) (Some status) pollInterval } }))"

definition TreeDelete :: "Connection \<Rightarrow> string \<Rightarrow> unit io" where
  "TreeDelete c fileID = treeDelete c fileID treeDeletePollInterval"

section \<open>What success means\<close>

definition job_get :: "string \<Rightarrow> request" where
  "job_get fileID = mk_request ''GET'' (job_path fileID) [] None None"

definition job_post :: "string \<Rightarrow> request" where
  "job_post fileID = mk_request ''POST'' treeDeleteJobsPath [] None (Some (JObj [(''id'', JStr fileID)]))"

text \<open>The job was known to exist: its submission was accepted or refused because it was there, or it was seen.\<close>

definition job_known :: "string \<Rightarrow> event list \<Rightarrow> bool" where
  "job_known f es \<longleftrightarrow>
     was_seen (job_post f) es \<or> exists_answer (job_post f) es \<or> was_seen (job_get f) es"

definition deletion_observed :: "string \<Rightarrow> event list \<Rightarrow> bool" where
  "deletion_observed f es \<longleftrightarrow>
     not_found_answer (job_post f) es \<or>
     (\<exists>es1 es2. es = es1 @ es2 \<and> job_known f es1 \<and> not_found_answer (job_get f) es2)"

lemma emits_getTreeDeleteJob:
  "emits (getTreeDeleteJob c f) (on_ok (\<lambda>es x.
     case x of None \<Rightarrow> not_found_answer (job_get f) es | Some s \<Rightarrow> was_seen (job_get f) es))"
  unfolding getTreeDeleteJob_def
proof (rule emits_attempt_ok, fold job_get_def, goal_cases)
  case (1 es e)
  then show ?case using not_found_seen' [of "job_get f" es e] by (simp add: emits_ok emits_fail)
next
  case (2 es etag x raw j)
  then show ?case by (simp add: emits_ok answered_was_seen)
qed

lemma emits_wait_poll: "emits (wait_poll c d) (\<lambda>es r. quiet es)"
  unfolding wait_poll_def
  by (rule emits_bind [where P = "\<lambda>es _. es = []"], rule emits_getw, simp)
    (auto split: option.split intro!: emits_ret emits_bind [OF emits_emit [where Q = "\<lambda>es _. quiet es"]] simp: quiet_def)

lemma not_found_append: "not_found_answer rq es' \<Longrightarrow> not_found_answer rq (es @ es')"
  by (erule not_found_mono) simp

lemma emits_waitForTreeDelete: "emits (waitForTreeDelete c f n s d) (on_ok (\<lambda>es _. not_found_answer (job_get f) es))"
proof (induction n arbitrary: s)
  case 0
  show ?case by (simp add: emits_fail)
next
  case (Suc n)
  let ?w = "wrap (''poll tree-delete job for file ID '' @ fmt_q f @ '': '') (getTreeDeleteJob c f)"
  have found: "emits (case s of Some s \<Rightarrow> ok (Some s) | None \<Rightarrow> ?w)
      (on_ok (\<lambda>es x. x = None \<longrightarrow> not_found_answer (job_get f) es))"
  proof (cases s)
    case None
    have "emits ?w (on_ok (\<lambda>es x. x = None \<longrightarrow> not_found_answer (job_get f) es))"
      by (rule emits_on_ok_wrap, rule emits_weaken [OF emits_getTreeDeleteJob]) (auto simp: on_ok_def)
    with None show ?thesis by simp
  qed (simp add: emits_ok)
  have rest: "emits (andThen (wait_poll c d) (\<lambda>_. waitForTreeDelete c f n None d)) (on_ok (\<lambda>es'. \<lambda>_. not_found_answer (job_get f) (es @ es')))" for es
    by (rule emits_andThen [OF emits_wait_poll], simp, rule emits_weaken [OF Suc.IH])
      (auto simp: on_ok_def intro: not_found_append)
  show ?case
    unfolding waitForTreeDelete.simps
    by (rule emits_on_ok_andThen [OF found]) (auto split: option.split intro!: emits_ok emits_fail rest)
qed

lemma deletion_observedI: "job_known f es \<Longrightarrow> not_found_answer (job_get f) es' \<Longrightarrow> deletion_observed f (es @ es')"
  unfolding deletion_observed_def by blast

lemma emits_wait_known:
  "job_known f es \<Longrightarrow> emits (waitForTreeDelete c f n s d) (on_ok (\<lambda>es' _. deletion_observed f (es @ es')))"
  by (rule emits_weaken [OF emits_waitForTreeDelete]) (auto simp: on_ok_def intro: deletion_observedI)

lemma job_known_append: "job_known f es' \<Longrightarrow> job_known f (es @ es')"
  unfolding job_known_def exists_answer_def by (auto intro: was_seen_append) blast+

lemma emits_treeDelete: "emits (treeDelete c f d) (on_ok (\<lambda>es _. deletion_observed f es))"
proof (cases "f = []")
  case True
  then show ?thesis by (simp add: treeDelete_def emits_fail)
next
  case False
  obtain dd where dd: "(if d \<le> 0 then treeDeletePollInterval else d) = dd" by simp
  let ?P = "\<lambda>es x. case x of None \<Rightarrow> not_found_answer (job_get f) es | Some s \<Rightarrow> was_seen (job_get f) es"
  have known: "job_known f (es @ es')" if "?P es' (Some s)" for es es' s
    using that by (intro job_known_append) (auto simp: job_known_def)
  have rec: "emits (do { g \<leftarrow> getTreeDeleteJob c f;
        case g of
          Inl re \<Rightarrow> fail (EWrap (''reconcile ambiguous tree-delete submission for file ID '' @ fmt_q f @ '': '') re
               ('' (submit error: '' @ error_text err @ '')''))
        | Inr None \<Rightarrow> fail (EWrap (''tree-delete submission for file ID '' @ fmt_q f @ '' has unknown outcome: '') err [])
        | Inr (Some status) \<Rightarrow> waitForTreeDelete c f (c_fuel c) (Some status) dd })
      (on_ok (\<lambda>es' _. deletion_observed f (es @ es')))" for es err
  proof (rule emits_bind_ok [OF emits_getTreeDeleteJob])
    fix es' and g :: "treeDeleteJobStatus option res"
    assume g: "on_ok ?P es' g"
    have "emits (waitForTreeDelete c f (c_fuel c) (Some s) dd) (on_ok (\<lambda>es'' _. deletion_observed f (es @ es' @ es'')))"
      if "g = Inr (Some s)" for s
      using emits_wait_known [OF known [of es' s es]] g that by simp
    then show "emits (case g of
          Inl re \<Rightarrow> fail (EWrap (''reconcile ambiguous tree-delete submission for file ID '' @ fmt_q f @ '': '') re
               ('' (submit error: '' @ error_text err @ '')''))
        | Inr None \<Rightarrow> fail (EWrap (''tree-delete submission for file ID '' @ fmt_q f @ '' has unknown outcome: '') err [])
        | Inr (Some status) \<Rightarrow> waitForTreeDelete c f (c_fuel c) (Some status) dd)
      (on_ok (\<lambda>es'' _. deletion_observed f (es @ es' @ es'')))"
      by (simp add: emits_fail split: sum.split option.split)
  qed
  have post: "emits (do {
              r \<leftarrow> DoJSON c ''POST'' treeDeleteJobsPath [] None (Some (JObj [(''id'', JStr f)])) noOut;
              case r of
                Inr _ \<Rightarrow> waitForTreeDelete c f (c_fuel c) None dd
              | Inl err \<Rightarrow>
                  if isAPINotFound err then ok ()
                  else if isAPIAlreadyExists err then waitForTreeDelete c f (c_fuel c) None dd
                  else if \<not> isAmbiguousCreateError err then fail err
                  else do {
                    g \<leftarrow> getTreeDeleteJob c f;
                    case g of
                      Inl re \<Rightarrow>
                        fail (EWrap (''reconcile ambiguous tree-delete submission for file ID '' @ fmt_q f @ '': '') re
                               ('' (submit error: '' @ error_text err @ '')''))
                    | Inr None \<Rightarrow>
                        fail (EWrap (''tree-delete submission for file ID '' @ fmt_q f @ '' has unknown outcome: '') err [])
                    | Inr (Some status) \<Rightarrow> waitForTreeDelete c f (c_fuel c) (Some status) dd } })
      (on_ok (\<lambda>es' _. deletion_observed f (es @ es')))" for es
  proof (rule emits_attempt_ok, fold job_post_def, goal_cases)
    case (1 es' e)
    have "deletion_observed f (es @ es')" if "isAPINotFound e"
      using not_found_append [OF not_found_seen' [OF 1 that], of es] by (simp add: deletion_observed_def)
    moreover have "emits (waitForTreeDelete c f (c_fuel c) None dd) (on_ok (\<lambda>es'' _. deletion_observed f (es @ es' @ es'')))"
      if "isAPIAlreadyExists e"
      using emits_wait_known [OF job_known_append [of f es' es]] exists_seen [OF 1 that] by (simp add: job_known_def)
    moreover note rec [of e "es @ es'", unfolded append_assoc]
    ultimately show ?case unfolding sum.case by (intro emits_if emits_ok emits_fail) simp_all
  next
    case (2 es' etag x raw j)
    have "job_known f es'" using answered_was_seen [OF 2(1)] by (simp add: job_known_def)
    then show ?case using emits_wait_known [OF job_known_append [of f es' es]] by simp
  qed
  have wait: "emits (waitForTreeDelete c f (c_fuel c) (Some s) dd) (on_ok (\<lambda>es' _. deletion_observed f (es @ es')))"
    if "?P es (Some s)" for es s
    by (rule emits_wait_known) (use known [of es s "[]"] that in simp)
  show ?thesis
    unfolding treeDelete_def using False
    apply (simp only: if_False Let_def dd)
    apply (rule emits_on_ok_andThen [OF emits_on_ok_wrap [OF emits_getTreeDeleteJob]])
    subgoal for es x using post [of es] wait [of es] by (cases x) simp_all
    done
qed

section \<open>What the operations send\<close>

lemma sends_getTreeDeleteJob: "reads R \<Longrightarrow> sends R (getTreeDeleteJob c f)"
  unfolding getTreeDeleteJob_def by (intro io_rules sends_GET)

lemma sends_waitForTreeDelete: "reads R \<Longrightarrow> sends R (waitForTreeDelete c f n s d)"
proof (induction n arbitrary: s)
  case (Suc n)
  then show ?case unfolding waitForTreeDelete.simps wait_poll_def by (intro io_rules sends_getTreeDeleteJob)
qed (simp only: waitForTreeDelete.simps sends_ret)

lemma sends_TreeDelete: "reads R \<Longrightarrow> R (job_post f) \<Longrightarrow> sends R (TreeDelete c f)"
  unfolding TreeDelete_def treeDelete_def Let_def job_post_def
  by (intro io_rules sends_getTreeDeleteJob sends_waitForTreeDelete sends_DoJSON)

section \<open>Completion\<close>

text \<open>C24: a recursive delete reports success only when the target was reported missing at submission, or when the job, after it
  was accepted or seen, was reported gone; a missing job alone is never taken for a finished one.\<close>

theorem TreeDelete_success:
  assumes "run_state (TreeDelete c fileID) w = (Inr (), w')"
  shows "\<exists>es. w_events w' = w_events w @ es \<and> deletion_observed fileID es"
  using emits_on_okD [OF emits_treeDelete assms [unfolded TreeDelete_def]] .

end
