(* ===== verification/Core_Version.thy ===== *)
theory Core_Version
  imports Trace_Logic
begin

text \<open>
  \<^verbatim>\<open>internal/qumulo/version.go\<close> and \<^verbatim>\<open>internal/qumulo/s3settings.go\<close>: the version floor, the versions that introduced the
  features, and the answers a connection caches.  \<^verbatim>\<open>github.com/Masterminds/semver/v3\<close> is not part of the repository: its parser and
  its comparison are the argument \<open>sv\<close>.
\<close>

record 'v semver =
  sv_NewVersion :: "string \<Rightarrow> 'v option"
  sv_LessThan :: "'v \<Rightarrow> 'v \<Rightarrow> bool"
  sv_String :: "'v \<Rightarrow> string"

definition AbsoluteMinimum :: string where "AbsoluteMinimum = ''5.3.3''"
definition DefaultFloor :: string where "DefaultFloor = ''7.2.0''"
definition FeaturePrivateBucket :: string where "FeaturePrivateBucket = ''private-bucket''"
definition FeatureVersioning :: string where "FeatureVersioning = ''versioning''"
definition FeatureObjectLock :: string where "FeatureObjectLock = ''object-lock''"
definition FeatureBucketPolicy :: string where "FeatureBucketPolicy = ''bucket-policy''"
definition FeatureQuota :: string where "FeatureQuota = ''quota''"
definition FeatureTreeDelete :: string where "FeatureTreeDelete = ''tree-delete''"

definition FeatureMinima :: "string \<Rightarrow> string option" where
  "FeatureMinima f =
     (if f = FeaturePrivateBucket then Some ''7.2.0''
      else if f = FeatureVersioning then Some ''7.1.0''
      else if f = FeatureObjectLock then Some ''7.2.0''
      else if f = FeatureBucketPolicy then Some ''7.1.0''
      else if f = FeatureQuota then Some ''5.3.3''
      else if f = FeatureTreeDelete then Some ''5.3.3''
      else None)"

text \<open>The capture group of \<open>coreVersionRE\<close> at the start of \<open>s\<close>: the digits, and one to three groups of a dot and digits.\<close>

fun dot_groups :: "nat \<Rightarrow> string \<Rightarrow> string" where
  "dot_groups 0 s = []"
| "dot_groups (Suc n) [] = []"
| "dot_groups (Suc n) (c # s) =
     (let d = takeWhile is_digit s
      in if c = CHR ''.'' \<and> d \<noteq> [] then c # d @ dot_groups n (drop (length d) s) else [])"

definition re_space :: "char \<Rightarrow> bool" where
  "re_space c \<longleftrightarrow> c \<in> set [CHR '' '', CHR 0x09, CHR 0x0A, CHR 0x0C, CHR 0x0D]"

definition match_core_here :: "string \<Rightarrow> string option" where
  "match_core_here s =
     (let r = drop 11 s; t = dropWhile re_space r; d = takeWhile is_digit t; g = dot_groups 3 (drop (length d) t)
      in if EqualFold (take 11 s) ''qumulo core'' \<and> t \<noteq> r \<and> d \<noteq> [] \<and> g \<noteq> [] then Some (d @ g) else None)"

fun match_core :: "string \<Rightarrow> string option" where
  "match_core [] = None"
| "match_core (c # s) = (case match_core_here (c # s) of Some m \<Rightarrow> Some m | None \<Rightarrow> match_core s)"

text \<open>The text handed to the semver parser by \<open>ParseCoreVersion\<close>.\<close>

definition core_version_text :: "string \<Rightarrow> string" where
  "core_version_text revisionID =
     (let s = TrimSpace revisionID;
          s = (case match_core s of Some m \<Rightarrow> m | None \<Rightarrow> s);
          s = TrimPrefix s ''v'';
          parts = SplitN (CHR ''.'') 4 s
      in if length parts = 4 then parts ! 0 @ ''.'' @ parts ! 1 @ ''.'' @ parts ! 2 @ ''+'' @ parts ! 3 else s)"

definition ParseCoreVersion :: "'v semver \<Rightarrow> string \<Rightarrow> 'v res" where
  "ParseCoreVersion sv revisionID =
     (case sv_NewVersion sv (core_version_text revisionID) of
        None \<Rightarrow> Inl (EMsg (''parse Qumulo Core version '' @ fmt_q revisionID))
      | Some v \<Rightarrow> Inr v)"

definition CheckFloor :: "'v semver \<Rightarrow> string \<Rightarrow> string \<Rightarrow> unit res" where
  "CheckFloor sv cluster vfloor =
     (case ParseCoreVersion sv cluster of
        Inl e \<Rightarrow> Inl e
      | Inr cv \<Rightarrow>
        (let want = (if vfloor = [] then DefaultFloor else vfloor)
         in case sv_NewVersion sv (TrimPrefix want ''v'') of
              None \<Rightarrow> Inl (EMsg (''invalid version floor '' @ fmt_q want))
            | Some fv \<Rightarrow>
              (let fv = (case sv_NewVersion sv AbsoluteMinimum of
                           Some absv \<Rightarrow> if sv_LessThan sv fv absv then absv else fv
                         | None \<Rightarrow> fv)
               in if sv_LessThan sv cv fv
                  then Inl (EMsg (''Qumulo Core '' @ sv_String sv cv @ '' is below the driver floor '' @ sv_String sv fv
                                  @ '' (S3 GA is '' @ AbsoluteMinimum @ '')''))
                  else Inr ())))"

definition Supports :: "'v semver \<Rightarrow> string \<Rightarrow> string \<Rightarrow> (bool \<times> string) res" where
  "Supports sv cluster feature =
     (case FeatureMinima feature of
        None \<Rightarrow> Inl (EMsg (''unknown feature '' @ fmt_q feature))
      | Some minv \<Rightarrow>
        (case ParseCoreVersion sv cluster of
           Inl e \<Rightarrow> Inl e
         | Inr cv \<Rightarrow>
           (case sv_NewVersion sv minv of
              None \<Rightarrow> Inl (EMsg ''Invalid Semantic Version'')
            | Some mv \<Rightarrow> Inr (\<not> sv_LessThan sv cv mv, minv))))"

section \<open>Cached answers of a connection\<close>

definition decode_version :: "json \<Rightarrow> string option" where
  "decode_version j = do { kvs \<leftarrow> obj_fields j; get_str ''revision_id'' kvs }"

definition Version :: "Connection \<Rightarrow> string io" where
  "Version c = do {
     v \<leftarrow> getw w_version;
     if v \<noteq> [] then ok v
     else andThen (DoJSON c ''GET'' ''/v1/version'' [] None None (into [] decode_version)) (\<lambda>(_, rev). do {
            _ \<leftarrow> putw (\<lambda>w. w\<lparr>w_version := rev\<rparr>); ok rev }) }"

definition no_settings :: S3Settings where
  "no_settings = \<lparr>s3_Enabled = False, s3_BasePath = [], s3_HTTPS = False, s3_Port = 0\<rparr>"

definition decode_settings :: "json \<Rightarrow> S3Settings option" where
  "decode_settings j = do {
     kvs \<leftarrow> obj_fields j;
     e \<leftarrow> get_bool ''enabled'' kvs; b \<leftarrow> get_str ''base_path'' kvs; h \<leftarrow> get_bool ''https'' kvs; p \<leftarrow> get_int ''port'' kvs;
     Some \<lparr>s3_Enabled = e, s3_BasePath = b, s3_HTTPS = h, s3_Port = p\<rparr> }"

definition GetS3Settings :: "Connection \<Rightarrow> S3Settings io" where
  "GetS3Settings c = do {
     s \<leftarrow> getw w_s3settings;
     case s of
       Some st \<Rightarrow> ok st
     | None \<Rightarrow> andThen (DoJSON c ''GET'' ''/v1/s3/settings'' [] None None (into no_settings decode_settings)) (\<lambda>(_, st). do {
            _ \<leftarrow> putw (\<lambda>w. w\<lparr>w_s3settings := Some st\<rparr>); ok st }) }"

definition s3_disabled_error :: go_error where
  "s3_disabled_error = EMsg ''S3 server is disabled on this Qumulo cluster; enable it with `qq s3_modify_settings --enable` before using the COSI driver''"

definition RequireS3Enabled :: "Connection \<Rightarrow> S3Settings io" where
  "RequireS3Enabled c = andThen (GetS3Settings c) (\<lambda>s. if s3_Enabled s then ok s else fail s3_disabled_error)"

definition EnsureVersion :: "'v semver \<Rightarrow> Connection \<Rightarrow> string \<Rightarrow> string io" where
  "EnsureVersion sv c vfloor =
     andThen (Version c) (\<lambda>rev. case CheckFloor sv rev vfloor of Inl e \<Rightarrow> fail e | Inr _ \<Rightarrow> ok rev)"

section \<open>The floor holds, and what the cache does\<close>

text \<open>a cluster that passes the check is neither below the configured floor nor below the first release with the S3 API, for any version order
  that is transitive where a floor below the minimum is replaced by it.\<close>

theorem CheckFloor_sound:
  assumes "CheckFloor sv cluster vfloor = Inr ()"
    and total: "\<And>a b. \<not> sv_LessThan sv a b \<Longrightarrow> \<not> sv_LessThan sv b c' \<Longrightarrow> \<not> sv_LessThan sv a c'"
    and asym: "\<And>a b. sv_LessThan sv a b \<Longrightarrow> \<not> sv_LessThan sv b a"
    and "sv_NewVersion sv AbsoluteMinimum = Some c'"
  shows "\<exists>cv fv. sv_NewVersion sv (core_version_text cluster) = Some cv \<and>
    sv_NewVersion sv (TrimPrefix (if vfloor = [] then DefaultFloor else vfloor) ''v'') = Some fv \<and>
    \<not> sv_LessThan sv cv c' \<and> (\<not> sv_LessThan sv fv c' \<longrightarrow> \<not> sv_LessThan sv cv fv)"
proof -
  obtain cv fv where cv: "sv_NewVersion sv (core_version_text cluster) = Some cv"
    and fv: "sv_NewVersion sv (TrimPrefix (if vfloor = [] then DefaultFloor else vfloor) ''v'') = Some fv"
    and le: "\<not> sv_LessThan sv cv (if sv_LessThan sv fv c' then c' else fv)"
    using assms(1,4) by (auto simp: CheckFloor_def ParseCoreVersion_def Let_def split: option.splits if_splits)
  have "\<not> sv_LessThan sv cv c'"
    using le total [of cv fv] by (auto split: if_splits)
  with cv fv le show ?thesis by (auto split: if_splits)
qed

lemma sends_Version: "reads R \<Longrightarrow> sends R (Version c)"
  unfolding Version_def by (intro io_rules sends_GET) simp_all

lemma sends_RequireS3Enabled: "reads R \<Longrightarrow> sends R (RequireS3Enabled c)"
  unfolding RequireS3Enabled_def GetS3Settings_def by (intro io_rules sends_GET) simp_all

lemma sends_EnsureVersion: "reads R \<Longrightarrow> sends R (EnsureVersion sv c f)"
  unfolding EnsureVersion_def by (intro io_rules sends_Version)

text \<open>A connection that has once read that S3 is disabled keeps failing without asking the cluster again, whatever the cluster
  would answer by then.\<close>

lemma RequireS3Enabled_stuck:
  assumes "w_s3settings w = Some st" "\<not> s3_Enabled st"
  shows "run_state (RequireS3Enabled c) w = (Inl s3_disabled_error, w)"
  using assms by (simp add: RequireS3Enabled_def GetS3Settings_def run_simps)

end
