(* ===== verification/Status_Map.thy ===== *)
theory Status_Map
  imports Trace_Logic
begin

text \<open>
  \<^verbatim>\<open>internal/driver/errors.go\<close> and the error tests of \<^verbatim>\<open>internal/driver/driver.go\<close>: the gRPC status a COSI call returns for
  an error.  Every error gets a status with a code other than OK, a status is passed on unchanged, and an API error is classified by what the cluster
  said, not by the texts around it.
\<close>

definition api_status :: "api_error \<Rightarrow> go_error" where
  "api_status api =
     (if IsAuth api then
        EStatus Unauthenticated (''Qumulo auth failed ('' @ ae_ErrorClass api @ ''): '' @ ae_Description api
          @ ''; check the driver Secret and the service-account role'')
      else if IsAlreadyExists api then EStatus AlreadyExists (api_Error api)
      else if IsNotEmpty api then EStatus FailedPrecondition (api_Error api)
      else if ae_StatusCode api \<ge> 500 \<or> ae_StatusCode api = 429 then EStatus Unavailable (api_Error api)
      else if ae_StatusCode api = 400 then EStatus InvalidArgument (api_Error api)
      else EStatus Internal (api_Error api))"

definition toStatus :: "go_error \<Rightarrow> go_error" where
  "toStatus err =
     (if FromError err \<noteq> None then err
      else case AsAPIError err of
        Some api \<Rightarrow> api_status api
      | None \<Rightarrow>
        (let msg = error_text err
         in if Is_ctx err CtxCanceled then EStatus Canceled msg
            else if Is_ctx err CtxDeadlineExceeded then EStatus DeadlineExceeded msg
            else if Contains msg ''S3 server is disabled'' then EStatus FailedPrecondition msg
            else if Contains msg ''below the driver floor'' then EStatus FailedPrecondition msg
            else if Contains msg ''requires Qumulo Core'' then EStatus InvalidArgument msg
            else if list_ex (Contains msg)
                [''unknown accessMode'', ''quotaLimit'', ''versioning'', ''bucket name'', ''basePath'', ''restPort'', ''s3Port'',
                 ''region'', ''unknown class parameter'', ''is not a valid boolean''] then EStatus InvalidArgument msg
            else if list_ex (Contains (ToLower msg)) [''connection refused'', ''timeout'', ''no such host'']
                \<or> Contains msg ''qumulo request'' then EStatus Unavailable msg
            else EStatus Internal msg))"

text \<open>\<open>notFound\<close>, \<open>alreadyExists\<close> and \<open>classPrivateUnsupported\<close> of the driver.\<close>

definition notFound :: "go_error \<Rightarrow> bool" where
  "notFound err \<longleftrightarrow> (case AsAPIError err of Some api \<Rightarrow> IsNotFound api | None \<Rightarrow> False)"

definition alreadyExists :: "go_error \<Rightarrow> bool" where
  "alreadyExists err \<longleftrightarrow> (case AsAPIError err of Some api \<Rightarrow> IsAlreadyExists api | None \<Rightarrow> False)"

definition classPrivateUnsupported :: "go_error \<Rightarrow> bool" where
  "classPrivateUnsupported err \<longleftrightarrow>
     (case AsAPIError err of
        None \<Rightarrow> False
      | Some api \<Rightarrow>
         (ae_StatusCode api = 400 \<or> ae_ErrorClass api = ErrClassRESTInvalidRequest) \<and>
         (let msg = ToLower (ae_Description api @ '' '' @ ae_ErrorClass api)
          in Contains msg ''private'' \<or> Contains msg ''unknown field'' \<or> Contains msg ''unexpected''))"

text \<open>Every status the code builds has a code other than OK.\<close>

fun real_status :: "go_error \<Rightarrow> bool" where
  "real_status (EStatus c m) \<longleftrightarrow> c \<noteq> OK"
| "real_status (EWrap pre e post) \<longleftrightarrow> real_status e"
| "real_status _ \<longleftrightarrow> True"

lemma FromError_api_status: "\<exists>k. FromError (api_status a) = Some k \<and> k \<noteq> OK"
  by (simp add: api_status_def)

lemma real_status_FromError: "real_status e \<Longrightarrow> FromError e \<noteq> Some OK"
  by (induction e) auto

text \<open>the status mapping is total and idempotent: every error gets a status whose code is not OK, and an error that already carries one
  is passed on unchanged.\<close>

theorem toStatus_total:
  assumes "real_status e"
  shows "FromError (toStatus e) \<noteq> None \<and> FromError (toStatus e) \<noteq> Some OK \<and> toStatus (toStatus e) = toStatus e \<and>
    (FromError e \<noteq> None \<longrightarrow> toStatus e = e)"
proof -
  have s: "\<exists>k. FromError (toStatus e) = Some k \<and> k \<noteq> OK"
  proof (cases "FromError e")
    case (Some k)
    then show ?thesis using real_status_FromError [OF assms] by (simp add: toStatus_def)
  next
    case None
    then show ?thesis
      using FromError_api_status by (cases "AsAPIError e") (simp_all add: toStatus_def Let_def)
  qed
  have p: "toStatus e' = e'" if "FromError e' \<noteq> None" for e'
    using that by (simp add: toStatus_def)
  obtain k where k: "FromError (toStatus e) = Some k" "k \<noteq> OK" using s by blast
  show ?thesis using k p [of "toStatus e"] p [of e] by simp
qed

text \<open>an API error below any wrapping decides the code by itself: authorization failures are Unauthenticated, conflicts AlreadyExists, a
  non-empty bucket FailedPrecondition, overload and server errors Unavailable, bad requests InvalidArgument.\<close>

theorem toStatus_api:
  assumes "FromError e = None" "AsAPIError e = Some a"
  shows "FromError (toStatus e) = Some
    (if IsAuth a then Unauthenticated else if IsAlreadyExists a then AlreadyExists else if IsNotEmpty a then FailedPrecondition
     else if ae_StatusCode a \<ge> 500 \<or> ae_StatusCode a = 429 then Unavailable else if ae_StatusCode a = 400 then InvalidArgument else Internal)"
  using assms by (simp add: toStatus_def api_status_def)

text \<open>The texts are searched before the transport errors: a connection that fails while a bucket's versioning is applied is reported as a
  bad request, not as unavailable.\<close>

lemma toStatus_versioning_transport:
  "FromError (toStatus (EWrap ''apply versioning Enabled: '' (EWrap ''qumulo request: '' (EMsg ''connection refused'') []) []))
   = Some InvalidArgument"
  by code_simp

end
