(* ===== verification/Config_Class.thy ===== *)
theory Config_Class
  imports Cosi_Policy Core_Version
begin

text \<open>
  \<^verbatim>\<open>internal/config/config.go\<close>: the configuration of the COSI driver process, the parameters of a bucket class and the credentials a class
  resolves to.  The environment, the file system and the Kubernetes secrets are functions in a record.  The parser is shown to be strict (unknown
  keys, malformed booleans and ports are errors, never defaults) on the create path, and to differ on the cleanup path only in
  dropping the unknown keys.
\<close>

datatype file_read = Missing | Unreadable string | Content string

type_synonym params = "(string \<times> string) list"

record process =
  pr_env :: "string \<Rightarrow> string"
  pr_file :: "string \<Rightarrow> file_read"
  pr_secret :: "(string \<Rightarrow> string \<Rightarrow> params res) option"

record Driver =
  dr_Name :: string
  dr_Address :: string
  dr_MetricsAddress :: string
  dr_DefaultEndpoint :: string
  dr_DefaultRESTPort :: string
  dr_DefaultS3Port :: string
  dr_DefaultRegion :: string
  dr_DefaultBasePath :: string
  dr_VersionFloor :: string
  dr_CredentialsDir :: string
  dr_InsecureSkipTLS :: bool
  dr_CAFile :: string
  dr_SecretNamespaces :: "string list"
  dr_DriverNamespace :: string

definition or_default :: "string \<Rightarrow> string \<Rightarrow> string" where
  "or_default v d = (if v = [] then d else v)"

definition FromEnv :: "(string \<Rightarrow> string) \<Rightarrow> Driver" where
  "FromEnv env =
     (let allow = env ''QUMULO_SECRET_NAMESPACES''
      in \<lparr>dr_Name = ''s3.qumulo.com'',
          dr_Address = ''unix:///var/lib/cosi/cosi.sock'',
          dr_MetricsAddress = '':8081'',
          dr_DefaultEndpoint = env ''QUMULO_ENDPOINT'',
          dr_DefaultRESTPort = or_default (env ''QUMULO_REST_PORT'') DefaultRESTPort,
          dr_DefaultS3Port = or_default (env ''QUMULO_S3_PORT'') DefaultS3Port,
          dr_DefaultRegion = or_default (env ''QUMULO_REGION'') DefaultRegion,
          dr_DefaultBasePath = or_default (env ''QUMULO_BASE_PATH'') ''/k8s-buckets'',
          dr_VersionFloor = or_default (env ''QUMULO_VERSION_FLOOR'') DefaultFloor,
          dr_CredentialsDir = ''/etc/qumulo/credentials'',
          dr_InsecureSkipTLS = (ParseBool (env ''QUMULO_INSECURE_SKIP_TLS_VERIFY'') = Some True),
          dr_CAFile = env ''QUMULO_CA_FILE'',
          dr_SecretNamespaces =
            (if allow = [] then [] else filter (\<lambda>s. s \<noteq> []) (map TrimSpace (Split allow (CHR '','')))),
          dr_DriverNamespace = or_default (env ''POD_NAMESPACE'') ''qumulo-cosi''\<rparr>)"

record Class =
  cl_Endpoint :: string
  cl_RESTPort :: string
  cl_S3Port :: string
  cl_Region :: string
  cl_CredentialsSecretName :: string
  cl_CredentialsSecretNamespace :: string
  cl_BasePath :: string
  cl_BucketPrefix :: string
  cl_DeleteRootDir :: bool
  cl_PurgeOnDelete :: bool
  cl_QuotaLimit :: int
  cl_Versioning :: string
  cl_ObjectLockEnabled :: bool
  cl_ExistingBucketName :: string
  cl_InsecureSkipTLSVerify :: bool
  cl_AccessMode :: string
  cl_ACLFallbackChmod :: bool

section \<open>Parsing a class\<close>

definition classParameterKeys :: "string list" where
  "classParameterKeys =
     [''endpoint'', ''restPort'', ''s3Port'', ''region'', ''credentialsSecretName'', ''credentialsSecretNamespace'', ''basePath'',
      ''bucketPrefix'', ''existingBucketName'', ''deleteRootDir'', ''purgeOnDelete'', ''quotaLimit'', ''versioning'',
      ''objectLockEnabled'', ''insecureSkipTLSVerify'', ''accessMode'', ''aclFallbackChmod'']"

text \<open>\<open>params[key]\<close>: the zero value when absent.\<close>

definition param :: "params \<Rightarrow> string \<Rightarrow> string" where
  "param ps k = (case map_of ps k of None \<Rightarrow> [] | Some v \<Rightarrow> v)"

fun first_nonblank :: "string list \<Rightarrow> string" where
  "first_nonblank [] = []"
| "first_nonblank (v # vs) = (if TrimSpace v \<noteq> [] then TrimSpace v else first_nonblank vs)"

definition validatedPort :: "string \<Rightarrow> string \<Rightarrow> string res" where
  "validatedPort name value =
     (let bad = Inl (EMsg (name @ '' '' @ fmt_q value @ '' must be a numeric TCP port from 1 through 65535''))
      in if value = [] then Inl (EMsg (name @ '' is required''))
         else if \<not> list_all is_digit value then bad
         else case ParseUint 10 16 value of
             None \<Rightarrow> bad
           | Some n \<Rightarrow> if n = 0 then bad else Inr (itoa (int n)))"

definition validatedBasePath :: "string \<Rightarrow> string res" where
  "validatedBasePath value =
     (if has_control value then Inl (EMsg (''basePath '' @ fmt_q value @ '' contains control characters''))
      else if \<not> HasPrefix value ''/'' then Inl (EMsg (''basePath '' @ fmt_q value @ '' must be an absolute POSIX path''))
      else (let clean = path_Clean value
            in if clean = ''/'' then Inl (EMsg ''basePath must not be the filesystem root'')
               else if clean \<noteq> value then Inl (EMsg (''basePath '' @ fmt_q value @ '' is not clean; use '' @ fmt_q clean))
               else Inr clean))"

definition parseBool :: "params \<Rightarrow> string \<Rightarrow> bool \<Rightarrow> bool res" where
  "parseBool ps key def =
     (case map_of ps key of
        None \<Rightarrow> Inr def
      | Some v \<Rightarrow>
          if TrimSpace v = [] then Inr def
          else case ParseBool (TrimSpace v) of
              None \<Rightarrow> Inl (EMsg (''parameter '' @ key @ ''='' @ fmt_q v @ '' is not a valid boolean (use \"true\" or \"false\")''))
            | Some b \<Rightarrow> Inr b)"

definition parse_quota :: "params \<Rightarrow> int res" where
  "parse_quota ps =
     (let q = TrimSpace (param ps ''quotaLimit'')
      in if q = [] then Inr 0
         else case ParseInt64 q of
             None \<Rightarrow> Inl (EMsg (''quotaLimit '' @ fmt_q q @ '': invalid syntax''))
           | Some n \<Rightarrow> if n \<le> 0 then Inl (EMsg (''quotaLimit '' @ fmt_q q @ '' must be greater than zero when set'')) else Inr n)"

text \<open>\<open>x, err = m; if err != nil { return err }\<close> for results without effects.\<close>

definition and_then :: "'a res \<Rightarrow> ('a \<Rightarrow> 'b res) \<Rightarrow> 'b res" where
  "and_then m k = (case m of Inl e \<Rightarrow> Inl e | Inr x \<Rightarrow> k x)"

definition parseClassValidated :: "params \<Rightarrow> Driver \<Rightarrow> Class res" where
  "parseClassValidated ps d =
     (let region = (case map_of ps ''region'' of Some r \<Rightarrow> r | None \<Rightarrow> dr_DefaultRegion d);
          region = or_default region DefaultRegion;
          basePath = (case map_of ps ''basePath'' of Some b \<Rightarrow> b | None \<Rightarrow> dr_DefaultBasePath d);
          basePath = or_default basePath ''/k8s-buckets''
      in if has_control region then Inl (EMsg (''region '' @ fmt_q region @ '' contains control characters''))
         else if has_control basePath then Inl (EMsg (''basePath '' @ fmt_q basePath @ '' contains control characters''))
         else
           and_then (validatedPort ''restPort'' (first_nonblank [param ps ''restPort'', dr_DefaultRESTPort d, DefaultRESTPort])) (\<lambda>restPort.
           and_then (validatedPort ''s3Port'' (first_nonblank [param ps ''s3Port'', dr_DefaultS3Port d, DefaultS3Port])) (\<lambda>s3Port.
           and_then (validatedBasePath (TrimSpace basePath)) (\<lambda>base.
           and_then (NormalizeMode (first_nonblank [param ps ''accessMode'', ''rw''])) (\<lambda>mode.
           and_then (parseBool ps ''deleteRootDir'' True) (\<lambda>delRoot.
           and_then (parseBool ps ''purgeOnDelete'' False) (\<lambda>purge.
           and_then (parseBool ps ''objectLockEnabled'' False) (\<lambda>lock.
           and_then (parseBool ps ''insecureSkipTLSVerify'' (dr_InsecureSkipTLS d)) (\<lambda>insecure.
           and_then (parseBool ps ''aclFallbackChmod'' False) (\<lambda>chmod.
           and_then (parse_quota ps) (\<lambda>quota.
             let vers = param ps ''versioning''; vers = (if lock \<and> vers = [] then ''Enabled'' else vers)
             in if vers \<notin> set [[], ''Enabled'', ''Suspended'', ''Unversioned'']
                then Inl (EMsg (''versioning '' @ fmt_q vers @ '': want Enabled, Suspended, or Unversioned''))
                else Inr \<lparr>cl_Endpoint = first_nonblank [param ps ''endpoint'', dr_DefaultEndpoint d],
                          cl_RESTPort = restPort, cl_S3Port = s3Port, cl_Region = TrimSpace region,
                          cl_CredentialsSecretName = param ps ''credentialsSecretName'',
                          cl_CredentialsSecretNamespace = first_nonblank [param ps ''credentialsSecretNamespace'', dr_DriverNamespace d],
                          cl_BasePath = base, cl_BucketPrefix = param ps ''bucketPrefix'',
                          cl_DeleteRootDir = delRoot, cl_PurgeOnDelete = purge, cl_QuotaLimit = quota,
                          cl_Versioning = vers, cl_ObjectLockEnabled = lock,
                          cl_ExistingBucketName = param ps ''existingBucketName'',
                          cl_InsecureSkipTLSVerify = insecure, cl_AccessMode = mode, cl_ACLFallbackChmod = chmod\<rparr>)))))))))))"

definition ParseClass :: "params \<Rightarrow> Driver \<Rightarrow> Class res" where
  "ParseClass ps d =
     (case find (\<lambda>kv. fst kv \<notin> set classParameterKeys) ps of
        Some kv \<Rightarrow> Inl (EMsg (''unknown class parameter '' @ fmt_q (fst kv)))
      | None \<Rightarrow> parseClassValidated ps d)"

definition ParseClassForCleanup :: "params \<Rightarrow> Driver \<Rightarrow> Class res" where
  "ParseClassForCleanup ps d = parseClassValidated (filter (\<lambda>kv. fst kv \<in> set classParameterKeys) ps) d"

section \<open>Credentials\<close>

definition namespaceAllowed :: "string \<Rightarrow> Driver \<Rightarrow> bool" where
  "namespaceAllowed ns d \<longleftrightarrow> ns = [] \<or> ns = dr_DriverNamespace d \<or> list_ex (\<lambda>x. x = ns \<or> x = ''*'') (dr_SecretNamespaces d)"

definition configuredCABundle :: "process \<Rightarrow> string \<Rightarrow> string \<Rightarrow> string res" where
  "configuredCABundle pr ca pth =
     (if ca \<noteq> [] \<or> TrimSpace pth = [] then Inr ca
      else case pr_file pr pth of
          Content b \<Rightarrow> if TrimSpace b = [] then Inl (EMsg (''read CA file '' @ fmt_q pth @ '': file is empty'')) else Inr b
        | _ \<Rightarrow> Inl (EMsg (''read CA file '' @ fmt_q pth)))"

definition hasAnyMapKey :: "params \<Rightarrow> string list \<Rightarrow> bool" where
  "hasAnyMapKey data ks \<longleftrightarrow> list_ex (\<lambda>k. map_of data k \<noteq> None) ks"

fun stringFrom :: "params \<Rightarrow> string list \<Rightarrow> string" where
  "stringFrom data [] = []"
| "stringFrom data (k # ks) =
     (case map_of data k of Some v \<Rightarrow> if v \<noteq> [] then TrimSpace v else stringFrom data ks | None \<Rightarrow> stringFrom data ks)"

definition credsFromMap :: "params \<Rightarrow> (Credentials \<times> string) res" where
  "credsFromMap data =
     (let c = \<lparr>cr_Token = stringFrom data [''token'', ''accessToken'', ''bearer''],
               cr_Username = stringFrom data [''username'', ''user''],
               cr_Password = stringFrom data [''password'']\<rparr>;
          tokenPresent = hasAnyMapKey data [''token'', ''accessToken'', ''bearer''];
          usernamePresent = hasAnyMapKey data [''username'', ''user''];
          passwordPresent = hasAnyMapKey data [''password'']
      in if usernamePresent \<noteq> passwordPresent
         then Inl (EMsg ''secret username and password must either both be present or both be absent'')
         else if tokenPresent \<and> (usernamePresent \<or> passwordPresent)
         then Inl (EMsg ''secret cannot combine token credentials with username/password'')
         else case find (\<lambda>k. case map_of data k of Some raw \<Rightarrow> TrimSpace raw = [] | None \<Rightarrow> False) [''ca.crt'', ''ca.pem''] of
             Some key \<Rightarrow> Inl (EMsg (''secret key '' @ fmt_q key @ '' is present but empty''))
           | None \<Rightarrow>
               if \<not> HasToken c \<and> \<not> HasPassword c then Inl (EMsg ''secret has neither token nor username/password'')
               else Inr (c, case map_of data ''ca.crt'' of Some ca \<Rightarrow> ca | None \<Rightarrow> param data ''ca.pem''))"

text \<open>The reading of one credential file: its value, or \<open>None\<close> when the file is missing.\<close>

definition read_cred :: "process \<Rightarrow> string \<Rightarrow> string \<Rightarrow> string option res" where
  "read_cred pr dir name =
     (let p = path_Join [dir, name]
      in case pr_file pr p of
           Missing \<Rightarrow> Inr None
         | Unreadable e \<Rightarrow> Inl (EMsg (''read '' @ fmt_q p @ '': '' @ e))
         | Content b \<Rightarrow>
             if TrimSpace b = [] then Inl (EMsg (''credential file '' @ fmt_q p @ '' is present but empty''))
             else Inr (Some (TrimSpace b)))"

definition opt_text :: "string option \<Rightarrow> string" where
  "opt_text v = (case v of None \<Rightarrow> [] | Some s \<Rightarrow> s)"

definition credsFromDir :: "process \<Rightarrow> string \<Rightarrow> (Credentials \<times> string) res" where
  "credsFromDir pr dir =
     and_then (read_cred pr dir ''token'') (\<lambda>token.
     and_then (read_cred pr dir ''accessToken'') (\<lambda>accessToken.
     and_then (read_cred pr dir ''username'') (\<lambda>username.
     and_then (read_cred pr dir ''password'') (\<lambda>password.
       if (username \<noteq> None) \<noteq> (password \<noteq> None)
       then Inl (EMsg ''mounted username and password must either both be present or both be absent'')
       else
         (let both = (token \<noteq> None \<or> accessToken \<noteq> None) \<and> (username \<noteq> None \<or> password \<noteq> None);
              c = \<lparr>cr_Token = first_nonblank [opt_text token, opt_text accessToken],
                   cr_Username = (if both then [] else opt_text username),
                   cr_Password = (if both then [] else opt_text password)\<rparr>;
              material = token \<noteq> None \<or> accessToken \<noteq> None \<or> username \<noteq> None \<or> password \<noteq> None;
              caPath = path_Join [dir, ''ca.crt'']
          in if material \<and> \<not> HasToken c \<and> \<not> HasPassword c then Inl (EMsg ''mounted credentials are incomplete'')
             else case pr_file pr caPath of
                 Unreadable e \<Rightarrow> Inl (EMsg (''read CA bundle '' @ fmt_q caPath @ '': '' @ e))
               | Missing \<Rightarrow> Inr (c, [])
               | Content ca \<Rightarrow>
                   if TrimSpace ca = [] then Inl (EMsg (''read CA bundle '' @ fmt_q caPath @ '': file is empty''))
                   else Inr (c, ca))))))"

definition env_credentials :: "process \<Rightarrow> Credentials" where
  "env_credentials pr =
     \<lparr>cr_Token = pr_env pr ''QUMULO_TOKEN'', cr_Username = pr_env pr ''QUMULO_USERNAME'', cr_Password = pr_env pr ''QUMULO_PASSWORD''\<rparr>"

definition ResolveCredentials :: "process \<Rightarrow> Class \<Rightarrow> Driver \<Rightarrow> (Credentials \<times> string) res" where
  "ResolveCredentials pr class d =
     (if cl_CredentialsSecretName class \<noteq> [] then
        (case pr_secret pr of
           None \<Rightarrow> Inl (EMsg ''credentialsSecretName set but no Kubernetes client configured'')
         | Some getSecret \<Rightarrow>
            (let ns = cl_CredentialsSecretNamespace class
             in if \<not> namespaceAllowed ns d
                then Inl (EMsg (''refusing to read secret '' @ ns @ ''/'' @ cl_CredentialsSecretName class @ '': namespace not allowed''))
                else case getSecret ns (cl_CredentialsSecretName class) of
                    Inl err \<Rightarrow> Inl (EWrap (''read credentials secret '' @ ns @ ''/'' @ cl_CredentialsSecretName class @ '': '') err [])
                  | Inr data \<Rightarrow>
                      and_then (credsFromMap data) (\<lambda>(c, ca). and_then (configuredCABundle pr ca (dr_CAFile d)) (\<lambda>ca. Inr (c, ca)))))
      else
        (let dir = dr_CredentialsDir d;
             mounted = (if dir \<noteq> []
                        then (case credsFromDir pr dir of
                                Inl e \<Rightarrow> Inl (EWrap (''read credentials directory '' @ fmt_q dir @ '': '') e []) | Inr x \<Rightarrow> Inr x)
                        else Inr (\<lparr>cr_Token = [], cr_Username = [], cr_Password = []\<rparr>, []))
         in and_then mounted (\<lambda>(c, mountedCA).
              if HasToken c \<or> HasPassword c then and_then (configuredCABundle pr mountedCA (dr_CAFile d)) (\<lambda>ca. Inr (c, ca))
              else
                (let c = env_credentials pr;
                     hasUser = TrimSpace (cr_Username c) \<noteq> [];
                     hasPassword = TrimSpace (cr_Password c) \<noteq> []
                 in if hasUser \<noteq> hasPassword
                    then Inl (EMsg ''QUMULO_USERNAME and QUMULO_PASSWORD must either both be set or both be unset'')
                    else if HasToken c \<and> (hasUser \<or> hasPassword)
                    then Inl (EMsg ''environment credentials cannot combine QUMULO_TOKEN with QUMULO_USERNAME/QUMULO_PASSWORD'')
                    else and_then (configuredCABundle pr mountedCA (dr_CAFile d)) (\<lambda>ca.
                      if \<not> HasToken c \<and> \<not> HasPassword c
                      then Inl (EMsg (''no Qumulo credentials: set class credentialsSecretName or mount '' @ dir @ '' or export QUMULO_TOKEN''))
                      else Inr (c, ca))))))"

section \<open>The parser is strict\<close>

lemma and_then_Inr: "and_then m k = Inr y \<longleftrightarrow> (\<exists>x. m = Inr x \<and> k x = Inr y)"
  by (cases m) (auto simp: and_then_def)

text \<open>What a boolean parameter means: its default when absent or blank, otherwise exactly the value it spells.\<close>

definition bool_param :: "params \<Rightarrow> string \<Rightarrow> bool \<Rightarrow> bool \<Rightarrow> bool" where
  "bool_param ps key def b \<longleftrightarrow>
     (if TrimSpace (param ps key) = [] then b = def else ParseBool (TrimSpace (param ps key)) = Some b)"

lemma parseBool_iff: "parseBool ps key def = Inr b \<longleftrightarrow> bool_param ps key def b"
  by (auto simp: parseBool_def bool_param_def param_def TrimSpace_def split: option.splits)

lemma itoa_nonneg: "itoa (int n) = nat_digits n"
  by (simp add: itoa_def)

definition is_port :: "string \<Rightarrow> bool" where
  "is_port p \<longleftrightarrow> (\<exists>n. 0 < n \<and> n < 65536 \<and> p = nat_digits n)"

lemma validatedPort_port: "validatedPort name v = Inr p \<Longrightarrow> is_port p"
  unfolding is_port_def
  by (auto simp: validatedPort_def Let_def ParseUint_def itoa_nonneg split: if_splits option.splits)

lemma NormalizeMode_modes: "NormalizeMode m = Inr n \<Longrightarrow> n \<in> {ModeRO, ModeRW, ModeFull}"
  by (auto simp: NormalizeMode_def split: if_splits)

text \<open>A base path: rooted, in clean form and not the root, so it has at least one component and none is empty, a dot or a dot-dot.\<close>

lemma validatedBasePath_clean:
  assumes "validatedBasePath v = Inr b"
  shows "b = v \<and> (\<exists>ss. ss \<noteq> [] \<and> list_all plain_seg ss \<and> b = ''/'' @ Join ss ''/'')"
proof -
  have b: "b = v" "path_Clean v = v" "v \<noteq> ''/''" "HasPrefix v ''/''"
    using assms by (auto simp: validatedBasePath_def Let_def split: if_splits)
  obtain ss where "list_all plain_seg ss" "path_Clean v = ''/'' @ Join ss ''/''" using path_Clean_rooted [OF b(4)] by blast
  moreover from this b have "ss \<noteq> []" by auto
  ultimately show ?thesis using b by auto
qed

text \<open>a class that parses has only known parameters; every boolean is its default or exactly what was spelled, so that no typo enables a
  deletion; the ports are in range, the base path is clean and below the root, and the access mode is one of three.\<close>

theorem ParseClass_strict:
  assumes "ParseClass ps d = Inr c"
  shows "list_all (\<lambda>kv. fst kv \<in> set classParameterKeys) ps \<and>
    bool_param ps ''deleteRootDir'' True (cl_DeleteRootDir c) \<and> bool_param ps ''purgeOnDelete'' False (cl_PurgeOnDelete c) \<and>
    bool_param ps ''insecureSkipTLSVerify'' (dr_InsecureSkipTLS d) (cl_InsecureSkipTLSVerify c) \<and>
    bool_param ps ''objectLockEnabled'' False (cl_ObjectLockEnabled c) \<and> bool_param ps ''aclFallbackChmod'' False (cl_ACLFallbackChmod c) \<and>
    is_port (cl_RESTPort c) \<and> is_port (cl_S3Port c) \<and> cl_AccessMode c \<in> {ModeRO, ModeRW, ModeFull} \<and> 0 \<le> cl_QuotaLimit c \<and>
    (\<exists>ss. ss \<noteq> [] \<and> list_all plain_seg ss \<and> cl_BasePath c = ''/'' @ Join ss ''/'')"
proof -
  have keys: "list_all (\<lambda>kv. fst kv \<in> set classParameterKeys) ps" and p: "parseClassValidated ps d = Inr c"
    using assms by (auto simp: ParseClass_def find_None_iff list_all_iff split: option.splits)
  have q: "parse_quota ps = Inr n \<Longrightarrow> 0 \<le> n" for n
    by (auto simp: parse_quota_def Let_def split: if_splits option.splits)
  obtain restPort s3Port base mode delRoot purge lock insecure chmod quota bp vers where
    r: "validatedPort ''restPort'' (first_nonblank [param ps ''restPort'', dr_DefaultRESTPort d, DefaultRESTPort]) = Inr restPort"
       "validatedPort ''s3Port'' (first_nonblank [param ps ''s3Port'', dr_DefaultS3Port d, DefaultS3Port]) = Inr s3Port"
       "validatedBasePath bp = Inr base"
       "NormalizeMode (first_nonblank [param ps ''accessMode'', ''rw'']) = Inr mode"
       "bool_param ps ''deleteRootDir'' True delRoot" "bool_param ps ''purgeOnDelete'' False purge"
       "bool_param ps ''objectLockEnabled'' False lock"
       "bool_param ps ''insecureSkipTLSVerify'' (dr_InsecureSkipTLS d) insecure" "bool_param ps ''aclFallbackChmod'' False chmod"
       "parse_quota ps = Inr quota"
    and c: "cl_RESTPort c = restPort" "cl_S3Port c = s3Port" "cl_BasePath c = base" "cl_AccessMode c = mode"
       "cl_DeleteRootDir c = delRoot" "cl_PurgeOnDelete c = purge" "cl_ObjectLockEnabled c = lock"
       "cl_InsecureSkipTLSVerify c = insecure" "cl_ACLFallbackChmod c = chmod" "cl_QuotaLimit c = quota"
    using p unfolding parseClassValidated_def Let_def
    apply (simp only: if_Inl_Inr and_then_Inr parseBool_iff sum.inject)
    apply (elim exE conjE)
    apply (drule sym [of _ c])
    apply (simp only: Class.simps)
    done
  show ?thesis
    using keys r(5-9) validatedPort_port [OF r(1)] validatedPort_port [OF r(2)] NormalizeMode_modes [OF r(4)] q [OF r(10)]
      validatedBasePath_clean [OF r(3)]
    unfolding c by blast
qed


section \<open>Credentials are of one kind\<close>

lemma stringFrom_present: "stringFrom data ks \<noteq> [] \<Longrightarrow> hasAnyMapKey data ks"
  by (induction ks) (auto simp: hasAnyMapKey_def split: option.splits if_splits)

lemma TrimSpace_Nil [simp]: "TrimSpace [] = []"
  by (simp add: TrimSpace_def)

lemma HasToken_nonempty: "HasToken c \<Longrightarrow> cr_Token c \<noteq> []"
  by (auto simp: HasToken_def)

lemma HasPassword_nonempty: "HasPassword c \<Longrightarrow> cr_Username c \<noteq> [] \<and> cr_Password c \<noteq> []"
  by (auto simp: HasPassword_def)

lemma credsFromMap_kind:
  assumes "credsFromMap data = Inr (c, ca)"
  shows "HasToken c \<noteq> HasPassword c"
proof -
  let ?T = "hasAnyMapKey data [''token'', ''accessToken'', ''bearer'']" and ?U = "hasAnyMapKey data [''username'', ''user'']"
    and ?P = "hasAnyMapKey data [''password'']"
  have opt: "(case v of Some k \<Rightarrow> Inl (f k) | None \<Rightarrow> m) = Inr y \<longleftrightarrow> v = None \<and> m = Inr y" for v f m and y :: "Credentials \<times> string"
    by (cases v) auto
  let ?c = "\<lparr>cr_Token = stringFrom data [''token'', ''accessToken'', ''bearer''],
               cr_Username = stringFrom data [''username'', ''user''], cr_Password = stringFrom data [''password'']\<rparr>"
  have f: "\<not> (?T \<and> (?U \<or> ?P))" "\<not> (\<not> HasToken ?c \<and> \<not> HasPassword ?c)" "c = ?c"
    using assms unfolding credsFromMap_def Let_def if_Inl_Inr opt sum.inject prod.inject by blast+
  have "\<not> (HasToken ?c \<and> HasPassword ?c)"
    using f(1) HasToken_nonempty [of ?c] HasPassword_nonempty [of ?c]
      stringFrom_present [of data "[''token'', ''accessToken'', ''bearer'']"] stringFrom_present [of data "[''username'', ''user'']"]
    unfolding Credentials.simps by blast
  with f(2,3) show ?thesis by blast
qed

lemma credsFromDir_kind:
  assumes "credsFromDir pr dir = Inr (c, ca)"
  shows "\<not> (HasToken c \<and> HasPassword c)"
proof -
  have fr: "(case v of Missing \<Rightarrow> Inr (c0, []) | Unreadable e \<Rightarrow> Inl (f e) | Content x \<Rightarrow> if g x then Inl (h x) else Inr (c0, x)) = Inr (c, ca)
      \<Longrightarrow> c0 = c" for v f g h and c0 :: Credentials
    by (auto split: file_read.splits if_splits)
  obtain token accessToken username password :: "string option" and both where
    b: "both = ((token \<noteq> None \<or> accessToken \<noteq> None) \<and> (username \<noteq> None \<or> password \<noteq> None))"
    and c: "c = \<lparr>cr_Token = first_nonblank [opt_text token, opt_text accessToken],
               cr_Username = (if both then [] else opt_text username), cr_Password = (if both then [] else opt_text password)\<rparr>"
    using assms unfolding credsFromDir_def and_then_Inr Let_def if_Inl_Inr by (elim exE conjE) (drule fr, blast)
  show ?thesis
    using HasToken_nonempty [of c] HasPassword_nonempty [of c] unfolding c b
    by (auto simp: opt_text_def split: option.splits if_splits)
qed

text \<open>resolved credentials are a token or a user with a password, never both and never neither; a secret is read only from an allowed
  namespace.\<close>

theorem ResolveCredentials_kind:
  assumes "ResolveCredentials pr class d = Inr (c, ca)"
  shows "HasToken c \<noteq> HasPassword c \<and>
    (cl_CredentialsSecretName class \<noteq> [] \<longrightarrow> namespaceAllowed (cl_CredentialsSecretNamespace class) d)"
proof (cases "cl_CredentialsSecretName class = []")
  case False
  then show ?thesis
    using assms credsFromMap_kind
    by (auto simp: ResolveCredentials_def and_then_Inr Let_def split: option.splits if_splits sum.splits)
next
  case True
  let ?m = "if dr_CredentialsDir d \<noteq> []
                        then (case credsFromDir pr (dr_CredentialsDir d) of
                                Inl e \<Rightarrow> Inl (EWrap (''read credentials directory '' @ fmt_q (dr_CredentialsDir d) @ '': '') e []) | Inr x \<Rightarrow> Inr x)
                        else Inr (\<lparr>cr_Token = [], cr_Username = [], cr_Password = []\<rparr>, [])"
  have m: "\<not> (HasToken c0 \<and> HasPassword c0)" if "?m = Inr (c0, ca0)" for c0 ca0
    using that credsFromDir_kind [of pr "dr_CredentialsDir d"]
    by (auto simp: HasToken_def split: if_splits sum.splits)
  from True assms show ?thesis
    unfolding ResolveCredentials_def Let_def and_then_Inr
    apply (simp only: not_True_eq_False if_False simp_thms and_then_Inr)
    apply (erule exE, erule conjE)
    subgoal for x
      using m [of "fst x" "snd x"]
      by (cases x) (auto simp: and_then_Inr HasPassword_def split: if_splits)
    done
qed

end
