(* ===== verification/Conn_Cache.thy ===== *)
theory Conn_Cache
  imports Rest_Client
begin

text \<open>
  The dialling half of \<^verbatim>\<open>internal/qumulo/client.go\<close>: \<open>NewConnection\<close>, the fingerprint \<open>CacheKey\<close> and the LRU \<open>Cache\<close> of connections.
  Concurrent calls of \<open>Get\<close> are a step relation: a call is a hit, or leaves the lock to dial and comes back to store what it dialled.
  Reachable caches are shown to respect their bound and to hold under each key only a connection dialled for that key.
\<close>

section \<open>Dialling\<close>

record DialConfig =
  dc_Endpoint :: string
  dc_RESTPort :: string
  dc_Credentials :: Credentials
  dc_InsecureSkipVerify :: bool
  dc_CABundlePEM :: string
  dc_ServerName :: string
  dc_UserAgent :: string

text \<open>What \<open>NewConnection\<close> fixes for the life of a connection.  The timeout, the transport's pool sizes and the logger are left out.\<close>

record Dialled =
  dl_Scheme :: string
  dl_Host :: string
  dl_Creds :: Credentials
  dl_Bearer :: string
  dl_InsecureSkipVerify :: bool
  dl_RootCAs :: "string option"
  dl_ServerName :: string
  dl_UserAgent :: string

text \<open>\<open>net.ParseIP(s)\<close> and \<open>IsLoopback\<close>: an IPv4 address as four fields, an IPv6 address as eight groups.\<close>

definition dec_octet :: "string \<Rightarrow> nat option" where
  "dec_octet s =
     (if s \<noteq> [] \<and> length s \<le> 3 \<and> list_all is_digit s \<and> (length s > 1 \<longrightarrow> hd s \<noteq> CHR ''0'') \<and> digits_val 10 s < 256
      then Some (digits_val 10 s) else None)"

fun all_some :: "'a option list \<Rightarrow> 'a list option" where
  "all_some [] = Some []"
| "all_some (x # xs) = (case (x, all_some xs) of (Some a, Some as) \<Rightarrow> Some (a # as) | _ \<Rightarrow> None)"

definition parse_ip4 :: "string \<Rightarrow> nat list option" where
  "parse_ip4 s = (let fs = Split s (CHR ''.'') in if length fs = 4 then all_some (map dec_octet fs) else None)"

definition hex_group :: "string \<Rightarrow> nat option" where
  "hex_group s =
     (if s \<noteq> [] \<and> length s \<le> 4 \<and> list_all is_hex_digit s
      then Some (foldl (\<lambda>a c. 16 * a + (case unhex c of Some d \<Rightarrow> d | None \<Rightarrow> 0)) 0 s) else None)"

text \<open>The groups of one side of a double colon; only the last part of an address may be dotted.\<close>

fun ip6_groups :: "bool \<Rightarrow> string list \<Rightarrow> nat list option" where
  "ip6_groups is_last [] = Some []"
| "ip6_groups is_last [g] =
     (if is_last \<and> CHR ''.'' \<in> set g
      then (case parse_ip4 g of Some [a, b, c, d] \<Rightarrow> Some [256 * a + b, 256 * c + d] | _ \<Rightarrow> None)
      else map_option (\<lambda>x. [x]) (hex_group g))"
| "ip6_groups is_last (g # h # gs) =
     (case (hex_group g, ip6_groups is_last (h # gs)) of (Some x, Some xs) \<Rightarrow> Some (x # xs) | _ \<Rightarrow> None)"

fun cut_colons :: "string \<Rightarrow> string \<Rightarrow> (string \<times> string) option" where
  "cut_colons acc (a # b # s) = (if a = CHR '':'' \<and> b = CHR '':'' then Some (rev acc, s) else cut_colons (a # acc) (b # s))"
| "cut_colons acc _ = None"

definition ip6_side :: "bool \<Rightarrow> string \<Rightarrow> nat list option" where
  "ip6_side is_last s = (if s = [] then Some [] else ip6_groups is_last (Split s (CHR '':'')))"

definition parse_ip6 :: "string \<Rightarrow> nat list option" where
  "parse_ip6 s =
     (case cut_colons [] s of
        None \<Rightarrow> (case ip6_groups True (Split s (CHR '':'')) of Some xs \<Rightarrow> if length xs = 8 then Some xs else None | None \<Rightarrow> None)
      | Some (l, r) \<Rightarrow>
         (case (ip6_side False l, ip6_side True r) of
            (Some xs, Some ys) \<Rightarrow>
              if length xs + length ys < 8 then Some (xs @ replicate (8 - length xs - length ys) 0 @ ys) else None
          | _ \<Rightarrow> None))"

definition is_loopback_ip :: "string \<Rightarrow> bool" where
  "is_loopback_ip s \<longleftrightarrow>
     (case parse_ip4 s of
        Some (a # _) \<Rightarrow> a = 127
      | _ \<Rightarrow>
        (case parse_ip6 s of
           Some xs \<Rightarrow> xs = [0, 0, 0, 0, 0, 0, 0, 1] \<or> (take 6 xs = [0, 0, 0, 0, 0, 0xffff] \<and> xs ! 6 div 256 = 127)
         | None \<Rightarrow> False))"

text \<open>\<open>NewConnection\<close>; \<open>pem_ok\<close> is \<open>AppendCertsFromPEM\<close>.\<close>

definition NewConnection :: "(string \<Rightarrow> bool) \<Rightarrow> DialConfig \<Rightarrow> Dialled res" where
  "NewConnection pem_ok cfg =
     (if TrimSpace (dc_Endpoint cfg) = [] then Inl (EMsg ''qumulo endpoint is required'')
      else if \<not> HasToken (dc_Credentials cfg) \<and> \<not> HasPassword (dc_Credentials cfg)
      then Inl (EMsg ''qumulo credentials: provide an access token or username/password'')
      else
        (let port = (if dc_RESTPort cfg = [] then DefaultRESTPort else dc_RESTPort cfg);
             raw = (if \<not> Contains (dc_Endpoint cfg) ''://'' then ''https://'' @ dc_Endpoint cfg else dc_Endpoint cfg)
         in case url_Parse raw of
              None \<Rightarrow> Inl (EMsg ''parse endpoint'')
            | Some u \<Rightarrow>
              if url_Hostname u = [] then Inl (EMsg ''qumulo endpoint has no hostname'')
              else if u_User u \<noteq> None \<or> (u_Path u \<noteq> [] \<and> u_Path u \<noteq> ''/'') \<or> u_RawQuery u \<noteq> [] \<or> u_Fragment u \<noteq> []
              then Inl (EMsg ''qumulo endpoint must not contain credentials, a path, query, or fragment'')
              else if \<not> EqualFold (u_Scheme u) ''https'' \<and>
                      (\<not> EqualFold (u_Scheme u) ''http'' \<or>
                       \<not> (EqualFold (url_Hostname u) ''localhost'' \<or> is_loopback_ip (url_Hostname u)))
              then Inl (EMsg ''qumulo endpoint must use HTTPS (HTTP is allowed only for loopback tests)'')
              else
                (let u = (if url_Port u = [] then u\<lparr>u_Host := JoinHostPort (url_Hostname u) port\<rparr> else u);
                     effectivePort = url_Port u
                 in if ParseUint 10 16 effectivePort \<in> set [None, Some 0]
                    then Inl (EMsg (''invalid Qumulo REST port '' @ fmt_q effectivePort))
                    else if dc_CABundlePEM cfg \<noteq> [] \<and> \<not> pem_ok (dc_CABundlePEM cfg)
                    then Inl (EMsg ''failed to parse CA bundle PEM'')
                    else Inr \<lparr>dl_Scheme = u_Scheme u, dl_Host = u_Host u, dl_Creds = dc_Credentials cfg,
                              dl_Bearer = (if HasToken (dc_Credentials cfg) then TrimSpace (cr_Token (dc_Credentials cfg)) else []),
                              dl_InsecureSkipVerify = dc_InsecureSkipVerify cfg,
                              dl_RootCAs = (if dc_CABundlePEM cfg \<noteq> [] then Some (dc_CABundlePEM cfg) else None),
                              dl_ServerName = dc_ServerName cfg,
                              dl_UserAgent = (if dc_UserAgent cfg = [] then ''cosi-driver-qumulo/0.2.0'' else dc_UserAgent cfg)\<rparr>)))"

text \<open>C28: a connection is dialled over HTTPS, or over HTTP to a loopback host; it has credentials, a valid port, the trust roots it was
  given, and skips the verification of certificates only when told to.\<close>

theorem NewConnection_secure:
  assumes "NewConnection pem_ok cfg = Inr d"
  shows "(\<exists>u. url_Parse (if \<not> Contains (dc_Endpoint cfg) ''://'' then ''https://'' @ dc_Endpoint cfg else dc_Endpoint cfg) = Some u \<and>
      dl_Scheme d = u_Scheme u \<and> u_User u = None \<and> u_RawQuery u = [] \<and> u_Fragment u = [] \<and>
      (EqualFold (u_Scheme u) ''https'' \<or>
       EqualFold (u_Scheme u) ''http'' \<and> (EqualFold (url_Hostname u) ''localhost'' \<or> is_loopback_ip (url_Hostname u)))) \<and>
    (HasToken (dl_Creds d) \<or> HasPassword (dl_Creds d)) \<and> dl_Creds d = dc_Credentials cfg \<and>
    dl_InsecureSkipVerify d = dc_InsecureSkipVerify cfg \<and> (dc_CABundlePEM cfg \<noteq> [] \<longrightarrow> dl_RootCAs d = Some (dc_CABundlePEM cfg))"
proof (cases "url_Parse (if \<not> Contains (dc_Endpoint cfg) ''://'' then ''https://'' @ dc_Endpoint cfg else dc_Endpoint cfg)")
  case None
  with assms show ?thesis unfolding NewConnection_def Let_def if_Inl_Inr by simp
next
  case (Some u)
  from assms have n: "HasToken (dc_Credentials cfg) \<or> HasPassword (dc_Credentials cfg)"
    "u_User u = None" "u_RawQuery u = []" "u_Fragment u = []"
    "EqualFold (u_Scheme u) ''https'' \<or>
       EqualFold (u_Scheme u) ''http'' \<and> (EqualFold (url_Hostname u) ''localhost'' \<or> is_loopback_ip (url_Hostname u))"
    "dl_Scheme d = u_Scheme u" "dl_Creds d = dc_Credentials cfg" "dl_InsecureSkipVerify d = dc_InsecureSkipVerify cfg"
    "dl_RootCAs d = (if dc_CABundlePEM cfg \<noteq> [] then Some (dc_CABundlePEM cfg) else None)"
    unfolding NewConnection_def Let_def if_Inl_Inr Some option.case sum.inject by (blast, blast, blast, blast, blast, auto)
  then show ?thesis using Some by simp
qed

section \<open>The fingerprint\<close>

definition CacheKey :: "string \<Rightarrow> string \<Rightarrow> Credentials \<Rightarrow> string \<Rightarrow> bool \<Rightarrow> string" where
  "CacheKey endpoint restPort creds caBundle insecureSkipVerify =
     hex_encode (sha256 (Join
       [endpoint, restPort, cr_Token creds, cr_Username creds, cr_Password creds, hex_encode (sha256 caBundle),
        (if insecureSkipVerify then ''insecure'' else ''verify'')] [CHR 0x00]))"

section \<open>The cache\<close>

record 'c Cache =
  ca_max :: int
  ca_entries :: "(string \<times> 'c \<times> int) list"

definition NewCache :: "int \<Rightarrow> 'c Cache" where
  "NewCache m = \<lparr>ca_max = (if m \<le> 0 then 16 else m), ca_entries = []\<rparr>"

definition touch :: "string \<Rightarrow> int \<Rightarrow> (string \<times> 'c \<times> int) list \<Rightarrow> (string \<times> 'c \<times> int) list" where
  "touch key now es = map (\<lambda>e. if fst e = key then (fst e, fst (snd e), now) else e) es"

text \<open>The first critical section of \<open>Get\<close>: a hit marks the entry as seen now.\<close>

definition cache_hit :: "string \<Rightarrow> int \<Rightarrow> 'c Cache \<Rightarrow> ('c \<times> 'c Cache) option" where
  "cache_hit key now c =
     (case map_of (ca_entries c) key of
        None \<Rightarrow> None
      | Some (conn, seen) \<Rightarrow> Some (conn, c\<lparr>ca_entries := touch key now (ca_entries c)\<rparr>))"

text \<open>The search for the entry to evict: the key and time found so far, the empty key standing for none.\<close>

fun oldest_loop :: "(string \<times> 'c \<times> int) list \<Rightarrow> string \<Rightarrow> int \<Rightarrow> string" where
  "oldest_loop [] oldest t = oldest"
| "oldest_loop ((k, x, s) # es) oldest t = (if oldest = [] \<or> s < t then oldest_loop es k s else oldest_loop es oldest t)"

text \<open>The second critical section, after dialling: another caller's connection wins, a full cache loses its oldest entry.\<close>

definition cache_store :: "string \<Rightarrow> 'c \<Rightarrow> int \<Rightarrow> 'c Cache \<Rightarrow> 'c \<times> 'c Cache" where
  "cache_store key conn now c =
     (case map_of (ca_entries c) key of
        Some (other, _) \<Rightarrow> (other, c)
      | None \<Rightarrow>
        (let es = (if int (length (ca_entries c)) \<ge> ca_max c
                   then filter (\<lambda>e. fst e \<noteq> oldest_loop (ca_entries c) [] 0) (ca_entries c) else ca_entries c)
         in (conn, c\<lparr>ca_entries := (key, conn, now) # es\<rparr>)))"

text \<open>A call with no other caller in between.\<close>

definition Get :: "string \<Rightarrow> 'c res \<Rightarrow> int \<Rightarrow> int \<Rightarrow> 'c Cache \<Rightarrow> 'c res \<times> 'c Cache" where
  "Get key dialled now later c =
     (case cache_hit key now c of
        Some (conn, c') \<Rightarrow> (Inr conn, c')
      | None \<Rightarrow>
        (case dialled of
           Inl e \<Rightarrow> (Inl e, c)
         | Inr conn \<Rightarrow> (case cache_store key conn later c of (x, c') \<Rightarrow> (Inr x, c'))))"

text \<open>Concurrent callers: the cache and the keys that are being dialled.  \<open>dials\<close> says which connections a dial for a key may give.\<close>

inductive cache_step :: "(string \<Rightarrow> 'c \<Rightarrow> bool) \<Rightarrow> 'c Cache \<times> string list \<Rightarrow> 'c Cache \<times> string list \<Rightarrow> bool"
  for dials where
  hit: "cache_hit key now c = Some (conn, c') \<Longrightarrow> cache_step dials (c, ks) (c', ks)"
| miss: "cache_hit key now c = None \<Longrightarrow> key \<noteq> [] \<Longrightarrow> cache_step dials (c, ks) (c, key # ks)"
| dial_failed: "key \<in> set ks \<Longrightarrow> cache_step dials (c, ks) (c, remove1 key ks)"
| stored: "key \<in> set ks \<Longrightarrow> dials key conn \<Longrightarrow> cache_store key conn now c = (x, c') \<Longrightarrow>
    cache_step dials (c, ks) (c', remove1 key ks)"

inductive_cases cache_stepE: "cache_step dials (c, ks) (c', ks')"

definition cache_ok :: "(string \<Rightarrow> 'c \<Rightarrow> bool) \<Rightarrow> 'c Cache \<times> string list \<Rightarrow> bool" where
  "cache_ok dials s \<longleftrightarrow>
     0 < ca_max (fst s) \<and> int (length (ca_entries (fst s))) \<le> ca_max (fst s) \<and> distinct (map fst (ca_entries (fst s))) \<and>
     list_all (\<lambda>e. fst e \<noteq> [] \<and> dials (fst e) (fst (snd e))) (ca_entries (fst s)) \<and> list_all (\<lambda>k. k \<noteq> []) (snd s)"

lemma touch_fst [simp]: "map fst (touch key now es) = map fst es"
  by (induction es) (auto simp: touch_def)

lemma touch_all: "list_all (\<lambda>e. P (fst e) (fst (snd e))) (touch key now es) \<longleftrightarrow> list_all (\<lambda>e. P (fst e) (fst (snd e))) es"
  by (induction es) (auto simp: touch_def)

lemma touch_map_of: "map_of (touch key now es) key = map_option (\<lambda>(x, t). (x, now)) (map_of es key)"
  by (induction es) (auto simp: touch_def)

lemma touch_length [simp]: "length (touch key now es) = length es"
  by (simp add: touch_def)

lemma cache_hit_ok:
  assumes "cache_ok dials (c, ks)" "cache_hit key now c = Some (conn, c')"
  shows "cache_ok dials (c', ks) \<and> dials key conn"
proof -
  obtain t where m: "map_of (ca_entries c) key = Some (conn, t)" and c': "c' = c\<lparr>ca_entries := touch key now (ca_entries c)\<rparr>"
    using assms(2) by (auto simp: cache_hit_def split: option.splits)
  have "dials key conn" using map_of_SomeD [OF m] assms(1) by (auto simp: cache_ok_def list_all_iff)
  then show ?thesis using assms(1) unfolding c'
    by (simp add: cache_ok_def touch_all [where P = "\<lambda>k x. k \<noteq> [] \<and> dials k x"])
qed

lemma oldest_loop_in:
  "list_all (\<lambda>e. fst e \<noteq> []) es \<Longrightarrow> es \<noteq> [] \<or> oldest \<noteq> [] \<Longrightarrow> oldest_loop es oldest t \<in> set (map fst es) \<union> {oldest} - {[]}"
proof (induction es oldest t rule: oldest_loop.induct)
  case (2 k x s es oldest t)
  show ?case
  proof (cases "oldest = [] \<or> s < t")
    case True
    then have "oldest_loop es k s \<in> set (map fst es) \<union> {k} - {[]}" using 2 by simp
    with True show ?thesis by auto
  next
    case False
    then have "oldest_loop es oldest t \<in> set (map fst es) \<union> {oldest} - {[]}" using 2 by simp
    with False show ?thesis by auto
  qed
qed auto

lemma evict_length:
  assumes "list_all (\<lambda>e. fst e \<noteq> []) es" "es \<noteq> []"
  shows "length (filter (\<lambda>e. fst e \<noteq> oldest_loop es [] 0) es) < length es"
proof -
  have "oldest_loop es [] 0 \<in> set (map fst es)" using oldest_loop_in [OF assms(1), of "[]" 0] assms(2) by auto
  then obtain e where "e \<in> set es" "fst e = oldest_loop es [] 0" by auto
  then show ?thesis by (intro length_filter_less [of e]) auto
qed

lemma cache_store_ok:
  assumes "cache_ok dials (c, ks)" "key \<noteq> []" "dials key conn" "cache_store key conn now c = (x, c')"
  shows "cache_ok dials (c', ks) \<and> dials key x"
proof (cases "map_of (ca_entries c) key")
  case (Some y)
  with assms have "c' = c" "(key, x, snd y) \<in> set (ca_entries c)"
    by (cases y, auto simp: cache_store_def dest: map_of_SomeD)+
  then show ?thesis using assms(1) by (auto simp: cache_ok_def list_all_iff)
next
  case None
  let ?es = "if int (length (ca_entries c)) \<ge> ca_max c
      then filter (\<lambda>e. fst e \<noteq> oldest_loop (ca_entries c) [] 0) (ca_entries c) else ca_entries c"
  have x: "x = conn" and e: "ca_entries c' = (key, conn, now) # ?es" and m: "ca_max c' = ca_max c"
    using assms(4) None by (auto simp: cache_store_def Let_def)
  have sub: "set ?es \<subseteq> set (ca_entries c)" by auto
  have "key \<notin> fst ` set (ca_entries c)" using None by (simp add: map_of_eq_None_iff)
  then have k: "key \<notin> fst ` set ?es" using sub by auto
  have d: "distinct (map fst ?es)" using assms(1) by (simp add: cache_ok_def distinct_map_filter)
  have "list_all (\<lambda>e. fst e \<noteq> []) (ca_entries c)" using assms(1) by (auto simp: cache_ok_def list_all_iff)
  then have "int (length ?es) < ca_max c"
    using assms(1) evict_length [of "ca_entries c"] by (cases "ca_entries c") (auto simp: cache_ok_def)
  with x e m k d sub assms show ?thesis by (auto simp: cache_ok_def list_all_iff)
qed

lemma cache_step_ok: "cache_step dials s s' \<Longrightarrow> cache_ok dials s \<Longrightarrow> cache_ok dials s'"
proof (induction rule: cache_step.induct)
  case (hit key now c conn c' ks)
  then show ?case using cache_hit_ok [of dials c ks key now conn c'] by simp
next
  case (miss key now c ks)
  then show ?case by (simp add: cache_ok_def)
next
  case (dial_failed key ks c)
  then show ?case by (auto simp: cache_ok_def list_all_iff dest: notin_set_remove1)
next
  case (stored key ks conn now c x c')
  then have "key \<noteq> []" by (auto simp: cache_ok_def list_all_iff)
  with stored have "cache_ok dials (c', ks)" using cache_store_ok [of dials c ks key conn now x c'] by simp
  then show ?case by (auto simp: cache_ok_def list_all_iff dest: notin_set_remove1)
qed

text \<open>C29: whatever the interleaving of callers, the cache never exceeds its bound, holds each key once, and serves under a key only a connection
  that was dialled for that key.\<close>

theorem Cache_reachable_ok:
  assumes "(cache_step dials)\<^sup>*\<^sup>* (NewCache m, []) (c, ks)"
  shows "int (length (ca_entries c)) \<le> ca_max c \<and> distinct (map fst (ca_entries c)) \<and>
    (\<forall>key now conn c'. cache_hit key now c = Some (conn, c') \<longrightarrow> dials key conn)"
proof -
  have "cache_ok dials (NewCache m, [])" by (simp add: cache_ok_def NewCache_def)
  with assms have ok: "cache_ok dials (c, ks)"
    by (induction rule: rtranclp_induct) (auto intro: cache_step_ok)
  have "dials key conn" if "cache_hit key now c = Some (conn, c')" for key now conn c'
    using cache_hit_ok [OF ok that] by simp
  with ok show ?thesis by (simp add: cache_ok_def)
qed

text \<open>a call that is alone serves the cached connection, or the one it dialled, which the next call for the key then finds.\<close>

theorem Get_then_hit:
  assumes "Get key dialled now later c = (Inr conn, c')" "cache_ok dials (c, [])" "key \<noteq> []" "\<forall>x. dialled = Inr x \<longrightarrow> dials key x"
  shows "dials key conn \<and> (\<exists>c''. cache_hit key t c' = Some (conn, c''))"
proof (cases "cache_hit key now c")
  case None
  then obtain x where x: "dialled = Inr x" "cache_store key x later c = (conn, c')"
    using assms(1) by (auto simp: Get_def split: sum.splits prod.splits)
  moreover have "map_of (ca_entries c) key = None" using None by (simp add: cache_hit_def split: option.splits prod.splits)
  ultimately show ?thesis using assms(4) by (auto simp: cache_store_def cache_hit_def Let_def)
next
  case (Some y)
  then have h: "cache_hit key now c = Some (conn, c')" using assms(1) by (cases y) (simp add: Get_def)
  then have "\<exists>c''. cache_hit key t c' = Some (conn, c'')"
    by (auto simp: cache_hit_def touch_map_of split: option.splits)
  then show ?thesis using cache_hit_ok [OF assms(2) h] by simp
qed

end
