(* ===== verification/Cosi_Driver.thy ===== *)
theory Cosi_Driver
  imports Cosi_Policy Buckets Users_Keys Quotas Files_Acl Tree_Delete Core_Version Status_Map Config_Class Conn_Cache
begin

text \<open>
  \<^verbatim>\<open>internal/driver/driver.go\<close>: the four calls of the COSI driver (create, delete, grant, revoke) as programs over the operations of the other
  theories, every call that changes state included.  A call returns its response or an error that carries a gRPC status.  Logging and metrics are left out.
\<close>

section \<open>The driver\<close>

text \<open>\<open>d_conn\<close> is the part of a connection the network decides: the behaviour of the cluster behind the dialled address, for the connection cached
  under a key.  \<open>d_cleanup\<close> is the state of the fresh context of thirty seconds under which a failed grant cleans up.\<close>

record 'v CosiDriver =
  d_cfg :: Driver
  d_proc :: process
  d_pem_ok :: "string \<Rightarrow> bool"
  d_conn :: "string \<Rightarrow> Connection"
  d_sv :: "'v semver"
  d_cleanup :: "event list \<Rightarrow> ctx_err option"

datatype auth_type = AuthKey | AuthIAM | AuthOther

record BucketResponse =
  br_BucketId :: string
  br_Region :: string

record GrantResponse =
  gr_AccountId :: string
  gr_Credentials :: "(string \<times> string) list"

definition as_status :: "'a io \<Rightarrow> 'a io" where
  "as_status m = do { r \<leftarrow> m; ret (case r of Inl e \<Rightarrow> Inl (toStatus e) | Inr x \<Rightarrow> Inr x) }"

definition sameClusterEndpoint :: "string \<Rightarrow> string \<Rightarrow> string \<Rightarrow> string \<Rightarrow> bool" where
  "sameClusterEndpoint got gotDefaultPort want wantPort \<longleftrightarrow>
     (case (HostPort got gotDefaultPort, HostPort want wantPort) of
        ((gotHost, gotPort), (wantHost, resolvedWantPort)) \<Rightarrow>
          EqualFold (TrimSuffix gotHost ''.'') (TrimSuffix wantHost ''.'') \<and> gotPort = resolvedWantPort)"

definition bindClassToDriverEndpoint :: "'v CosiDriver \<Rightarrow> Class \<Rightarrow> Class res" where
  "bindClassToDriverEndpoint d class =
     (let configuredEndpoint = TrimSpace (dr_DefaultEndpoint (d_cfg d));
          configuredPort = or_default (TrimSpace (dr_DefaultRESTPort (d_cfg d))) DefaultRESTPort
      in if configuredEndpoint = []
         then Inl (EStatus FailedPrecondition ''QUMULO_ENDPOINT must be configured on the driver; per-class cluster selection is disabled'')
         else if \<not> sameClusterEndpoint (cl_Endpoint class) (cl_RESTPort class) configuredEndpoint configuredPort
         then Inl (EStatus InvalidArgument (''class endpoint '' @ fmt_q (cl_Endpoint class) @ '':'' @ cl_RESTPort class
                @ '' does not match the driver-bound endpoint '' @ fmt_q configuredEndpoint @ '':'' @ configuredPort))
         else Inr class)"

definition classFrom :: "'v CosiDriver \<Rightarrow> params \<Rightarrow> Class res" where
  "classFrom d ps = and_then (ParseClass ps (d_cfg d)) (bindClassToDriverEndpoint d)"

definition classFromCleanup :: "'v CosiDriver \<Rightarrow> params \<Rightarrow> Class res" where
  "classFromCleanup d ps = and_then (ParseClassForCleanup ps (d_cfg d)) (bindClassToDriverEndpoint d)"

definition bindClassToBucketID :: "Class \<Rightarrow> BucketID \<Rightarrow> Class res" where
  "bindClassToBucketID class bid =
     (let class = (if cl_Endpoint class = [] then class\<lparr>cl_Endpoint := bid_Endpoint bid\<rparr> else class);
          class = (if cl_RESTPort class = [] then class\<lparr>cl_RESTPort := bid_RESTPort bid\<rparr> else class)
      in if \<not> sameClusterEndpoint (cl_Endpoint class) (cl_RESTPort class) (bid_Endpoint bid) (bid_RESTPort bid)
         then Inl (EStatus InvalidArgument (''class endpoint '' @ fmt_q (cl_Endpoint class) @ '':'' @ cl_RESTPort class
                @ '' does not match bucket_id endpoint '' @ fmt_q (bid_Endpoint bid) @ '':'' @ bid_RESTPort bid))
         else Inr class)"

definition class_DialConfig :: "Class \<Rightarrow> Credentials \<Rightarrow> string \<Rightarrow> DialConfig" where
  "class_DialConfig class creds ca =
     \<lparr>dc_Endpoint = cl_Endpoint class, dc_RESTPort = cl_RESTPort class, dc_Credentials = creds,
      dc_InsecureSkipVerify = cl_InsecureSkipTLSVerify class, dc_CABundlePEM = ca, dc_ServerName = [], dc_UserAgent = []\<rparr>"

text \<open>The connection of \<open>connect\<close>: a cached connection was dialled from the same configuration, which the key fingerprints, so hit and miss give
  the same address and credentials.\<close>

definition connection_for :: "'v CosiDriver \<Rightarrow> Class \<Rightarrow> Connection res" where
  "connection_for d class =
     (if cl_Endpoint class = []
      then Inl (EStatus InvalidArgument ''no Qumulo endpoint: set BucketClass parameters.endpoint or QUMULO_ENDPOINT'')
      else case ResolveCredentials (d_proc d) class (d_cfg d) of
          Inl err \<Rightarrow> Inl (EStatus Unauthenticated (error_text err))
        | Inr (creds, ca) \<Rightarrow>
           (let key = CacheKey (cl_Endpoint class) (cl_RESTPort class) creds ca (cl_InsecureSkipTLSVerify class)
            in case NewConnection (d_pem_ok d) (class_DialConfig class creds ca) of
                 Inl err \<Rightarrow> Inl err
               | Inr dl \<Rightarrow> Inr ((d_conn d key)\<lparr>c_creds := dl_Creds dl, c_host := host_Hostname (dl_Host dl), c_port := host_Port (dl_Host dl),
                                           c_base_url := dl_Scheme dl @ ''://'' @ dl_Host dl\<rparr>)))"

text \<open>\<open>connect\<close> followed by the rest of a call on the connection.\<close>

definition with_connection :: "'v CosiDriver \<Rightarrow> Class \<Rightarrow> (Connection \<Rightarrow> 'a io) \<Rightarrow> 'a io" where
  "with_connection d class k =
     (case connection_for d class of
        Inl err \<Rightarrow> fail (toStatus err)
      | Inr c \<Rightarrow>
          andThen (as_status (andThen (EnsureVersion (d_sv d) c (dr_VersionFloor (d_cfg d))) (\<lambda>_. RequireS3Enabled c))) (\<lambda>_. k c))"

definition pathsMatch :: "string \<Rightarrow> string \<Rightarrow> bool" where
  "pathsMatch a b \<longleftrightarrow> TrimRight a ''/'' = TrimRight b ''/''"

section \<open>Create\<close>

definition deny_by_default :: "Policy \<Rightarrow> Policy res" where
  "deny_by_default p = (if p_Statement p \<noteq> [] then Inl (ESentinel ErrPolicyUnchanged) else Inr EmptyPolicy)"

definition applyQuota :: "Connection \<Rightarrow> string \<Rightarrow> int \<Rightarrow> unit io" where
  "applyQuota c pth limit =
     andThen (wrap ''lookup bucket root for quota: '' (GetFileAttributes c pth)) (\<lambda>attrs.
       wrap ''set quota: '' (CreateQuota c (fa_ID attrs) limit))"

definition ensureBucketConfig :: "Connection \<Rightarrow> Class \<Rightarrow> string \<Rightarrow> Bucket \<Rightarrow> string \<Rightarrow> unit io" where
  "ensureBucketConfig c class name current expectedPath =
     andThen (wrap ''assert deny-by-default bucket policy: '' (MutateBucketPolicy c name deny_by_default)) (\<lambda>_.
     andThen (if cl_Versioning class \<in> set [''Enabled'', ''Suspended''] \<and> b_Versioning current \<noteq> cl_Versioning class
              then andThen (wrap (''apply versioning '' @ cl_Versioning class @ '': '')
                     (PatchBucket c name \<lparr>pb_Versioning = Some (cl_Versioning class), pb_LockConfig = None, pb_AnonymousAccessEnabled = None\<rparr>)) (\<lambda>_. ok ())
              else ok ()) (\<lambda>_.
     andThen (if cl_ObjectLockEnabled class \<and> \<not> lk_Enabled (b_LockConfig current)
              then andThen (wrap ''apply object lock: ''
                     (PatchBucket c name \<lparr>pb_Versioning = None, pb_LockConfig = Some \<lparr>lk_Enabled = True, lk_DefaultRetention = None\<rparr>,
                                         pb_AnonymousAccessEnabled = None\<rparr>)) (\<lambda>_. ok ())
              else ok ()) (\<lambda>_.
     if cl_QuotaLimit class > 0
     then applyQuota c (if b_Path current = [] then expectedPath else b_Path current) (cl_QuotaLimit class)
     else ok ())))"

definition bucket_response :: "Connection \<Rightarrow> Class \<Rightarrow> string \<Rightarrow> string \<Rightarrow> string \<Rightarrow> bool \<Rightarrow> BucketResponse" where
  "bucket_response c class name root fileID managed =
     \<lparr>br_BucketId = BucketID_String \<lparr>bid_Endpoint = c_host c, bid_RESTPort = c_port c, bid_BucketName = name, bid_RootPath = root,
                                   bid_RootFileID = fileID, bid_Managed = managed\<rparr>,
      br_Region = cl_Region class\<rparr>"

definition createOK :: "Connection \<Rightarrow> Class \<Rightarrow> string \<Rightarrow> Bucket \<Rightarrow> BucketResponse io" where
  "createOK c class name current =
     andThen (if b_Path current = []
              then andThen (as_status (wrap ''resolve bucket root for durable bucket id: '' (GetBucket c name))) (\<lambda>b. ok (b_Path b))
              else ok (b_Path current)) (\<lambda>root.
       if root = [] then fail (EStatus Internal (''bucket '' @ fmt_q name @ '' has an empty filesystem root''))
       else
         andThen (as_status (wrap ''resolve bucket root identity for durable bucket id: '' (GetFileAttributes c root))) (\<lambda>attrs.
           if fa_ID attrs = [] then fail (EStatus Internal (''bucket '' @ fmt_q name @ '' root '' @ fmt_q root @ '' has an empty file id''))
           else ok (bucket_response c class name root (fa_ID attrs) True)))"

definition create_finish :: "Connection \<Rightarrow> Class \<Rightarrow> string \<Rightarrow> Bucket \<Rightarrow> string \<Rightarrow> BucketResponse io" where
  "create_finish c class name b wantPath =
     andThen (as_status (ensureBucketConfig c class name b wantPath)) (\<lambda>_. createOK c class name b)"

text \<open>A create that lost to a conflict: adopt the bucket if it is at the wanted path.\<close>

definition create_conflict :: "Connection \<Rightarrow> Class \<Rightarrow> string \<Rightarrow> string \<Rightarrow> string \<Rightarrow> BucketResponse io" where
  "create_conflict c class name wantPath what = do {
     g \<leftarrow> GetBucket c name;
     case g of
       Inl gerr \<Rightarrow> fail (toStatus (EWrap (what @ fmt_q name @ '' after create conflict: '') gerr []))
     | Inr again \<Rightarrow>
         if pathsMatch (b_Path again) wantPath then create_finish c class name again wantPath
         else fail (EStatus AlreadyExists (''bucket '' @ fmt_q name @ '' already exists with a different path'')) }"

definition lockDownLegacy :: "Connection \<Rightarrow> string \<Rightarrow> unit io" where
  "lockDownLegacy c bucket = PutBucketPolicy c bucket EmptyPolicy []"

definition create_request :: "Class \<Rightarrow> string \<Rightarrow> string \<Rightarrow> CreateBucketRequest" where
  "create_request class name wantPath =
     \<lparr>cb_Name = name, cb_Path = wantPath, cb_CreateFSPath = Some True,
      cb_ObjectLockEnabled = (if cl_ObjectLockEnabled class then Some True else None), cb_Private = Some True\<rparr>"

definition create_fresh :: "Connection \<Rightarrow> Class \<Rightarrow> string \<Rightarrow> Bucket \<Rightarrow> string \<Rightarrow> BucketResponse io" where
  "create_fresh c class name created wantPath =
     create_finish c class (if b_Name created \<noteq> [] then b_Name created else name) created wantPath"

definition create_new :: "Connection \<Rightarrow> Class \<Rightarrow> string \<Rightarrow> string \<Rightarrow> BucketResponse io" where
  "create_new c class name wantPath = do {
     let creq = create_request class name wantPath;
     r \<leftarrow> CreateBucket c creq;
     case r of
       Inr created \<Rightarrow> create_fresh c class name created wantPath
     | Inl err \<Rightarrow>
         if alreadyExists err then create_conflict c class name wantPath ''reconcile bucket ''
         else if classPrivateUnsupported err then do {
           r2 \<leftarrow> CreateBucket c (creq\<lparr>cb_Private := None\<rparr>);
           case r2 of
             Inl err2 \<Rightarrow>
               if alreadyExists err2 then create_conflict c class name wantPath ''reconcile legacy bucket ''
               else fail (toStatus err2)
           | Inr created \<Rightarrow>
               andThen (as_status (wrap ''apply deny-by-default policy on legacy Core: '' (lockDownLegacy c name))) (\<lambda>_.
                 create_fresh c class name created wantPath) }
         else fail (toStatus err) }"

definition needed_features :: "Class \<Rightarrow> string list" where
  "needed_features class =
     (if cl_ObjectLockEnabled class then [FeatureObjectLock, FeatureVersioning]
      else if cl_Versioning class \<in> set [''Enabled'', ''Suspended''] then [FeatureVersioning] else [])"

fun check_features :: "'v semver \<Rightarrow> string \<Rightarrow> string list \<Rightarrow> unit res" where
  "check_features sv ver [] = Inr ()"
| "check_features sv ver (feat # fs) =
     (case Supports sv ver feat of
        Inl e \<Rightarrow> Inl e
      | Inr (supported, minv) \<Rightarrow>
          if supported then check_features sv ver fs
          else Inl (EMsg (''class requests '' @ feat @ '', which requires Qumulo Core '' @ minv @ '' (cluster is '' @ ver @ '')'')))"

definition ensureFeatures :: "'v CosiDriver \<Rightarrow> Connection \<Rightarrow> Class \<Rightarrow> unit io" where
  "ensureFeatures d c class = andThen (Version c) (\<lambda>rev. lift_res (check_features (d_sv d) rev (needed_features class)))"

definition importExistingBucket :: "Connection \<Rightarrow> Class \<Rightarrow> BucketResponse io" where
  "importExistingBucket c class =
     (let name = cl_ExistingBucketName class
      in andThen (as_status (lift_res (ValidateBucketName name))) (\<lambda>_. do {
        g \<leftarrow> GetBucket c name;
        case g of
          Inl err \<Rightarrow>
            if notFound err
            then fail (EStatus NotFound (''existingBucketName '' @ fmt_q name @ '' not found on cluster '' @ cl_Endpoint class))
            else fail (toStatus err)
        | Inr b \<Rightarrow>
            if b_Path b = [] then fail (EStatus FailedPrecondition (''existing bucket '' @ fmt_q name @ '' has no filesystem root''))
            else
              andThen (as_status (wrap ''resolve imported bucket root identity: '' (GetFileAttributes c (b_Path b)))) (\<lambda>attrs.
                if fa_ID attrs = []
                then fail (EStatus Internal (''imported bucket '' @ fmt_q name @ '' root '' @ fmt_q (b_Path b) @ '' has an empty file id''))
                else ok (bucket_response c class name (b_Path b) (fa_ID attrs) False)) }))"

text \<open>The create after the class is known and the connection is up.\<close>

definition create_bucket :: "'v CosiDriver \<Rightarrow> Connection \<Rightarrow> Class \<Rightarrow> string \<Rightarrow> BucketResponse io" where
  "create_bucket d c class input =
     (if cl_ExistingBucketName class \<noteq> [] then importExistingBucket c class
      else
        andThen (as_status (lift_res (BucketName (cl_BucketPrefix class) input))) (\<lambda>name.
        andThen (as_status (ensureFeatures d c class)) (\<lambda>_. do {
          let wantPath = RootPath (cl_BasePath class) name;
          g \<leftarrow> GetBucket c name;
          case g of
            Inr existing \<Rightarrow>
              if pathsMatch (b_Path existing) wantPath then create_finish c class name existing wantPath
              else fail (EStatus AlreadyExists (''bucket '' @ fmt_q name @ '' already exists at path '' @ fmt_q (b_Path existing)
                    @ '', expected '' @ fmt_q wantPath))
          | Inl gerr \<Rightarrow>
              if \<not> notFound gerr then fail (toStatus gerr)
              else create_new c class name wantPath })))"

definition DriverCreateBucket :: "'v CosiDriver \<Rightarrow> string \<Rightarrow> params \<Rightarrow> BucketResponse io" where
  "DriverCreateBucket d name ps =
     (if name = [] then fail (EStatus InvalidArgument ''bucket name is required'')
      else case classFrom d ps of
          Inl err \<Rightarrow> fail (toStatus err)
        | Inr class \<Rightarrow> with_connection d class (\<lambda>c. create_bucket d c class name))"

section \<open>What the shared steps send\<close>

lemma sends_as_status [io_rules]: "evs P m \<Longrightarrow> evs P (as_status m)"
  unfolding as_status_def by (intro io_rules)

lemma emits_as_status: "emits m (on_ok P) \<Longrightarrow> emits (as_status m) (on_ok P)"
  unfolding as_status_def by (rule emits_bind, assumption, rule emits_ret) (simp add: on_ok_def split: sum.split)

lemma sends_with_connection: "reads R \<Longrightarrow> (\<And>c. sends R (k c)) \<Longrightarrow> sends R (with_connection d class k)"
  unfolding with_connection_def by (intro io_rules sends_EnsureVersion sends_RequireS3Enabled)

text \<open>The calls made while a connection is set up only read.\<close>

lemma emits_with_connection:
  assumes "grows G" "\<And>rq. D rq \<Longrightarrow> rq_method rq \<noteq> ''GET''" "\<And>c. emits (k c) (\<lambda>es r. guarded G D es)" "\<And>c. sends (\<lambda>_. True) (k c)"
  shows "emits (with_connection d class k) (\<lambda>es r. guarded G D es)"
proof -
  have r: "reads (\<lambda>rq. \<not> D rq)" using assms(2) by (auto simp: reads_def)
  have pre: "sends (\<lambda>rq. \<not> D rq) (as_status (andThen (EnsureVersion (d_sv d) c (dr_VersionFloor (d_cfg d))) (\<lambda>_. RequireS3Enabled c)))" for c
    by (intro io_rules sends_EnsureVersion sends_RequireS3Enabled r)
  have "emits (as_status (andThen (EnsureVersion (d_sv d) c (dr_VersionFloor (d_cfg d))) (\<lambda>_. RequireS3Enabled c))) (on_ok (\<lambda>_ _. True))" for c
    using pre [of c] unfolding evs_def by (rule emits_weaken) (simp add: on_ok_def)
  then show ?thesis
    unfolding with_connection_def using assms
    by (intro emits_case_sum guards_andThen [OF assms(1) pre]) (auto simp: guarded_def intro: emits_ret)
qed

lemma reads_True [simp]: "reads (\<lambda>_. True)"
  by (simp add: reads_def)

end
