(* ===== verification/Cosi_Delete.thy ===== *)
theory Cosi_Delete
  imports Cosi_Driver
begin

text \<open>
  \<open>DriverDeleteBucket\<close> of \<^verbatim>\<open>internal/driver/driver.go\<close>: the three ways a delete goes (a handle without a recorded root, a purge, a plain
  unregister) and the safety of each: what it may send at all, what must have been verified before it sends it, and what success means.
\<close>

section \<open>The operation\<close>

text \<open>\<open>if err := m; err != nil && !notFound(err) { return nil, toStatus(f err) }\<close>\<close>

definition tolerate :: "(go_error \<Rightarrow> go_error) \<Rightarrow> 'a io \<Rightarrow> unit io" where
  "tolerate f m = do {
     r \<leftarrow> m;
     case r of
       Inl err \<Rightarrow> if notFound err then ok () else fail (toStatus (f err))
     | Inr _ \<Rightarrow> ok () }"

definition validatePurgeRoot :: "string \<Rightarrow> unit res" where
  "validatePurgeRoot root =
     (if TrimRight root ''/'' = []
      then Inl (EStatus FailedPrecondition (''refusing purgeOnDelete: bucket root '' @ fmt_q root @ '' is the filesystem root''))
      else if \<not> HasPrefix root ''/''
      then Inl (EStatus FailedPrecondition (''refusing purgeOnDelete: bucket root '' @ fmt_q root @ '' is not an absolute filesystem path''))
      else Inr ())"

definition refuse :: "string \<Rightarrow> string \<Rightarrow> string \<Rightarrow> string \<Rightarrow> string \<Rightarrow> go_error" where
  "refuse what name live recorded tail_text =
     EStatus FailedPrecondition (''refusing '' @ what @ '' for bucket '' @ fmt_q name @ '': '' @ live @ tail_text @ recorded)"

definition delete_legacy :: "Connection \<Rightarrow> string \<Rightarrow> unit io" where
  "delete_legacy c name = do {
     g \<leftarrow> GetBucket c name;
     case g of
       Inl gerr \<Rightarrow> if notFound gerr then ok () else fail (toStatus gerr)
     | Inr _ \<Rightarrow> tolerate (\<lambda>e. e) (DeleteBucket c name False) }"

definition purge_resume :: "Connection \<Rightarrow> BucketID \<Rightarrow> unit io" where
  "purge_resume c i =
     andThen (lift_res (validatePurgeRoot (bid_RootPath i))) (\<lambda>_. do {
       a \<leftarrow> GetFileAttributes c (bid_RootPath i);
       case a of
         Inl aerr \<Rightarrow> if notFound aerr then ok () else fail (toStatus aerr)
       | Inr attrs \<Rightarrow>
           if fa_ID attrs \<noteq> bid_RootFileID i
           then fail (refuse ''resumed purge'' (bid_BucketName i) (''root '' @ fmt_q (bid_RootPath i) @ '' now has file id '' @ fmt_q (fa_ID attrs))
                    (fmt_q (bid_RootFileID i)) '', expected '')
           else as_status (TreeDelete c (bid_RootFileID i)) })"

definition purge_live :: "Connection \<Rightarrow> BucketID \<Rightarrow> Bucket \<Rightarrow> unit io" where
  "purge_live c i b =
     (let root = b_Path b; name = bid_BucketName i
      in andThen (lift_res (validatePurgeRoot root)) (\<lambda>_.
        if bid_RootPath i \<noteq> [] \<and> \<not> pathsMatch root (bid_RootPath i)
        then fail (refuse ''purge'' name (''live root '' @ fmt_q root) (fmt_q (bid_RootPath i)) '' differs from recorded root '')
        else do {
          a \<leftarrow> GetFileAttributes c root;
          case a of
            Inl aerr \<Rightarrow>
              if notFound aerr then tolerate (\<lambda>e. e) (DeleteBucket c name False) else fail (toStatus aerr)
          | Inr attrs \<Rightarrow>
              if bid_RootFileID i \<noteq> [] \<and> fa_ID attrs \<noteq> bid_RootFileID i
              then fail (refuse ''purge'' name (''live root file id '' @ fmt_q (fa_ID attrs)) (fmt_q (bid_RootFileID i)) '' differs from recorded id '')
              else andThen (tolerate (\<lambda>e. e) (DeleteBucket c name False)) (\<lambda>_. as_status (TreeDelete c (fa_ID attrs))) }))"

definition delete_purge :: "Connection \<Rightarrow> BucketID \<Rightarrow> unit io" where
  "delete_purge c i = do {
     g \<leftarrow> GetBucket c (bid_BucketName i);
     case g of
       Inl gerr \<Rightarrow> if notFound gerr then purge_resume c i else fail (toStatus gerr)
     | Inr b \<Rightarrow> purge_live c i b }"

text \<open>The second try after the uploads are gone; it tells whether the bucket is gone too.\<close>

definition delete_retry :: "Connection \<Rightarrow> string \<Rightarrow> bool prog" where
  "delete_retry c name = do {
     a \<leftarrow> AbortAllUploads c name;
     case a of
       Inl _ \<Rightarrow> ret False
     | Inr _ \<Rightarrow> do { r \<leftarrow> DeleteBucket c name True; ret (case r of Inr _ \<Rightarrow> True | Inl rerr \<Rightarrow> notFound rerr) } }"

definition delete_verified :: "Connection \<Rightarrow> string \<Rightarrow> bool \<Rightarrow> unit io" where
  "delete_verified c name deleteRootDir = do {
     _ \<leftarrow> (if deleteRootDir then do { _ \<leftarrow> AbortAllUploads c name; ret () } else ret ());
     r \<leftarrow> DeleteBucket c name deleteRootDir;
     case r of
       Inr _ \<Rightarrow> ok ()
     | Inl err \<Rightarrow>
         if notFound err then ok ()
         else case AsAPIError err of
             None \<Rightarrow> fail (toStatus err)
           | Some api \<Rightarrow>
               if \<not> IsNotEmpty api then fail (toStatus err)
               else do {
                 again \<leftarrow> (if deleteRootDir then delete_retry c name else ret False);
                 if again then ok ()
                 else fail (EStatus FailedPrecondition (''bucket '' @ fmt_q name
                   @ '' root is not empty (or has in-progress uploads). Empty the bucket or set purgeOnDelete=true on the BucketClass. (''
                   @ api_Error api @ '')'')) } }"

definition delete_plain :: "Connection \<Rightarrow> BucketID \<Rightarrow> bool \<Rightarrow> unit io" where
  "delete_plain c i deleteRootDir = do {
     g \<leftarrow> GetBucket c (bid_BucketName i);
     case g of
       Inl gerr \<Rightarrow> if notFound gerr then ok () else fail (toStatus gerr)
     | Inr b \<Rightarrow>
         if \<not> pathsMatch (b_Path b) (bid_RootPath i)
         then fail (refuse ''delete'' (bid_BucketName i) (''live root '' @ fmt_q (b_Path b)) (fmt_q (bid_RootPath i)) '' differs from recorded root '')
         else
           andThen (as_status (wrap ''verify bucket root identity before delete: '' (GetFileAttributes c (b_Path b)))) (\<lambda>attrs.
             if fa_ID attrs \<noteq> bid_RootFileID i
             then fail (refuse ''delete'' (bid_BucketName i) (''live root file id '' @ fmt_q (fa_ID attrs)) (fmt_q (bid_RootFileID i))
                      '' differs from recorded id '')
             else delete_verified c (bid_BucketName i) deleteRootDir) }"

definition delete_bucket :: "Connection \<Rightarrow> BucketID \<Rightarrow> bool \<Rightarrow> bool \<Rightarrow> unit io" where
  "delete_bucket c i deleteRootDir purgeOnDelete =
     (if bid_RootPath i = [] \<or> bid_RootFileID i = [] then delete_legacy c (bid_BucketName i)
      else if purgeOnDelete then delete_purge c i
      else delete_plain c i deleteRootDir)"

definition DriverDeleteBucket :: "'v CosiDriver \<Rightarrow> string \<Rightarrow> params \<Rightarrow> unit io" where
  "DriverDeleteBucket d bucketID deleteContext =
     (if bucketID = [] then fail (EStatus InvalidArgument ''bucket_id is required'')
      else case ParseBucketID bucketID of
          Inl err \<Rightarrow> fail (EStatus InvalidArgument (error_text err))
        | Inr i \<Rightarrow>
           (case classFromCleanup d deleteContext of
              Inl err \<Rightarrow> fail (toStatus err)
            | Inr class0 \<Rightarrow>
               (case bindClassToBucketID class0 i of
                  Inl err \<Rightarrow> fail err
                | Inr class \<Rightarrow>
                    with_connection d class (\<lambda>c.
                      delete_bucket c i (cl_DeleteRootDir class \<and> bid_Managed i) (cl_PurgeOnDelete class \<and> bid_Managed i)))))"

section \<open>What a delete sends\<close>

lemma sends_tolerate [io_rules]: "evs P m \<Longrightarrow> evs P (tolerate f m)"
  unfolding tolerate_def by (intro io_rules)

lemma sends_DeleteDriver:
  assumes "\<And>c drd pod. drd \<or> pod \<longrightarrow> bid_Managed i \<Longrightarrow> sends R (delete_bucket c i drd pod)"
    and "reads R" "ParseBucketID bucketID = Inr i"
  shows "sends R (DriverDeleteBucket d bucketID ps)"
  unfolding DriverDeleteBucket_def
  by (rule sends_if, rule sends_ret)
    (use assms in \<open>auto intro!: io_rules sends_with_connection split: sum.split\<close>)

lemma sends_delete_legacy: "reads R \<Longrightarrow> R (bucket_delete name False) \<Longrightarrow> sends R (delete_legacy c name)"
  unfolding delete_legacy_def by (intro io_rules sends_GetBucket sends_DeleteBucket)

lemma sends_delete_retry: "reads R \<Longrightarrow> R (bucket_delete name True) \<Longrightarrow> (\<And>u. R (upload_delete name u)) \<Longrightarrow> sends R (delete_retry c name)"
  unfolding delete_retry_def by (intro io_rules sends_AbortAllUploads sends_DeleteBucket)

lemma sends_delete_verified:
  assumes "reads R" "R (bucket_delete name drd)" "drd \<Longrightarrow> (\<And>u. R (upload_delete name u))"
  shows "sends R (delete_verified c name drd)"
  unfolding delete_verified_def using assms
  by (intro io_rules sends_AbortAllUploads sends_delete_retry sends_DeleteBucket) simp_all

lemma sends_delete_plain:
  assumes "reads R" "R (bucket_delete (bid_BucketName i) drd)" "drd \<Longrightarrow> (\<And>u. R (upload_delete (bid_BucketName i) u))"
  shows "sends R (delete_plain c i drd)"
  unfolding delete_plain_def using assms
  by (intro io_rules sends_GetBucket sends_GetFileAttributes sends_delete_verified) simp_all

lemma sends_purge_resume: "reads R \<Longrightarrow> R (job_post (bid_RootFileID i)) \<Longrightarrow> sends R (purge_resume c i)"
  unfolding purge_resume_def by (intro io_rules sends_GetFileAttributes sends_TreeDelete)

lemma sends_purge_live:
  assumes "reads R" "R (bucket_delete (bid_BucketName i) False)" "R (job_post (bid_RootFileID i))" "bid_RootFileID i \<noteq> []"
  shows "sends R (purge_live c i b)"
  unfolding purge_live_def Let_def using assms
  by (intro io_rules sends_GetFileAttributes sends_DeleteBucket sends_TreeDelete) simp_all

lemma sends_delete_purge:
  assumes "reads R" "R (bucket_delete (bid_BucketName i) False)" "R (job_post (bid_RootFileID i))" "bid_RootFileID i \<noteq> []"
  shows "sends R (delete_purge c i)"
  unfolding delete_purge_def using assms by (intro io_rules sends_GetBucket sends_purge_resume sends_purge_live)

text \<open>C2: A handle that does not prove the driver made the directory: the delete only reads and unregisters the bucket, keeping its
  directory; it starts no tree-delete, sets no \<^verbatim>\<open>delete-root-dir=true\<close> and aborts no upload, whatever the parameters replayed to it.\<close>

theorem DriverDeleteBucket_unmanaged_retains:
  assumes "ParseBucketID bucketID = Inr i" "\<not> bid_Managed i"
  shows "sends (\<lambda>rq. rq_method rq = ''GET'' \<or> rq = bucket_delete (bid_BucketName i) False) (DriverDeleteBucket d bucketID ps)"
  by (rule sends_DeleteDriver [OF _ _ assms(1)])
    (use assms(2) in \<open>auto simp: delete_bucket_def reads_def intro!: sends_delete_legacy sends_delete_plain\<close>)

text \<open>Every request a delete sends, apart from readings, names the recorded bucket or the recorded file id: it unregisters this bucket,
  aborts uploads of this bucket, or starts the tree-delete of the file id in the handle.\<close>

theorem DriverDeleteBucket_targets:
  assumes "ParseBucketID bucketID = Inr i"
  shows "sends (\<lambda>rq. rq_method rq = ''GET'' \<or> (\<exists>drd. rq = bucket_delete (bid_BucketName i) drd) \<or>
      (\<exists>u. rq = upload_delete (bid_BucketName i) u) \<or> (bid_RootFileID i \<noteq> [] \<and> rq = job_post (bid_RootFileID i)))
    (DriverDeleteBucket d bucketID ps)"
  by (rule sends_DeleteDriver [OF _ _ assms])
    (auto simp: delete_bucket_def reads_def intro!: sends_delete_legacy sends_delete_plain sends_delete_purge)

section \<open>Nothing is destroyed before its identity is verified\<close>

text \<open>The object at a path that matches the recorded root was read and had the recorded file id.\<close>

definition root_verified :: "BucketID \<Rightarrow> event list \<Rightarrow> bool" where
  "root_verified i es \<longleftrightarrow>
     (\<exists>root a. pathsMatch root (bid_RootPath i) \<and> attrs_read root es a \<and> fa_ID a = bid_RootFileID i)"

lemma grows_root_verified: "grows (root_verified i)"
  unfolding grows_def root_verified_def using attrs_read_mono by (metis Un_commute inf_sup_ord(3) le_supI2 set_append)

definition destructive :: "BucketID \<Rightarrow> request \<Rightarrow> bool" where
  "destructive i rq \<longleftrightarrow> rq = bucket_delete (bid_BucketName i) True \<or> (\<exists>u. rq = upload_delete (bid_BucketName i) u) \<or>
     rq = job_post (bid_RootFileID i)"

lemma destructive_no_GET: "destructive i rq \<Longrightarrow> rq_method rq \<noteq> ''GET''"
  by (auto simp: destructive_def bucket_delete_def upload_delete_def job_post_def)

lemma reads_not_destructive: "reads (\<lambda>rq. \<not> destructive i rq)"
  using destructive_no_GET by (auto simp: reads_def)

lemma unregister_not_destructive: "\<not> destructive i (bucket_delete name False)"
  by (auto simp: destructive_def bucket_delete_def upload_delete_def job_post_def mk_request_def)

lemma pathsMatch_refl: "pathsMatch p p"
  by (simp add: pathsMatch_def)

lemma emits_any_sends: "sends R m \<Longrightarrow> emits m (\<lambda>_ _. True)"
  unfolding evs_def by (rule emits_any)

abbreviation safe :: "BucketID \<Rightarrow> 'a prog \<Rightarrow> bool" where
  "safe i m \<equiv> emits m (\<lambda>es r. guarded (root_verified i) (destructive i) es)"

lemmas delete_sends =
  sends_delete_plain sends_delete_purge sends_purge_resume sends_purge_live sends_delete_legacy sends_delete_verified
  sends_GetBucket sends_GetFileAttributes
  sends_DeleteBucket sends_TreeDelete

lemma safe_reads: "sends (\<lambda>rq. \<not> destructive i rq) m \<Longrightarrow> safe i m"
  by (rule guards_sends)

lemma safe_fail: "safe i (fail e)"
  by (rule safe_reads) (rule sends_ret)

lemma safe_ok: "safe i (ok x)"
  by (rule safe_reads) (rule sends_ret)

lemma safe_GetBucket:
  assumes "\<And>g. safe i (k g)" "\<And>g. sends (\<lambda>_. True) (k g)"
  shows "safe i (GetBucket c name \<bind> k)"
  by (rule guards_bind [OF grows_root_verified _ _ _ assms(2), where P = "\<lambda>_ _. True"])
    (use assms(1) sends_GetBucket [OF reads_not_destructive] emits_any_sends in blast)+

lemma safe_delete_plain: "safe i (delete_plain c i drd)"
proof -
  have m: "sends (\<lambda>rq. \<not> destructive i rq) (as_status (wrap pre (GetFileAttributes c p)))" for pre p
    by (intro io_rules sends_GetFileAttributes reads_not_destructive)
  have P: "emits (as_status (wrap pre (GetFileAttributes c p))) (on_ok (attrs_read p))" for pre p
    by (intro emits_as_status emits_on_ok_wrap emits_GetFileAttributes_ok)
  have check: "safe i (andThen (as_status (wrap pre (GetFileAttributes c p))) (\<lambda>attrs.
      if fa_ID attrs \<noteq> bid_RootFileID i then fail (e attrs) else delete_verified c (bid_BucketName i) drd))"
    if "pathsMatch p (bid_RootPath i)" for pre p e
    by (rule guards_andThen [OF grows_root_verified m P])
      (use that in \<open>auto simp: root_verified_def intro: safe_fail io_rules delete_sends\<close>)
  show ?thesis
    unfolding delete_plain_def
    by (rule safe_GetBucket)
      (auto split: sum.split intro!: check safe_ok safe_fail io_rules delete_sends)
qed

text \<open>The attributes of a path decide: what follows a reading with the recorded id may destroy, the rest is harmless.\<close>

lemma safe_attributes:
  assumes "pathsMatch p (bid_RootPath i)"
    and "\<And>e. safe i (k (Inl e))" "\<And>a. fa_ID a \<noteq> bid_RootFileID i \<Longrightarrow> safe i (k (Inr a))" "\<And>r. sends (\<lambda>_. True) (k r)"
  shows "safe i (GetFileAttributes c p \<bind> k)"
proof (rule guards_bind [OF grows_root_verified _ emits_GetFileAttributes _ assms(4)], goal_cases)
  case 1
  show ?case by (intro sends_GetFileAttributes reads_not_destructive)
next
  case (2 es r)
  show ?case
  proof (cases r)
    case (Inr a)
    then have "root_verified i es" if "fa_ID a = bid_RootFileID i"
      using that 2 assms(1) unfolding root_verified_def by auto
    then show ?thesis using Inr assms(3) by blast
  qed (use assms(2) in blast)
qed

lemma safe_purge_resume: "safe i (purge_resume c i)"
  unfolding purge_resume_def andThen_lift
  by (auto split: sum.split intro!: safe_attributes pathsMatch_refl safe_fail safe_ok io_rules delete_sends)

lemma safe_unregister: "safe i (tolerate f (DeleteBucket c name False))"
  by (intro safe_reads io_rules sends_DeleteBucket unregister_not_destructive)

lemma safe_purge_live: "bid_RootFileID i \<noteq> [] \<Longrightarrow> bid_RootPath i \<noteq> [] \<Longrightarrow> safe i (purge_live c i b)"
  unfolding purge_live_def andThen_lift Let_def
  by (auto split: sum.split intro!: safe_attributes safe_fail safe_ok safe_unregister io_rules delete_sends)

lemma safe_delete_bucket: "safe i (delete_bucket c i drd pod)"
  unfolding delete_bucket_def delete_purge_def
  by (auto split: sum.split intro!: safe_GetBucket safe_delete_plain safe_purge_live safe_purge_resume safe_fail safe_ok
      safe_reads [OF sends_delete_legacy [OF reads_not_destructive unregister_not_destructive]] io_rules delete_sends)


section \<open>What the success of a purge means\<close>

text \<open>The tree-delete of the recorded file id was seen to end, or no object was found at a path that matches the recorded root.\<close>

definition purged :: "BucketID \<Rightarrow> event list \<Rightarrow> bool" where
  "purged i es \<longleftrightarrow> deletion_observed (bid_RootFileID i) es \<or>
     (\<exists>root. pathsMatch root (bid_RootPath i) \<and> not_found_answer (attrs_get root) es)"

lemma deletion_observed_append: "deletion_observed f es \<Longrightarrow> deletion_observed f (es' @ es)"
  unfolding deletion_observed_def by (metis append.assoc job_known_append not_found_append)

lemma purged_append: "purged i es \<Longrightarrow> purged i (es' @ es)"
  unfolding purged_def using deletion_observed_append not_found_append by blast

lemma purged_later: "emits m (on_ok (\<lambda>es _. purged i es)) \<Longrightarrow> emits m (on_ok (\<lambda>es' _. purged i (es @ es')))"
  by (erule emits_weaken) (auto simp: on_ok_def purged_append)

lemma purged_left: "pathsMatch p (bid_RootPath i) \<Longrightarrow> not_found_answer (attrs_get p) es \<Longrightarrow> purged i (es @ es')"
  unfolding purged_def using not_found_mono [of "attrs_get p" es "es @ es'"] by auto

lemma emits_TreeDelete_purged: "emits (as_status (TreeDelete c (bid_RootFileID i))) (on_ok (\<lambda>es _. purged i (es0 @ es)))"
  unfolding TreeDelete_def
  by (rule emits_as_status, rule emits_weaken [OF emits_treeDelete]) (auto simp: on_ok_def purged_def intro: deletion_observed_append)

lemma notFound_api: "notFound e \<longleftrightarrow> isAPINotFound e"
  by (simp add: notFound_def isAPINotFound_def)

lemma emits_unregister: "emits (tolerate f (DeleteBucket c name b)) (\<lambda>_ _. True)"
  by (rule emits_any_sends [of "\<lambda>_. True"]) (intro io_rules sends_DeleteBucket TrueI)

lemma emits_purge_resume: "emits (purge_resume c i) (on_ok (\<lambda>es _. purged i es))"
  unfolding purge_resume_def andThen_lift
  by (intro emits_case_sum emits_if emits_fail emits_bind_ok [OF emits_GetFileAttributes])
    (use emits_TreeDelete_purged purged_left [OF pathsMatch_refl, where es' = "[]"] in
      \<open>auto simp: notFound_api intro!: emits_fail emits_ok emits_if split: sum.split\<close>)

lemma emits_purge_live:
  assumes "bid_RootFileID i \<noteq> []" "bid_RootPath i \<noteq> []"
  shows "emits (purge_live c i b) (on_ok (\<lambda>es _. purged i es))"
proof -
  have gone: "emits (tolerate f (DeleteBucket c name False)) (on_ok (\<lambda>es' _. purged i (es @ es')))"
    if "not_found_answer (attrs_get p) es" "pathsMatch p (bid_RootPath i)" for f name es p
    by (rule emits_weaken [OF emits_unregister]) (use purged_left that in \<open>auto simp: on_ok_def\<close>)
  have more: "emits (andThen (tolerate f (DeleteBucket c name False)) (\<lambda>_. as_status (TreeDelete c (bid_RootFileID i))))
      (on_ok (\<lambda>es' _. purged i (es @ es')))" for f name es
    by (rule emits_andThen_ok [OF emits_unregister]) (use emits_TreeDelete_purged in \<open>simp flip: append_assoc\<close>)
  show ?thesis
    unfolding purge_live_def andThen_lift Let_def
    by (intro emits_case_sum emits_if emits_fail emits_bind_ok [OF emits_GetFileAttributes])
      (use assms gone more in \<open>auto simp: notFound_api intro!: emits_fail emits_if split: sum.split\<close>)
qed

lemma bind_class_keeps: "bindClassToBucketID class i = Inr class' \<Longrightarrow> cl_PurgeOnDelete class' = cl_PurgeOnDelete class"
  by (auto simp: bindClassToBucketID_def Let_def split: if_splits)

text \<open>C3: A purge of a managed bucket with a recorded root reports success only when the tree-delete of the recorded file id was seen to end, or no
  object was found at the recorded root.\<close>

theorem DriverDeleteBucket_purge_success:
  assumes "ParseBucketID bucketID = Inr i" "bid_Managed i" "bid_RootPath i \<noteq> []" "bid_RootFileID i \<noteq> []"
    and "classFromCleanup d ps = Inr class" "cl_PurgeOnDelete class"
    and "run_state (DriverDeleteBucket d bucketID ps) w = (Inr (), w')"
  shows "\<exists>es. w_events w' = w_events w @ es \<and> purged i es"
proof -
  have purge: "emits (delete_purge c i) (on_ok (\<lambda>es _. purged i es))" for c
    unfolding delete_purge_def
  proof (rule emits_bind_ok [OF emits_any_sends [OF sends_GetBucket [OF reads_True]]], goal_cases)
    case (1 es g)
    show ?case
      by (auto split: sum.split intro!: emits_fail purged_later [OF emits_purge_resume] purged_later [OF emits_purge_live [OF assms(4,3)]])
  qed
  have "emits (with_connection d cls (\<lambda>c. delete_purge c i)) (on_ok (\<lambda>es _. purged i es))" for cls
  proof -
    have s: "sends (\<lambda>_. True) (as_status (andThen (EnsureVersion (d_sv d) c (dr_VersionFloor (d_cfg d))) (\<lambda>_. RequireS3Enabled c)))" for c
      by (intro io_rules sends_EnsureVersion sends_RequireS3Enabled reads_True)
    show ?thesis
      unfolding with_connection_def by (intro emits_case_sum emits_fail emits_andThen_ok [OF emits_any_sends [OF s]] purged_later [OF purge])
  qed
  then have "emits (DriverDeleteBucket d bucketID ps) (on_ok (\<lambda>es _. purged i es))"
    unfolding DriverDeleteBucket_def delete_bucket_def using assms(1-6) bind_class_keeps [of _ i]
    by (auto split: sum.split intro!: emits_fail)
  from emits_on_okD [OF this assms(7)] show ?thesis .
qed

end
