(* ===== verification/Cosi_Access.thy ===== *)
theory Cosi_Access
  imports Cosi_Delete
begin

text \<open>
  \<open>DriverGrantBucketAccess\<close> and \<open>DriverRevokeBucketAccess\<close> of \<^verbatim>\<open>internal/driver/driver.go\<close>: the local user, the access key, the policy
  statement and the ACL entry a grant makes, the clean-up of one that fails, and the revocation by immutable identities with the fallback
  for handles that record none.
\<close>

section \<open>Keys\<close>

definition randomPassword :: "Connection \<Rightarrow> string prog" where
  "randomPassword c = do { h \<leftarrow> getw w_events; ret (''Aa1!'' @ hex_encode (c_password c h)) }"

definition accessKeyCleanupContext :: "'v CosiDriver \<Rightarrow> Connection \<Rightarrow> Connection" where
  "accessKeyCleanupContext d c = c\<lparr>c_ctx_err := d_cleanup d\<rparr>"

fun delete_keys :: "Connection \<Rightarrow> AccessKey list \<Rightarrow> unit io" where
  "delete_keys c [] = ok ()"
| "delete_keys c (k # ks) = do {
     r \<leftarrow> DeleteAccessKey c (ak_AccessKeyID k);
     case r of
       Inl err \<Rightarrow> if notFound err then delete_keys c ks else fail err
     | Inr _ \<Rightarrow> delete_keys c ks }"

definition rotateKeys :: "Connection \<Rightarrow> string \<Rightarrow> string \<Rightarrow> unit io" where
  "rotateKeys c username authID = do {
     r \<leftarrow> ListAccessKeysByOwner c username authID;
     case r of
       Inl err \<Rightarrow> if notFound err then ok () else fail err
     | Inr keys \<Rightarrow> delete_keys c keys }"

section \<open>Grant\<close>

definition verifiedBucketRoot :: "Connection \<Rightarrow> BucketID \<Rightarrow> string io" where
  "verifiedBucketRoot c i =
     andThen (as_status (GetBucket c (bid_BucketName i))) (\<lambda>b.
       if b_Path b = [] then fail (EStatus FailedPrecondition (''bucket '' @ fmt_q (bid_BucketName i) @ '' has no filesystem root''))
       else if bid_RootPath i = [] \<or> bid_RootFileID i = []
       then fail (EStatus FailedPrecondition (''legacy bucket_id for bucket '' @ fmt_q (bid_BucketName i) @ '' lacks immutable root identity''))
       else if \<not> pathsMatch (b_Path b) (bid_RootPath i)
       then fail (EStatus FailedPrecondition (''bucket '' @ fmt_q (bid_BucketName i) @ '' root '' @ fmt_q (b_Path b)
              @ '' differs from recorded root '' @ fmt_q (bid_RootPath i)))
       else
         andThen (as_status (GetFileAttributes c (b_Path b))) (\<lambda>attrs.
           if fa_ID attrs \<noteq> bid_RootFileID i
           then fail (EStatus FailedPrecondition (''bucket '' @ fmt_q (bid_BucketName i) @ '' root file id '' @ fmt_q (fa_ID attrs)
                  @ '' differs from recorded id '' @ fmt_q (bid_RootFileID i)))
           else ok (b_Path b)))"

definition grant_root :: "Connection \<Rightarrow> BucketID \<Rightarrow> string io" where
  "grant_root c i =
     (if bid_RootPath i = [] \<or> bid_RootFileID i = [] then
        andThen (as_status (GetBucket c (bid_BucketName i))) (\<lambda>b.
          if b_Path b = [] then fail (EStatus FailedPrecondition (''bucket '' @ fmt_q (bid_BucketName i) @ '' has no filesystem root''))
          else ok (b_Path b))
      else verifiedBucketRoot c i)"

definition grant_user :: "Connection \<Rightarrow> string \<Rightarrow> LocalUser io" where
  "grant_user c username = do {
     pass \<leftarrow> randomPassword c;
     r \<leftarrow> CreateUser c username pass;
     let lookup = as_status (wrap (''lookup local user '' @ username @ '': '') (GetUserByName c username));
     case r of
       Inl err \<Rightarrow> if alreadyExists err then lookup else fail (toStatus (EWrap (''create local user '' @ username @ '': '') err []))
     | Inr u \<Rightarrow> if lu_ID u = [] then lookup else ok u }"

definition grant_key :: "'v CosiDriver \<Rightarrow> Connection \<Rightarrow> string \<Rightarrow> string \<Rightarrow> AccessKey io" where
  "grant_key d c username authID =
     andThen (as_status (rotateKeys c username authID)) (\<lambda>_. do {
       r \<leftarrow> CreateAccessKey c (no_identity\<lparr>id_AuthID := authID\<rparr>);
       case r of
         Inl err \<Rightarrow> do {
           _ \<leftarrow> rotateKeys (accessKeyCleanupContext d c) username authID;
           fail (toStatus (EWrap ''create access key: '' err [])) }
       | Inr key \<Rightarrow>
           if ak_AccessKeyID key = [] \<or> ak_SecretAccessKey key = [] then do {
             _ \<leftarrow> rotateKeys (accessKeyCleanupContext d c) username authID;
             fail (EStatus Internal ''Qumulo returned an incomplete access key'') }
           else ok key })"

definition grant_response :: "Connection \<Rightarrow> Class \<Rightarrow> string \<Rightarrow> string \<Rightarrow> AccessKey \<Rightarrow> string \<Rightarrow> GrantResponse" where
  "grant_response c class username authID key restoreMode =
     \<lparr>gr_AccountId = AccountID_String \<lparr>aid_Endpoint = c_base_url c, aid_Username = username,
                                     aid_AccessKeyPfx = AccessKeyPrefix (ak_AccessKeyID key), aid_AuthID = authID, aid_RestoreMode = restoreMode\<rparr>,
      gr_Credentials = [(''accessKeyID'', ak_AccessKeyID key), (''accessSecretKey'', ak_SecretAccessKey key),
                        (''endpoint'', S3Endpoint (cl_Endpoint class) (cl_S3Port class)), (''region'', cl_Region class)]\<rparr>"

text \<open>The steps after the key exists, and the deferred deletion of the key when one of them fails.\<close>

definition grant_rights :: "Connection \<Rightarrow> Class \<Rightarrow> string \<Rightarrow> string \<Rightarrow> string \<Rightarrow> string \<Rightarrow> AccessKey \<Rightarrow> GrantResponse io" where
  "grant_rights c class name root username authID key =
     andThen (as_status (wrap ''upsert bucket policy: ''
         (MutateBucketPolicy c name (\<lambda>p. UpsertStatement p (PolicySID username) authID (cl_AccessMode class))))) (\<lambda>_.
     andThen (as_status (wrap (''grant filesystem access on '' @ root @ '': '')
         (GrantDirectoryAccess c root authID (cl_AccessMode class) (cl_ACLFallbackChmod class)))) (\<lambda>restoreMode.
     ok (grant_response c class username authID key restoreMode)))"

definition grant_or_cleanup :: "'v CosiDriver \<Rightarrow> Connection \<Rightarrow> AccessKey \<Rightarrow> 'a io \<Rightarrow> 'a io" where
  "grant_or_cleanup d c key body = do {
     r \<leftarrow> body;
     case r of
       Inr x \<Rightarrow> ok x
     | Inl e \<Rightarrow> do { _ \<leftarrow> DeleteAccessKey (accessKeyCleanupContext d c) (ak_AccessKeyID key); fail e } }"

definition grant_access :: "'v CosiDriver \<Rightarrow> Connection \<Rightarrow> Class \<Rightarrow> BucketID \<Rightarrow> string \<Rightarrow> GrantResponse io" where
  "grant_access d c class i username =
     andThen (grant_root c i) (\<lambda>root.
     andThen (grant_user c username) (\<lambda>u.
     andThen (grant_key d c username (lu_ID u)) (\<lambda>key.
     grant_or_cleanup d c key (grant_rights c class (bid_BucketName i) root username (lu_ID u) key))))"

definition DriverGrantBucketAccess :: "'v CosiDriver \<Rightarrow> string \<Rightarrow> string \<Rightarrow> auth_type \<Rightarrow> params \<Rightarrow> GrantResponse io" where
  "DriverGrantBucketAccess d bucketID name auth ps =
     (if bucketID = [] \<or> name = [] then fail (EStatus InvalidArgument ''bucket_id and name are required'')
      else if auth = AuthIAM then fail (EStatus Unimplemented ''IAM authentication is not supported; use authenticationType: Key'')
      else if auth \<noteq> AuthKey then fail (EStatus InvalidArgument ''authentication_type must be Key (IAM is not implemented)'')
      else case ParseBucketID bucketID of
          Inl err \<Rightarrow> fail (EStatus InvalidArgument (error_text err))
        | Inr i \<Rightarrow>
           (case classFrom d ps of
              Inl err \<Rightarrow> fail (toStatus err)
            | Inr class0 \<Rightarrow>
               (case bindClassToBucketID class0 i of
                  Inl err \<Rightarrow> fail err
                | Inr class \<Rightarrow> with_connection d class (\<lambda>c. grant_access d c class i (Username bucketID name)))))"

section \<open>Revoke\<close>

text \<open>The live user of the name, if it is still the recorded identity.\<close>

definition revoke_target_user :: "Connection \<Rightarrow> AccountID \<Rightarrow> LocalUser option io" where
  "revoke_target_user c a = do {
     r \<leftarrow> GetUserByName c (aid_Username a);
     case r of
       Inr live \<Rightarrow> ok (if lu_ID live = aid_AuthID a then Some live else None)
     | Inl uerr \<Rightarrow>
         if notFound uerr then ok None
         else fail (toStatus (EWrap (''lookup local user '' @ aid_Username a @ '' for revoke: '') uerr [])) }"

text \<open>The root to clean (empty when there is none left) and whether the policy is still the recorded bucket's.\<close>

definition revoke_target_root :: "Connection \<Rightarrow> BucketID \<Rightarrow> (string \<times> bool) io" where
  "revoke_target_root c i =
     andThen (do {
       g \<leftarrow> GetBucket c (bid_BucketName i);
       case g of
         Inl gerr \<Rightarrow> if notFound gerr then ok False else fail (toStatus gerr)
       | Inr b \<Rightarrow> ok (pathsMatch (b_Path b) (bid_RootPath i)) }) (\<lambda>policyTarget. do {
     a \<leftarrow> GetFileAttributes c (bid_RootPath i);
     case a of
       Inl aerr \<Rightarrow> if notFound aerr then ok ([], False) else fail (toStatus aerr)
     | Inr attrs \<Rightarrow> ok (if fa_ID attrs \<noteq> bid_RootFileID i then ([], False) else (bid_RootPath i, policyTarget)) })"

definition revoke_rights :: "Connection \<Rightarrow> BucketID \<Rightarrow> AccountID \<Rightarrow> string \<times> bool \<Rightarrow> unit io" where
  "revoke_rights c i a target =
     andThen (if snd target
              then tolerate (\<lambda>e. e) (MutateBucketPolicy c (bid_BucketName i)
                     (\<lambda>p. Inr (RemoveStatementForAuthID p (PolicySID (aid_Username a)) (aid_AuthID a))))
              else ok ()) (\<lambda>_.
     if aid_AuthID a \<noteq> [] \<and> fst target \<noteq> [] then
       andThen (tolerate (\<lambda>e. EWrap (''revoke filesystem ACE for '' @ aid_Username a @ '' on '' @ fst target @ '': '') e [])
           (RevokeDirectoryAccess c (fst target) (aid_AuthID a))) (\<lambda>_.
         if aid_RestoreMode a \<noteq> []
         then tolerate (\<lambda>e. EWrap (''restore filesystem mode '' @ aid_RestoreMode a @ '' on '' @ fst target @ '': '') e [])
                (PatchFileMode c (fst target) (aid_RestoreMode a))
         else ok ())
     else ok ())"

definition revoke_bound :: "Connection \<Rightarrow> BucketID \<Rightarrow> AccountID \<Rightarrow> unit io" where
  "revoke_bound c i a =
     andThen (revoke_target_user c a) (\<lambda>targetUser.
     andThen (as_status (rotateKeys c (aid_Username a) (aid_AuthID a))) (\<lambda>_.
     andThen (revoke_target_root c i) (\<lambda>target.
     andThen (revoke_rights c i a target) (\<lambda>_.
     case targetUser of
       Some u \<Rightarrow> if IsDriverUser (aid_Username a) then tolerate (\<lambda>e. e) (DeleteUserByID c (lu_ID u)) else ok ()
     | None \<Rightarrow> ok ()))))"

definition revoke_legacy_bucket :: "Connection \<Rightarrow> BucketID \<Rightarrow> AccountID \<Rightarrow> LocalUser option \<Rightarrow> unit io" where
  "revoke_legacy_bucket c i a user = do {
     g \<leftarrow> GetBucket c (bid_BucketName i);
     case g of
       Inl gerr \<Rightarrow> if notFound gerr then ok () else fail (toStatus gerr)
     | Inr b \<Rightarrow>
         andThen (tolerate (\<lambda>e. e) (MutateBucketPolicy c (bid_BucketName i) (\<lambda>p. Inr (RemoveStatement p (PolicySID (aid_Username a)))))) (\<lambda>_.
         case user of
           Some u \<Rightarrow>
             if b_Path b \<noteq> []
             then tolerate (\<lambda>e. EWrap (''revoke filesystem ACE for '' @ aid_Username a @ '' on '' @ b_Path b @ '': '') e [])
                    (RevokeDirectoryAccess c (b_Path b) (lu_ID u))
             else ok ()
         | None \<Rightarrow> ok ()) }"

definition revokeLegacy :: "Connection \<Rightarrow> BucketID \<Rightarrow> AccountID \<Rightarrow> unit io" where
  "revokeLegacy c i a =
     andThen (do {
       r \<leftarrow> GetUserByName c (aid_Username a);
       case r of
         Inr u \<Rightarrow> ok (Some u)
       | Inl uerr \<Rightarrow>
           if notFound uerr then ok None
           else fail (toStatus (EWrap (''lookup local user '' @ aid_Username a @ '' for legacy revoke: '') uerr [])) }) (\<lambda>user.
     andThen (case user of Some u \<Rightarrow> as_status (rotateKeys c (aid_Username a) (lu_ID u)) | None \<Rightarrow> ok ()) (\<lambda>_.
     andThen (revoke_legacy_bucket c i a user) (\<lambda>_.
     case user of
       Some u \<Rightarrow> if IsDriverUser (aid_Username a) then tolerate (\<lambda>e. e) (DeleteUserByID c (lu_ID u)) else ok ()
     | None \<Rightarrow> ok ())))"

definition DriverRevokeBucketAccess :: "'v CosiDriver \<Rightarrow> string \<Rightarrow> string \<Rightarrow> params \<Rightarrow> unit io" where
  "DriverRevokeBucketAccess d bucketID accountID ps =
     (if bucketID = [] \<or> accountID = [] then fail (EStatus InvalidArgument ''bucket_id and account_id are required'')
      else case ParseBucketID bucketID of
          Inl err \<Rightarrow> fail (EStatus InvalidArgument (error_text err))
        | Inr i \<Rightarrow>
           (case ParseAccountID accountID of
              Inl err \<Rightarrow> fail (EStatus InvalidArgument (error_text err))
            | Inr a \<Rightarrow>
               (case classFromCleanup d ps of
                  Inl err \<Rightarrow> fail (toStatus err)
                | Inr class0 \<Rightarrow>
                   (case bindClassToBucketID class0 i of
                      Inl err \<Rightarrow> fail err
                    | Inr class \<Rightarrow>
                        if \<not> sameClusterEndpoint (aid_Endpoint a) (bid_RESTPort i) (bid_Endpoint i) (bid_RESTPort i)
                        then fail (EStatus InvalidArgument (''account_id endpoint '' @ fmt_q (aid_Endpoint a)
                               @ '' does not match bucket_id endpoint '' @ fmt_q (bid_Endpoint i) @ '':'' @ bid_RESTPort i))
                        else with_connection d class (\<lambda>c.
                          if bid_RootPath i = [] \<or> bid_RootFileID i = [] \<or> aid_AuthID a = [] then revokeLegacy c i a
                          else revoke_bound c i a)))))"

section \<open>What the steps send\<close>

lemma sends_delete_keys: "(\<And>k. R (key_delete k)) \<Longrightarrow> sends R (delete_keys c ks)"
proof (induction ks)
  case (Cons k ks)
  then show ?case unfolding delete_keys.simps by (intro io_rules sends_DeleteAccessKey) simp_all
qed (simp only: delete_keys.simps sends_ret)

lemma sends_rotateKeys: "reads R \<Longrightarrow> (\<And>k. R (key_delete k)) \<Longrightarrow> sends R (rotateKeys c u a)"
  unfolding rotateKeys_def by (intro io_rules sends_ListAccessKeysByOwner sends_delete_keys)

lemma sends_grant_root: "reads R \<Longrightarrow> sends R (grant_root c i)"
  unfolding grant_root_def verifiedBucketRoot_def by (intro io_rules sends_GetBucket sends_GetFileAttributes)

lemma sends_grant_user: "reads R \<Longrightarrow> (\<And>pass g. R (user_post username pass g)) \<Longrightarrow> sends R (grant_user c username)"
  unfolding grant_user_def randomPassword_def Let_def by (intro io_rules sends_CreateUser sends_GetUserByName)

lemma sends_revoke_target_user: "reads R \<Longrightarrow> sends R (revoke_target_user c a)"
  unfolding revoke_target_user_def by (intro io_rules sends_GetUserByName)

lemma sends_revoke_target_root: "reads R \<Longrightarrow> sends R (revoke_target_root c i)"
  unfolding revoke_target_root_def by (intro io_rules sends_GetBucket sends_GetFileAttributes)

lemma sends_revoke_rights:
  assumes "reads R" "\<And>etag p. R (policy_put (bid_BucketName i) etag p)" "\<And>acl. R (acl_put (fst target) acl)"
    "R (mode_patch (fst target) (aid_RestoreMode a))"
  shows "sends R (revoke_rights c i a target)"
  unfolding revoke_rights_def using assms
  by (intro io_rules sends_MutateBucketPolicy sends_RevokeDirectoryAccess sends_PatchFileMode) simp_all

section \<open>A revoke touches the recorded identity only\<close>

definition user_seen :: "string \<Rightarrow> string \<Rightarrow> event list \<Rightarrow> bool" where
  "user_seen name authID es \<longleftrightarrow>
     (\<exists>etag raw j us. seen users_get es etag raw j \<and> decodeUserList (if raw = [] then None else j) = Inr us \<and>
        (\<exists>u \<in> set us. lu_Name u = name \<and> lu_ID u = authID))"

lemma grows_user_seen: "grows (user_seen name authID)"
  unfolding grows_def user_seen_def using seen_inside by blast

lemma emits_revoke_target_user:
  "emits (revoke_target_user c a) (on_ok (\<lambda>es x. \<forall>u. x = Some u \<longrightarrow> lu_ID u = aid_AuthID a \<and> user_seen (aid_Username a) (aid_AuthID a) es))"
  unfolding revoke_target_user_def
proof (rule emits_bind_ok [OF emits_GetUserByName], goal_cases)
  case (1 es r)
  show ?case
  proof (cases r)
    case (Inr u)
    then have "user_seen (aid_Username a) (aid_AuthID a) es" if "lu_ID u = aid_AuthID a"
    proof -
      obtain us etag raw j where "answered users_get es etag raw j" "decodeUserList (if raw = [] then None else j) = Inr us" "u \<in> set us"
        "lu_Name u = aid_Username a"
        using 1 Inr unfolding users_listed_def by auto
      then show ?thesis using that answered_seen unfolding user_seen_def by blast
    qed
    then show ?thesis using Inr by (simp add: emits_ok)
  qed (auto intro!: emits_fail emits_ok emits_if)
qed

lemma emits_revoke_target_root:
  "emits (revoke_target_root c i) (on_ok (\<lambda>es x. x = ([], False) \<or> root_verified i es \<and> fst x \<in> {[], bid_RootPath i}))"
  unfolding revoke_target_root_def
proof (rule emits_andThen_ok [OF emits_any_sends [of "\<lambda>_. True"]], goal_cases)
  case 1
  show ?case by (intro io_rules sends_GetBucket reads_True)
next
  case (2 es pt)
  show ?case
  proof (rule emits_bind_ok [OF emits_GetFileAttributes], goal_cases)
    case (1 es' r)
    show ?case
    proof (cases r)
      case (Inr attrs)
      then have "root_verified i (es @ es')" if "fa_ID attrs = bid_RootFileID i"
        using 1 that growsD(2) [OF grows_root_verified, of i es' es] pathsMatch_refl unfolding root_verified_def by auto
      then show ?thesis using Inr by (simp add: emits_ok)
    qed (auto intro!: emits_fail emits_ok emits_if)
  qed
qed

lemma sends_RevokeDriver:
  assumes "ParseBucketID bucketID = Inr i" "ParseAccountID accountID = Inr a"
    and "bid_RootPath i \<noteq> []" "bid_RootFileID i \<noteq> []" "aid_AuthID a \<noteq> []"
    and "reads R" "\<And>c. sends R (revoke_bound c i a)"
  shows "sends R (DriverRevokeBucketAccess d bucketID accountID ps)"
  unfolding DriverRevokeBucketAccess_def using assms
  by (intro sends_if sends_ret) (auto intro!: io_rules sends_with_connection split: sum.split)

text \<open>A revoke through handles that record the identities only deletes access keys, changes the rights of the recorded auth id on the recorded
  bucket and root, and deletes the user with the recorded auth id; in particular a recreated user of the same name is never deleted.\<close>

theorem DriverRevokeBucketAccess_targets:
  assumes "ParseBucketID bucketID = Inr i" "ParseAccountID accountID = Inr a"
    and "bid_RootPath i \<noteq> []" "bid_RootFileID i \<noteq> []" "aid_AuthID a \<noteq> []"
  shows "sends (\<lambda>rq. rq_method rq = ''GET'' \<or> (\<exists>k. rq = key_delete k) \<or> (\<exists>etag p. rq = policy_put (bid_BucketName i) etag p) \<or>
      (\<exists>acl. rq = acl_put (bid_RootPath i) acl) \<or> rq = mode_patch (bid_RootPath i) (aid_RestoreMode a) \<or> rq = user_delete (aid_AuthID a))
    (DriverRevokeBucketAccess d bucketID accountID ps)"
    (is "sends ?R _")
proof (rule sends_RevokeDriver [OF assms])
  show r: "reads ?R" by (simp add: reads_def)
  have rights: "sends ?R (revoke_rights c i a x)" if "fst x = [] \<or> fst x = bid_RootPath i" for c x
    unfolding revoke_rights_def using that
    by (intro io_rules sends_MutateBucketPolicy sends_RevokeDirectoryAccess sends_PatchFileMode r) auto
  show "sends ?R (revoke_bound c i a)" for c
    unfolding revoke_bound_def
  proof (rule sends_andThen_on [OF sends_revoke_target_user [OF r] emits_revoke_target_user], goal_cases)
    case (1 es x)
    have fin: "sends ?R (case x of Some u \<Rightarrow> if IsDriverUser (aid_Username a) then tolerate (\<lambda>e. e) (DeleteUserByID c (lu_ID u)) else ok () | None \<Rightarrow> ok ())"
      using 1 by (intro io_rules sends_DeleteUserByID) auto
    show ?case
    proof (rule sends_andThen, goal_cases)
      case 1
      show ?case by (intro sends_as_status sends_rotateKeys r) auto
    next
      case 2
      show ?case
      proof (rule sends_andThen_on [OF sends_revoke_target_root [OF r] emits_revoke_target_root], goal_cases)
        case (1 es y)
        then have "fst y = [] \<or> fst y = bid_RootPath i" by auto
        then show ?case by (intro sends_andThen rights fin)
      qed
    qed
  qed
qed

lemma guarded_mono_reads: "reads (\<lambda>rq. \<not> D rq) \<longleftrightarrow> (\<forall>rq. D rq \<longrightarrow> rq_method rq \<noteq> ''GET'')"
  by (auto simp: reads_def)

lemma emits_RevokeDriver:
  assumes "ParseBucketID bucketID = Inr i" "ParseAccountID accountID = Inr a"
    and "bid_RootPath i \<noteq> []" "bid_RootFileID i \<noteq> []" "aid_AuthID a \<noteq> []"
    and "grows G" "\<And>rq. D rq \<Longrightarrow> rq_method rq \<noteq> ''GET''" "\<And>c. emits (revoke_bound c i a) (\<lambda>es r. guarded G D es)"
  shows "emits (DriverRevokeBucketAccess d bucketID accountID ps) (\<lambda>es r. guarded G D es)"
proof -
  have "sends (\<lambda>_. True) (revoke_bound c i a)" for c
    unfolding revoke_bound_def
    by (intro io_rules sends_revoke_target_user sends_rotateKeys sends_revoke_target_root sends_revoke_rights sends_DeleteUserByID) simp_all
  then have "emits (with_connection d cls (\<lambda>c. revoke_bound c i a)) (\<lambda>es r. guarded G D es)" for cls
    by (intro emits_with_connection [OF assms(6,7,8)])
  moreover have "emits (fail e) (\<lambda>es r. guarded G D es)" for e :: go_error
    by (rule emits_ret) (simp add: guarded_def)
  ultimately show ?thesis
    unfolding DriverRevokeBucketAccess_def using assms(1-5) by (auto split: sum.split)
qed

lemma revoke_any:
  "sends (\<lambda>_. True) (revoke_rights c i a target)" "sends (\<lambda>_. True) (revoke_target_root c i)"
  "sends (\<lambda>_. True) (rotateKeys c u b)" "sends (\<lambda>_. True) (DeleteUserByID c u)"
  by (intro sends_revoke_rights sends_revoke_target_root sends_rotateKeys sends_DeleteUserByID; simp)+

lemma other_paths [simp]:
  "policy_put b etag p \<noteq> user_delete x" "acl_put q acl \<noteq> user_delete x" "mode_patch q mode \<noteq> user_delete x" "key_delete k \<noteq> user_delete x"
  by (auto simp: policy_put_def user_delete_def acl_put_def mode_patch_def key_delete_def mk_request_def keys_path_def HasPrefix_def)



section \<open>A grant that fails takes its key back\<close>

definition key_issued :: "event list \<Rightarrow> AccessKey \<Rightarrow> bool" where
  "key_issued es k \<longleftrightarrow> (\<exists>u etag raw j. seen (key_post u) es etag raw j \<and> into no_key decode_key raw j = Some k)"

definition complete_key :: "AccessKey \<Rightarrow> bool" where
  "complete_key k \<longleftrightarrow> ak_AccessKeyID k \<noteq> [] \<and> ak_SecretAccessKey k \<noteq> []"

lemma key_post_not_login: "\<not> is_login (key_post u)"
  by (simp add: is_login_def key_post_def login_path_def keys_path_def mk_request_def HasPrefix_def)

lemma key_issued_append: "key_issued (es @ es') k \<longleftrightarrow> key_issued es k \<or> key_issued es' k"
  unfolding key_issued_def seen_append by blast

lemma no_key_sent: "list_all (ev_ok (\<lambda>rq. \<forall>u. rq \<noteq> key_post u)) es \<Longrightarrow> \<not> key_issued es k"
  unfolding key_issued_def using not_seen_sends [OF _ key_post_not_login, of "\<lambda>rq. \<forall>u. rq \<noteq> key_post u"] by blast

text \<open>The answers to the one request of the call decide its result.\<close>

definition key_answer :: "request \<Rightarrow> event list \<Rightarrow> (string \<times> AccessKey) res \<Rightarrow> bool" where
  "key_answer rq es r \<longleftrightarrow> json_post rq (into no_key decode_key) es r \<and>
     (\<forall>etag raw j. seen rq es etag raw j \<longrightarrow>
        (case r of Inr (etag', x) \<Rightarrow> etag' = etag \<and> into no_key decode_key raw j = Some x | Inl e \<Rightarrow> into no_key decode_key raw j = None))"

lemma emits_key_answer:
  "emits (DoJSON c ''POST'' keys_path [] None (Some (JObj [(''user'', encode_identity u)])) (into no_key decode_key)) (key_answer (key_post u))"
  unfolding key_answer_def key_post_def
  by (intro emits_conj emits_DoJSON emits_DoJSON_only key_post_not_login [unfolded key_post_def])

lemma key_answer_issued:
  assumes "key_answer (key_post u) es r" "key_issued es k"
  shows "\<exists>etag. r = Inr (etag, k)"
proof -
  obtain u' etag raw j where s: "seen (key_post u') es etag raw j" and d: "into no_key decode_key raw j = Some k"
    using assms(2) unfolding key_issued_def by blast
  have "list_all (ev_ok ((=) (key_post u))) es" using assms(1) unfolding key_answer_def json_post_def by blast
  then have "key_post u' = key_post u" using not_seen_sends [OF _ key_post_not_login] s by metis
  with s have "seen (key_post u) es etag raw j" by simp
  with assms(1) have "case r of Inr (etag', x) \<Rightarrow> etag' = etag \<and> into no_key decode_key raw j = Some x | Inl e \<Rightarrow> into no_key decode_key raw j = None"
    unfolding key_answer_def by blast
  with d show ?thesis by (auto split: sum.splits)
qed

lemma key_answer_ok: "key_answer (key_post u) es (Inr (etag, k)) \<Longrightarrow> key_issued es k"
  unfolding key_answer_def key_issued_def by (blast elim: json_post_InrE dest: answered_seen)

lemma emits_CreateAccessKey:
  "emits (CreateAccessKey c u) (\<lambda>es r. (\<forall>k. key_issued es k \<longrightarrow> r = Inr k) \<and> (\<forall>k. r = Inr k \<longrightarrow> key_issued es k))"
  unfolding CreateAccessKey_def
proof (rule emits_andThen [OF emits_key_answer], goal_cases)
  case (1 es e)
  have "\<not> key_issued es k" for k
    using key_answer_issued [OF 1, of k] by blast
  then show ?case by blast
next
  case (2 es x)
  obtain etag k where x: "x = (etag, k)" by (cases x)
  have "key_issued es k" using 2 unfolding x by (rule key_answer_ok)
  moreover have "k' = k" if issued: "key_issued es k'" for k'
  proof -
    obtain etag' where "(Inr x :: (string \<times> AccessKey) res) = Inr (etag', k')" using key_answer_issued [OF 2 issued] ..
    then show ?thesis unfolding x by simp
  qed
  ultimately have "key_issued es k' \<longleftrightarrow> k' = k" for k' by metis
  then show ?case unfolding x prod.case by (intro emits_ret) simp
qed

lemma key_post_other [simp]:
  "policy_put b etag p \<noteq> key_post u" "acl_put q acl \<noteq> key_post u" "key_delete k \<noteq> key_post u" "user_post n pw g \<noteq> key_post u"
  by (auto simp: policy_put_def key_post_def acl_put_def key_delete_def user_post_def mk_request_def keys_path_def HasPrefix_def)

abbreviation no_key_post :: "request \<Rightarrow> bool" where
  "no_key_post rq \<equiv> \<forall>u. rq \<noteq> key_post u"

lemma reads_no_key_post: "reads no_key_post"
  by (auto simp: reads_def key_post_def)

lemma emits_no_key: "sends no_key_post m \<Longrightarrow> emits m (\<lambda>es r. \<forall>k. \<not> key_issued es k)"
  unfolding evs_def by (erule emits_weaken) (use no_key_sent in blast)

lemma sends_rotate_no_key: "sends no_key_post (rotateKeys c u a)"
  by (intro sends_rotateKeys reads_no_key_post) simp

text \<open>The key a grant asked for: an issued, complete key is the result of the step.\<close>

lemma emits_grant_key:
  "emits (grant_key d c un a) (\<lambda>es r. \<forall>k. key_issued es k \<longrightarrow> complete_key k \<longrightarrow> r = Inr k)"
  unfolding grant_key_def
proof (rule emits_andThen [OF emits_no_key [OF sends_as_status [OF sends_rotate_no_key]]], goal_cases)
  case (1 es e)
  then show ?case by simp
next
  case (2 es x)
  have clean: "emits (rotateKeys c' un a \<bind> (\<lambda>_. fail e)) (\<lambda>es' r. \<forall>k. key_issued (es0 @ es') k \<longrightarrow> complete_key k \<longrightarrow> r = Inr k)"
    if "\<And>k. key_issued es0 k \<Longrightarrow> \<not> complete_key k" for c' es0 and e :: go_error
    by (rule emits_bind [OF emits_no_key [OF sends_rotate_no_key]], rule emits_ret) (use that in \<open>auto simp: key_issued_append\<close>)
  show ?case
  proof (rule emits_bind [OF emits_CreateAccessKey], goal_cases)
    case (1 es' r)
    show ?case
    proof (cases r)
      case (Inl e)
      with 1 have "\<not> key_issued es' k" for k by simp
      with 2 have "\<not> key_issued (es @ es') k" for k by (simp add: key_issued_append)
      then show ?thesis unfolding Inl sum.case append_assoc [symmetric] by (intro clean) simp
    next
      case (Inr key)
      with 1 have "key_issued es' k \<Longrightarrow> k = key" for k by simp
      with 2 have k: "key_issued (es @ es') k \<Longrightarrow> k = key" for k by (simp add: key_issued_append)
      show ?thesis
        unfolding Inr sum.case append_assoc [symmetric]
      proof (rule emits_if, goal_cases)
        case 1
        then have "\<not> complete_key key" by (simp add: complete_key_def)
        then show ?case using k by (intro clean) blast
      next
        case 2
        show ?case by (rule emits_ret) (use k in simp)
      qed
    qed
  qed
qed

definition taken_back :: "AccessKey \<Rightarrow> event list \<Rightarrow> bool" where
  "taken_back k es \<longleftrightarrow> (\<exists>c es1 es2. es = es1 @ es2 \<and> ran (DeleteAccessKey c (ak_AccessKeyID k)) es2)"

lemma taken_back_append: "taken_back k es \<Longrightarrow> taken_back k (es' @ es)"
  unfolding taken_back_def by (metis append.assoc)

text \<open>If the call failed, every usable key it was issued has been deleted, as its last step.\<close>

definition no_key_left :: "event list \<Rightarrow> 'a res \<Rightarrow> bool" where
  "no_key_left es r \<longleftrightarrow> (\<forall>e k. r = Inl e \<longrightarrow> key_issued es k \<longrightarrow> complete_key k \<longrightarrow> taken_back k es)"

lemma no_key_left_skip: "(\<And>k. \<not> key_issued es k) \<Longrightarrow> no_key_left es' r \<Longrightarrow> no_key_left (es @ es') r"
  unfolding no_key_left_def key_issued_append using taken_back_append by blast

lemma no_key_left_after:
  assumes "sends no_key_post m" "\<And>x. emits (k x) no_key_left"
  shows "emits (andThen m k) no_key_left"
proof (rule emits_andThen [OF emits_no_key [OF assms(1)]], goal_cases)
  case (1 es e)
  then show ?case by (simp add: no_key_left_def)
next
  case (2 es x)
  then show ?case by (intro emits_weaken [OF assms(2)] no_key_left_skip) simp_all
qed

lemma sends_delete_key_any: "sends (\<lambda>_. True) (DeleteAccessKey c k)"
  by (intro sends_DeleteAccessKey TrueI)

lemma emits_cleanup:
  assumes "sends no_key_post body"
  shows "emits (grant_or_cleanup d c key body) (\<lambda>es r. (\<forall>k. \<not> key_issued es k) \<and> (\<forall>e. r = Inl e \<longrightarrow> taken_back key es))"
  unfolding grant_or_cleanup_def
proof (rule emits_bind [OF emits_no_key [OF assms]], goal_cases)
  case (1 es r)
  let ?c = "accessKeyCleanupContext d c"
  have "sends no_key_post (DeleteAccessKey ?c (ak_AccessKeyID key))" by (intro sends_DeleteAccessKey) simp
  note del = emits_conj [OF emits_ran [OF emits_no_key [OF this]] emits_no_key [OF this]]
  show ?case
  proof (cases r)
    case (Inl e)
    have "emits (DeleteAccessKey ?c (ak_AccessKeyID key) \<bind> (\<lambda>_. fail e))
        (\<lambda>es' r. (\<forall>k. \<not> key_issued (es @ es') k) \<and> (\<forall>e. r = Inl e \<longrightarrow> taken_back key (es @ es')))"
    proof (rule emits_bind [OF del], rule emits_ret, goal_cases)
      case (1 es' x)
      then have "taken_back key (es @ es')" unfolding taken_back_def by blast
      then show ?case using 1 \<open>\<forall>k. \<not> key_issued es k\<close> by (auto simp: key_issued_append)
    qed
    then show ?thesis using Inl by simp
  qed (use 1 in \<open>auto intro!: emits_ret\<close>)
qed

lemma emits_grant_access: "emits (grant_access d c cls i un) no_key_left"
  unfolding grant_access_def
proof (rule no_key_left_after [OF sends_grant_root [OF reads_no_key_post]], rule no_key_left_after, goal_cases)
  case (1 root)
  show ?case by (intro sends_grant_user reads_no_key_post) simp
next
  case (2 root u)
  show ?case
  proof (rule emits_andThen [OF emits_grant_key], goal_cases)
    case (1 es e)
    then show ?case by (auto simp: no_key_left_def)
  next
    case (2 es key)
    have "sends no_key_post (grant_rights c cls (bid_BucketName i) root un (lu_ID u) key)"
      unfolding grant_rights_def
      by (intro io_rules sends_MutateBucketPolicy sends_GrantDirectoryAccess reads_no_key_post) simp_all
    from emits_cleanup [OF this] show ?case
      by (rule emits_weaken) (use 2 taken_back_append in \<open>auto simp: no_key_left_def key_issued_append\<close>)
  qed
qed


section \<open>What a successful grant leaves behind\<close>

text \<open>The trace of a grant in its order: the recorded root was verified at the path granted on, a usable key was issued, the bucket policy was
  changed for the identity, and the directory ACL has its entry.\<close>

definition rights_granted :: "BucketID \<Rightarrow> string \<Rightarrow> string \<Rightarrow> string \<Rightarrow> string \<Rightarrow> AccessKey \<Rightarrow> event list \<Rightarrow> bool" where
  "rights_granted i root username authID mode key es \<longleftrightarrow>
     (\<exists>es1 es2 es3 es4. es = es1 @ es2 @ es3 @ es4 \<and> root_verified i es1 \<and> pathsMatch root (bid_RootPath i) \<and>
        key_issued es2 key \<and> complete_key key \<and>
        mutated (bid_BucketName i) (\<lambda>p. UpsertStatement p (PolicySID username) authID mode) es3 \<and>
        granted root (desired_ace authID mode) es4)"

lemma emits_on_ok_mono: "emits m (on_ok P) \<Longrightarrow> (\<And>es x. P es x \<Longrightarrow> Q es x) \<Longrightarrow> emits m (on_ok Q)"
  by (erule emits_weaken) (simp add: on_ok_def)

lemma emits_grant_root:
  assumes "bid_RootPath i \<noteq> []" "bid_RootFileID i \<noteq> []"
  shows "emits (grant_root c i) (on_ok (\<lambda>es root. root_verified i es \<and> pathsMatch root (bid_RootPath i)))"
proof -
  have st: "emits (as_status (GetBucket c (bid_BucketName i))) (\<lambda>_ _. True)"
    by (rule emits_any_sends [OF sends_as_status [OF sends_GetBucket [OF reads_True]]])
  have read: "emits (as_status (GetFileAttributes c p)) (on_ok (attrs_read p))" for p
    by (rule emits_as_status [OF emits_GetFileAttributes_ok])
  have "emits (verifiedBucketRoot c i) (on_ok (\<lambda>es root. root_verified i es \<and> pathsMatch root (bid_RootPath i)))"
    unfolding verifiedBucketRoot_def
  proof (rule emits_andThen_ok [OF st], intro emits_if emits_fail, rule emits_on_ok_andThen [OF read], intro emits_if emits_fail emits_ok,
      goal_cases)
    case (1 es b es' a)
    have "attrs_read (b_Path b) (es @ es') a" by (rule attrs_read_mono [of _ es']) (use 1 in simp_all)
    moreover have "pathsMatch (b_Path b) (bid_RootPath i)" using 1 by simp
    moreover have "fa_ID a = bid_RootFileID i" using 1 by simp
    ultimately show ?case unfolding root_verified_def append_Nil2 by blast
  qed
  then show ?thesis using assms by (simp add: grant_root_def)
qed

lemma emits_grant_key_ok: "emits (grant_key d c un a) (on_ok (\<lambda>es key. key_issued es key \<and> complete_key key))"
  unfolding grant_key_def
proof (rule emits_andThen_ok [OF emits_any_sends [OF sends_as_status [OF sends_rotate_no_key]]], goal_cases)
  case (1 es x)
  show ?case
  proof (rule emits_bind_ok [OF emits_CreateAccessKey], goal_cases)
    case (1 es' r)
    have stop: "emits (m \<bind> (\<lambda>_. fail e)) (on_ok Q)" if "sends no_key_post m" for m :: "unit io" and e Q
      by (rule emits_bind_ok [OF emits_any_sends [OF that]]) (rule emits_fail)
    show ?case
    proof (cases r)
      case (Inr key)
      with 1 have k: "key_issued (es @ es') key" by (simp add: key_issued_append)
      show ?thesis
        unfolding Inr sum.case by (intro emits_if stop sends_rotate_no_key emits_ok) (use k in \<open>simp_all add: complete_key_def\<close>)
    qed (simp only: sum.case, intro stop sends_rotate_no_key)
  qed
qed

lemma emits_grant_rights:
  "emits (grant_rights c cls b root un a key) (on_ok (\<lambda>es resp. resp = grant_response c cls un a key [] \<and>
     (\<exists>es1 es2. es = es1 @ es2 \<and> mutated b (\<lambda>p. UpsertStatement p (PolicySID un) a (cl_AccessMode cls)) es1 \<and>
        granted root (desired_ace a (cl_AccessMode cls)) es2)))"
  unfolding grant_rights_def
proof (rule emits_on_ok_andThen [OF emits_as_status [OF emits_on_ok_wrap [OF emits_MutateBucketPolicy]]],
    rule emits_on_ok_andThen [OF emits_as_status [OF emits_on_ok_wrap [OF emits_GrantDirectoryAccess]]], goal_cases)
  case (1 es x es' rm)
  then show ?case by (intro emits_ok) auto
qed

lemma emits_grant_or_cleanup: "emits body (on_ok P) \<Longrightarrow> emits (grant_or_cleanup d c key body) (on_ok P)"
  unfolding grant_or_cleanup_def
  by (rule emits_bind_ok, assumption)
    (auto split: sum.split intro!: emits_ok emits_bind_ok [OF emits_any_sends [OF sends_delete_key_any]] emits_fail)

lemma emits_grant_access_ok:
  assumes "bid_RootPath i \<noteq> []" "bid_RootFileID i \<noteq> []"
  shows "emits (grant_access d c cls i un) (on_ok (\<lambda>es resp. \<exists>root a key.
     resp = grant_response c cls un a key [] \<and> rights_granted i root un a (cl_AccessMode cls) key es))"
  unfolding grant_access_def
proof (rule emits_on_ok_andThen [OF emits_grant_root [OF assms]],
    rule emits_andThen_ok [OF emits_any_sends [OF sends_grant_user [OF reads_True TrueI]]],
    rule emits_on_ok_andThen [OF emits_grant_key_ok], goal_cases)
  case (1 es root es' u es'' key)
  show ?case
  proof (rule emits_on_ok_mono [OF emits_grant_or_cleanup [OF emits_grant_rights]], elim conjE exE, goal_cases)
    case (1 es3 resp es4 es5)
    have "rights_granted i root un (lu_ID u) (cl_AccessMode cls) key (es @ (es' @ es'') @ es4 @ es5)"
      unfolding rights_granted_def using 1 \<open>key_issued es'' key \<and> complete_key key\<close> \<open>root_verified i es \<and> pathsMatch root (bid_RootPath i)\<close>
      by (intro exI [of _ es] exI [of _ "es' @ es''"] exI [of _ es4] exI [of _ es5]) (simp add: key_issued_append)
    then show ?case using 1 by auto
  qed
qed

lemma rights_granted_later: "rights_granted i root un a m k es \<Longrightarrow> rights_granted i root un a m k (es' @ es)"
  unfolding rights_granted_def using growsD(2) [OF grows_root_verified] by (metis append.assoc)


end
