(* ===== verification/Concrete_Runs.thy ===== *)
theory Concrete_Runs
  imports Cosi_Access Directories
begin

text \<open>
  The properties applied at concrete inputs: each hypothesis is discharged for a value or a run that the model evaluates, so no property
  holds for want of a case.
\<close>

section \<open>Names and identifiers\<close>

definition sample_bucket :: BucketID where
  "sample_bucket = \<lparr>bid_Endpoint = ''h'', bid_RESTPort = ''8000'', bid_BucketName = ''b'', bid_RootPath = ''/k/b'', bid_RootFileID = ''7'', bid_Managed = True\<rparr>"

lemma bucket_id_roundtrip_witness: "ParseBucketID (BucketID_String sample_bucket) = Inr sample_bucket"
  by (rule bucket_id_roundtrip) (simp add: wf_BucketID_def sample_bucket_def HasPrefix_def)

definition sample_account :: AccountID where
  "sample_account = \<lparr>aid_Endpoint = ''https://h:8000'', aid_Username = ''u'', aid_AccessKeyPfx = ''k'', aid_AuthID = ''7'', aid_RestoreMode = []\<rparr>"

lemma account_id_roundtrip_witness: "ParseAccountID (AccountID_String sample_account) = Inr sample_account"
  by (rule account_id_roundtrip) (simp add: wf_AccountID_def sample_account_def)

lemma BucketName_legal_witness: "\<exists>n. BucketName ''p-'' ''abc'' = Inr n \<and> legal_bucket n"
proof -
  have "Sanitize ''abc'' = ''abc''" by code_simp
  then show ?thesis
    using BucketName_legal [of "''p-''" "''abc''"] by (auto simp: name_char_def lower_alnum_def is_lower_def is_digit_def)
qed

lemma sample_parsed: "ParseBucketID ''q3:qumulo:h:8000:b:%2Fk%2Fb:7:managed'' = Inr sample_bucket"
  unfolding sample_bucket_def by code_simp

lemma ParseBucketID_managed_witness: "HasPrefix (bid_RootPath sample_bucket) ''/''"
  using ParseBucketID_managed [OF sample_parsed] by (simp add: sample_bucket_def)

section \<open>Runs against a cluster that gives one answer\<close>

text \<open>A cluster whose answer depends on the method and the path only; none of its answers is a 401, a 429 or from 500 on.\<close>

definition static_conn :: "(string \<Rightarrow> string \<Rightarrow> reply) \<Rightarrow> Connection" where
  "static_conn f = (const_conn (Http 404 [] [] None))\<lparr>c_cluster := (\<lambda>_ rq. f (rq_method rq) (rq_path rq))\<rparr>"

definition logged :: "event \<Rightarrow> world \<Rightarrow> world" where
  "logged e w = w\<lparr>w_events := w_events w @ [e]\<rparr>"

lemma logged_sel [simp]:
  "w_bearer (logged e w) = w_bearer w" "w_version (logged e w) = w_version w" "w_s3settings (logged e w) = w_s3settings w"
  by (simp_all add: logged_def)

lemma world0_sel [simp]: "w_bearer world0 = ''t''" "w_version world0 = []" "w_s3settings world0 = None"
  by (simp_all add: world0_def)

definition slash :: "string \<Rightarrow> string" where
  "slash p = (if HasPrefix p ''/'' then p else ''/'' @ p)"

lemma run_static_ok:
  assumes "w_bearer w = ''t''" "f m (slash p) = Http st etag raw j" "st < 400" "out raw j = Some x"
  shows "run_state (DoJSON (static_conn f) m p q h b out) w =
    (Inr (etag, x), logged (Sent ((mk_request m p q h b)\<lparr>rq_auth := ''t''\<rparr>) (Http st etag raw j)) w)"
  using assms
  by (simp add: DoJSON_def run_simps numeral_eq_Suc maxRetries_def authorize_def static_conn_def const_conn_def Let_def logged_def slash_def)

lemma run_static_err:
  assumes "w_bearer w = ''t''" "f m (slash p) = Http st etag raw j" "400 \<le> st" "st < 500" "st \<noteq> 401" "st \<noteq> 429"
  shows "run_state (DoJSON (static_conn f) m p q h b out) w =
    (Inl (EApi (parseAPIError st raw j)), logged (Sent ((mk_request m p q h b)\<lparr>rq_auth := ''t''\<rparr>) (Http st etag raw j)) w)"
  using assms
  by (simp add: DoJSON_def run_simps numeral_eq_Suc maxRetries_def authorize_def static_conn_def const_conn_def Let_def logged_def slash_def)

abbreviation always :: "reply \<Rightarrow> Connection" where
  "always rp \<equiv> static_conn (\<lambda>_ _. rp)"

lemma run_404:
  "w_bearer w = ''t'' \<Longrightarrow> run_state (DoJSON (always (Http 404 [] [] None)) m p q h b out) w =
    (Inl (EApi (parseAPIError 404 [] None)), logged (Sent ((mk_request m p q h b)\<lparr>rq_auth := ''t''\<rparr>) (Http 404 [] [] None)) w)"
  by (rule run_static_err) simp_all

lemma run_200:
  assumes "w_bearer w = ''t''" "out raw j = Some x"
  shows "run_state (DoJSON (always (Http 200 etag raw j)) m p q h b out) w =
    (Inr (etag, x), logged (Sent ((mk_request m p q h b)\<lparr>rq_auth := ''t''\<rparr>) (Http 200 etag raw j)) w)"
  by (rule run_static_ok) (simp_all add: assms)

lemma c_fuel_static [simp]: "c_fuel (static_conn f) = 5"
  by (simp add: static_conn_def const_conn_def)

lemma c_ctx_static [simp]: "c_ctx_err (static_conn f) h = None"
  by (simp add: static_conn_def const_conn_def)

lemma missing [simp]: "isAPINotFound (EApi (parseAPIError 404 [] None))" "notFound (EApi (parseAPIError 404 [] None))"
  by (simp_all add: isAPINotFound_def notFound_def IsNotFound_404)

lemma fst_run: "fst (run_state m w) = r \<Longrightarrow> run_state m w = (r, snd (run_state m w))"
  by (cases "run_state m w") simp


lemma GetBucket_absent_witness: "\<exists>es. bucket_absent ''b'' es"
proof -
  have "fst (run_state (GetBucket (always (Http 404 [] [] None)) ''b'') world0) = Inl (EApi (parseAPIError 404 [] None))"
    by (simp add: GetBucket_def ListBuckets_def run_simps run_404)
  from GetBucket_absent [OF fst_run [OF this]] show ?thesis by auto
qed

lemma ListUploads_returns_witness: "returns (ListUploads (always (Http 404 [] [] None)) ''b'')"
  by (rule ListUploads_returns [of "{}"]) (simp_all add: upload_cursors_in_def static_conn_def const_conn_def into_def offers_def nextPageAfter_def)

definition quota_body :: json where
  "quota_body = JObj [(''id'', JStr ''f''), (''limit'', JStr ''9'')]"

lemma EnsureQuotaAtLeast_grows_witness: "(5::int) \<le> 9 \<and> (\<exists>es. ensured ''f'' 5 es 9)"
proof -
  have d: "into no_quota decode_quota ''x'' (Some quota_body) = Some \<lparr>q_ID = ''f'', q_Limit = 9, q_ETag = []\<rparr>"
    unfolding quota_body_def by code_simp
  have "fst (run_state (EnsureQuotaAtLeast (always (Http 200 [] ''x'' (Some quota_body))) ''f'' 5) world0) = Inr 9"
    by (simp add: EnsureQuotaAtLeast_def numeral_eq_Suc GetQuota_def run_simps run_200 d)
  from EnsureQuotaAtLeast_grows [OF fst_run [OF this]] show ?thesis by auto
qed

definition acl_body :: json where
  "acl_body = JObj [(''control'', JArr [JStr ''PRESENT'']), (''aces'', JArr [])]"

lemma RevokeDirectoryAccess_exact_witness:
  "\<exists>es. not_found_answer (acl_get ''/p'') es \<or>
    read_then_write (acl_read ''/p'') (\<lambda>acl. \<forall>a \<in> set (acl_ACES acl). ace_Trustee a \<noteq> ''7'')
      (\<lambda>es acl. accepted (acl_put ''/p'' (acl\<lparr>acl_ACES := filter (\<lambda>a. ace_Trustee a \<noteq> ''7'') (acl_ACES acl)\<rparr>)) es) es"
proof -
  have "fst (run_state (RevokeDirectoryAccess (always (Http 404 [] [] None)) ''/p'' ''7'') world0) = Inr ()"
    by (simp add: RevokeDirectoryAccess_def numeral_eq_Suc GetACL_def run_simps run_404 IsNotFound_404)
  from RevokeDirectoryAccess_exact [OF fst_run [OF this]] show ?thesis by auto
qed

lemma GrantDirectoryAccess_exact_witness:
  "\<exists>es. read_then_write (acl_read ''/p'') (exactly_granted (desired_ace ''7'' ''ro''))
      (\<lambda>es acl. \<exists>acl'. accepted (acl_put ''/p'' acl') es \<and> exactly_granted (desired_ace ''7'' ''ro'') acl' \<and> acl_ETag acl' = acl_ETag acl \<and>
         filter (\<lambda>a. ace_Trustee a \<noteq> ''7'') (acl_ACES acl') = filter (\<lambda>a. ace_Trustee a \<noteq> ''7'') (acl_ACES acl)) es"
proof -
  have d: "into None (\<lambda>j. Some (Some j)) ''x'' (Some acl_body) = Some (Some acl_body)" by (simp add: into_def)
  have a: "decodeACL (Some acl_body) = Inr \<lparr>acl_Control = Some [''PRESENT''], acl_Posix = [], acl_ACES = [], acl_ETag = []\<rparr>"
    unfolding acl_body_def by code_simp
  have "fst (run_state (GrantDirectoryAccess (always (Http 200 ''e'' ''x'' (Some acl_body))) ''/p'' ''7'' ''ro'' False) world0) = Inr []"
    by (simp add: GrantDirectoryAccess_def numeral_eq_Suc GetACL_def PutACL_def wrap_def run_simps run_200 d a noOut_def aclHasExactTrusteeGrant_def)
  from GrantDirectoryAccess_exact [OF fst_run [OF this]] show ?thesis by blast
qed

lemma ListAccessKeysByOwner_owned_witness: "list_all (owner_match ''u'' []) []"
proof -
  have d: "into ([], None) decode_key_page [] None = Some ([], None)" by (simp add: into_def)
  have "fst (run_state (ListAccessKeysByOwner (always (Http 200 [] [] None)) ''u'' []) world0) = Inr []"
    by (simp add: ListAccessKeysByOwner_def ListAccessKeys_def numeral_eq_Suc keys_page_def run_simps run_200 d nextPageAfter_def)
  from ListAccessKeysByOwner_owned [OF fst_run [OF this]] show ?thesis by simp
qed

lemma TreeDelete_success_witness: "\<exists>es. deletion_observed ''7'' es"
proof -
  have "fst (run_state (TreeDelete (always (Http 404 [] [] None)) ''7'') world0) = Inr ()"
    by (simp add: TreeDelete_def treeDelete_def getTreeDeleteJob_def wrap_def run_simps run_404)
  from TreeDelete_success [OF fst_run [OF this]] show ?thesis by blast
qed

section \<open>Versions, errors and classes\<close>

lemma CheckFloor_sound_witness:
  "\<not> (length (core_version_text ''7.2.0'') < length AbsoluteMinimum)"
proof -
  let ?sv = "\<lparr>sv_NewVersion = (\<lambda>s. Some (length s)), sv_LessThan = (<), sv_String = (\<lambda>_. [])\<rparr>"
  have "core_version_text ''7.2.0'' = ''7.2.0''" by code_simp
  then have "CheckFloor ?sv ''7.2.0'' [] = Inr ()"
    by (simp add: CheckFloor_def ParseCoreVersion_def DefaultFloor_def AbsoluteMinimum_def TrimPrefix_def HasPrefix_def)
  from CheckFloor_sound [OF this, of "length AbsoluteMinimum"] show ?thesis by simp
qed

lemma toStatus_total_witness: "FromError (toStatus (EMsg ''x'')) \<noteq> None"
  using toStatus_total [of "EMsg ''x''"] by simp

lemma toStatus_api_witness: "FromError (toStatus (EApi (parseAPIError 503 [] None))) = Some Unavailable"
proof -
  have "\<not> IsAuth (parseAPIError 503 [] None)" "\<not> IsAlreadyExists (parseAPIError 503 [] None)" "\<not> IsNotEmpty (parseAPIError 503 [] None)"
    by code_simp+
  then show ?thesis using toStatus_api [of "EApi (parseAPIError 503 [] None)"] by simp
qed

definition sample_driver :: Driver where
  "sample_driver = \<lparr>dr_Name = ''s3.qumulo.com'', dr_Address = [], dr_MetricsAddress = [], dr_DefaultEndpoint = ''h'', dr_DefaultRESTPort = ''8000'',
     dr_DefaultS3Port = ''9000'', dr_DefaultRegion = ''r'', dr_DefaultBasePath = ''/k'', dr_VersionFloor = [], dr_CredentialsDir = [],
     dr_InsecureSkipTLS = False, dr_CAFile = [], dr_SecretNamespaces = [], dr_DriverNamespace = ''n''\<rparr>"

definition sample_class :: "bool \<Rightarrow> Class" where
  "sample_class purge = \<lparr>cl_Endpoint = ''h'', cl_RESTPort = ''8000'', cl_S3Port = ''9000'', cl_Region = ''r'', cl_CredentialsSecretName = [],
     cl_CredentialsSecretNamespace = ''n'', cl_BasePath = ''/k'', cl_BucketPrefix = [], cl_DeleteRootDir = True, cl_PurgeOnDelete = purge,
     cl_QuotaLimit = 0, cl_Versioning = [], cl_ObjectLockEnabled = False, cl_ExistingBucketName = [], cl_InsecureSkipTLSVerify = False,
     cl_AccessMode = ''rw'', cl_ACLFallbackChmod = False\<rparr>"

lemma sample_values:
  "validatedBasePath ''/k'' = Inr ''/k''"
  "NormalizeMode ''rw'' = Inr ''rw''" "TrimSpace ''8000'' = ''8000''" "TrimSpace ''9000'' = ''9000''" "TrimSpace ''/k'' = ''/k''"
  "TrimSpace ''h'' = ''h''" "TrimSpace ''rw'' = ''rw''" "TrimSpace ''r'' = ''r''" "TrimSpace ''n'' = ''n''" "TrimSpace ''true'' = ''true''"
  "ParseBool ''true'' = Some True" "has_control ''r'' = False" "has_control ''/k'' = False"
  by code_simp+

definition purge_params :: params where
  "purge_params = [(''purgeOnDelete'', ''true'')]"

lemma purge_params_lookup:
  "map_of purge_params ''region'' = None" "map_of purge_params ''basePath'' = None" "map_of purge_params ''purgeOnDelete'' = Some ''true''"
  "param purge_params ''restPort'' = []" "param purge_params ''s3Port'' = []" "param purge_params ''accessMode'' = []"
  "map_of purge_params ''deleteRootDir'' = None" "map_of purge_params ''objectLockEnabled'' = None"
  "map_of purge_params ''insecureSkipTLSVerify'' = None" "map_of purge_params ''aclFallbackChmod'' = None"
  "param purge_params ''quotaLimit'' = []" "param purge_params ''versioning'' = []" "param purge_params ''endpoint'' = []"
  "param purge_params ''credentialsSecretName'' = []" "param purge_params ''credentialsSecretNamespace'' = []"
  "param purge_params ''bucketPrefix'' = []" "param purge_params ''existingBucketName'' = []"
  by (simp_all add: purge_params_def param_def)

lemma purge_params_bools:
  "parseBool purge_params ''deleteRootDir'' True = Inr True" "parseBool purge_params ''purgeOnDelete'' False = Inr True"
  "parseBool purge_params ''objectLockEnabled'' False = Inr False" "parseBool purge_params ''insecureSkipTLSVerify'' False = Inr False"
  "parseBool purge_params ''aclFallbackChmod'' False = Inr False" "parse_quota purge_params = Inr 0"
  by (simp_all add: parseBool_def parse_quota_def purge_params_lookup sample_values)

lemma and_then_step: "and_then (Inr x) k = k x"
  by (simp add: and_then_def)

lemma sample_first:
  "first_nonblank [[], ''8000'', x] = ''8000''" "first_nonblank [[], ''9000'', x] = ''9000''" "first_nonblank [[], ''rw''] = ''rw''"
  "first_nonblank [[], ''h''] = ''h''" "first_nonblank [[], ''n''] = ''n''" "or_default ''r'' y = ''r''" "or_default ''/k'' y = ''/k''"
  by (simp_all add: sample_values or_default_def)

lemma sample_driver_sel:
  "dr_DefaultRegion sample_driver = ''r''" "dr_DefaultBasePath sample_driver = ''/k''" "dr_DefaultRESTPort sample_driver = ''8000''"
  "dr_DefaultS3Port sample_driver = ''9000''" "dr_InsecureSkipTLS sample_driver = False" "dr_DefaultEndpoint sample_driver = ''h''"
  "dr_DriverNamespace sample_driver = ''n''" "dr_CAFile sample_driver = []" "dr_CredentialsDir sample_driver = []"
  "dr_VersionFloor sample_driver = []"
  by (simp_all add: sample_driver_def)

lemma sample_ports: "validatedPort n ''8000'' = Inr ''8000''" "validatedPort n ''9000'' = Inr ''9000''" "ParseUint 10 16 ''8000'' = Some 8000"
proof -
  have "char_of (56 :: nat) = CHR ''8''" "char_of (57 :: nat) = CHR ''9''" "char_of (48 :: nat) = CHR ''0''" by code_simp+
  then have "itoa 8000 = ''8000''" "itoa 9000 = ''9000''" by (simp_all add: itoa_def nat_digits.simps)
  then show "validatedPort n ''8000'' = Inr ''8000''" "validatedPort n ''9000'' = Inr ''9000''" "ParseUint 10 16 ''8000'' = Some 8000"
    by (simp_all add: validatedPort_def is_digit_def ParseUint_def digits_val_def)
qed

lemma sample_class_parsed': "parseClassValidated purge_params sample_driver = Inr (sample_class True)"
  unfolding parseClassValidated_def Let_def
  by (simp only: sample_ports purge_params_lookup purge_params_bools and_then_step sample_first sample_driver_sel sample_values option.case if_False
      simp_thms list.set insert_iff sample_class_def)

lemma sample_class_parsed: "ParseClass purge_params sample_driver = Inr (sample_class True)"
  using sample_class_parsed' by (simp add: ParseClass_def classParameterKeys_def purge_params_def)

lemma ParseClass_strict_witness: "is_port (cl_RESTPort (sample_class True))"
  using ParseClass_strict [OF sample_class_parsed] by blast


definition sample_process :: process where
  "sample_process = \<lparr>pr_env = (\<lambda>k. if k = ''QUMULO_TOKEN'' then ''t'' else []), pr_file = (\<lambda>_. Missing), pr_secret = None\<rparr>"

definition sample_creds :: Credentials where
  "sample_creds = \<lparr>cr_Token = ''t'', cr_Username = [], cr_Password = []\<rparr>"

lemma sample_resolved: "ResolveCredentials sample_process (sample_class p) sample_driver = Inr (sample_creds, [])"
proof -
  have t: "TrimSpace ''t'' = ''t''" by code_simp
  show ?thesis
    by (simp add: ResolveCredentials_def sample_class_def sample_driver_def sample_process_def sample_creds_def and_then_def HasToken_def
        HasPassword_def env_credentials_def configuredCABundle_def Let_def t)
qed

lemma ResolveCredentials_kind_witness: "HasToken sample_creds \<noteq> HasPassword sample_creds"
  using ResolveCredentials_kind [OF sample_resolved [of True]] by blast

section \<open>Connections\<close>

lemma sample_dialled:
  "NewConnection (\<lambda>_. False) (class_DialConfig (sample_class p) sample_creds []) =
     Inr \<lparr>dl_Scheme = ''https'', dl_Host = ''h:8000'', dl_Creds = sample_creds, dl_Bearer = ''t'', dl_InsecureSkipVerify = False, dl_RootCAs = None,
        dl_ServerName = [], dl_UserAgent = ''cosi-driver-qumulo/0.2.0''\<rparr>"
proof -
  have u: "url_Parse ''https://h'' = Some \<lparr>u_Scheme = ''https'', u_Opaque = [], u_User = None, u_Host = ''h'', u_Path = [], u_RawQuery = [], u_Fragment = []\<rparr>"
    by code_simp
  have v: "Contains ''h'' ''://'' = False" "EqualFold ''https'' ''https''" "TrimSpace ''t'' = ''t''"
    "JoinHostPort ''h'' ''8000'' = ''h:8000''" "host_Hostname ''h'' = ''h''" "host_Port ''h'' = []" "host_Port ''h:8000'' = ''8000''"
    "TrimSpace ''h'' = ''h''"
    by code_simp+
  let ?c = "class_DialConfig (sample_class p) sample_creds []"
  have c: "dc_Endpoint ?c = ''h''" "dc_RESTPort ?c = ''8000''" "dc_Credentials ?c = sample_creds" "dc_InsecureSkipVerify ?c = False"
    "dc_CABundlePEM ?c = []" "dc_ServerName ?c = []" "dc_UserAgent ?c = []"
    by (simp_all add: class_DialConfig_def sample_class_def)
  have k: "HasToken sample_creds" "cr_Token sample_creds = ''t''" using v(3) by (simp_all add: HasToken_def sample_creds_def)
  have e: "''https://'' @ ''h'' = ''https://h''" "(''h'' = []) = False" "(''8000'' = []) = False" "(''https:8000'' = []) = False" by simp_all
  show ?thesis
    unfolding NewConnection_def Let_def c k v e
    by (simp only: simp_thms if_True if_False e u option.case URL.select_convs URL.update_convs url_Hostname_def url_Port_def v sample_ports k) (simp add: k v)
qed

lemma NewConnection_secure_witness: "EqualFold ''https'' ''https'' \<or> EqualFold ''https'' ''http''"
  using NewConnection_secure [OF sample_dialled [of True]] by auto

lemma Cache_reachable_ok_witness:
  "cache_hit ''k'' 1 \<lparr>ca_max = 16, ca_entries = [(''k'', 5 :: nat, 0)]\<rparr> = Some (5, \<lparr>ca_max = 16, ca_entries = [(''k'', 5, 1)]\<rparr>) \<and> 5 = (5 :: nat)"
proof -
  let ?d = "\<lambda>k x. x = (5 :: nat)"
  have 1: "cache_step ?d (NewCache 16, []) (NewCache 16, [''k''])" by (rule miss [where now = 0]) (simp_all add: cache_hit_def NewCache_def)
  have "cache_step ?d (NewCache 16, [''k'']) (\<lparr>ca_max = 16, ca_entries = [(''k'', 5, 0)]\<rparr>, remove1 ''k'' [''k''])"
    by (rule stored [where now = 0 and x = 5 and conn = 5]) (simp_all add: cache_store_def NewCache_def)
  then have 2: "(cache_step ?d)\<^sup>*\<^sup>* (NewCache 16, [''k'']) (\<lparr>ca_max = 16, ca_entries = [(''k'', 5, 0)]\<rparr>, [])" by simp
  from 1 2 have "(cache_step ?d)\<^sup>*\<^sup>* (NewCache 16, []) (\<lparr>ca_max = 16, ca_entries = [(''k'', 5, 0)]\<rparr>, [])"
    by (rule converse_rtranclp_into_rtranclp)
  from Cache_reachable_ok [OF this] show ?thesis by (auto simp: cache_hit_def touch_def)
qed

lemma Get_then_hit_witness: "\<exists>c''. cache_hit ''k'' 3 (snd (Get ''k'' (Inr (5 :: nat)) 1 2 (NewCache 16))) = Some (5, c'')"
proof -
  have g: "Get ''k'' (Inr (5 :: nat)) 1 2 (NewCache 16) = (Inr 5, snd (Get ''k'' (Inr (5 :: nat)) 1 2 (NewCache 16)))"
    by (simp add: Get_def cache_hit_def cache_store_def NewCache_def)
  show ?thesis using Get_then_hit [OF g, of "\<lambda>_ x. x = 5"] by (simp add: cache_ok_def NewCache_def)
qed

section \<open>The driver\<close>

definition sample_semver :: "nat semver" where
  "sample_semver = \<lparr>sv_NewVersion = (\<lambda>s. Some (length s)), sv_LessThan = (<), sv_String = (\<lambda>_. [])\<rparr>"

definition sample_cosi :: "nat CosiDriver" where
  "sample_cosi = \<lparr>d_cfg = sample_driver, d_proc = sample_process, d_pem_ok = (\<lambda>_. False),
     d_conn = (\<lambda>_. always (Http 404 [] [] None)), d_sv = sample_semver, d_cleanup = (\<lambda>_. None)\<rparr>"

text \<open>A connection that has already learned the version and that S3 is enabled.\<close>

definition warm_world :: world where
  "warm_world = world0\<lparr>w_version := ''7.2.0'', w_s3settings := Some \<lparr>s3_Enabled = True, s3_BasePath = [], s3_HTTPS = True, s3_Port = 9000\<rparr>\<rparr>"

lemma warm_world_sel [simp]: "w_bearer warm_world = ''t''" "w_version warm_world = ''7.2.0''"
    "w_s3settings warm_world = Some \<lparr>s3_Enabled = True, s3_BasePath = [], s3_HTTPS = True, s3_Port = 9000\<rparr>"
  by (simp_all add: warm_world_def)

definition legacy_bucket :: BucketID where
  "legacy_bucket = \<lparr>bid_Endpoint = ''h'', bid_RESTPort = ''8000'', bid_BucketName = ''b'', bid_RootPath = [], bid_RootFileID = [], bid_Managed = False\<rparr>"

lemma legacy_parsed: "ParseBucketID ''q1:qumulo:h:8000:b'' = Inr legacy_bucket"
  unfolding legacy_bucket_def by code_simp

lemma DriverDeleteBucket_unmanaged_retains_witness:
  "sends (\<lambda>rq. rq_method rq = ''GET'' \<or> rq = bucket_delete ''b'' False) (DriverDeleteBucket sample_cosi ''q1:qumulo:h:8000:b'' purge_params)"
  using DriverDeleteBucket_unmanaged_retains [OF legacy_parsed] by (simp add: legacy_bucket_def)

lemma DriverDeleteBucket_targets_witness:
  "sends (\<lambda>rq. rq_method rq = ''GET'' \<or> (\<exists>drd. rq = bucket_delete ''b'' drd) \<or> (\<exists>u. rq = upload_delete ''b'' u) \<or> rq = job_post ''7'')
    (DriverDeleteBucket sample_cosi ''q3:qumulo:h:8000:b:%2Fk%2Fb:7:managed'' purge_params)"
  using DriverDeleteBucket_targets [OF sample_parsed, of sample_cosi purge_params] by (simp add: sample_bucket_def)


lemma sample_same_cluster: "sameClusterEndpoint ''h'' ''8000'' ''h'' ''8000''"
  by code_simp

lemma sample_bound: "bindClassToDriverEndpoint sample_cosi (sample_class p) = Inr (sample_class p)"
  "bindClassToBucketID (sample_class p) sample_bucket = Inr (sample_class p)"
  by (simp_all add: bindClassToDriverEndpoint_def bindClassToBucketID_def sample_cosi_def sample_driver_sel sample_class_def sample_bucket_def
      sample_same_cluster sample_values Let_def or_default_def)

lemma sample_cleanup: "classFromCleanup sample_cosi purge_params = Inr (sample_class True)"
proof -
  have "filter (\<lambda>kv. fst kv \<in> set classParameterKeys) purge_params = purge_params"
    by (simp add: classParameterKeys_def purge_params_def)
  then have "ParseClassForCleanup purge_params sample_driver = Inr (sample_class True)"
    using sample_class_parsed' by (simp add: ParseClassForCleanup_def)
  then show ?thesis using sample_bound by (simp add: classFromCleanup_def and_then_def sample_cosi_def)
qed

lemma sample_connection: "connection_for sample_cosi (sample_class p) = Inr (always (Http 404 [] [] None))"
proof -
  have h: "host_Hostname ''h:8000'' = ''h''" "host_Port ''h:8000'' = ''8000''" by code_simp+
  have "cl_Endpoint (sample_class p) \<noteq> []" by (simp add: sample_class_def)
  moreover have "d_proc sample_cosi = sample_process" "d_cfg sample_cosi = sample_driver" "d_pem_ok sample_cosi = (\<lambda>_. False)"
    "d_conn sample_cosi k = always (Http 404 [] [] None)" for k
    by (simp_all add: sample_cosi_def)
  ultimately show ?thesis
    by (simp add: connection_for_def sample_resolved sample_dialled h Let_def)
      (simp add: static_conn_def const_conn_def sample_creds_def)
qed

lemma DriverDeleteBucket_purge_success_witness: "\<exists>es. purged sample_bucket es"
proof -
  have floor: "CheckFloor sample_semver ''7.2.0'' [] = Inr ()"
  proof -
    have "core_version_text ''7.2.0'' = ''7.2.0''" by code_simp
    then show ?thesis
      by (simp add: CheckFloor_def ParseCoreVersion_def DefaultFloor_def AbsoluteMinimum_def TrimPrefix_def HasPrefix_def sample_semver_def)
  qed
  have sel: "bid_RootPath sample_bucket = ''/k/b''" "bid_RootFileID sample_bucket = ''7''" "bid_Managed sample_bucket"
    "cl_PurgeOnDelete (sample_class True)" "dr_VersionFloor (d_cfg sample_cosi) = []" "d_sv sample_cosi = sample_semver"
    by (simp_all add: sample_bucket_def sample_class_def sample_cosi_def sample_driver_sel)
  have root: "validatePurgeRoot ''/k/b'' = Inr ()" by code_simp
  have "fst (run_state (DriverDeleteBucket sample_cosi ''q3:qumulo:h:8000:b:%2Fk%2Fb:7:managed'' purge_params) warm_world) = Inr ()"
    by (simp add: DriverDeleteBucket_def sample_parsed sample_cleanup sample_bound with_connection_def sample_connection sel as_status_def
        EnsureVersion_def Version_def RequireS3Enabled_def GetS3Settings_def floor lift_res_def delete_bucket_def delete_purge_def
        GetBucket_def ListBuckets_def purge_resume_def root GetFileAttributes_def run_simps run_404)
  from DriverDeleteBucket_purge_success [OF sample_parsed _ _ _ sample_cleanup _ fst_run [OF this]] show ?thesis by (auto simp: sel)
qed

lemma sample_account_parsed: "ParseAccountID (AccountID_String sample_account) = Inr sample_account"
  by (rule ParseAccountID_String) (simp add: wf_AccountID_def sample_account_def)

lemma sample_recorded: "bid_RootPath sample_bucket \<noteq> []" "bid_RootFileID sample_bucket \<noteq> []" "aid_AuthID sample_account \<noteq> []"
  by (simp_all add: sample_bucket_def sample_account_def)

lemma DriverRevokeBucketAccess_targets_witness:
  "sends (\<lambda>rq. rq_method rq = ''GET'' \<or> (\<exists>k. rq = key_delete k) \<or> (\<exists>etag p. rq = policy_put ''b'' etag p) \<or>
      (\<exists>acl. rq = acl_put ''/k/b'' acl) \<or> rq = mode_patch ''/k/b'' [] \<or> rq = user_delete ''7'')
    (DriverRevokeBucketAccess sample_cosi ''q3:qumulo:h:8000:b:%2Fk%2Fb:7:managed'' (AccountID_String sample_account) [])"
  using DriverRevokeBucketAccess_targets [OF sample_parsed sample_account_parsed sample_recorded, of sample_cosi "[]"]
  by (simp add: sample_bucket_def sample_account_def)




end
