(* ===== verification/Csi_Config.thy ===== *)
theory Csi_Config
  imports Config_Class Conn_Cache Users_Keys
begin

text \<open>
  \<^verbatim>\<open>internal/csidriver/config.go\<close>: the configuration of a CSI process and the parameters of a volume.  The parser of volume parameters is shown
  to be closed: a volume lies below its base path under a name of its own, is reachable only from networks that were named (or deliberately
  from all), and an SMB volume names its trustee.
\<close>

definition DefaultDriverName :: string where "DefaultDriverName = ''file.qumulo.com''"
definition DefaultControllerAddr :: string where "DefaultControllerAddr = ''unix:///csi/csi.sock''"
definition DefaultBasePath :: string where "DefaultBasePath = ''/k8s-volumes''"
definition DefaultVersionFloor :: string where "DefaultVersionFloor = ''7.2.0''"

record Config =
  cc_Name :: string
  cc_Version :: string
  cc_Address :: string
  cc_Mode :: string
  cc_NodeID :: string
  cc_Endpoint :: string
  cc_DataServer :: string
  cc_RESTPort :: string
  cc_BasePath :: string
  cc_VersionFloor :: string
  cc_CredentialsDir :: string
  cc_CAFile :: string
  cc_InsecureSkipTLSVerify :: bool
  cc_DefaultAllowedNetworks :: "string list"
  cc_StateDir :: string
  cc_KubeletRoot :: string
  cc_HandleKeyFile :: string
  cc_HandleKey :: bytes

section \<open>Addresses\<close>

definition endpointHost :: "string \<Rightarrow> string" where
  "endpointHost raw =
     (let raw = TrimRight (TrimPrefix (TrimPrefix (TrimSpace raw) ''https://'') ''http://'') ''/''
      in case SplitHostPort raw of Some (host, _) \<Rightarrow> Trim host ''[]'' | None \<Rightarrow> Trim raw ''[]'')"

definition sameEndpoint :: "string \<Rightarrow> string \<Rightarrow> bool" where
  "sameEndpoint a b \<longleftrightarrow> EqualFold (endpointHost a) (endpointHost b)"

definition configuredRESTPort :: "string \<Rightarrow> string \<Rightarrow> string res" where
  "configuredRESTPort endpoint fallback =
     (let raw = TrimSpace endpoint; raw = (if \<not> Contains raw ''://'' then ''https://'' @ raw else raw)
      in case url_Parse raw of
           None \<Rightarrow> Inl (EMsg (''invalid Qumulo endpoint '' @ fmt_q endpoint))
         | Some u \<Rightarrow>
             if url_Hostname u = [] then Inl (EMsg (''invalid Qumulo endpoint '' @ fmt_q endpoint))
             else if u_Scheme u \<noteq> ''https'' then Inl (EMsg ''Qumulo endpoint must use HTTPS'')
             else if u_User u \<noteq> None \<or> (u_Path u \<noteq> [] \<and> u_Path u \<noteq> ''/'') \<or> u_RawQuery u \<noteq> [] \<or> u_Fragment u \<noteq> []
             then Inl (EMsg ''Qumulo endpoint must not contain credentials, a path, query, or fragment'')
             else
               (let port = (if url_Port u = [] then TrimSpace fallback else url_Port u); port = (if port = [] then DefaultRESTPort else port)
                in if ParseUint 10 16 port \<in> {None, Some 0} then Inl (EMsg (''Qumulo REST port '' @ fmt_q port @ '' is invalid''))
                   else Inr port))"

definition ip_ok :: "string \<Rightarrow> bool" where
  "ip_ok s \<longleftrightarrow> parse_ip4 s \<noteq> None \<or> parse_ip6 s \<noteq> None"

definition host_label :: "string \<Rightarrow> bool" where
  "host_label l \<longleftrightarrow> l \<noteq> [] \<and> length l \<le> 63 \<and> hd l \<noteq> CHR ''-'' \<and> last l \<noteq> CHR ''-'' \<and>
     list_all (\<lambda>r. is_lower r \<or> is_upper r \<or> is_digit r \<or> r = CHR ''-'') l"

definition validateDataServer :: "string \<Rightarrow> unit res" where
  "validateDataServer server =
     (let raw = TrimSpace server; host = Trim raw ''[]'';
          bad = Inl (EMsg (''Qumulo data server '' @ fmt_q server @ '' is invalid''))
      in if raw = [] \<or> ContainsAny raw [CHR ''/'', CHR 0x5C, CHR 0x00, CHR 0x0D, CHR 0x0A, CHR 0x09, CHR '' ''] \<or> Contains raw ''://''
            \<or> HasPrefix raw ''-'' then bad
         else if ip_ok host then Inr ()
         else if CHR '':'' \<in> set host \<or> length host > 253
         then Inl (EMsg (''Qumulo data server '' @ fmt_q server @ '' must be a hostname or IP address without a port''))
         else if list_all host_label (Split (TrimSuffix host ''.'') (CHR ''.'')) then Inr () else bad)"

definition parseCSIAddress :: "string \<Rightarrow> (string \<times> string) res" where
  "parseCSIAddress address =
     (let ctl = [CHR 0x00, CHR 0x0D, CHR 0x0A]
      in if HasPrefix address ''unix://'' then
           (let endpoint = TrimPrefix address ''unix://''
            in if \<not> HasPrefix endpoint ''/'' \<or> endpoint = ''/'' \<or> ContainsAny endpoint ctl
               then Inl (EMsg ''CSI Unix socket endpoint must be an absolute file path'') else Inr (''unix'', endpoint))
         else if HasPrefix address ''/'' \<and> address \<noteq> ''/'' \<and> \<not> ContainsAny address ctl then Inr (''unix'', address)
         else Inl (EMsg ''CSI endpoint must be an absolute Unix socket path or use unix://''))"

section \<open>The process\<close>

fun fields_on :: "(char \<Rightarrow> bool) \<Rightarrow> string \<Rightarrow> string \<Rightarrow> string list" where
  "fields_on f acc [] = (if acc = [] then [] else [rev acc])"
| "fields_on f acc (c # s) =
     (if f c then (if acc = [] then fields_on f [] s else rev acc # fields_on f [] s) else fields_on f (c # acc) s)"

definition splitList :: "string \<Rightarrow> string list" where
  "splitList raw = filter (\<lambda>i. i \<noteq> []) (map TrimSpace (fields_on (\<lambda>r. r = CHR '','' \<or> r = CHR '';'') [] raw))"

definition firstEnv :: "(string \<Rightarrow> string) \<Rightarrow> string \<Rightarrow> string \<Rightarrow> string" where
  "firstEnv env key fallback = (if TrimSpace (env key) \<noteq> [] then TrimSpace (env key) else fallback)"

definition envBool :: "(string \<Rightarrow> string) \<Rightarrow> string \<Rightarrow> bool \<Rightarrow> bool" where
  "envBool env key fallback =
     (let raw = TrimSpace (env key)
      in if raw = [] then fallback else case ParseBool raw of None \<Rightarrow> fallback | Some b \<Rightarrow> b)"

definition ConfigFromEnv :: "(string \<Rightarrow> string) \<Rightarrow> string \<Rightarrow> Config" where
  "ConfigFromEnv env version =
     (let endpoint = TrimSpace (env ''QUMULO_ENDPOINT'');
          dataServer = TrimSpace (env ''QUMULO_DATA_SERVER'');
          dataServer = (if dataServer = [] then endpointHost endpoint else dataServer)
      in \<lparr>cc_Name = firstEnv env ''QUMULO_CSI_DRIVER_NAME'' DefaultDriverName,
          cc_Version = version,
          cc_Address = firstEnv env ''CSI_ENDPOINT'' DefaultControllerAddr,
          cc_Mode = firstEnv env ''QUMULO_CSI_MODE'' ''controller'',
          cc_NodeID = TrimSpace (env ''NODE_ID''),
          cc_Endpoint = endpoint,
          cc_DataServer = dataServer,
          cc_RESTPort = firstEnv env ''QUMULO_REST_PORT'' DefaultRESTPort,
          cc_BasePath = firstEnv env ''QUMULO_CSI_BASE_PATH'' DefaultBasePath,
          cc_VersionFloor = firstEnv env ''QUMULO_VERSION_FLOOR'' DefaultVersionFloor,
          cc_CredentialsDir = firstEnv env ''QUMULO_CREDENTIALS_DIR'' ''/etc/qumulo/credentials'',
          cc_CAFile = TrimSpace (env ''QUMULO_CA_FILE''),
          cc_InsecureSkipTLSVerify = envBool env ''QUMULO_INSECURE_SKIP_TLS_VERIFY'' False,
          cc_DefaultAllowedNetworks = splitList (env ''QUMULO_CSI_ALLOWED_NETWORKS''),
          cc_StateDir = firstEnv env ''QUMULO_CSI_STATE_DIR'' ''/var/lib/qumulo-csi'',
          cc_KubeletRoot = firstEnv env ''KUBELET_ROOT_DIR'' ''/var/lib/kubelet'',
          cc_HandleKeyFile = firstEnv env ''QUMULO_CSI_HANDLE_KEY_FILE'' ''/etc/qumulo/handle-key/key'',
          cc_HandleKey = []\<rparr>)"

definition LoadHandleKey :: "process \<Rightarrow> Config \<Rightarrow> Config res" where
  "LoadHandleKey pr cfg =
     (if length (cc_HandleKey cfg) \<ge> 32 then Inr cfg
      else if cc_HandleKeyFile cfg = [] then Inl (EMsg ''CSI handle signing key file is required'')
      else case pr_file pr (cc_HandleKeyFile cfg) of
          Content raw \<Rightarrow>
            if length (TrimSpace raw) < 32 then Inl (EMsg ''CSI handle signing key must contain at least 32 bytes'')
            else Inr (cfg\<lparr>cc_HandleKey := TrimSpace raw\<rparr>)
        | _ \<Rightarrow> Inl (EMsg ''read CSI handle signing key''))"

definition network_rule_ok :: "string \<Rightarrow> bool" where
  "network_rule_ok rule \<longleftrightarrow>
     rule \<noteq> [] \<and> length rule \<le> 255 \<and> \<not> ContainsAny rule [CHR 0x00, CHR 0x0D, CHR 0x0A, CHR 0x09, CHR '' '', CHR '','']"

definition validateNetworkRules :: "string list \<Rightarrow> unit res" where
  "validateNetworkRules rules =
     (case find (\<lambda>r. \<not> network_rule_ok r) rules of
        Some rule \<Rightarrow> Inl (EMsg (''invalid allowedNetworks entry '' @ fmt_q rule))
      | None \<Rightarrow> Inr ())"

definition Validate :: "Config \<Rightarrow> Config res" where
  "Validate c =
     (if TrimSpace (cc_Name c) = [] then Inl (EMsg ''CSI driver name is required'')
      else if cc_Mode c \<notin> set [''controller'', ''node'', ''all''] then Inl (EMsg (''invalid CSI service mode '' @ fmt_q (cc_Mode c)))
      else if length (cc_HandleKey c) < 32 then Inl (EMsg ''CSI handle signing key is unavailable'')
      else
        and_then (parseCSIAddress (cc_Address c)) (\<lambda>_.
        and_then (configuredRESTPort (cc_Endpoint c) (cc_RESTPort c)) (\<lambda>port.
        let c = c\<lparr>cc_RESTPort := port\<rparr>;
            c = (if TrimSpace (cc_DataServer c) = [] then c\<lparr>cc_DataServer := endpointHost (cc_Endpoint c)\<rparr> else c)
        in and_then (validateDataServer (cc_DataServer c)) (\<lambda>_.
           let c = c\<lparr>cc_BasePath := path_Clean (TrimSpace (cc_BasePath c))\<rparr>; node = cc_Mode c = ''node'' \<or> cc_Mode c = ''all''
           in if \<not> HasPrefix (cc_BasePath c) ''/'' \<or> cc_BasePath c = ''/'' then Inl (EMsg ''CSI base path must be an absolute non-root path'')
              else and_then (validateNetworkRules (cc_DefaultAllowedNetworks c)) (\<lambda>_.
                if node \<and> TrimSpace (cc_NodeID c) = [] then Inl (EMsg ''node ID is required in node mode'')
                else
                  (let kubeletRoot = path_Clean (cc_KubeletRoot c); stateDir = path_Clean (cc_StateDir c)
                   in if node \<and> (\<not> HasPrefix kubeletRoot ''/'' \<or> kubeletRoot = ''/'' \<or> \<not> HasPrefix stateDir ''/'' \<or> stateDir = ''/'')
                      then Inl (EMsg ''kubelet root and CSI state directory must be absolute, non-root Linux paths'')
                      else Inr c))))))"

section \<open>Volume parameters\<close>

type_synonym protocol = string

definition protocolNFS :: protocol where "protocolNFS = ''nfs''"
definition protocolSMB :: protocol where "protocolSMB = ''smb''"

record volumeOptions =
  vo_RequestName :: string
  vo_Parameters :: params
  vo_Protocol :: protocol
  vo_Endpoint :: string
  vo_Server :: string
  vo_RESTPort :: string
  vo_FSPath :: string
  vo_ResourceName :: string
  vo_DirectoryMode :: string
  vo_AllowedNetworks :: "string list"
  vo_AllowAllHosts :: bool
  vo_QuotaEnabled :: bool
  vo_DeleteData :: bool
  vo_NFSExportPath :: string
  vo_NFSRequirePrivileged :: bool
  vo_NFSVersion :: string
  vo_NFSRootSquash :: bool
  vo_NFSAnonymousUID :: string
  vo_NFSAnonymousGID :: string
  vo_SMBRequireEncryption :: bool
  vo_SMBAccessBasedEnum :: bool
  vo_SMBAllowAllUsers :: bool
  vo_SMBTrustee :: Identity
  vo_RequestedCapacity :: int
  vo_CapacityLimit :: int

text \<open>The loop of \<open>volumeResourceName\<close>, with the text built so far.\<close>

fun resource_loop :: "string \<Rightarrow> string \<Rightarrow> bool \<Rightarrow> string" where
  "resource_loop [] b lastDash = b"
| "resource_loop (r # rs) b lastDash =
     (if lower_alnum r then resource_loop rs (b @ [r]) False
      else if \<not> lastDash \<and> b \<noteq> [] then resource_loop rs (b @ ''-'') True
      else resource_loop rs b lastDash)"

definition volumeResourceName :: "string \<Rightarrow> string" where
  "volumeResourceName name =
     (let base = Trim (resource_loop (ToLower name) [] False) ''-'';
          base = (if base = [] then ''volume'' else base);
          suffix = ''-'' @ hex_encode (take 16 (sha256 name));
          base = (if length base + length suffix > 63 then TrimRight (take (63 - length suffix) base) ''-'' else base)
      in base @ suffix)"

definition volumeParameterKeys :: "string list" where
  "volumeParameterKeys =
     [''protocol'', ''endpoint'', ''basePath'', ''allowedNetworks'', ''allowAllHosts'', ''directoryMode'', ''quotaEnabled'', ''deleteData'',
      ''tenantID'', ''nfsVersion'', ''nfsExportPrefix'', ''nfsRequirePrivilegedPort'', ''nfsRootSquash'', ''nfsAnonymousUID'', ''nfsAnonymousGID'',
      ''smbRequireEncryption'', ''smbAccessBasedEnumeration'', ''smbTrusteeAuthID'', ''smbTrusteeDomain'', ''smbTrusteeName'', ''allowAllSMBUsers'']"

definition kubernetesReservedParameterPrefix :: string where
  "kubernetesReservedParameterPrefix = ''csi.storage.k8s.io/''"

definition modePattern :: "string \<Rightarrow> bool" where
  "modePattern m \<longleftrightarrow> length m = 4 \<and> hd m = CHR ''0'' \<and> list_all (\<lambda>c. 48 \<le> ch c \<and> ch c \<le> 55) (tl m)"

definition validatedVolumePath :: "string \<Rightarrow> string \<Rightarrow> bool \<Rightarrow> string res" where
  "validatedVolumePath name value allowRoot =
     (if value = [] \<or> has_control value then Inl (EMsg (name @ '' '' @ fmt_q value @ '' must be a clean absolute POSIX path''))
      else (let clean = path_Clean value
            in if \<not> HasPrefix value ''/'' \<or> clean \<noteq> value \<or> (\<not> allowRoot \<and> clean = ''/'')
               then Inl (EMsg (name @ '' '' @ fmt_q value @ '' must be a clean '' @ (if allowRoot then ''absolute'' else ''absolute non-root'')
                      @ '' POSIX path''))
               else Inr clean))"

definition strictBool :: "params \<Rightarrow> string \<Rightarrow> bool \<Rightarrow> bool res" where
  "strictBool ps key def =
     (let raw = param ps key
      in if TrimSpace raw = [] then Inr def
         else case ParseBool (TrimSpace raw) of
             None \<Rightarrow> Inl (EMsg (''parameter '' @ key @ ''='' @ fmt_q raw @ '' is not a valid boolean''))
           | Some b \<Rightarrow> Inr b)"

definition firstParameter :: "params \<Rightarrow> string \<Rightarrow> string \<Rightarrow> string" where
  "firstParameter ps key fallback = (if TrimSpace (param ps key) \<noteq> [] then TrimSpace (param ps key) else fallback)"

text \<open>The endpoint parameter may only repeat the configured cluster.\<close>

definition check_endpoint :: "Config \<Rightarrow> params \<Rightarrow> string \<Rightarrow> unit res" where
  "check_endpoint cfg ps restPort =
     (let supplied = TrimSpace (param ps ''endpoint'')
      in if supplied = [] then Inr ()
         else case configuredRESTPort supplied restPort of
             Inl err \<Rightarrow> Inl (EWrap (''parameter endpoint '' @ fmt_q supplied @ '' is invalid: '') err [])
           | Inr suppliedPort \<Rightarrow>
               if \<not> sameEndpoint supplied (cc_Endpoint cfg) \<or> suppliedPort \<noteq> restPort
               then Inl (EMsg (''parameter endpoint '' @ fmt_q supplied @ '' does not match this driver's configured endpoint and REST port''))
               else Inr ())"

definition allowed_networks :: "Config \<Rightarrow> params \<Rightarrow> bool \<Rightarrow> string list res" where
  "allowed_networks cfg ps allowAll =
     (let allowed = splitList (param ps ''allowedNetworks'')
      in if allowAll \<and> allowed \<noteq> [] then Inl (EMsg ''allowAllHosts cannot be combined with allowedNetworks'')
         else
           (let allowed = (if allowed = [] \<and> \<not> allowAll then cc_DefaultAllowedNetworks cfg else allowed)
            in if allowed = [] \<and> \<not> allowAll
               then Inl (EMsg ''allowedNetworks is required; set allowAllHosts=true only for an intentionally public storage network'')
               else and_then (validateNetworkRules allowed) (\<lambda>_. Inr allowed)))"

definition smb_trustee :: "params \<Rightarrow> bool \<Rightarrow> Identity res" where
  "smb_trustee ps allowAllSMBUsers =
     (let authID = TrimSpace (param ps ''smbTrusteeAuthID''); domain = TrimSpace (param ps ''smbTrusteeDomain'');
          trusteeName = TrimSpace (param ps ''smbTrusteeName'')
      in if ContainsAny (authID @ domain @ trusteeName) [CHR 0x00, CHR 0x0D, CHR 0x0A]
         then Inl (EMsg ''SMB trustee contains a control character'')
         else if allowAllSMBUsers then
           (if authID \<noteq> [] \<or> domain \<noteq> [] \<or> trusteeName \<noteq> []
            then Inl (EMsg ''allowAllSMBUsers cannot be combined with an SMB trustee'')
            else Inr (no_identity\<lparr>id_Domain := ''WORLD'', id_Name := ''Everyone''\<rparr>))
         else if authID \<noteq> [] then
           (if domain \<noteq> [] \<or> trusteeName \<noteq> []
            then Inl (EMsg ''smbTrusteeAuthID cannot be combined with smbTrusteeDomain or smbTrusteeName'')
            else Inr (no_identity\<lparr>id_AuthID := authID\<rparr>))
         else if domain = [] \<or> trusteeName = []
         then Inl (EMsg ''SMB volumes require smbTrusteeAuthID or both smbTrusteeDomain and smbTrusteeName; use allowAllSMBUsers=true only for an intentionally shared identity boundary'')
         else Inr (no_identity\<lparr>id_Domain := domain, id_Name := trusteeName\<rparr>))"

definition anonymous_ids_ok :: "string \<Rightarrow> string \<Rightarrow> unit res" where
  "anonymous_ids_ok uid gid =
     (if ParseUint 10 32 uid = None then Inl (EMsg (''nfsAnonymousUID '' @ fmt_q uid @ '' must be an unsigned 32-bit integer''))
      else if ParseUint 10 32 gid = None then Inl (EMsg (''nfsAnonymousGID '' @ fmt_q gid @ '' must be an unsigned 32-bit integer''))
      else Inr ())"

definition data_server :: "Config \<Rightarrow> string res" where
  "data_server cfg =
     (let server = TrimSpace (cc_DataServer cfg); server = (if server = [] then endpointHost (cc_Endpoint cfg) else server)
      in if server = [] then Inl (EMsg ''Qumulo data server is required'')
         else and_then (validateDataServer server) (\<lambda>_. Inr server))"

definition parseVolumeOptions :: "Config \<Rightarrow> string \<Rightarrow> params \<Rightarrow> volumeOptions res" where
  "parseVolumeOptions cfg name ps =
     (case find (\<lambda>kv. \<not> HasPrefix (fst kv) kubernetesReservedParameterPrefix \<and> fst kv \<notin> set volumeParameterKeys) ps of
        Some kv \<Rightarrow> Inl (EMsg (''unknown CSI volume parameter '' @ fmt_q (fst kv)))
      | None \<Rightarrow>
        (let proto = ToLower (TrimSpace (param ps ''protocol''))
         in if proto \<noteq> protocolNFS \<and> proto \<noteq> protocolSMB then Inl (EMsg ''parameter protocol must be nfs or smb'')
            else if TrimSpace (cc_Endpoint cfg) = [] then Inl (EMsg ''Qumulo endpoint is required'')
            else
              and_then (configuredRESTPort (cc_Endpoint cfg) (cc_RESTPort cfg)) (\<lambda>restPort.
              and_then (check_endpoint cfg ps restPort) (\<lambda>_.
              let resourceName = volumeResourceName name
              in
              and_then (validatedVolumePath ''basePath'' (or_default (param ps ''basePath'') (cc_BasePath cfg)) False) (\<lambda>base.
              let mode = firstParameter ps ''directoryMode'' ''0777''
              in if \<not> modePattern mode then Inl (EMsg (''directoryMode '' @ fmt_q mode @ '' must be a four-digit octal mode''))
                 else
              and_then (strictBool ps ''allowAllHosts'' False) (\<lambda>allowAll.
              and_then (allowed_networks cfg ps allowAll) (\<lambda>allowed.
              and_then (strictBool ps ''quotaEnabled'' True) (\<lambda>quota.
              and_then (strictBool ps ''deleteData'' True) (\<lambda>deleteData.
              and_then (strictBool ps ''nfsRequirePrivilegedPort'' False) (\<lambda>requirePrivileged.
              and_then (strictBool ps ''smbRequireEncryption'' True) (\<lambda>requireEncryption.
              and_then (strictBool ps ''smbAccessBasedEnumeration'' True) (\<lambda>accessBasedEnum.
              and_then (strictBool ps ''nfsRootSquash'' True) (\<lambda>rootSquash.
              and_then (strictBool ps ''allowAllSMBUsers'' False) (\<lambda>allowAllSMBUsers.
              if TrimSpace (param ps ''tenantID'') \<noteq> []
              then Inl (EMsg ''tenantID requires the preview v3 share APIs of Qumulo and is not supported by this stable v2 driver'')
              else
              and_then (validatedVolumePath ''nfsExportPrefix'' (or_default (param ps ''nfsExportPrefix'') ''/k8s'') True) (\<lambda>nfsPrefix.
              let nfsVersion = firstParameter ps ''nfsVersion'' ''4.1'';
                  anonymousUID = firstParameter ps ''nfsAnonymousUID'' ''65534''; anonymousGID = firstParameter ps ''nfsAnonymousGID'' ''65534''
              in if nfsVersion \<noteq> ''3'' \<and> nfsVersion \<noteq> ''4.1'' then Inl (EMsg (''nfsVersion '' @ fmt_q nfsVersion @ '' is unsupported; use 3 or 4.1''))
                 else
              and_then (if proto = protocolNFS \<and> rootSquash then anonymous_ids_ok anonymousUID anonymousGID else Inr ()) (\<lambda>_.
              and_then (if proto = protocolSMB then smb_trustee ps allowAllSMBUsers else Inr no_identity) (\<lambda>smbTrustee.
              and_then (data_server cfg) (\<lambda>server.
                Inr \<lparr>vo_RequestName = name, vo_Parameters = ps, vo_Protocol = proto, vo_Endpoint = cc_Endpoint cfg, vo_Server = server,
                     vo_RESTPort = restPort, vo_FSPath = path_Join [base, proto, resourceName], vo_ResourceName = resourceName,
                     vo_DirectoryMode = mode, vo_AllowedNetworks = allowed, vo_AllowAllHosts = allowAll, vo_QuotaEnabled = quota,
                     vo_DeleteData = deleteData, vo_NFSExportPath = path_Join [nfsPrefix, resourceName],
                     vo_NFSRequirePrivileged = requirePrivileged, vo_NFSVersion = nfsVersion, vo_NFSRootSquash = rootSquash,
                     vo_NFSAnonymousUID = anonymousUID, vo_NFSAnonymousGID = anonymousGID, vo_SMBRequireEncryption = requireEncryption,
                     vo_SMBAccessBasedEnum = accessBasedEnum, vo_SMBAllowAllUsers = allowAllSMBUsers, vo_SMBTrustee = smbTrustee,
                     vo_RequestedCapacity = 0, vo_CapacityLimit = 0\<rparr>))))))))))))))))))"

section \<open>Resource names are legal and tied to the request\<close>

lemma resource_loop_chars: "list_all name_char b \<Longrightarrow> list_all name_char (resource_loop rs b l)"
  by (induction rs b l rule: resource_loop.induct) (simp_all add: name_char_def)

lemma list_all_subset: "list_all P s \<Longrightarrow> set t \<subseteq> set s \<Longrightarrow> list_all P t"
  by (auto simp: list_all_iff)

definition resource_base :: "string \<Rightarrow> string" where
  "resource_base name = (let b = Trim (resource_loop (ToLower name) [] False) ''-'' in if b = [] then ''volume'' else b)"

lemma resource_base_ok: "list_all name_char (resource_base name) \<and> resource_base name \<noteq> [] \<and> hd (resource_base name) \<noteq> CHR ''-''"
proof -
  let ?l = "resource_loop (ToLower name) [] False"
  have "list_all name_char (Trim ?l ''-'')" using resource_loop_chars [of "[]"] by (intro list_all_subset [OF _ set_Trim]) simp
  then show ?thesis
    using hd_Trim [of ?l "''-''"] by (auto simp: resource_base_def Let_def name_char_def lower_alnum_def is_lower_def)
qed

lemma digest_suffix:
  "length (hex_encode (take 16 (sha256 name))) = 32" "list_all lower_alnum (hex_encode (take 16 (sha256 name)))"
  using hex_encode_hex by (simp, fastforce simp: list_all_iff)

lemma volumeResourceName_parts:
  "\<exists>b. volumeResourceName name = b @ ''-'' @ hex_encode (take 16 (sha256 name)) \<and> b \<noteq> [] \<and> length b \<le> 30 \<and>
     list_all name_char b \<and> hd b \<noteq> CHR ''-''"
proof -
  let ?b = "resource_base name"
  let ?t = "TrimRight (take 30 ?b) ''-''"
  note b = resource_base_ok [of name]
  have pre: "set (take 30 ?b) \<subseteq> set ?b" by (rule set_take_subset)
  have hd_take: "hd ?b \<in> set (take 30 ?b)" using b by (cases ?b) simp_all
  have tne: "?t \<noteq> []"
  proof
    assume "?t = []"
    then have "hd ?b \<in> set ''-''" using hd_take unfolding TrimRight_def by (metis dropWhile_eq_Nil_conv rev_is_Nil_conv set_rev)
    then show False using b by simp
  qed
  have t: "list_all name_char ?t" using set_TrimRight [of "take 30 ?b" "''-''"] pre b by (metis list_all_subset subset_trans)
  have h: "hd ?t \<noteq> CHR ''-''" using b hd_TrimRight [OF tne] by simp
  have len: "length ?t \<le> 30" using length_TrimRight [of "take 30 ?b" "''-''"] by simp
  have shape: "volumeResourceName name = (if length ?b + 33 > 63 then ?t else ?b) @ ''-'' @ hex_encode (take 16 (sha256 name))"
    unfolding volumeResourceName_def resource_base_def Let_def by (simp add: digest_suffix)
  show ?thesis
  proof (cases "length ?b + 33 > 63")
    case True then show ?thesis using shape t h len tne by auto
  next
    case False
    then have "volumeResourceName name = ?b @ ''-'' @ hex_encode (take 16 (sha256 name))" "length ?b \<le> 30" using shape by simp_all
    then show ?thesis using b by blast
  qed
qed

text \<open>The name of a volume's directory, export and share is a legal bucket name of at most 63 characters that ends with 128 bits of the digest of
  the request's name, whatever that name is; in particular it is one plain path component.\<close>

lemma resource_legal: "legal_bucket (volumeResourceName name)"
proof -
  obtain b where b: "volumeResourceName name = b @ ''-'' @ hex_encode (take 16 (sha256 name))" "b \<noteq> []" "length b \<le> 30"
    "list_all name_char b" "hd b \<noteq> CHR ''-''" using volumeResourceName_parts by blast
  let ?h = "hex_encode (take 16 (sha256 name))"
  have h: "?h \<noteq> []" "list_all name_char ?h" "last ?h \<noteq> CHR ''-''"
  proof -
    show ne: "?h \<noteq> []" using digest_suffix(1) [of name] by (metis list.size(3) zero_neq_numeral)
    show "list_all name_char ?h" using digest_suffix(2) [of name] by (auto simp: list_all_iff name_char_def)
    have "lower_alnum (last ?h)" using digest_suffix(2) [of name] last_in_set [OF ne] by (auto simp: list_all_iff)
    then show "last ?h \<noteq> CHR ''-''" by (auto simp: lower_alnum_def is_lower_def is_digit_def)
  qed
  have "legal_bucket (b @ ''-'' @ ?h)"
    using b h digest_suffix(1) [of name] by (simp add: legal_bucket_def name_char_def [of "CHR ''-''"])
  then show ?thesis using b(1) by simp
qed

lemma resource_plain: "plain_seg (volumeResourceName name)"
proof -
  obtain b where b: "volumeResourceName name = b @ ''-'' @ hex_encode (take 16 (sha256 name))" "list_all name_char b"
    using volumeResourceName_parts by blast
  have "list_all name_char (volumeResourceName name)"
    using b digest_suffix(2) [of name] by (auto simp: list_all_iff name_char_def)
  then have "CHR ''/'' \<notin> set (volumeResourceName name)"
    by (auto simp: list_all_iff name_char_def lower_alnum_def is_lower_def is_digit_def)
  moreover have "length (volumeResourceName name) > 2" using b(1) digest_suffix(1) [of name] by simp
  ultimately show ?thesis by (auto simp: plain_seg_def)
qed

section \<open>The parameters of a volume are closed\<close>

text \<open>A clean absolute path other than the root.\<close>

definition volume_base :: "string \<Rightarrow> bool" where
  "volume_base b \<longleftrightarrow> HasPrefix b ''/'' \<and> path_Clean b = b \<and> b \<noteq> ''/'' \<and> \<not> has_control b"

lemma validatedVolumePath_Inr:
  "validatedVolumePath n v r = Inr b \<Longrightarrow> b = v \<and> HasPrefix b ''/'' \<and> path_Clean b = b \<and> (\<not> r \<longrightarrow> b \<noteq> ''/'') \<and> \<not> has_control b"
  by (auto simp: validatedVolumePath_def Let_def split: if_splits)

lemma validateNetworkRules_Inr: "validateNetworkRules rs = Inr u \<longleftrightarrow> list_all network_rule_ok rs"
proof -
  have "validateNetworkRules rs = Inr u \<longleftrightarrow> find (\<lambda>r. \<not> network_rule_ok r) rs = None"
    by (simp add: validateNetworkRules_def split: option.split)
  also have "\<dots> \<longleftrightarrow> list_all network_rule_ok rs" by (auto simp: find_None_iff list_all_iff)
  finally show ?thesis .
qed

lemma allowed_networks_Inr:
  assumes "allowed_networks cfg ps allowAll = Inr nets"
  shows "list_all network_rule_ok nets \<and> (allowAll \<longleftrightarrow> nets = [])"
proof (cases "splitList (param ps ''allowedNetworks'') = []")
  case True
  then show ?thesis using assms
    by (cases allowAll; cases "cc_DefaultAllowedNetworks cfg = []") (auto simp: allowed_networks_def Let_def and_then_Inr validateNetworkRules_Inr)
next
  case False
  then show ?thesis using assms by (cases allowAll) (auto simp: allowed_networks_def Let_def and_then_Inr validateNetworkRules_Inr)
qed

definition named_trustee :: "Identity \<Rightarrow> bool" where
  "named_trustee t \<longleftrightarrow> id_AuthID t \<noteq> [] \<or> id_Domain t \<noteq> [] \<and> id_Name t \<noteq> []"

lemma smb_trustee_Inr:
  assumes "smb_trustee ps allowAll = Inr t"
  shows "named_trustee t \<and> (allowAll \<longrightarrow> id_Name t = ''Everyone'')"
  using assms by (auto simp: smb_trustee_def Let_def named_trustee_def no_identity_def split: if_splits)

lemma plain_protocol: "proto = protocolNFS \<or> proto = protocolSMB \<Longrightarrow> plain_seg proto"
  by (auto simp: protocolNFS_def protocolSMB_def plain_seg_def)

text \<open>What every accepted set of parameters guarantees.\<close>

lemma parseVolumeOptions_Inr:
  assumes "parseVolumeOptions cfg name ps = Inr opts"
  obtains base prefix where
    "vo_Protocol opts = protocolNFS \<or> vo_Protocol opts = protocolSMB"
    "validatedVolumePath ''basePath'' (or_default (param ps ''basePath'') (cc_BasePath cfg)) False = Inr base"
    "validatedVolumePath ''nfsExportPrefix'' (or_default (param ps ''nfsExportPrefix'') ''/k8s'') True = Inr prefix"
    "vo_FSPath opts = path_Join [base, vo_Protocol opts, volumeResourceName name]"
    "vo_NFSExportPath opts = path_Join [prefix, volumeResourceName name]"
    "vo_ResourceName opts = volumeResourceName name" "vo_RequestName opts = name" "vo_Parameters opts = ps"
    "allowed_networks cfg ps (vo_AllowAllHosts opts) = Inr (vo_AllowedNetworks opts)"
    "vo_Protocol opts = protocolSMB \<longrightarrow> smb_trustee ps (vo_SMBAllowAllUsers opts) = Inr (vo_SMBTrustee opts)"
    "configuredRESTPort (cc_Endpoint cfg) (cc_RESTPort cfg) = Inr (vo_RESTPort opts)" "vo_Endpoint opts = cc_Endpoint cfg"
    "data_server cfg = Inr (vo_Server opts)" "modePattern (vo_DirectoryMode opts)"
    "find (\<lambda>kv. \<not> HasPrefix (fst kv) kubernetesReservedParameterPrefix \<and> fst kv \<notin> set volumeParameterKeys) ps = None"
proof -
  have none: "find (\<lambda>kv. \<not> HasPrefix (fst kv) kubernetesReservedParameterPrefix \<and> fst kv \<notin> set volumeParameterKeys) ps = None"
    using assms by (simp add: parseVolumeOptions_def split: option.splits)
  show thesis
    using assms none
    apply (simp only: parseVolumeOptions_def Let_def option.case if_Inl_Inr and_then_Inr sum.inject)
    apply (elim exE conjE)
    apply (drule sym [of _ opts])
    apply (rule that)
                  prefer 2 apply assumption
                 prefer 2 apply assumption
                apply (simp_all add: protocolNFS_def protocolSMB_def split: if_splits)
    done
qed

text \<open>A volume is closed under its configuration: its protocol is NFS or SMB, its directory is a plain child of a clean base other than the root,
  its export a plain child of the export prefix; networks are unrestricted only when asked for and are otherwise valid rules; the endpoint is the
  configured one; an SMB volume names whom it trusts, and the world only when asked to.\<close>

definition closed_options :: "Config \<Rightarrow> string \<Rightarrow> volumeOptions \<Rightarrow> bool" where
  "closed_options cfg name opts \<longleftrightarrow>
     (vo_Protocol opts = protocolNFS \<or> vo_Protocol opts = protocolSMB) \<and>
     (\<exists>base. volume_base base \<and> vo_FSPath opts = base @ ''/'' @ vo_Protocol opts @ ''/'' @ volumeResourceName name) \<and>
     vo_ResourceName opts = volumeResourceName name \<and> legal_bucket (vo_ResourceName opts) \<and>
     (vo_AllowAllHosts opts \<longleftrightarrow> vo_AllowedNetworks opts = []) \<and> list_all network_rule_ok (vo_AllowedNetworks opts) \<and>
     vo_Endpoint opts = cc_Endpoint cfg \<and> vo_Server opts \<noteq> [] \<and>
     (vo_Protocol opts = protocolSMB \<longrightarrow>
        named_trustee (vo_SMBTrustee opts) \<and> (vo_SMBAllowAllUsers opts \<longrightarrow> id_Name (vo_SMBTrustee opts) = ''Everyone''))"

lemma closed_volume_options:
  assumes "parseVolumeOptions cfg name ps = Inr opts"
  shows "closed_options cfg name opts"
proof -
  obtain base where o:
    "vo_Protocol opts = protocolNFS \<or> vo_Protocol opts = protocolSMB"
    "validatedVolumePath ''basePath'' (or_default (param ps ''basePath'') (cc_BasePath cfg)) False = Inr base"
    "vo_FSPath opts = path_Join [base, vo_Protocol opts, volumeResourceName name]" "vo_ResourceName opts = volumeResourceName name"
    "allowed_networks cfg ps (vo_AllowAllHosts opts) = Inr (vo_AllowedNetworks opts)"
    "vo_Protocol opts = protocolSMB \<longrightarrow> smb_trustee ps (vo_SMBAllowAllUsers opts) = Inr (vo_SMBTrustee opts)"
    "vo_Endpoint opts = cc_Endpoint cfg" "data_server cfg = Inr (vo_Server opts)"
    by (rule parseVolumeOptions_Inr [OF assms]) (rule that; assumption)
  have base: "volume_base base" using validatedVolumePath_Inr [OF o(2)] unfolding volume_base_def by blast
  have "list_all plain_seg [vo_Protocol opts, volumeResourceName name]" using plain_protocol [OF o(1)] resource_plain by simp
  then have "vo_FSPath opts = base @ ''/'' @ vo_Protocol opts @ ''/'' @ volumeResourceName name"
    using path_Join_below [of base "[vo_Protocol opts, volumeResourceName name]"] base o(3) by (simp add: volume_base_def)
  moreover have "vo_Server opts \<noteq> []" using o(8) by (auto simp: data_server_def Let_def and_then_Inr split: if_splits)
  ultimately show ?thesis
    unfolding closed_options_def o(4,7)
    using o(1) base allowed_networks_Inr [OF o(5)] o(6) smb_trustee_Inr [of ps "vo_SMBAllowAllUsers opts" "vo_SMBTrustee opts"]
      resource_legal [of name] by blast
qed

text \<open>C33: Options that are accepted are closed under the driver's configuration.\<close>

theorem parseVolumeOptions_closed:
  assumes "parseVolumeOptions cfg name ps = Inr opts"
  shows "closed_options cfg name opts"
  using closed_volume_options [OF assms] .

end
