(* ===== verification/Json_Text.thy ===== *)
theory Json_Text
  imports Json Go_Encoding
begin

text \<open>
  JSON as text, for the two places where the drivers keep it themselves: the payload of a signed volume handle and the durable publish
  state; and for the digests taken over it.  \<open>Marshal\<close> is \<^verbatim>\<open>json.Marshal\<close> with its HTML-safe escaping and its treatment of invalid UTF-8,
  \<open>json_decode\<close> the value at the start of a text as \<^verbatim>\<open>json.Decoder\<close> reads it.  A number with a fraction or an exponent is an error: no
  decoder of the drivers accepts one.
\<close>

section \<open>UTF-8\<close>

definition byte_at :: "bytes \<Rightarrow> nat \<Rightarrow> nat" where
  "byte_at s i = (if i < length s then ch (s ! i) else 0)"

definition between :: "nat \<Rightarrow> nat \<Rightarrow> nat \<Rightarrow> bool" where
  "between lo hi b \<longleftrightarrow> lo \<le> b \<and> b \<le> hi"

text \<open>The second byte of a rune, whose range depends on the first one, and the later ones.\<close>

definition second_ok :: "nat \<Rightarrow> nat \<Rightarrow> bool" where
  "second_ok a b \<longleftrightarrow>
     between (if a = 224 then 160 else if a = 240 then 144 else 128) (if a = 237 then 159 else if a = 244 then 143 else 191) b"

definition tail_ok :: "nat \<Rightarrow> bool" where
  "tail_ok b \<longleftrightarrow> between 128 191 b"

text \<open>The size of the rune at the start of a string, 0 if it is invalid.\<close>

definition utf8_size :: "bytes \<Rightarrow> nat" where
  "utf8_size s =
     (if s = [] then 0
      else if byte_at s 0 < 128 then 1
      else if between 194 223 (byte_at s 0) \<and> second_ok (byte_at s 0) (byte_at s 1) then 2
      else if between 224 239 (byte_at s 0) \<and> second_ok (byte_at s 0) (byte_at s 1) \<and> tail_ok (byte_at s 2) then 3
      else if between 240 244 (byte_at s 0) \<and> second_ok (byte_at s 0) (byte_at s 1) \<and> tail_ok (byte_at s 2) \<and> tail_ok (byte_at s 3) then 4
      else 0)"

definition utf8_encode :: "nat \<Rightarrow> bytes" where
  "utf8_encode r =
     (if r < 128 then [char_of r]
      else if r < 2048 then [char_of (192 + r div 64), char_of (128 + r mod 64)]
      else if r < 65536 then [char_of (224 + r div 4096), char_of (128 + r div 64 mod 64), char_of (128 + r mod 64)]
      else [char_of (240 + r div 262144), char_of (128 + r div 4096 mod 64), char_of (128 + r div 64 mod 64), char_of (128 + r mod 64)])"

definition rune_error :: bytes where
  "rune_error = [CHR 0xEF, CHR 0xBF, CHR 0xBD]"

function utf8_valid :: "bytes \<Rightarrow> bool" where
  "utf8_valid [] \<longleftrightarrow> True"
| "utf8_valid (c # t) \<longleftrightarrow> utf8_size (c # t) > 0 \<and> utf8_valid (drop (utf8_size (c # t) - 1) t)"
  by pat_completeness auto
termination by (relation "measure length") auto

section \<open>Writing\<close>

text \<open>One byte below 128 inside a string.\<close>

definition esc_ascii :: "char \<Rightarrow> string" where
  "esc_ascii c =
     (if c = CHR 0x22 \<or> c = CHR 0x5C then [CHR 0x5C, c]
      else if ch c = 8 then [CHR 0x5C, CHR ''b''] else if ch c = 12 then [CHR 0x5C, CHR ''f'']
      else if ch c = 10 then [CHR 0x5C, CHR ''n''] else if ch c = 13 then [CHR 0x5C, CHR ''r'']
      else if ch c = 9 then [CHR 0x5C, CHR ''t'']
      else if ch c < 32 \<or> c = CHR ''<'' \<or> c = CHR ''>'' \<or> c = CHR ''&''
      then [CHR 0x5C, CHR ''u'', CHR ''0'', CHR ''0'', hexd (ch c div 16), hexd (ch c mod 16)]
      else [c])"

function escape :: "bytes \<Rightarrow> string" where
  "escape [] = []"
| "escape (c # t) =
     (if ch c < 128 then esc_ascii c @ escape t
      else let n = utf8_size (c # t) in
        if n = 0 then [CHR 0x5C] @ ''ufffd'' @ escape t
        else if take 3 (c # t) = [CHR 0xE2, CHR 0x80, CHR 0xA8] then [CHR 0x5C] @ ''u2028'' @ escape (drop (n - 1) t)
        else if take 3 (c # t) = [CHR 0xE2, CHR 0x80, CHR 0xA9] then [CHR 0x5C] @ ''u2029'' @ escape (drop (n - 1) t)
        else take n (c # t) @ escape (drop (n - 1) t))"
  by pat_completeness auto
termination by (relation "measure length") auto

definition quote :: "bytes \<Rightarrow> string" where
  "quote s = [CHR 0x22] @ escape s @ [CHR 0x22]"

fun Marshal :: "json \<Rightarrow> string" where
  "Marshal JNull = ''null''"
| "Marshal (JBool b) = (if b then ''true'' else ''false'')"
| "Marshal (JNum i) = itoa i"
| "Marshal (JStr s) = quote s"
| "Marshal (JArr js) = ''['' @ Join (map Marshal js) '','' @ '']''"
| "Marshal (JObj kvs) = ''{'' @ Join (map (\<lambda>(k, v). quote k @ '':'' @ Marshal v) kvs) '','' @ ''}''"

section \<open>Reading\<close>

definition json_space :: "char \<Rightarrow> bool" where
  "json_space c \<longleftrightarrow> c = CHR '' '' \<or> ch c = 9 \<or> ch c = 10 \<or> ch c = 13"

definition skip :: "bytes \<Rightarrow> bytes" where
  "skip s = dropWhile json_space s"

text \<open>Four hexadecimal digits.\<close>

definition hex4 :: "bytes \<Rightarrow> (nat \<times> bytes) option" where
  "hex4 s =
     (case s of
        a # b # c # d # t \<Rightarrow>
          (case (unhex a, unhex b, unhex c, unhex d) of
             (Some w, Some x, Some y, Some z) \<Rightarrow> Some (((w * 16 + x) * 16 + y) * 16 + z, t)
           | _ \<Rightarrow> None)
      | _ \<Rightarrow> None)"

definition simple_escape :: "char \<Rightarrow> char option" where
  "simple_escape e =
     (if e = CHR 0x22 \<or> e = CHR 0x5C \<or> e = CHR ''/'' then Some e
      else if e = CHR ''b'' then Some (CHR 0x08) else if e = CHR ''f'' then Some (CHR 0x0C)
      else if e = CHR ''n'' then Some (CHR 0x0A) else if e = CHR ''r'' then Some (CHR 0x0D)
      else if e = CHR ''t'' then Some (CHR 0x09) else None)"

text \<open>The bytes of a \<open>\u\<close> escape whose digits have been read, and the rest of the text: a pair of surrogates is one rune, a lone one the
  replacement character.\<close>

definition u_escape :: "nat \<Rightarrow> bytes \<Rightarrow> bytes \<times> bytes" where
  "u_escape r t =
     (if 0xD800 \<le> r \<and> r < 0xE000 then
        (case (if take 2 t = [CHR 0x5C, CHR ''u''] then hex4 (drop 2 t) else None) of
           Some (r2, t2) \<Rightarrow>
             if r < 0xDC00 \<and> 0xDC00 \<le> r2 \<and> r2 < 0xE000
             then (utf8_encode ((r - 0xD800) * 1024 + (r2 - 0xDC00) + 0x10000), t2)
             else (rune_error, t)
         | None \<Rightarrow> (rune_error, t))
      else (utf8_encode r, t))"

lemma hex4_length: "hex4 s = Some (r, t) \<Longrightarrow> length t < length s"
  by (auto simp: hex4_def split: list.splits option.splits)

lemma u_escape_length: "length (snd (u_escape r t)) \<le> length t"
proof (cases "hex4 (drop 2 t)")
  case (Some p)
  then obtain r2 t2 where "hex4 (drop 2 t) = Some (r2, t2)" by (cases p) simp
  with hex4_length [OF this] show ?thesis by (auto simp: u_escape_def)
qed (simp add: u_escape_def)

text \<open>The rest of a string after its opening quote, and the text after its closing one.\<close>

function unquote :: "bytes \<Rightarrow> (bytes \<times> bytes) option" where
  "unquote [] = None"
| "unquote (c # t) =
     (if c = CHR 0x22 then Some ([], t)
      else if c = CHR 0x5C then
        (case t of
           [] \<Rightarrow> None
         | e # t' \<Rightarrow>
             if e = CHR ''u'' then
               (case hex4 t' of
                  None \<Rightarrow> None
                | Some (r, t'') \<Rightarrow> map_option (apfst ((@) (fst (u_escape r t'')))) (unquote (snd (u_escape r t''))))
             else (case simple_escape e of None \<Rightarrow> None | Some x \<Rightarrow> map_option (apfst ((#) x)) (unquote t')))
      else if ch c < 32 then None
      else if ch c < 128 then map_option (apfst ((#) c)) (unquote t)
      else let n = utf8_size (c # t) in
        if n = 0 then map_option (apfst ((@) rune_error)) (unquote t)
        else map_option (apfst ((@) (take n (c # t)))) (unquote (drop (n - 1) t)))"
  by pat_completeness auto
termination
proof (relation "measure length", goal_cases)
  case (2 c t e t' p r t'')
  then have "length t'' < length t'" using hex4_length by blast
  moreover have "length (snd (u_escape r t'')) \<le> length t''" by (rule u_escape_length)
  ultimately show ?case using 2 by simp
qed auto

definition number :: "bytes \<Rightarrow> (json \<times> bytes) option" where
  "number s =
     (let neg = HasPrefix s ''-''; t = (if neg then drop 1 s else s);
          ds = takeWhile is_digit t; r = dropWhile is_digit t
      in if ds = [] \<or> (hd ds = CHR ''0'' \<and> length ds > 1) \<or> (r \<noteq> [] \<and> hd r \<in> set ''.eE'') then None
         else Some (JNum (if neg then - int (digits_val 10 ds) else int (digits_val 10 ds)), r))"

fun jvalue :: "nat \<Rightarrow> bytes \<Rightarrow> (json \<times> bytes) option"
  and jelements :: "nat \<Rightarrow> bytes \<Rightarrow> (json list \<times> bytes) option"
  and jmembers :: "nat \<Rightarrow> bytes \<Rightarrow> ((string \<times> json) list \<times> bytes) option" where
  "jvalue 0 s = None"
| "jvalue (Suc n) s =
     (case skip s of
        [] \<Rightarrow> None
      | c # t \<Rightarrow>
          if c = CHR 0x22 then map_option (apfst JStr) (unquote t)
          else if c = CHR ''{'' then
            (if take 1 (skip t) = ''}'' then Some (JObj [], drop 1 (skip t)) else map_option (apfst JObj) (jmembers n t))
          else if c = CHR ''['' then
            (if take 1 (skip t) = '']'' then Some (JArr [], drop 1 (skip t)) else map_option (apfst JArr) (jelements n t))
          else if HasPrefix (c # t) ''null'' then Some (JNull, drop 3 t)
          else if HasPrefix (c # t) ''true'' then Some (JBool True, drop 3 t)
          else if HasPrefix (c # t) ''false'' then Some (JBool False, drop 4 t)
          else number (c # t))"
| "jelements 0 s = None"
| "jelements (Suc n) s =
     (case jvalue n s of
        None \<Rightarrow> None
      | Some (x, r) \<Rightarrow>
          (case skip r of
             [] \<Rightarrow> None
           | d # r' \<Rightarrow>
               if d = CHR '','' then map_option (apfst ((#) x)) (jelements n r')
               else if d = CHR '']'' then Some ([x], r') else None))"
| "jmembers 0 s = None"
| "jmembers (Suc n) s =
     (case skip s of
        [] \<Rightarrow> None
      | q # t \<Rightarrow>
          if q \<noteq> CHR 0x22 then None
          else (case unquote t of
              None \<Rightarrow> None
            | Some (k, r) \<Rightarrow>
                (case skip r of
                   [] \<Rightarrow> None
                 | d # r1 \<Rightarrow>
                     if d \<noteq> CHR '':'' then None
                     else (case jvalue n r1 of
                         None \<Rightarrow> None
                       | Some (v, r2) \<Rightarrow>
                           (case skip r2 of
                              [] \<Rightarrow> None
                            | e # r3 \<Rightarrow>
                                if e = CHR '','' then map_option (apfst ((#) (k, v))) (jmembers n r3)
                                else if e = CHR ''}'' then Some ([(k, v)], r3) else None)))))"

text \<open>The first value of a text; every call consumes fuel and each two at least one byte.\<close>

definition json_decode :: "bytes \<Rightarrow> (json \<times> bytes) option" where
  "json_decode s = jvalue (Suc (2 * length s)) s"

section \<open>What is written is read back\<close>

lemma ok_in_range: "second_ok a (byte_at s i) \<Longrightarrow> Suc i \<le> length s" "tail_ok (byte_at s i) \<Longrightarrow> Suc i \<le> length s"
  by (auto simp: second_ok_def tail_ok_def between_def byte_at_def split: if_splits)

lemma utf8_size_bound: "utf8_size s \<le> length s"
proof -
  have "1 \<le> length s" if "s \<noteq> []" using that by (cases s) simp_all
  moreover have "2 \<le> length s" if "second_ok a (byte_at s 1)" for a using ok_in_range(1) [OF that] by simp
  moreover have "3 \<le> length s" if "tail_ok (byte_at s 2)" using ok_in_range(2) [OF that] by simp
  moreover have "4 \<le> length s" if "tail_ok (byte_at s 3)" using ok_in_range(2) [OF that] by simp
  ultimately show ?thesis unfolding utf8_size_def by (simp only: split: if_split) blast
qed

lemma digits_val_append: "digits_val b (s @ t) = foldl (\<lambda>a c. b * a + (ch c - 48)) (digits_val b s) t"
  by (simp add: digits_val_def)

lemma nat_digits_digits: "list_all is_digit (nat_digits n)"
proof (induction n rule: nat_digits.induct)
  case (1 n)
  have "is_digit (char_of (48 + n mod 10))" by (simp add: is_digit_def)
  then show ?case using 1 by (subst nat_digits.simps) (auto simp: is_digit_def [of "char_of (48 + n)"])
qed

lemma nat_digits_ne [simp]: "nat_digits n \<noteq> []"
  by (subst nat_digits.simps) simp

lemma digits_val_nat_digits [simp]: "digits_val 10 (nat_digits n) = n"
proof (induction n rule: nat_digits.induct)
  case (1 n)
  show ?case
  proof (cases "n < 10")
    case True
    then show ?thesis by (subst nat_digits.simps) (simp add: digits_val_def)
  next
    case False
    then have "digits_val 10 (nat_digits n) = 10 * (n div 10) + n mod 10"
      using 1 by (subst nat_digits.simps) (simp add: digits_val_append)
    then show ?thesis by simp
  qed
qed

lemma nat_digits_hd: "n \<noteq> 0 \<Longrightarrow> hd (nat_digits n) \<noteq> CHR ''0''"
proof (induction n rule: nat_digits.induct)
  case (1 n)
  show ?case
  proof (cases "n < 10")
    case True
    then have "ch (char_of (48 + n)) = 48 + n" by simp
    moreover have "ch (CHR ''0'') = 48" by simp
    ultimately have "char_of (48 + n) \<noteq> CHR ''0''" using 1(2) by (metis add_cancel_left_right)
    then show ?thesis using True by (subst nat_digits.simps) simp
  next
    case False
    then show ?thesis using 1 by (subst nat_digits.simps) (simp add: hd_append)
  qed
qed

lemma nat_digits_0: "nat_digits 0 = ''0''"
proof -
  have "char_of (48 :: nat) = CHR ''0''" by code_simp
  then show ?thesis by (subst nat_digits.simps) simp
qed

text \<open>A text that does not continue a number.\<close>

definition ends_number :: "bytes \<Rightarrow> bool" where
  "ends_number t \<longleftrightarrow> t = [] \<or> (\<not> is_digit (hd t) \<and> hd t \<notin> set ''.eE'')"

lemma takeWhile_digits:
  assumes "list_all is_digit s" "ends_number t"
  shows "takeWhile is_digit (s @ t) = s \<and> dropWhile is_digit (s @ t) = t"
proof -
  have "takeWhile is_digit t = [] \<and> dropWhile is_digit t = t" using assms(2) by (cases t) (auto simp: ends_number_def)
  then show ?thesis using assms(1) by (induction s) simp_all
qed

lemma nat_digits_no_minus: "\<not> HasPrefix (nat_digits n @ t) ''-''"
proof -
  obtain d ds where "nat_digits n = d # ds" by (cases "nat_digits n") simp_all
  moreover have "is_digit d" using nat_digits_digits [of n] calculation by simp
  ultimately show ?thesis by (auto simp: HasPrefix_def is_digit_def)
qed

lemma number_itoa: "ends_number t \<Longrightarrow> number (itoa i @ t) = Some (JNum i, t)"
proof -
  assume t: "ends_number t"
  have nz: "\<not> (hd (nat_digits n) = CHR ''0'' \<and> 1 < length (nat_digits n))" for n
    using nat_digits_hd [of n] by (cases "n = 0") (simp_all add: nat_digits_0)
  have e: "\<not> (t \<noteq> [] \<and> hd t \<in> set ''.eE'')" using t by (auto simp: ends_number_def)
  have w: "takeWhile is_digit (nat_digits n @ t) = nat_digits n" "dropWhile is_digit (nat_digits n @ t) = t" for n
    using takeWhile_digits [OF nat_digits_digits t] by blast+
  show ?thesis
  proof (cases "i < 0")
    case True
    then have i: "itoa i @ t = ''-'' @ (nat_digits (nat (- i)) @ t)" by (simp add: itoa_def)
    have "HasPrefix (itoa i @ t) ''-''" unfolding i by (rule HasPrefix_append)
    moreover have "drop 1 (itoa i @ t) = nat_digits (nat (- i)) @ t" unfolding i by simp
    ultimately show ?thesis unfolding number_def Let_def using nz e w True by (simp only: if_True w) simp
  next
    case False
    then have i: "itoa i = nat_digits (nat i)" by (simp add: itoa_def)
    show ?thesis unfolding number_def Let_def i using nz e w False nat_digits_no_minus by (simp only: if_False w) simp
  qed
qed

lemma numeral_ch: "char_of (8 :: nat) = CHR 0x08" "char_of (9 :: nat) = CHR 0x09" "char_of (10 :: nat) = CHR 0x0A"
    "char_of (12 :: nat) = CHR 0x0C" "char_of (13 :: nat) = CHR 0x0D"
  by code_simp+

lemma unquote_esc_ascii:
  assumes "ch c < 128"
  shows "unquote (esc_ascii c @ t) = map_option (apfst ((#) c)) (unquote t)"
proof -
  have u: "unquote ([CHR 0x5C, CHR ''u'', CHR ''0'', CHR ''0'', hexd (ch c div 16), hexd (ch c mod 16)] @ t) = map_option (apfst ((#) c)) (unquote t)"
  proof -
    have "ch c div 16 < 16" "ch c mod 16 < 16" by simp_all
    then have h: "hex4 (CHR ''0'' # CHR ''0'' # hexd (ch c div 16) # hexd (ch c mod 16) # t) = Some (ch c, t)"
      by (simp add: hex4_def unhex_def [of "CHR ''0''"] is_digit_def)
    have "u_escape (ch c) t = ([c], t)" using assms by (simp add: u_escape_def utf8_encode_def)
    then show ?thesis using h by (simp add: apfst_def map_prod_def)
  qed
  have s: "unquote ([CHR 0x5C, e] @ t) = map_option (apfst ((#) c)) (unquote t)" if "simple_escape e = Some c" "e \<noteq> CHR ''u''" for e
    using that by simp
  have c: "ch c = 8 \<Longrightarrow> c = CHR 0x08" "ch c = 9 \<Longrightarrow> c = CHR 0x09" "ch c = 10 \<Longrightarrow> c = CHR 0x0A" "ch c = 12 \<Longrightarrow> c = CHR 0x0C"
    "ch c = 13 \<Longrightarrow> c = CHR 0x0D"
    by (metis char_of_char numeral_ch)+
  consider "c = CHR 0x22 \<or> c = CHR 0x5C" | "ch c = 8" | "ch c = 12" | "ch c = 10" | "ch c = 13" | "ch c = 9"
    | "ch c \<notin> {8, 9, 10, 12, 13}" "c \<noteq> CHR 0x22" "c \<noteq> CHR 0x5C" by blast
  then show ?thesis
  proof cases
    case 1
    then have "simple_escape c = Some c" "c \<noteq> CHR ''u''" by (auto simp: simple_escape_def)
    then show ?thesis using 1 s by (simp add: esc_ascii_def)
  next
    case 7
    show ?thesis
    proof (cases "ch c < 32 \<or> c = CHR ''<'' \<or> c = CHR ''>'' \<or> c = CHR ''&''")
      case True
      then show ?thesis using 7 u by (simp add: esc_ascii_def)
    next
      case False
      then show ?thesis using 7 assms by (simp add: esc_ascii_def)
    qed
  qed (use c s in \<open>simp_all add: esc_ascii_def simple_escape_def\<close>)
qed

lemma utf8_size_take:
  assumes "utf8_size s = Suc n"
  shows "utf8_size (take (Suc n) s @ x) = Suc n"
proof -
  have l: "Suc n \<le> length s" using utf8_size_bound [of s] assms by simp
  have b: "byte_at (take (Suc n) s @ x) i = byte_at s i" if "i \<le> n" for i
    using that l by (auto simp: byte_at_def nth_append)
  have ne: "take (Suc n) s @ x \<noteq> []" using l by (cases s) simp_all
  have "n \<in> {0, 1, 2, 3}" using assms by (simp add: utf8_size_def split: if_splits)
  then have "b0 \<in> {0..n} \<Longrightarrow> byte_at (take (Suc n) s @ x) b0 = byte_at s b0" for b0 using b by simp
  with assms ne \<open>n \<in> {0, 1, 2, 3}\<close> show ?thesis
    unfolding utf8_size_def by (auto split: if_splits)
qed

lemma unquote_rune:
  assumes "utf8_size (c # t) = Suc n" "\<not> ch c < 128"
  shows "unquote (take (Suc n) (c # t) @ x) = map_option (apfst ((@) (take (Suc n) (c # t)))) (unquote x)"
proof -
  have "n \<le> length t" using utf8_size_bound [of "c # t"] assms(1) by simp
  then have d: "drop n (take n t @ x) = x" "take n (take n t @ x) = take n t" by simp_all
  have u: "utf8_size (c # take n t @ x) = Suc n" using utf8_size_take [OF assms(1), of x] by simp
  have c: "c \<noteq> CHR 0x22" "c \<noteq> CHR 0x5C" "\<not> ch c < 32" using assms(2) by auto
  have "unquote (c # take n t @ x) = map_option (apfst ((@) (take (Suc n) (c # take n t @ x)))) (unquote (drop (Suc n - 1) (take n t @ x)))"
    by (subst unquote.simps) (simp only: c u assms(2) if_False Let_def nat.distinct)
  moreover have "take (Suc n) (c # t) @ x = c # take n t @ x" "take (Suc n) (c # take n t @ x) = take (Suc n) (c # t)" "Suc n - 1 = n"
    using d by simp_all
  ultimately show ?thesis by (simp only: d)
qed

lemma unhex_values: "unhex (CHR ''0'') = Some 0" "unhex (CHR ''2'') = Some 2" "unhex (CHR ''8'') = Some 8" "unhex (CHR ''9'') = Some 9"
  by code_simp+

lemma unquote_u: "unquote (CHR 0x5C # CHR ''u'' # t) =
    (case hex4 t of
       None \<Rightarrow> None
     | Some (r, t'') \<Rightarrow> map_option (apfst ((@) (fst (u_escape r t'')))) (unquote (snd (u_escape r t''))))"
  by simp

lemma unquote_line_separators:
  "unquote ([CHR 0x5C] @ ''u2028'' @ x) = map_option (apfst ((@) [CHR 0xE2, CHR 0x80, CHR 0xA8])) (unquote x)"
  "unquote ([CHR 0x5C] @ ''u2029'' @ x) = map_option (apfst ((@) [CHR 0xE2, CHR 0x80, CHR 0xA9])) (unquote x)"
proof -
  have "hex4 (CHR ''2'' # CHR ''0'' # CHR ''2'' # CHR ''8'' # x) = Some (8232, x)" "hex4 (CHR ''2'' # CHR ''0'' # CHR ''2'' # CHR ''9'' # x) = Some (8233, x)"
    unfolding hex4_def list.case unhex_values option.case prod.case by simp_all
  moreover have "char_of (226 :: nat) = CHR 0xE2" "char_of (128 :: nat) = CHR 0x80" "char_of (168 :: nat) = CHR 0xA8" "char_of (169 :: nat) = CHR 0xA9"
    by code_simp+
  then have "utf8_encode 8232 = [CHR 0xE2, CHR 0x80, CHR 0xA8]" "utf8_encode 8233 = [CHR 0xE2, CHR 0x80, CHR 0xA9]"
    by (simp_all add: utf8_encode_def)
  then have "u_escape 8232 x = ([CHR 0xE2, CHR 0x80, CHR 0xA8], x)" "u_escape 8233 x = ([CHR 0xE2, CHR 0x80, CHR 0xA9], x)"
    by (simp_all add: u_escape_def)
  ultimately show "unquote ([CHR 0x5C] @ ''u2028'' @ x) = map_option (apfst ((@) [CHR 0xE2, CHR 0x80, CHR 0xA8])) (unquote x)"
    "unquote ([CHR 0x5C] @ ''u2029'' @ x) = map_option (apfst ((@) [CHR 0xE2, CHR 0x80, CHR 0xA9])) (unquote x)"
    by (simp_all only: append.simps unquote_u option.case prod.case fst_conv snd_conv)
qed

lemma separator_size:
  assumes "take 3 s = [CHR 0xE2, CHR 0x80, x]" "x \<in> {CHR 0xA8, CHR 0xA9}"
  shows "utf8_size s = 3"
proof -
  obtain a b c r where s: "s = a # b # c # r"
    using assms(1) by (cases s; cases "tl s"; cases "tl (tl s)") auto
  then have "a = CHR 0xE2" "b = CHR 0x80" "c = x" using assms(1) by (simp_all add: numeral_3_eq_3)
  then show ?thesis using assms(2) s by (auto simp: utf8_size_def byte_at_def between_def second_ok_def tail_ok_def)
qed

lemma unquote_escape: "utf8_valid s \<Longrightarrow> unquote (escape s @ CHR 0x22 # x) = Some (s, x)"
proof (induction s rule: escape.induct)
  case (2 c t)
  show ?case
  proof (cases "ch c < 128")
    case True
    then have "utf8_size (c # t) = 1" by (simp add: utf8_size_def byte_at_def)
    then have "unquote (escape t @ CHR 0x22 # x) = Some (t, x)" using 2 True by simp
    then show ?thesis using unquote_esc_ascii [OF True, of "escape t @ CHR 0x22 # x"] True by simp
  next
    case False
    from 2(6) obtain n where n: "utf8_size (c # t) = Suc n" using gr0_implies_Suc by auto
    let ?l = "take 3 (c # t) = [CHR 0xE2, CHR 0x80, CHR 0xA8]" and ?p = "take 3 (c # t) = [CHR 0xE2, CHR 0x80, CHR 0xA9]"
    have v: "utf8_valid (drop n t)" using 2(6) n by simp
    have sep: "c # t = [CHR 0xE2, CHR 0x80, y] @ drop n t" if "take 3 (c # t) = [CHR 0xE2, CHR 0x80, y]" "y \<in> {CHR 0xA8, CHR 0xA9}" for y
    proof -
      have "Suc n = 3" using separator_size [OF that] n by simp
      then have "c # t = take 3 (c # t) @ drop n t" by (metis append_take_drop_id drop_Suc_Cons)
      then show ?thesis using that(1) by simp
    qed
    consider ?l | ?p "\<not> ?l" | "\<not> ?l" "\<not> ?p" by blast
    then show ?thesis
    proof cases
      case 1
      then have e: "escape (c # t) = [CHR 0x5C] @ ''u2028'' @ escape (drop n t)" using False n by (simp add: Let_def)
      have "unquote (escape (drop n t) @ CHR 0x22 # x) = Some (drop n t, x)" using 2(3) [OF False _ _ 1] n v by simp
      then show ?thesis using unquote_line_separators(1) [of "escape (drop n t) @ CHR 0x22 # x"] sep [OF 1] unfolding e by simp
    next
      case 2
      then have e: "escape (c # t) = [CHR 0x5C] @ ''u2029'' @ escape (drop n t)" using False n by (simp add: Let_def)
      have "unquote (escape (drop n t) @ CHR 0x22 # x) = Some (drop n t, x)" using "2.IH"(4) [OF False _ _ 2(2,1)] n v by simp
      then show ?thesis using unquote_line_separators(2) [of "escape (drop n t) @ CHR 0x22 # x"] sep [OF 2(1)] unfolding e by simp
    next
      case 3
      then have e: "escape (c # t) = take (Suc n) (c # t) @ escape (drop n t)" using False n by (simp add: Let_def)
      have "unquote (escape (drop n t) @ CHR 0x22 # x) = Some (drop n t, x)" using "2.IH"(5) [OF False _ _ 3] n v by simp
      then show ?thesis using unquote_rune [OF n False, of "escape (drop n t) @ CHR 0x22 # x"] unfolding e by simp
    qed
  qed
qed simp

text \<open>The strings of a value are valid UTF-8.\<close>

fun json_ok :: "json \<Rightarrow> bool" where
  "json_ok (JStr s) \<longleftrightarrow> utf8_valid s"
| "json_ok (JArr js) \<longleftrightarrow> list_all json_ok js"
| "json_ok (JObj kvs) \<longleftrightarrow> list_all (\<lambda>(k, v). utf8_valid k \<and> json_ok v) kvs"
| "json_ok _ \<longleftrightarrow> True"

lemma skip_id: "\<not> json_space c \<Longrightarrow> skip (c # t) = c # t"
  by (simp add: skip_def)

lemma json_space_simps [simp]:
  "\<not> json_space (CHR 0x22)" "\<not> json_space (CHR ''{'')" "\<not> json_space (CHR ''}'')" "\<not> json_space (CHR ''['')" "\<not> json_space (CHR '']'')"
  "\<not> json_space (CHR '','')" "\<not> json_space (CHR '':'')" "\<not> json_space (CHR ''n'')" "\<not> json_space (CHR ''t'')" "\<not> json_space (CHR ''f'')"
  by (simp_all add: json_space_def)

definition starts_value :: "char \<Rightarrow> bool" where
  "starts_value c \<longleftrightarrow> is_digit c \<or> c \<in> set (CHR 0x22 # ''{[ntf-'')"

lemma starts_value_not: "starts_value c \<Longrightarrow> \<not> json_space c \<and> c \<noteq> CHR '']'' \<and> c \<noteq> CHR ''}''"
  by (auto simp: starts_value_def json_space_def is_digit_def)

lemma itoa_hd: "\<exists>c t. itoa i = c # t \<and> (is_digit c \<or> c = CHR ''-'')"
proof -
  have "\<exists>c t. nat_digits n = c # t \<and> is_digit c" for n
    using nat_digits_digits [of n] nat_digits_ne [of n] by (cases "nat_digits n") (auto simp del: nat_digits_ne)
  then show ?thesis by (cases "i < 0") (fastforce simp: itoa_def)+
qed

lemma Marshal_hd: "\<exists>c t. Marshal j = c # t \<and> starts_value c"
  using itoa_hd by (cases j) (fastforce simp: starts_value_def quote_def)+

lemma ends_number_simps [simp]: "ends_number (CHR '','' # t)" "ends_number (CHR '']'' # t)" "ends_number (CHR ''}'' # t)"
  by (simp_all add: ends_number_def is_digit_def)

text \<open>\<open>reads_back j\<close>: in every context the value is read back with fuel enough for its text.\<close>

definition reads_back :: "json \<Rightarrow> bool" where
  "reads_back j \<longleftrightarrow> (\<forall>n t. 2 * length (Marshal j) < n \<longrightarrow> ends_number t \<longrightarrow> jvalue n (Marshal j @ t) = Some (j, t))"

lemma reads_backI:
  assumes "\<And>m t. 2 * length (Marshal j) < Suc m \<Longrightarrow> ends_number t \<Longrightarrow> jvalue (Suc m) (Marshal j @ t) = Some (j, t)"
  shows "reads_back j"
  unfolding reads_back_def
proof (intro allI impI)
  fix n t assume "2 * length (Marshal j) < n" "ends_number t"
  then show "jvalue n (Marshal j @ t) = Some (j, t)" using assms by (cases n) simp_all
qed

lemma Join_Cons: "xs \<noteq> [] \<Longrightarrow> Join (x # xs) sep = x @ sep @ Join xs sep"
  by (cases xs) simp_all

lemma jelements_Join:
  assumes "list_all reads_back js" "js \<noteq> []" "2 * length (Join (map Marshal js) '','') + 2 \<le> n"
  shows "jelements n (Join (map Marshal js) '','' @ CHR '']'' # t) = Some (js, t)"
  using assms
proof (induction js arbitrary: n)
  case (Cons j js)
  then obtain m where n: "n = Suc m" by (cases n) auto
  obtain c r where c: "Marshal j = c # r" using Marshal_hd by blast
  show ?case
  proof (cases "js = []")
    case True
    then have "jvalue m (Marshal j @ CHR '']'' # t) = Some (j, CHR '']'' # t)"
      using Cons.prems n unfolding list.pred_inject reads_back_def by (elim conjE allE impE) auto
    then show ?thesis using True n by (simp add: skip_id)
  next
    case False
    then have J: "Join (map Marshal (j # js)) '','' = Marshal j @ '','' @ Join (map Marshal js) '',''" by (simp add: Join_Cons)
    let ?t = "CHR '','' # Join (map Marshal js) '','' @ CHR '']'' # t"
    have l: "2 * length (Marshal j) < m" "2 * length (Join (map Marshal js) '','') + 2 \<le> m" using Cons.prems(3) n c unfolding J by auto
    have "jvalue m (Marshal j @ ?t) = Some (j, ?t)"
      using Cons.prems(1) l(1) unfolding list.pred_inject reads_back_def by (elim conjE allE impE) auto
    moreover have "jelements m (Join (map Marshal js) '','' @ CHR '']'' # t) = Some (js, t)"
      using Cons.IH [OF _ False l(2)] Cons.prems(1) by simp
    ultimately show ?thesis unfolding J n by (simp add: skip_id)
  qed
qed simp

definition member_text :: "string \<times> json \<Rightarrow> string" where
  "member_text kv = quote (fst kv) @ '':'' @ Marshal (snd kv)"

lemma jmembers_Join:
  assumes "list_all (\<lambda>kv. utf8_valid (fst kv) \<and> reads_back (snd kv)) kvs" "kvs \<noteq> []"
    "2 * length (Join (map member_text kvs) '','') + 2 \<le> n"
  shows "jmembers n (Join (map member_text kvs) '','' @ CHR ''}'' # t) = Some (kvs, t)"
  using assms
proof (induction kvs arbitrary: n)
  case (Cons kv kvs)
  obtain k v where kv: "kv = (k, v)" by (cases kv)
  from Cons.prems obtain m where n: "n = Suc m" by (cases n) auto
  have rb: "jvalue m (Marshal v @ u) = Some (v, u)" if "2 * length (Marshal v) < m" "ends_number u" for u
    using Cons.prems(1) that unfolding list.pred_inject reads_back_def kv by simp
  have head: "jmembers (Suc m) (member_text (k, v) @ u) =
      (case skip u of [] \<Rightarrow> None | e # r3 \<Rightarrow> if e = CHR '','' then map_option (apfst ((#) (k, v))) (jmembers m r3)
         else if e = CHR ''}'' then Some ([(k, v)], r3) else None)"
    if l: "2 * length (Marshal v) < m" "ends_number u" for u
  proof -
    have "unquote (escape k @ CHR 0x22 # CHR '':'' # Marshal v @ u) = Some (k, CHR '':'' # Marshal v @ u)"
      using Cons.prems(1) kv by (intro unquote_escape) simp
    then show ?thesis by (simp add: member_text_def quote_def skip_id rb [OF l])
  qed
  show ?case
  proof (cases "kvs = []")
    case True
    have "2 * length (Marshal v) < m" using Cons.prems(3) n kv True by (simp add: member_text_def)
    from head [OF this, of "CHR ''}'' # t"] show ?thesis using True n kv by (simp add: skip_id)
  next
    case False
    then have J: "Join (map member_text (kv # kvs)) '','' = member_text (k, v) @ '','' @ Join (map member_text kvs) '',''" by (simp add: Join_Cons kv)
    let ?u = "CHR '','' # Join (map member_text kvs) '','' @ CHR ''}'' # t"
    have l: "2 * length (Marshal v) < m" "2 * length (Join (map member_text kvs) '','') + 2 \<le> m"
      using Cons.prems(3) n unfolding J by (auto simp: member_text_def)
    have "jmembers m (Join (map member_text kvs) '','' @ CHR ''}'' # t) = Some (kvs, t)"
      using Cons.IH [OF _ False l(2)] Cons.prems(1) by simp
    then have "jmembers (Suc m) (member_text (k, v) @ ?u) = Some ((k, v) # kvs, t)"
      using head [OF l(1), of ?u] by (simp add: skip_id del: jmembers.simps)
    then show ?thesis unfolding J n using kv by (simp del: jmembers.simps)
  qed
qed simp

lemma Marshal_obj: "Marshal (JObj kvs) = ''{'' @ Join (map member_text kvs) '','' @ ''}''"
  by (simp add: member_text_def [abs_def] split_def)

lemma Join_hd:
  assumes "xs \<noteq> []" "hd xs = c # t"
  shows "\<exists>u. Join xs sep = c # u"
  using assms by (cases xs; cases "tl xs") auto

lemma Marshal_reads_back: "json_ok j \<Longrightarrow> reads_back j"
proof (induction j)
  case (JNum i)
  obtain c r where c: "itoa i = c # r" "is_digit c \<or> c = CHR ''-''" using itoa_hd by blast
  then have "c \<noteq> CHR 0x22" "c \<noteq> CHR ''{''" "c \<noteq> CHR ''[''" "c \<noteq> CHR ''n''" "c \<noteq> CHR ''t''" "c \<noteq> CHR ''f''" "\<not> json_space c"
    by (auto simp: is_digit_def json_space_def)
  moreover have "number (c # r @ t) = Some (JNum i, t)" if "ends_number t" for t
    using number_itoa [OF that, of i] c(1) by simp
  ultimately have "jvalue (Suc m) (c # r @ t) = Some (JNum i, t)" if "ends_number t" for m t
    using that by (simp add: skip_id HasPrefix_def)
  then show ?case using c(1) by (intro reads_backI) simp
next
  case (JStr s)
  have "jvalue (Suc m) (quote s @ t) = Some (JStr s, t)" for m t
    using unquote_escape [of s t] JStr by (simp add: quote_def skip_id)
  then show ?case by (intro reads_backI) (simp only: Marshal.simps)
next
  case (JArr js)
  have all: "list_all reads_back js" using JArr by (auto simp: list_all_iff)
  have "jvalue (Suc m) (Marshal (JArr js) @ t) = Some (JArr js, t)" if "2 * length (Marshal (JArr js)) < Suc m" for m t
  proof (cases "js = []")
    case False
    obtain c r where "Marshal (hd js) = c # r" "starts_value c" using Marshal_hd by blast
    then obtain u where u: "Join (map Marshal js) '','' = c # u" using Join_hd [of "map Marshal js"] False by (auto simp: hd_map)
    have "take 1 (skip (Join (map Marshal js) '','' @ CHR '']'' # t)) \<noteq> '']''"
      using u starts_value_not [OF \<open>starts_value c\<close>] by (simp add: skip_id)
    moreover have "jelements m (Join (map Marshal js) '','' @ CHR '']'' # t) = Some (js, t)"
      using jelements_Join [OF all False] that by simp
    ultimately show ?thesis by (simp add: skip_id)
  qed (simp add: skip_id)
  then show ?case by (intro reads_backI)
next
  case (JObj kvs)
  have all: "list_all (\<lambda>kv. utf8_valid (fst kv) \<and> reads_back (snd kv)) kvs" using JObj by (fastforce simp: list_all_iff)
  have "jvalue (Suc m) (Marshal (JObj kvs) @ t) = Some (JObj kvs, t)" if l: "2 * length (Marshal (JObj kvs)) < Suc m" for m t
  proof (cases "kvs = []")
    case False
    have "member_text (hd kvs) = CHR 0x22 # (escape (fst (hd kvs)) @ CHR 0x22 # '':'' @ Marshal (snd (hd kvs)))"
      by (simp add: member_text_def quote_def)
    then obtain u where u: "Join (map member_text kvs) '','' = CHR 0x22 # u" using Join_hd [of "map member_text kvs"] False by (auto simp: hd_map)
    have "take 1 (skip (Join (map member_text kvs) '','' @ CHR ''}'' # t)) \<noteq> ''}''" using u by (simp add: skip_id)
    moreover have "jmembers m (Join (map member_text kvs) '','' @ CHR ''}'' # t) = Some (kvs, t)"
      using l unfolding Marshal_obj by (intro jmembers_Join all False) simp
    ultimately show ?thesis unfolding Marshal_obj by (simp add: skip_id)
  qed (simp add: skip_id)
  then show ?case by (intro reads_backI)
next
  case JNull
  have "jvalue (Suc m) (''null'' @ t) = Some (JNull, t)" for m t by (simp add: skip_id HasPrefix_def)
  then show ?case by (intro reads_backI) (simp only: Marshal.simps)
next
  case (JBool b)
  have "jvalue (Suc m) (Marshal (JBool b) @ t) = Some (JBool b, t)" for m t by (simp add: skip_id HasPrefix_def)
  then show ?case by (intro reads_backI)
qed

theorem json_decode_Marshal:
  assumes "json_ok j"
  shows "json_decode (Marshal j) = Some (j, [])"
proof -
  have "jvalue (Suc (2 * length (Marshal j))) (Marshal j @ []) = Some (j, [])"
    using Marshal_reads_back [OF assms] unfolding reads_back_def by (elim allE impE) (auto simp: ends_number_def)
  then show ?thesis by (simp add: json_decode_def)
qed

end
