(* ===== verification/Csi_Handle.thy ===== *)
theory Csi_Handle
  imports Csi_Config Json_Text
begin

text \<open>
  \<^verbatim>\<open>internal/csidriver/handle.go\<close>: the signed volume ID.  A handle that decodes is shown to be authentic (its text is the prefix, a
  payload and the payload's HMAC under the process's key), valid and bound to the configured cluster; and what is encoded is decoded to the same
  handle.
\<close>

definition volumeHandlePrefix :: string where "volumeHandlePrefix = ''qv1:''"

record volumeHandle =
  vh_Protocol :: protocol
  vh_Endpoint :: string
  vh_RESTPort :: string
  vh_Server :: string
  vh_FSPath :: string
  vh_DirectoryID :: string
  vh_ResourceID :: string
  vh_ResourceName :: string
  vh_SpecFingerprint :: string
  vh_Capacity :: int
  vh_QuotaEnabled :: bool
  vh_DeleteData :: bool
  vh_NFSVersion :: string
  vh_SMBEncrypted :: bool

definition signVolumeHandle :: "string \<Rightarrow> bytes \<Rightarrow> string" where
  "signVolumeHandle payload key = b64_encode (hmac_sha256 key (volumeHandlePrefix @ payload))"

definition handle_spec_ok :: "string \<Rightarrow> bool" where
  "handle_spec_ok f \<longleftrightarrow> (case hex_decode f of None \<Rightarrow> False | Some b \<Rightarrow> length b = 32 \<and> ToLower f = f)"

definition handle_path_ok :: "string \<Rightarrow> bool" where
  "handle_path_ok p \<longleftrightarrow>
     \<not> ContainsAny p [CHR 0x00, CHR 0x0D, CHR 0x0A] \<and> HasPrefix p ''/'' \<and> p \<noteq> ''/'' \<and> path_Clean p = p"

definition handle_resource_ok :: "volumeHandle \<Rightarrow> unit res" where
  "handle_resource_ok h =
     (if vh_Protocol h = protocolNFS then
        (if \<not> HasPrefix (vh_ResourceName h) ''/'' \<or> path_Clean (vh_ResourceName h) \<noteq> vh_ResourceName h
         then Inl (EMsg ''NFS export path is unsafe'')
         else if vh_NFSVersion h \<noteq> ''3'' \<and> vh_NFSVersion h \<noteq> ''4.1'' then Inl (EMsg ''NFS version is invalid'')
         else Inr ())
      else if Trim (vh_ResourceName h) ''/'' \<noteq> vh_ResourceName h \<or> CHR 0x5C \<in> set (vh_ResourceName h)
      then Inl (EMsg ''SMB share name is unsafe'')
      else Inr ())"

text \<open>\<open>volumeHandle.validate\<close>.\<close>

definition volumeHandle_validate :: "volumeHandle \<Rightarrow> unit res" where
  "volumeHandle_validate h =
     (if vh_Protocol h \<noteq> protocolNFS \<and> vh_Protocol h \<noteq> protocolSMB then Inl (EMsg ''volume protocol is invalid'')
      else if [] \<in> set [vh_Endpoint h, vh_RESTPort h, vh_Server h, vh_FSPath h, vh_DirectoryID h, vh_ResourceID h, vh_ResourceName h,
                       vh_SpecFingerprint h]
      then Inl (EMsg ''volume ID is missing required fields'')
      else if \<not> handle_spec_ok (vh_SpecFingerprint h) then Inl (EMsg ''volume specification fingerprint is invalid'')
      else if \<not> handle_path_ok (vh_FSPath h) then Inl (EMsg ''volume filesystem path is unsafe'')
      else if ContainsAny (vh_Endpoint h @ vh_Server h @ vh_ResourceName h @ vh_RESTPort h) [CHR 0x00, CHR 0x0D, CHR 0x0A]
      then Inl (EMsg ''volume ID contains control characters'')
      else if ParseUint 10 16 (vh_RESTPort h) \<in> {None, Some 0} then Inl (EMsg ''volume REST port is invalid'')
      else if configuredRESTPort (vh_Endpoint h) (vh_RESTPort h) \<noteq> Inr (vh_RESTPort h) then Inl (EMsg ''volume endpoint is invalid'')
      else case validateDataServer (vh_Server h) of
          Inl err \<Rightarrow> Inl (EWrap ''volume data server is invalid: '' err [])
        | Inr _ \<Rightarrow> handle_resource_ok h)"

section \<open>The payload\<close>

text \<open>What \<^verbatim>\<open>json.Marshal\<close> makes of the struct: fields in order, those marked \<open>omitempty\<close> only when set.\<close>

definition handle_json :: "volumeHandle \<Rightarrow> json" where
  "handle_json h =
     JObj ([(''protocol'', JStr (vh_Protocol h)), (''endpoint'', JStr (vh_Endpoint h)), (''restPort'', JStr (vh_RESTPort h)),
            (''server'', JStr (vh_Server h)), (''fsPath'', JStr (vh_FSPath h)), (''directoryID'', JStr (vh_DirectoryID h)),
            (''resourceID'', JStr (vh_ResourceID h)), (''resourceName'', JStr (vh_ResourceName h)),
            (''specFingerprint'', JStr (vh_SpecFingerprint h))]
           @ (if vh_Capacity h = 0 then [] else [(''capacityBytes'', JNum (vh_Capacity h))])
           @ [(''quotaEnabled'', JBool (vh_QuotaEnabled h)), (''deleteData'', JBool (vh_DeleteData h))]
           @ opt_str ''nfsVersion'' (vh_NFSVersion h)
           @ (if vh_SMBEncrypted h then [(''smbEncrypted'', JBool True)] else []))"

text \<open>The strict decoder of the struct: every key names a field, and every value but null has its type.\<close>

fun json_is_str :: "json \<Rightarrow> bool" where
  "json_is_str (JStr s) \<longleftrightarrow> True" | "json_is_str JNull \<longleftrightarrow> True" | "json_is_str _ \<longleftrightarrow> False"

fun json_is_bool :: "json \<Rightarrow> bool" where
  "json_is_bool (JBool b) \<longleftrightarrow> True" | "json_is_bool JNull \<longleftrightarrow> True" | "json_is_bool _ \<longleftrightarrow> False"

fun json_is_int64 :: "json \<Rightarrow> bool" where
  "json_is_int64 (JNum i) \<longleftrightarrow> - (2 ^ 63) \<le> i \<and> i < 2 ^ 63" | "json_is_int64 JNull \<longleftrightarrow> True" | "json_is_int64 _ \<longleftrightarrow> False"

definition handle_fields :: "(string \<times> (json \<Rightarrow> bool)) list" where
  "handle_fields =
     map (\<lambda>k. (k, json_is_str)) [''protocol'', ''endpoint'', ''restPort'', ''server'', ''fsPath'', ''directoryID'', ''resourceID'',
       ''resourceName'', ''specFingerprint'', ''nfsVersion'']
     @ [(''capacityBytes'', json_is_int64)]
     @ map (\<lambda>k. (k, json_is_bool)) [''quotaEnabled'', ''deleteData'', ''smbEncrypted'']"

definition strict_entry :: "(string \<times> (json \<Rightarrow> bool)) list \<Rightarrow> string \<times> json \<Rightarrow> bool" where
  "strict_entry ks kv \<longleftrightarrow> list_ex (\<lambda>(k, ty). EqualFold k (fst kv) \<and> ty (snd kv)) ks"

definition decode_handle :: "json \<Rightarrow> volumeHandle option" where
  "decode_handle j = do {
     kvs \<leftarrow> obj_fields j;
     if \<not> list_all (strict_entry handle_fields) kvs then None
     else do {
       proto \<leftarrow> get_str ''protocol'' kvs;
       ep \<leftarrow> get_str ''endpoint'' kvs;
       port \<leftarrow> get_str ''restPort'' kvs;
       srv \<leftarrow> get_str ''server'' kvs;
       p \<leftarrow> get_str ''fsPath'' kvs;
       d \<leftarrow> get_str ''directoryID'' kvs;
       ri \<leftarrow> get_str ''resourceID'' kvs;
       rn \<leftarrow> get_str ''resourceName'' kvs;
       f \<leftarrow> get_str ''specFingerprint'' kvs;
       cap \<leftarrow> get_int ''capacityBytes'' kvs;
       q \<leftarrow> get_bool ''quotaEnabled'' kvs;
       dd \<leftarrow> get_bool ''deleteData'' kvs;
       v \<leftarrow> get_str ''nfsVersion'' kvs;
       e \<leftarrow> get_bool ''smbEncrypted'' kvs;
       Some \<lparr>vh_Protocol = proto, vh_Endpoint = ep, vh_RESTPort = port, vh_Server = srv, vh_FSPath = p, vh_DirectoryID = d, vh_ResourceID = ri,
             vh_ResourceName = rn, vh_SpecFingerprint = f, vh_Capacity = cap, vh_QuotaEnabled = q, vh_DeleteData = dd, vh_NFSVersion = v,
             vh_SMBEncrypted = e\<rparr> } }"

section \<open>Encoding and decoding\<close>

definition volumeHandle_encode :: "volumeHandle \<Rightarrow> bytes \<Rightarrow> string res" where
  "volumeHandle_encode h key =
     (if length key < 32 then Inl (EMsg ''CSI handle signing key must contain at least 32 bytes'')
      else and_then (volumeHandle_validate h) (\<lambda>_.
        let payload = b64_encode (Marshal (handle_json h))
        in Inr (volumeHandlePrefix @ payload @ ''.'' @ signVolumeHandle payload key)))"

text \<open>Line breaks in the payload are skipped by \<^verbatim>\<open>base64\<close>.\<close>

definition RawURL_DecodeString :: "string \<Rightarrow> bytes option" where
  "RawURL_DecodeString s = b64_decode (filter (\<lambda>c. c \<noteq> CHR 0x0D \<and> c \<noteq> CHR 0x0A) s)"

definition decodeVolumeHandle :: "string \<Rightarrow> Config \<Rightarrow> volumeHandle res" where
  "decodeVolumeHandle raw cfg =
     (if length (cc_HandleKey cfg) < 32 then Inl (EMsg ''CSI handle signing key is unavailable'')
      else if \<not> HasPrefix raw volumeHandlePrefix then Inl (EMsg ''invalid volume ID format'')
      else case Cut (TrimPrefix raw volumeHandlePrefix) (CHR ''.'') of (payloadPart, signature, found) \<Rightarrow>
        if \<not> found \<or> signature = [] \<or> signature \<noteq> signVolumeHandle payloadPart (cc_HandleKey cfg)
        then Inl (EMsg ''volume ID signature is invalid'')
        else case RawURL_DecodeString payloadPart of
            None \<Rightarrow> Inl (EMsg ''decode volume ID'')
          | Some payload \<Rightarrow>
            (case Option.bind (map_option fst (json_decode payload)) decode_handle of
               None \<Rightarrow> Inl (EMsg ''decode volume ID'')
             | Some h \<Rightarrow>
                 and_then (volumeHandle_validate h) (\<lambda>_.
                 if cc_Endpoint cfg \<noteq> [] \<and> \<not> sameEndpoint (vh_Endpoint h) (cc_Endpoint cfg)
                 then Inl (EMsg ''volume endpoint does not match this driver instance'')
                 else if cc_DataServer cfg \<noteq> [] \<and> \<not> EqualFold (endpointHost (vh_Server h)) (endpointHost (cc_DataServer cfg))
                 then Inl (EMsg ''volume data server does not match this driver instance'')
                 else if cc_Endpoint cfg \<noteq> [] \<and> configuredRESTPort (cc_Endpoint cfg) (cc_RESTPort cfg) \<noteq> Inr (vh_RESTPort h)
                 then Inl (EMsg ''volume REST port does not match this driver instance'')
                 else Inr h)))"

section \<open>A decoded handle is authentic\<close>

text \<open>The handle belongs to the configured cluster.\<close>

definition bound_to :: "Config \<Rightarrow> volumeHandle \<Rightarrow> bool" where
  "bound_to cfg h \<longleftrightarrow>
     (cc_Endpoint cfg = [] \<or> sameEndpoint (vh_Endpoint h) (cc_Endpoint cfg) \<and>
        configuredRESTPort (cc_Endpoint cfg) (cc_RESTPort cfg) = Inr (vh_RESTPort h)) \<and>
     (cc_DataServer cfg = [] \<or> EqualFold (endpointHost (vh_Server h)) (endpointHost (cc_DataServer cfg)))"

text \<open>The text is a payload signed under the key, and the payload reads as the handle.\<close>

definition signed_payload :: "bytes \<Rightarrow> string \<Rightarrow> string \<Rightarrow> bool" where
  "signed_payload key payload raw \<longleftrightarrow> raw = volumeHandlePrefix @ payload @ ''.'' @ signVolumeHandle payload key"

definition payload_reads :: "string \<Rightarrow> volumeHandle \<Rightarrow> bool" where
  "payload_reads payload h \<longleftrightarrow>
     (\<exists>text rest j. RawURL_DecodeString payload = Some text \<and> json_decode text = Some (j, rest) \<and> decode_handle j = Some h)"

lemma decodeVolumeHandle_Inr:
  assumes "decodeVolumeHandle raw cfg = Inr h"
  shows "32 \<le> length (cc_HandleKey cfg) \<and> volumeHandle_validate h = Inr () \<and> bound_to cfg h \<and>
    (\<exists>payload. signed_payload (cc_HandleKey cfg) payload raw \<and> payload_reads payload h)"
proof -
  have k: "\<not> length (cc_HandleKey cfg) < 32" and p: "HasPrefix raw volumeHandlePrefix"
    using assms by (auto simp: decodeVolumeHandle_def split: if_splits)
  obtain payload signature found where c: "Cut (TrimPrefix raw volumeHandlePrefix) (CHR ''.'') = (payload, signature, found)"
    by (cases "Cut (TrimPrefix raw volumeHandlePrefix) (CHR ''.'')")
  have s: "found" "signature = signVolumeHandle payload (cc_HandleKey cfg)"
    using assms k p c by (auto simp: decodeVolumeHandle_def split: if_splits)
  obtain body where t: "RawURL_DecodeString payload = Some body"
    using assms k p c by (auto simp: decodeVolumeHandle_def split: if_splits option.splits)
  obtain h' where h': "Option.bind (map_option fst (json_decode body)) decode_handle = Some h'"
    using assms k p c t by (auto simp: decodeVolumeHandle_def split: if_splits option.splits)
  have r: "h' = h \<and> volumeHandle_validate h = Inr () \<and> bound_to cfg h"
    using assms k p c t h' s unfolding decodeVolumeHandle_def bound_to_def by (auto simp: and_then_Inr split: if_splits)
  have "payload_reads payload h"
    using t h' r unfolding payload_reads_def by (cases "json_decode body") auto
  moreover have "raw = volumeHandlePrefix @ TrimPrefix raw volumeHandlePrefix"
    using p unfolding TrimPrefix_def HasPrefix_def by (metis append_take_drop_id)
  moreover have "Cut (TrimPrefix raw volumeHandlePrefix) (CHR ''.'') = (payload, signature, True)" using c s(1) by simp
  then have "TrimPrefix raw volumeHandlePrefix = payload @ CHR ''.'' # signature" using Cut_True by blast
  ultimately show ?thesis using k r s unfolding signed_payload_def by auto
qed

section \<open>What is encoded is decoded\<close>

text \<open>The strings of the handle are text, and its capacity is a 64-bit integer.\<close>

definition text_handle :: "volumeHandle \<Rightarrow> bool" where
  "text_handle h \<longleftrightarrow>
     list_all utf8_valid [vh_Protocol h, vh_Endpoint h, vh_RESTPort h, vh_Server h, vh_FSPath h, vh_DirectoryID h, vh_ResourceID h,
       vh_ResourceName h, vh_SpecFingerprint h, vh_NFSVersion h] \<and> - (2 ^ 63) \<le> vh_Capacity h \<and> vh_Capacity h < 2 ^ 63"

lemma b64_encode_lines: "list_all (\<lambda>c. c \<noteq> CHR 0x0D \<and> c \<noteq> CHR 0x0A) (b64_encode s)"
proof -
  have "b64d n \<noteq> CHR 0x0D \<and> b64d n \<noteq> CHR 0x0A" if "n < 64" for n
  proof -
    have "45 \<le> ch (b64d n)" using that by (auto simp: b64d_def)
    then show ?thesis by auto
  qed
  then show ?thesis by (induction s rule: b64_encode.induct) simp_all
qed

lemma RawURL_Decode_encode [simp]: "RawURL_DecodeString (b64_encode s) = Some s"
proof -
  have "filter (\<lambda>c. c \<noteq> CHR 0x0D \<and> c \<noteq> CHR 0x0A) (b64_encode s) = b64_encode s"
    using b64_encode_lines [of s] by (simp add: filter_id_conv list_all_iff)
  then show ?thesis by (simp add: RawURL_DecodeString_def)
qed

lemma decode_handle_json:
  assumes "- (2 ^ 63) \<le> vh_Capacity h" "vh_Capacity h < 2 ^ 63"
  shows "decode_handle (handle_json h) = Some h"
proof -
  note fold = EqualFold_def ToLower_def to_lower_char_def is_upper_def
  show ?thesis
    using assms
    by (cases "vh_Capacity h = 0"; cases "vh_NFSVersion h = []"; cases "vh_SMBEncrypted h")
      (simp_all add: decode_handle_def handle_json_def opt_str_def strict_entry_def handle_fields_def get_str_def get_int_def get_bool_def fold)
qed

lemma json_ok_handle: "text_handle h \<Longrightarrow> json_ok (handle_json h)"
proof -
  assume t: "text_handle h"
  have keys: "list_all utf8_valid [''protocol'', ''endpoint'', ''restPort'', ''server'', ''fsPath'', ''directoryID'', ''resourceID'',
       ''resourceName'', ''specFingerprint'', ''capacityBytes'', ''quotaEnabled'', ''deleteData'', ''nfsVersion'', ''smbEncrypted'']"
    by code_simp
  show ?thesis using t keys by (simp add: text_handle_def handle_json_def opt_str_def)
qed

lemma Inr_unit: "(m :: unit res) = Inr x \<longleftrightarrow> m = Inr ()"
  by simp

lemma encode_Inr:
  assumes "volumeHandle_encode h key = Inr raw"
  shows "32 \<le> length key \<and> volumeHandle_validate h = Inr () \<and> signed_payload key (b64_encode (Marshal (handle_json h))) raw"
  using assms by (auto simp: volumeHandle_encode_def Let_def and_then_Inr signed_payload_def split: if_splits)

lemma payload_decodes: "text_handle h \<Longrightarrow> Option.bind (map_option fst (json_decode (Marshal (handle_json h)))) decode_handle = Some h"
  using decode_handle_json [of h] json_decode_Marshal [OF json_ok_handle, of h] by (simp add: text_handle_def)

lemma signature_ne: "signVolumeHandle p key \<noteq> []"
proof -
  have "length (hmac_sha256 key (volumeHandlePrefix @ p)) = 32" by (simp add: hmac_sha256_def Let_def)
  then show ?thesis unfolding signVolumeHandle_def
    by (cases "hmac_sha256 key (volumeHandlePrefix @ p)" rule: b64_encode.cases) auto
qed

lemma decode_signed:
  assumes "32 \<le> length (cc_HandleKey cfg)" "signed_payload (cc_HandleKey cfg) (b64_encode (Marshal (handle_json h))) raw"
    "volumeHandle_validate h = Inr ()" "bound_to cfg h" "text_handle h"
  shows "decodeVolumeHandle raw cfg = Inr h"
proof -
  let ?p = "b64_encode (Marshal (handle_json h))" and ?s = "signVolumeHandle (b64_encode (Marshal (handle_json h))) (cc_HandleKey cfg)"
  have raw: "raw = volumeHandlePrefix @ ?p @ ''.'' @ ?s" using assms(2) by (simp add: signed_payload_def)
  have p: "HasPrefix raw volumeHandlePrefix" unfolding raw by (rule HasPrefix_append)
  then have "TrimPrefix raw volumeHandlePrefix = ?p @ CHR ''.'' # ?s" unfolding TrimPrefix_def by (simp add: raw)
  then have c: "Cut (TrimPrefix raw volumeHandlePrefix) (CHR ''.'') = (?p, ?s, True)" using Cut_here [OF b64_encode_no_dot] by simp
  show ?thesis
    unfolding decodeVolumeHandle_def c prod.case RawURL_Decode_encode option.case payload_decodes [OF assms(5)] assms(3)
    using assms(1,4) p signature_ne by (auto simp: bound_to_def and_then_def)
qed

text \<open>C19: A volume ID that decodes was signed under the process's key: it is the prefix, a payload and the payload's signature, the payload reads as
  the handle, the handle is valid, and it belongs to the configured cluster.\<close>

theorem decodeVolumeHandle_authentic:
  assumes "decodeVolumeHandle raw cfg = Inr h"
  shows "volumeHandle_validate h = Inr () \<and> bound_to cfg h \<and> 32 \<le> length (cc_HandleKey cfg) \<and>
    (\<exists>payload. raw = volumeHandlePrefix @ payload @ ''.'' @ signVolumeHandle payload (cc_HandleKey cfg) \<and> payload_reads payload h)"
  using decodeVolumeHandle_Inr [OF assms] unfolding signed_payload_def by blast

text \<open>C32: A handle that was encoded decodes to itself under the same key, if it belongs to the configured cluster and its strings are text.\<close>

theorem decodeVolumeHandle_encode:
  assumes "volumeHandle_encode h (cc_HandleKey cfg) = Inr raw" "bound_to cfg h" "text_handle h"
  shows "decodeVolumeHandle raw cfg = Inr h"
  using encode_Inr [OF assms(1)] decode_signed assms(2,3) by blast

end
