(* ===== verification/Lawful.thy ===== *)
theory Lawful
  imports Trace_Logic
begin

text \<open>
  Which requests a program may send after which events.  A policy \<open>P es rq\<close> says that \<open>rq\<close> is allowed once \<open>es\<close> has happened;
  \<open>lawful P h m\<close> that every request \<open>m\<close> sends after the history \<open>h\<close> is allowed at the moment it is sent, whatever the cluster
  answers and however \<open>m\<close> ends.  The rules follow the structure of the program and hand what one part has learnt to the next.
\<close>

section \<open>Laws of the error monad\<close>

lemma andThen_ok [simp]: "andThen (ok x) k = k x"
  by (rule state.expand, rule ext) (simp add: run_andThen)

lemma andThen_fail [simp]: "andThen (fail e) k = fail e"
  by (rule state.expand, rule ext) (simp add: run_andThen)

lemma andThen_assoc: "andThen (andThen m k) l = andThen m (\<lambda>x. andThen (k x) l)"
  by (rule state.expand, rule ext) (simp add: run_andThen split: prod.split sum.split)

section \<open>Lawful programs\<close>

fun allowed_from :: "(event list \<Rightarrow> request \<Rightarrow> bool) \<Rightarrow> event list \<Rightarrow> event list \<Rightarrow> bool" where
  "allowed_from P h [] \<longleftrightarrow> True"
| "allowed_from P h (e # es) \<longleftrightarrow> ev_ok (P h) e \<and> allowed_from P (h @ [e]) es"

definition lawful :: "(event list \<Rightarrow> request \<Rightarrow> bool) \<Rightarrow> event list \<Rightarrow> 'a prog \<Rightarrow> bool" where
  "lawful P h m \<longleftrightarrow> emits m (\<lambda>es r. allowed_from P h es)"

text \<open>What was allowed stays allowed.\<close>

definition lasting :: "(event list \<Rightarrow> request \<Rightarrow> bool) \<Rightarrow> bool" where
  "lasting P \<longleftrightarrow> (\<forall>es es' rq. P es rq \<longrightarrow> P (es @ es') rq)"

lemma lastingD: "lasting P \<Longrightarrow> P es rq \<Longrightarrow> P (es @ es') rq"
  by (simp add: lasting_def)

lemma allowed_from_append [simp]: "allowed_from P h (es @ es') \<longleftrightarrow> allowed_from P h es \<and> allowed_from P (h @ es) es'"
  by (induction es arbitrary: h) auto

lemma allowed_from_all: "lasting P \<Longrightarrow> list_all (ev_ok (P h)) es \<Longrightarrow> allowed_from P h es"
proof (induction es arbitrary: h)
  case (Cons e es)
  have "list_all (ev_ok (P (h @ [e]))) es"
    using Cons.prems by (auto simp: list_all_iff intro: ev_ok_mono [OF lastingD [OF Cons.prems(1)]])
  then show ?case using Cons by simp
qed simp

text \<open>What the recursion says: each request was allowed by everything before it.\<close>

lemma allowed_fromD:
  "allowed_from P h es \<Longrightarrow> es = es1 @ Sent rq rp # es2 \<Longrightarrow> is_login rq \<or> P (h @ es1) (unauth rq)"
  by simp

lemma lawfulD:
  assumes "lawful P [] m" "run_state m w = (r, w')"
  shows "\<exists>es. w_events w' = w_events w @ es \<and> allowed_from P [] es"
  using emitsD [OF assms(1) [unfolded lawful_def] assms(2)] by blast

lemma lawful_ret: "lawful P h (ret x)"
  unfolding lawful_def by (rule emits_ret) simp

lemma lawful_sends: "lasting P \<Longrightarrow> sends (P h) m \<Longrightarrow> lawful P h m"
  unfolding lawful_def evs_def by (erule emits_weaken) (rule allowed_from_all)

lemma lawful_bind:
  assumes "lawful P h m" "emits m Q" "\<And>es x. Q es x \<Longrightarrow> lawful P (h @ es) (f x)"
  shows "lawful P h (m \<bind> f)"
  unfolding lawful_def
proof (rule emits_bind [OF emits_conj [OF assms(1) [unfolded lawful_def] assms(2)]], elim conjE)
  fix es x assume *: "allowed_from P h es" "Q es x"
  from assms(3) [OF *(2)] show "emits (f x) (\<lambda>es' r. allowed_from P h (es @ es'))"
    unfolding lawful_def by (rule emits_weaken) (use * in simp)
qed

lemma lawful_andThen:
  assumes "lawful P h m" "emits m (on_ok Q)" "\<And>es x. Q es x \<Longrightarrow> lawful P (h @ es) (k x)"
  shows "lawful P h (andThen m k)"
  unfolding andThen_def
  by (rule lawful_bind [OF assms(1,2)]) (auto simp: on_ok_def lawful_ret split: sum.split intro: assms(3))

text \<open>The same when nothing has to be handed on.\<close>

lemma lawful_bind_any:
  assumes "lawful P h m" "\<And>es x. lawful P (h @ es) (f x)"
  shows "lawful P h (m \<bind> f)"
  by (rule lawful_bind [OF assms(1) emits_any [OF assms(1) [unfolded lawful_def]]]) (rule assms(2))

lemma lawful_andThen_any:
  assumes "lawful P h m" "\<And>es x. lawful P (h @ es) (k x)"
  shows "lawful P h (andThen m k)"
  unfolding andThen_def by (rule lawful_bind_any [OF assms(1)]) (auto simp: lawful_ret assms(2) split: sum.split)

lemma lawful_if: "(b \<Longrightarrow> lawful P h m) \<Longrightarrow> (\<not> b \<Longrightarrow> lawful P h n) \<Longrightarrow> lawful P h (if b then m else n)"
  by simp

lemma lawful_Let: "(\<And>x. x = t \<Longrightarrow> lawful P h (f x)) \<Longrightarrow> lawful P h (Let t f)"
  by simp

lemma lawful_case_sum:
  "(\<And>e. r = Inl e \<Longrightarrow> lawful P h (f e)) \<Longrightarrow> (\<And>x. r = Inr x \<Longrightarrow> lawful P h (g x)) \<Longrightarrow> lawful P h (case_sum f g r)"
  by (cases r) simp_all

lemma lawful_case_option:
  "(r = None \<Longrightarrow> lawful P h f) \<Longrightarrow> (\<And>x. r = Some x \<Longrightarrow> lawful P h (g x)) \<Longrightarrow> lawful P h (case_option f g r)"
  by (cases r) simp_all

lemma lawful_case_prod: "(\<And>a b. p = (a, b) \<Longrightarrow> lawful P h (f a b)) \<Longrightarrow> lawful P h (case_prod f p)"
  by (cases p) simp

lemma lawful_wrap: "lawful P h m \<Longrightarrow> lawful P h (wrap pre m)"
  unfolding lawful_def by (rule emits_wrap) simp

lemma lawful_mono:
  assumes "lawful P h m" "\<And>es rq. P es rq \<Longrightarrow> Q es rq"
  shows "lawful Q h m"
proof -
  have "allowed_from P h es \<Longrightarrow> allowed_from Q h es" for es
    by (induction es arbitrary: h) (auto intro: ev_ok_mono assms(2))
  then show ?thesis using assms(1) unfolding lawful_def by (blast intro: emits_weaken)
qed

lemma lawful_lift: "lawful P h (lift_res r)"
  unfolding lift_res_def by (rule lawful_ret)

lemmas lawful_rules = lawful_ret lawful_lift lawful_if lawful_Let lawful_case_sum lawful_case_option lawful_case_prod lawful_wrap

text \<open>A plain value and a checked condition as a program.\<close>

lemma emits_lift_ok: "(\<And>x. r = Inr x \<Longrightarrow> Q [] x) \<Longrightarrow> emits (lift_res r) (on_ok Q)"
  unfolding lift_res_def by (rule emits_ret) (simp add: on_ok_def)

lemma emits_on_ok_conj: "emits m (on_ok P) \<Longrightarrow> emits m (on_ok Q) \<Longrightarrow> emits m (on_ok (\<lambda>es x. P es x \<and> Q es x))"
  by (rule emits_weaken, rule emits_conj, assumption, assumption) (simp add: on_ok_def)

end
