(* ===== verification/Claims.thy ===== *)
theory Claims
  imports Lawful
begin

text \<open>
  The contract that the NFS exports and the SMB shares have in common: a named resource is claimed by reading it, refusing it if it
  belongs to someone else, and writing what differs under the ETag that was read; a write that lost a race starts over with a new reading.
  The locale takes the loop as the code has it, by its two equations, and shows that it writes nothing but what a reading it did not refuse calls
  for, and that it succeeds only on a resource it did not refuse.
\<close>

locale claim_protocol =
  fixes look :: "'r option io"
    and patch :: "'r \<Rightarrow> 'r io"
    and refuse :: "'r \<Rightarrow> go_error option"
    and differs :: "'r \<Rightarrow> bool"
    and loop :: "nat \<Rightarrow> 'r option \<Rightarrow> ('r \<times> bool) io"
    and rd :: "event list \<Rightarrow> 'r \<Rightarrow> bool"
    and wr :: "'r \<Rightarrow> request"
    and unsettled :: go_error
  assumes loop_0: "loop 0 cur = fail unsettled"
    and loop_Suc: "loop (Suc n) cur =
      andThen (case cur of None \<Rightarrow> look | Some x \<Rightarrow> ok (Some x)) (\<lambda>found.
        case found of
          None \<Rightarrow> loop n None
        | Some x \<Rightarrow>
            (case refuse x of
               Some e \<Rightarrow> fail e
             | None \<Rightarrow>
                 if \<not> differs x then ok (x, False)
                 else do {
                   r \<leftarrow> patch x;
                   case r of
                     Inr updated \<Rightarrow> ok (updated, False)
                   | Inl e \<Rightarrow> if \<not> isAPIPreconditionFailed e then fail e else loop n None }))"
    and look_reads: "emits look (on_ok (\<lambda>es found. \<forall>x. found = Some x \<longrightarrow> rd es x))"
    and look_sends: "reads R \<Longrightarrow> sends R look"
    and patch_accepted: "emits (patch x) (on_ok (\<lambda>es _. accepted (wr x) es))"
    and patch_sends: "R (wr x) \<Longrightarrow> sends R (patch x)"
    and rd_grows: "rd es x \<Longrightarrow> rd (es0 @ es @ es') x"
begin

definition claimed :: "event list \<Rightarrow> bool" where
  "claimed es \<longleftrightarrow> (\<exists>es1 es2 x. es = es1 @ es2 \<and> rd es1 x \<and> refuse x = None \<and> (\<not> differs x \<or> accepted (wr x) es2))"

lemma rd_after: "rd es x \<Longrightarrow> rd (es0 @ es) x" and rd_before: "rd es x \<Longrightarrow> rd (es @ es') x"
  using rd_grows [of es x es0 "[]"] rd_grows [of es x "[]" es'] by simp_all

text \<open>The step after the reading, for a claim of \<open>Q\<close> about the rest of the loop.\<close>

lemma reading:
  assumes "\<forall>x. cur = Some x \<longrightarrow> rd h x"
  shows "emits (case cur of None \<Rightarrow> look | Some x \<Rightarrow> ok (Some x)) (on_ok (\<lambda>es found. \<forall>x. found = Some x \<longrightarrow> rd (h @ es) x))"
proof (cases cur)
  case None
  then show ?thesis by simp (rule emits_weaken [OF look_reads], auto simp: on_ok_def intro: rd_after)
next
  case (Some x)
  then show ?thesis using assms by (simp add: emits_ok)
qed

lemma succeeds:
  "\<forall>x. cur = Some x \<longrightarrow> rd h x \<Longrightarrow> emits (loop n cur) (on_ok (\<lambda>es r. \<not> snd r \<and> claimed (h @ es)))"
proof (induction n arbitrary: cur h)
  case 0
  show ?case unfolding loop_0 by (rule emits_fail)
next
  case (Suc n)
  have again: "emits (loop n None) (on_ok (\<lambda>es' r. \<not> snd r \<and> claimed (h @ es @ es')))" for es
    using Suc.IH [of None "h @ es"] by simp
  show ?case
    unfolding loop_Suc
  proof (rule emits_on_ok_andThen [OF reading [OF Suc.prems]], rule emits_case_option, goal_cases)
    case (1 es found)
    then show ?case using again [of es] by simp
  next
    case (2 es found x)
    then have rd: "rd (h @ es) x" by simp
    show ?case
    proof (rule emits_case_option, goal_cases)
      case 1
      show ?case
      proof (rule emits_if, goal_cases)
        case 1
        then have "claimed (h @ es @ [])" unfolding claimed_def using rd \<open>refuse x = None\<close>
          by (intro exI [of _ "h @ es"] exI [of _ "[]"] exI [of _ x]) simp
        then show ?case by (simp add: emits_ok)
      next
        case 2
        show ?case
        proof (rule emits_bind_ok [OF patch_accepted], rule emits_case_sum, goal_cases)
          case (1 es' r e)
          then show ?case using again [of "es @ es'"] by (intro emits_if emits_fail) simp
        next
          case (2 es' r u)
          then have "claimed (h @ es @ es')" unfolding claimed_def using rd \<open>refuse x = None\<close>
            by (intro exI [of _ "h @ es"] exI [of _ "es'"] exI [of _ x]) simp
          then show ?case by (simp add: emits_ok)
        qed
      qed
    qed (rule emits_fail)
  qed
qed

lemma lawful_loop:
  assumes P: "lasting P" "\<And>h. reads (P h)" "\<And>h x. rd h x \<Longrightarrow> refuse x = None \<Longrightarrow> differs x \<Longrightarrow> P h (wr x)"
  shows "\<forall>x. cur = Some x \<longrightarrow> rd h x \<Longrightarrow> lawful P h (loop n cur)"
proof (induction n arbitrary: cur h)
  case 0
  show ?case unfolding loop_0 by (rule lawful_ret)
next
  case (Suc n)
  have again: "lawful P h' (loop n None)" for h' by (rule Suc.IH) simp
  have "lawful P h (case cur of None \<Rightarrow> look | Some x \<Rightarrow> ok (Some x))"
    by (intro lawful_case_option lawful_ret lawful_sends [OF P(1)] look_sends P(2))
  then show ?case
    unfolding loop_Suc
  proof (rule lawful_andThen [OF _ reading [OF Suc.prems]], goal_cases)
    case (1 es found)
    show ?case
    proof (rule lawful_case_option, rule again, rule lawful_case_option, rule lawful_if, rule lawful_ret, goal_cases)
      case (1 x)
      then have "P (h @ es) (wr x)" using P(3) \<open>\<forall>x. found = Some x \<longrightarrow> rd (h @ es) x\<close> by simp
      then have "lawful P (h @ es) (patch x)" by (intro lawful_sends [OF P(1)] patch_sends)
      then show ?case
        by (rule lawful_bind [OF _ patch_accepted]) (intro lawful_case_sum lawful_if lawful_ret again)
    qed (rule lawful_ret)
  qed
qed

end

text \<open>The whole claim: look for the resource, create it when it is absent, and fall back to the loop when another client created it
  first or the outcome of the creation is in doubt.\<close>

locale claiming = claim_protocol +
  fixes probe :: "'a option io"
    and create :: "'a io"
    and in_doubt :: "go_error \<Rightarrow> go_error \<Rightarrow> go_error"
    and absent :: "event list \<Rightarrow> bool"
    and post :: request
    and ensure :: "('a \<times> bool) io"
  assumes ensure_eq: "ensure =
      andThen probe (\<lambda>current.
        case current of
          Some cur \<Rightarrow> loop 3 (Some cur)
        | None \<Rightarrow> do {
            r \<leftarrow> create;
            case r of
              Inr created \<Rightarrow> ok (created, True)
            | Inl e \<Rightarrow>
                if isAPIAlreadyExists e then loop 3 None
                else if isAmbiguousCreateError e then do {
                  g \<leftarrow> probe;
                  case g of
                    Inl err \<Rightarrow> fail (in_doubt err e)
                  | Inr None \<Rightarrow> fail e
                  | Inr (Some cur) \<Rightarrow> loop 3 (Some cur) }
                else fail e })"
    and probe_reads: "emits probe (on_ok (\<lambda>es current. case current of None \<Rightarrow> absent es | Some x \<Rightarrow> rd es x))"
    and probe_sends: "reads R \<Longrightarrow> sends R probe"
    and create_accepted: "emits create (on_ok (\<lambda>es _. accepted post es))"
    and create_sends: "R post \<Longrightarrow> sends R create"
    and absent_after: "absent es \<Longrightarrow> absent (es' @ es)"
begin

lemma lawful_ensure:
  assumes P: "lasting P" "\<And>h. reads (P h)" "\<And>h x. rd h x \<Longrightarrow> refuse x = None \<Longrightarrow> differs x \<Longrightarrow> P h (wr x)"
    and post: "\<And>h. absent h \<Longrightarrow> P h post"
  shows "lawful P h ensure"
proof -
  have probe: "lawful P h' probe" for h' by (intro lawful_sends [OF P(1)] probe_sends P(2))
  have create: "lawful P h' create" if "absent h'" for h' using post [OF that] by (intro lawful_sends [OF P(1)] create_sends)
  note loop = lawful_loop [OF P]
  show ?thesis
    unfolding ensure_eq
  proof (rule lawful_andThen [OF probe probe_reads], goal_cases)
    case (1 es current)
    show ?case
    proof (cases current)
      case (Some x)
      then show ?thesis using 1 rd_after by (auto intro: loop)
    next
      case None
      then have "lawful P (h @ es) create" using 1 absent_after by (auto intro: create)
      then show ?thesis
        unfolding None option.case
        by (rule lawful_bind_any) (intro lawful_rules loop lawful_bind [OF probe probe_reads], auto intro: rd_after)
    qed
  qed
qed

lemma ensured:
  "emits ensure (on_ok (\<lambda>es r. if snd r then accepted post es else claimed es))"
proof -
  have created: "accepted rq es \<Longrightarrow> accepted rq (es' @ es)" for rq es es' unfolding accepted_def using answered_append by blast
  have loop: "emits (loop 3 cur) (on_ok (\<lambda>es' r. if snd r then accepted post (es @ es') else claimed (es @ es')))"
    if "\<forall>x. cur = Some x \<longrightarrow> rd es x" for cur es
    by (rule emits_weaken [OF succeeds [OF that]]) (auto simp: on_ok_def)
  note loop2 = loop [where es = "a @ b" for a b, simplified append_assoc]
  note loop3 = loop [where es = "a @ b @ c" for a b c, simplified append_assoc]
  show ?thesis
    unfolding ensure_eq
    apply (intro emits_on_ok_andThen [OF probe_reads] emits_case_option emits_bind_ok [OF create_accepted] emits_bind_ok [OF probe_reads]
      emits_case_sum emits_if emits_fail emits_ok loop3 loop2 loop)
    apply (auto intro: rd_after created)
    done
qed

end

section \<open>Resources with an ETag\<close>

text \<open>A call whose answer is decoded and keeps the ETag of the answer, and the answers seen to a reading.\<close>

definition tagged_call ::
    "'a \<Rightarrow> (json \<Rightarrow> 'a option) \<Rightarrow> (string \<Rightarrow> 'a \<Rightarrow> 'a) \<Rightarrow> Connection \<Rightarrow> string \<Rightarrow> string \<Rightarrow> (string \<times> string) list \<Rightarrow> string option \<Rightarrow>
     json option \<Rightarrow> 'a io" where
  "tagged_call zero dec tag c m p q h b = andThen (DoJSON c m p q h b (into zero dec)) (\<lambda>(etag, x). ok (tag etag x))"

definition tagged_answer :: "'a \<Rightarrow> (json \<Rightarrow> 'a option) \<Rightarrow> (string \<Rightarrow> 'a \<Rightarrow> 'a) \<Rightarrow> request \<Rightarrow> event list \<Rightarrow> 'a \<Rightarrow> bool" where
  "tagged_answer zero dec tag rq es x \<longleftrightarrow> (\<exists>etag raw j y. seen rq es etag raw j \<and> into zero dec raw j = Some y \<and> x = tag etag y)"

lemma tagged_answer_grows: "tagged_answer zero dec tag rq es x \<Longrightarrow> tagged_answer zero dec tag rq (es0 @ es @ es') x"
  unfolding tagged_answer_def using seen_inside by blast

lemma tagged_answer_before: "tagged_answer zero dec tag rq es x \<Longrightarrow> tagged_answer zero dec tag rq (es @ es') x"
  using tagged_answer_grows [of zero dec tag rq es x "[]" es'] by simp

lemma tagged_answer_after: "tagged_answer zero dec tag rq es x \<Longrightarrow> tagged_answer zero dec tag rq (es' @ es) x"
  using tagged_answer_grows [of zero dec tag rq es x es' "[]"] by simp

lemma emits_tagged_call:
  "emits (tagged_call zero dec tag c m p q h b) (\<lambda>es r. case r of
     Inr x \<Rightarrow> tagged_answer zero dec tag (mk_request m p q h b) es x \<and> accepted (mk_request m p q h b) es
   | Inl e \<Rightarrow> api_seen (mk_request m p q h b) es e)"
  unfolding tagged_call_def
proof (rule emits_call, goal_cases)
  case (2 es etag x raw j)
  then have "tagged_answer zero dec tag (mk_request m p q h b) es (tag etag x)" "accepted (mk_request m p q h b) es"
    unfolding tagged_answer_def using answered_seen answered_accepted by blast+
  then show ?case by (simp add: emits_ret)
qed simp

lemma emits_tagged_accepted:
  "emits (tagged_call zero dec tag c m p q h b) (on_ok (\<lambda>es _. accepted (mk_request m p q h b) es))"
  by (rule emits_weaken [OF emits_tagged_call]) (auto simp: on_ok_def)

lemma emits_tagged_get:
  "emits (tagged_call zero dec tag c m p q h b) (\<lambda>es r. case r of
     Inr x \<Rightarrow> tagged_answer zero dec tag (mk_request m p q h b) es x
   | Inl e \<Rightarrow> isAPINotFound e \<longrightarrow> not_found_answer (mk_request m p q h b) es)"
  by (rule emits_weaken [OF emits_tagged_call]) (auto split: sum.splits dest: not_found_seen')

lemma sends_tagged_call: "R (mk_request m p q h b) \<Longrightarrow> sends R (tagged_call zero dec tag c m p q h b)"
  unfolding tagged_call_def by (intro io_rules sends_DoJSON)

text \<open>Looking for a resource by reading it.\<close>

definition probe_by :: "'a io \<Rightarrow> 'a option io" where
  "probe_by get = do {
     g \<leftarrow> get;
     case g of Inr x \<Rightarrow> ok (Some x) | Inl e \<Rightarrow> if isAPINotFound e then ok None else fail e }"

lemma emits_probe_by:
  assumes "emits get (\<lambda>es r. case r of Inr x \<Rightarrow> rd es x | Inl e \<Rightarrow> isAPINotFound e \<longrightarrow> gone es)"
  shows "emits (probe_by get) (on_ok (\<lambda>es found. case found of None \<Rightarrow> gone es | Some x \<Rightarrow> rd es x))"
  unfolding probe_by_def
  by (rule emits_bind_ok [OF assms]) (auto split: sum.split intro!: emits_ok emits_fail)

lemma sends_probe_by: "sends R get \<Longrightarrow> sends R (probe_by get)"
  unfolding probe_by_def by (intro io_rules)

lemma probe_by_bind:
  "andThen (probe_by get) k = do {
     g \<leftarrow> get;
     case g of Inr x \<Rightarrow> k (Some x) | Inl e \<Rightarrow> if isAPINotFound e then k None else fail e }"
  by (rule state.expand, rule ext) (simp add: probe_by_def run_bind run_andThen split: prod.split sum.split)

lemma not_found_before: "not_found_answer rq es \<Longrightarrow> not_found_answer rq (es @ es')"
  by (erule not_found_mono) auto

lemma not_found_after: "not_found_answer rq es \<Longrightarrow> not_found_answer rq (es' @ es)"
  by (erule not_found_mono) auto

lemma seen_before: "seen rq es etag raw j \<Longrightarrow> seen rq (es @ es') etag raw j"
  by (erule seen_mono) auto

lemma seen_after: "seen rq es etag raw j \<Longrightarrow> seen rq (es' @ es) etag raw j"
  by (erule seen_mono) auto

lemma accepted_after: "accepted rq es \<Longrightarrow> accepted rq (es' @ es)"
  unfolding accepted_def using answered_append by blast

end
