(* ===== verification/Nfs_Exports.thy ===== *)
theory Nfs_Exports
  imports Claims
begin

text \<open>
  \<^verbatim>\<open>internal/qumulo/nfs.go\<close>: NFS exports over the stable v2 and the tenant-aware v3 API.  Claiming an export is shown to write only
  what is permitted: a creation after the export was found absent, or a patch, under the ETag read, of an export that was read with the requested
  filesystem path and, when claiming, the requested description.
\<close>

section \<open>Values\<close>

text \<open>A Go slice: \<open>None\<close> is nil, which \<^verbatim>\<open>json.Marshal\<close> writes as null.\<close>

type_synonym 'a slice = "'a list option"

definition elems :: "'a slice \<Rightarrow> 'a list" where
  "elems s = (case s of None \<Rightarrow> [] | Some xs \<Rightarrow> xs)"

definition slice_json :: "('a \<Rightarrow> json) \<Rightarrow> 'a slice \<Rightarrow> json" where
  "slice_json f s = (case s of None \<Rightarrow> JNull | Some xs \<Rightarrow> JArr (map f xs))"

definition nonNilProtocolSlice :: "'a slice \<Rightarrow> 'a slice" where
  "nonNilProtocolSlice s = Some (elems s)"

record NFSIdentity =
  nid_IDType :: string
  nid_IDValue :: string

record NFSRestriction =
  nr_HostRestrictions :: "string slice"
  nr_RequirePrivilegedPort :: bool
  nr_ReadOnly :: bool
  nr_RequiredAuthenticationMode :: string
  nr_UserMapping :: string
  nr_MapToUser :: "NFSIdentity option"
  nr_MapToGroup :: "NFSIdentity option"

record NFSExport =
  ne_ID :: string
  ne_ExportPath :: string
  ne_FSPath :: string
  ne_Description :: string
  ne_Restrictions :: "NFSRestriction slice"
  ne_Fields32 :: "string slice"
  ne_TenantID :: int
  ne_ETag :: string

record NFSExportRequest =
  nq_ExportPath :: string
  nq_TenantID :: int
  nq_FSPath :: string
  nq_Description :: string
  nq_Restrictions :: "NFSRestriction slice"
  nq_Fields32 :: "string slice"

record PatchNFSExportRequest =
  np_ExportPath :: "string option"
  np_TenantID :: "int option"
  np_FSPath :: "string option"
  np_Description :: "string option"
  np_Restrictions :: "NFSRestriction slice option"
  np_Fields32 :: "string slice option"

record NFSExportWriteOptions =
  nw_AllowFSPathCreate :: bool
  nw_IfMatch :: string

definition no_export :: NFSExport where
  "no_export = \<lparr>ne_ID = [], ne_ExportPath = [], ne_FSPath = [], ne_Description = [], ne_Restrictions = None, ne_Fields32 = None,
     ne_TenantID = 0, ne_ETag = []\<rparr>"

definition no_export_patch :: PatchNFSExportRequest where
  "no_export_patch = \<lparr>np_ExportPath = None, np_TenantID = None, np_FSPath = None, np_Description = None, np_Restrictions = None,
     np_Fields32 = None\<rparr>"

definition NFSAuthNone :: string where "NFSAuthNone = ''AUTHENTICATION_MODE_NONE''"
definition NFSMapNone :: string where "NFSMapNone = ''NFS_MAP_NONE''"
definition NFSMapRoot :: string where "NFSMapRoot = ''NFS_MAP_ROOT''"
definition NFSIdentityUID :: string where "NFSIdentityUID = ''NFS_UID''"
definition NFSIdentityGID :: string where "NFSIdentityGID = ''NFS_GID''"

section \<open>JSON\<close>

definition encode_nfs_identity :: "NFSIdentity \<Rightarrow> json" where
  "encode_nfs_identity i = JObj [(''id_type'', JStr (nid_IDType i)), (''id_value'', JStr (nid_IDValue i))]"

definition opt_json :: "string \<Rightarrow> ('a \<Rightarrow> json) \<Rightarrow> 'a option \<Rightarrow> (string \<times> json) list" where
  "opt_json k f v = (case v of None \<Rightarrow> [] | Some x \<Rightarrow> [(k, f x)])"

definition opt_int :: "string \<Rightarrow> int \<Rightarrow> (string \<times> json) list" where
  "opt_int k i = (if i = 0 then [] else [(k, JNum i)])"

definition encode_restriction :: "NFSRestriction \<Rightarrow> json" where
  "encode_restriction r =
     JObj ([(''host_restrictions'', slice_json JStr (nr_HostRestrictions r)),
            (''require_privileged_port'', JBool (nr_RequirePrivilegedPort r)), (''read_only'', JBool (nr_ReadOnly r)),
            (''required_authentication_mode'', JStr (nr_RequiredAuthenticationMode r)), (''user_mapping'', JStr (nr_UserMapping r))]
           @ opt_json ''map_to_user'' encode_nfs_identity (nr_MapToUser r)
           @ opt_json ''map_to_group'' encode_nfs_identity (nr_MapToGroup r))"

definition encode_export_request :: "NFSExportRequest \<Rightarrow> json" where
  "encode_export_request q =
     JObj ([(''export_path'', JStr (nq_ExportPath q))] @ opt_int ''tenant_id'' (nq_TenantID q)
           @ [(''fs_path'', JStr (nq_FSPath q)), (''description'', JStr (nq_Description q)),
              (''restrictions'', slice_json encode_restriction (nq_Restrictions q))]
           @ (if elems (nq_Fields32 q) = [] then [] else [(''fields_to_present_as_32_bit'', slice_json JStr (nq_Fields32 q))]))"

definition encode_export_patch :: "PatchNFSExportRequest \<Rightarrow> json" where
  "encode_export_patch p =
     JObj (opt_json ''export_path'' JStr (np_ExportPath p) @ opt_json ''tenant_id'' JNum (np_TenantID p)
           @ opt_json ''fs_path'' JStr (np_FSPath p) @ opt_json ''description'' JStr (np_Description p)
           @ opt_json ''restrictions'' (slice_json encode_restriction) (np_Restrictions p)
           @ opt_json ''fields_to_present_as_32_bit'' (slice_json JStr) (np_Fields32 p))"

text \<open>A pointer to a struct: null and a missing key are nil.\<close>

definition get_obj_ptr :: "(json \<Rightarrow> 'a option) \<Rightarrow> string \<Rightarrow> (string \<times> json) list \<Rightarrow> 'a option option" where
  "get_obj_ptr d k kvs = (case jfind k kvs of None \<Rightarrow> Some None | Some j \<Rightarrow> map_option Some (d j))"

definition decode_nfs_identity :: "json \<Rightarrow> NFSIdentity option" where
  "decode_nfs_identity j = do {
     kvs \<leftarrow> obj_fields j; t \<leftarrow> get_str ''id_type'' kvs; v \<leftarrow> get_str ''id_value'' kvs;
     Some \<lparr>nid_IDType = t, nid_IDValue = v\<rparr> }"

definition decode_restriction :: "json \<Rightarrow> NFSRestriction option" where
  "decode_restriction j = do {
     kvs \<leftarrow> obj_fields j;
     hosts \<leftarrow> get_slice json_str ''host_restrictions'' kvs;
     priv \<leftarrow> get_bool ''require_privileged_port'' kvs;
     ro \<leftarrow> get_bool ''read_only'' kvs;
     auth \<leftarrow> get_str ''required_authentication_mode'' kvs;
     um \<leftarrow> get_str ''user_mapping'' kvs;
     mu \<leftarrow> get_obj_ptr decode_nfs_identity ''map_to_user'' kvs;
     mg \<leftarrow> get_obj_ptr decode_nfs_identity ''map_to_group'' kvs;
     Some \<lparr>nr_HostRestrictions = hosts, nr_RequirePrivilegedPort = priv, nr_ReadOnly = ro, nr_RequiredAuthenticationMode = auth,
           nr_UserMapping = um, nr_MapToUser = mu, nr_MapToGroup = mg\<rparr> }"

definition decode_export :: "json \<Rightarrow> NFSExport option" where
  "decode_export j = do {
     kvs \<leftarrow> obj_fields j;
     i \<leftarrow> get_str ''id'' kvs; ep \<leftarrow> get_str ''export_path'' kvs; fp \<leftarrow> get_str ''fs_path'' kvs; d \<leftarrow> get_str ''description'' kvs;
     rs \<leftarrow> get_slice decode_restriction ''restrictions'' kvs;
     fs \<leftarrow> get_slice json_str ''fields_to_present_as_32_bit'' kvs;
     t \<leftarrow> get_int ''tenant_id'' kvs;
     Some \<lparr>ne_ID = i, ne_ExportPath = ep, ne_FSPath = fp, ne_Description = d, ne_Restrictions = rs, ne_Fields32 = fs, ne_TenantID = t,
           ne_ETag = []\<rparr> }"

fun decode_array_or_null :: "(json \<Rightarrow> 'a option) \<Rightarrow> json \<Rightarrow> 'a list option" where
  "decode_array_or_null d (JArr js) = decode_all d js"
| "decode_array_or_null d JNull = Some []"
| "decode_array_or_null d _ = None"

section \<open>Requests\<close>

definition nfsExportsPath :: string where "nfsExportsPath = ''/v2/nfs/exports/''"
definition nfsExportsV3PreviewPath :: string where "nfsExportsV3PreviewPath = ''/v3/nfs/exports/''"

definition rejectProtocolControlCharacters :: "string \<Rightarrow> string \<Rightarrow> unit res" where
  "rejectProtocolControlCharacters what v = (if has_control v then Inl (EMsg (what @ '' contains a control character'')) else Inr ())"

definition andr :: "unit res \<Rightarrow> 'a res \<Rightarrow> 'a res" where
  "andr m k = (case m of Inl e \<Rightarrow> Inl e | Inr _ \<Rightarrow> k)"

definition validateNFSExportRequest :: "NFSExportRequest \<Rightarrow> unit res" where
  "validateNFSExportRequest q =
     andr (rejectProtocolControlCharacters ''NFS export path'' (nq_ExportPath q))
     (if TrimSpace (nq_ExportPath q) = [] then Inl (EMsg ''NFS export path is required'')
      else if \<not> HasPrefix (nq_ExportPath q) ''/'' then Inl (EMsg (''NFS export path '' @ fmt_q (nq_ExportPath q) @ '' must be absolute''))
      else if nq_TenantID q < 0 then Inl (EMsg ''NFS tenant ID cannot be negative'')
      else andr (rejectProtocolControlCharacters ''NFS filesystem path'' (nq_FSPath q))
        (if TrimSpace (nq_FSPath q) = [] then Inl (EMsg ''NFS filesystem path is required'')
         else if \<not> HasPrefix (nq_FSPath q) ''/'' then Inl (EMsg (''NFS filesystem path '' @ fmt_q (nq_FSPath q) @ '' must be absolute''))
         else Inr ()))"

definition canonicalNFSExportRequest :: "NFSExportRequest \<Rightarrow> NFSExportRequest" where
  "canonicalNFSExportRequest q =
     q\<lparr>nq_Restrictions := nonNilProtocolSlice (nq_Restrictions q), nq_Fields32 := nonNilProtocolSlice (nq_Fields32 q)\<rparr>"

definition canonicalPatchNFSExportRequest :: "PatchNFSExportRequest \<Rightarrow> PatchNFSExportRequest" where
  "canonicalPatchNFSExportRequest p =
     p\<lparr>np_Restrictions := map_option nonNilProtocolSlice (np_Restrictions p), np_Fields32 := map_option nonNilProtocolSlice (np_Fields32 p)\<rparr>"

definition ref_path :: "string \<Rightarrow> string \<Rightarrow> string \<Rightarrow> string res" where
  "ref_path what root ref =
     andr (rejectProtocolControlCharacters what ref)
       (if TrimSpace ref = [] then Inl (EMsg (what @ '' is required'')) else Inr (root @ PathEscape ref))"

definition nfsExportRefPath :: "string \<Rightarrow> string res" where
  "nfsExportRefPath ref = ref_path ''NFS export reference'' nfsExportsPath ref"

definition nfsExportV3RefPath :: "string \<Rightarrow> string res" where
  "nfsExportV3RefPath i = ref_path ''NFS export ID'' nfsExportsV3PreviewPath i"

definition allowFSPathCreateQuery :: "bool \<Rightarrow> (string \<times> string) list" where
  "allowFSPathCreateQuery allow = (if allow then [(''allow-fs-path-create'', ''true'')] else [])"

text \<open>A call whose answer is an export, with the ETag of the answer.\<close>

definition tag_export :: "string \<Rightarrow> NFSExport \<Rightarrow> NFSExport" where
  "tag_export etag x = x\<lparr>ne_ETag := etag\<rparr>"

definition export_call :: "Connection \<Rightarrow> string \<Rightarrow> string \<Rightarrow> (string \<times> string) list \<Rightarrow> string option \<Rightarrow> json option \<Rightarrow> NFSExport io" where
  "export_call c m p q h b = tagged_call no_export decode_export tag_export c m p q h b"

section \<open>The tenant-aware API\<close>

definition CreateNFSExportV3Preview :: "Connection \<Rightarrow> NFSExportRequest \<Rightarrow> bool \<Rightarrow> NFSExport io" where
  "CreateNFSExportV3Preview c q allow =
     andThen (lift_res (validateNFSExportRequest q)) (\<lambda>_.
       export_call c ''POST'' nfsExportsV3PreviewPath (allowFSPathCreateQuery allow) None
         (Some (encode_export_request (canonicalNFSExportRequest q))))"

definition ListNFSExportsV3Preview :: "Connection \<Rightarrow> NFSExport list io" where
  "ListNFSExportsV3Preview c =
     andThen (DoJSON c ''GET'' nfsExportsV3PreviewPath [] None None
       (into [] (\<lambda>j. Option.bind (obj_fields j) (get_list decode_export ''entries'')))) (\<lambda>(_, es). ok es)"

definition GetNFSExportV3Preview :: "Connection \<Rightarrow> string \<Rightarrow> NFSExport io" where
  "GetNFSExportV3Preview c i = andThen (lift_res (nfsExportV3RefPath i)) (\<lambda>p. export_call c ''GET'' p [] None None)"

definition ReplaceNFSExportV3Preview :: "Connection \<Rightarrow> string \<Rightarrow> NFSExportRequest \<Rightarrow> NFSExportWriteOptions \<Rightarrow> NFSExport io" where
  "ReplaceNFSExportV3Preview c i q opts =
     andThen (lift_res (validateNFSExportRequest q)) (\<lambda>_. andThen (lift_res (nfsExportV3RefPath i)) (\<lambda>p.
       export_call c ''PUT'' p (allowFSPathCreateQuery (nw_AllowFSPathCreate opts)) (ifMatchHeader (nw_IfMatch opts))
         (Some (encode_export_request (canonicalNFSExportRequest q)))))"

definition PatchNFSExportV3Preview :: "Connection \<Rightarrow> string \<Rightarrow> PatchNFSExportRequest \<Rightarrow> NFSExportWriteOptions \<Rightarrow> NFSExport io" where
  "PatchNFSExportV3Preview c i patch opts =
     andThen (lift_res (nfsExportV3RefPath i)) (\<lambda>p.
       export_call c ''PATCH'' p (allowFSPathCreateQuery (nw_AllowFSPathCreate opts)) (ifMatchHeader (nw_IfMatch opts))
         (Some (encode_export_patch (canonicalPatchNFSExportRequest patch))))"

definition DeleteNFSExportV3Preview :: "Connection \<Rightarrow> string \<Rightarrow> string \<Rightarrow> unit io" where
  "DeleteNFSExportV3Preview c i ifMatch =
     andThen (lift_res (nfsExportV3RefPath i)) (\<lambda>p. andThen (DoJSON c ''DELETE'' p [] (ifMatchHeader ifMatch) None noOut) (\<lambda>_. ok ()))"

section \<open>The stable API\<close>

definition CreateNFSExport :: "Connection \<Rightarrow> NFSExportRequest \<Rightarrow> bool \<Rightarrow> NFSExport io" where
  "CreateNFSExport c q allow =
     andThen (lift_res (validateNFSExportRequest q)) (\<lambda>_.
       let q = canonicalNFSExportRequest q
       in if nq_TenantID q \<noteq> 0 then CreateNFSExportV3Preview c q allow
          else export_call c ''POST'' nfsExportsPath (allowFSPathCreateQuery allow) None (Some (encode_export_request q)))"

definition ListNFSExports :: "Connection \<Rightarrow> NFSExport list io" where
  "ListNFSExports c =
     andThen (DoJSON c ''GET'' nfsExportsPath [] None None (into [] (decode_array_or_null decode_export))) (\<lambda>(_, es). ok es)"

definition GetNFSExport :: "Connection \<Rightarrow> string \<Rightarrow> NFSExport io" where
  "GetNFSExport c ref = andThen (lift_res (nfsExportRefPath ref)) (\<lambda>p. export_call c ''GET'' p [] None None)"

definition ReplaceNFSExport :: "Connection \<Rightarrow> string \<Rightarrow> NFSExportRequest \<Rightarrow> NFSExportWriteOptions \<Rightarrow> NFSExport io" where
  "ReplaceNFSExport c ref q opts =
     andThen (lift_res (validateNFSExportRequest q)) (\<lambda>_.
       let q = canonicalNFSExportRequest q
       in if nq_TenantID q \<noteq> 0 then ReplaceNFSExportV3Preview c ref q opts
          else andThen (lift_res (nfsExportRefPath ref)) (\<lambda>p.
            export_call c ''PUT'' p (allowFSPathCreateQuery (nw_AllowFSPathCreate opts)) (ifMatchHeader (nw_IfMatch opts))
              (Some (encode_export_request q))))"

definition PatchNFSExport :: "Connection \<Rightarrow> string \<Rightarrow> PatchNFSExportRequest \<Rightarrow> NFSExportWriteOptions \<Rightarrow> NFSExport io" where
  "PatchNFSExport c ref patch opts =
     (let patch = canonicalPatchNFSExportRequest patch
      in if np_TenantID patch \<noteq> None then PatchNFSExportV3Preview c ref patch opts
         else andThen (lift_res (nfsExportRefPath ref)) (\<lambda>p.
           export_call c ''PATCH'' p (allowFSPathCreateQuery (nw_AllowFSPathCreate opts)) (ifMatchHeader (nw_IfMatch opts))
             (Some (encode_export_patch patch))))"

definition DeleteNFSExport :: "Connection \<Rightarrow> string \<Rightarrow> string \<Rightarrow> unit io" where
  "DeleteNFSExport c ref ifMatch =
     andThen (lift_res (nfsExportRefPath ref)) (\<lambda>p. andThen (DoJSON c ''DELETE'' p [] (ifMatchHeader ifMatch) None noOut) (\<lambda>_. ok ()))"

definition export_IDOrPath :: "NFSExport \<Rightarrow> string" where
  "export_IDOrPath e = (if ne_ID e \<noteq> [] then ne_ID e else ne_ExportPath e)"

text \<open>The loop of \<open>DeleteNFSExportIfExists\<close> with \<open>n\<close> attempts left.\<close>

fun delete_export_loop :: "Connection \<Rightarrow> string \<Rightarrow> nat \<Rightarrow> bool io" where
  "delete_export_loop c ref 0 = fail (EMsg (''delete NFS export '' @ fmt_q ref @ '': concurrent modifications did not settle''))"
| "delete_export_loop c ref (Suc n) = do {
     g \<leftarrow> GetNFSExport c ref;
     case g of
       Inl err \<Rightarrow> if isAPINotFound err then ok False else fail err
     | Inr current \<Rightarrow> do {
         r \<leftarrow> DeleteNFSExport c (if ne_ID current = [] then ref else ne_ID current) (ne_ETag current);
         case r of
           Inl err \<Rightarrow> if isAPINotFound err then ok False
                      else if isAPIPreconditionFailed err then delete_export_loop c ref n else fail err
         | Inr _ \<Rightarrow> ok True } }"

definition DeleteNFSExportIfExists :: "Connection \<Rightarrow> string \<Rightarrow> bool io" where
  "DeleteNFSExportIfExists c ref = delete_export_loop c ref 3"

section \<open>Claiming an export\<close>

definition equal_restriction :: "NFSRestriction \<Rightarrow> NFSRestriction \<Rightarrow> bool" where
  "equal_restriction a b \<longleftrightarrow>
     elems (nr_HostRestrictions a) = elems (nr_HostRestrictions b) \<and> a\<lparr>nr_HostRestrictions := None\<rparr> = b\<lparr>nr_HostRestrictions := None\<rparr>"

definition equalNFSRestrictions :: "NFSRestriction slice \<Rightarrow> NFSRestriction slice \<Rightarrow> bool" where
  "equalNFSRestrictions a b \<longleftrightarrow> list_all2 equal_restriction (elems a) (elems b)"

definition nfsExportPatch :: "NFSExport \<Rightarrow> NFSExportRequest \<Rightarrow> PatchNFSExportRequest \<times> bool" where
  "nfsExportPatch current desired =
     (let patch = \<lparr>np_ExportPath = (if ne_ExportPath current \<noteq> nq_ExportPath desired then Some (nq_ExportPath desired) else None),
                   np_TenantID = (if nq_TenantID desired \<noteq> 0 \<and> ne_TenantID current \<noteq> nq_TenantID desired then Some (nq_TenantID desired) else None),
                   np_FSPath = None,
                   np_Description = (if ne_Description current \<noteq> nq_Description desired then Some (nq_Description desired) else None),
                   np_Restrictions = (if \<not> equalNFSRestrictions (ne_Restrictions current) (nq_Restrictions desired)
                     then Some (nonNilProtocolSlice (nq_Restrictions desired)) else None),
                   np_Fields32 = (if elems (ne_Fields32 current) \<noteq> elems (nq_Fields32 desired)
                     then Some (nonNilProtocolSlice (nq_Fields32 desired)) else None)\<rparr>
      in (patch, patch \<noteq> no_export_patch))"

definition findNFSExportV3Preview :: "Connection \<Rightarrow> int \<Rightarrow> string \<Rightarrow> NFSExport option io" where
  "findNFSExportV3Preview c tenantID exportPath =
     andThen (ListNFSExportsV3Preview c) (\<lambda>exports.
       case filter (\<lambda>e. ne_TenantID e = tenantID \<and> ne_ExportPath e = exportPath) exports of
         [] \<Rightarrow> ok None
       | e # others \<Rightarrow>
           if others \<noteq> [] then fail (EMsg (''multiple NFS exports named '' @ fmt_q exportPath @ '' found in tenant '' @ itoa tenantID))
           else if ne_ID e = []
           then fail (EMsg (''NFS v3 list returned export '' @ fmt_q exportPath @ '' in tenant '' @ itoa tenantID @ '' without an ID''))
           else do {
             g \<leftarrow> GetNFSExportV3Preview c (ne_ID e);
             case g of Inl err \<Rightarrow> if isAPINotFound err then ok None else fail err | Inr full \<Rightarrow> ok (Some full) })"

text \<open>Why a present export is refused: it is marked for another specification, or it exports another path.\<close>

definition export_refusal :: "NFSExportRequest \<Rightarrow> bool \<Rightarrow> NFSExport \<Rightarrow> go_error option" where
  "export_refusal desired strict current =
     (if strict \<and> ne_Description current \<noteq> nq_Description desired
      then Some (EWrap [] (ESentinel ErrResourceClaimConflict) ('': NFS export '' @ fmt_q (nq_ExportPath desired) @ '' has specification marker ''
             @ fmt_q (ne_Description current) @ '', requested '' @ fmt_q (nq_Description desired)))
      else if ne_FSPath current \<noteq> nq_FSPath desired
      then Some (EMsg (''NFS export '' @ fmt_q (nq_ExportPath desired) @ '' already targets '' @ fmt_q (ne_FSPath current)
             @ '', refusing to retarget it to '' @ fmt_q (nq_FSPath desired)))
      else None)"

definition export_refusal_v3 :: "NFSExportRequest \<Rightarrow> NFSExport \<Rightarrow> go_error option" where
  "export_refusal_v3 desired current =
     (if ne_FSPath current \<noteq> nq_FSPath desired
      then Some (EMsg (''NFS export '' @ fmt_q (nq_ExportPath desired) @ '' in tenant '' @ itoa (nq_TenantID desired) @ '' already targets ''
             @ fmt_q (ne_FSPath current) @ '', refusing to retarget it to '' @ fmt_q (nq_FSPath desired)))
      else None)"

fun claim_export_loop :: "Connection \<Rightarrow> NFSExportRequest \<Rightarrow> bool \<Rightarrow> bool \<Rightarrow> nat \<Rightarrow> NFSExport option \<Rightarrow> (NFSExport \<times> bool) io" where
  "claim_export_loop c desired allow strict 0 current =
     fail (EMsg (''ensure NFS export '' @ fmt_q (nq_ExportPath desired) @ '': concurrent modifications did not settle''))"
| "claim_export_loop c desired allow strict (Suc n) current =
     andThen (case current of None \<Rightarrow> GetNFSExport c (nq_ExportPath desired) | Some x \<Rightarrow> ok x) (\<lambda>cur.
       case export_refusal desired strict cur of
         Some err \<Rightarrow> fail err
       | None \<Rightarrow>
           if \<not> snd (nfsExportPatch cur desired) then ok (cur, False)
           else do {
             r \<leftarrow> PatchNFSExport c (export_IDOrPath cur) (fst (nfsExportPatch cur desired))
                    \<lparr>nw_AllowFSPathCreate = allow, nw_IfMatch = ne_ETag cur\<rparr>;
             case r of
               Inr updated \<Rightarrow> ok (updated, False)
             | Inl patchErr \<Rightarrow> if \<not> isAPIPreconditionFailed patchErr then fail patchErr
                               else claim_export_loop c desired allow strict n None })"

fun claim_export_v3_loop :: "Connection \<Rightarrow> NFSExportRequest \<Rightarrow> bool \<Rightarrow> nat \<Rightarrow> NFSExport option \<Rightarrow> (NFSExport \<times> bool) io" where
  "claim_export_v3_loop c desired allow 0 current =
     fail (EMsg (''ensure NFS export '' @ fmt_q (nq_ExportPath desired) @ '' in tenant '' @ itoa (nq_TenantID desired)
       @ '': concurrent creation or modification did not settle''))"
| "claim_export_v3_loop c desired allow (Suc n) current =
     andThen (case current of None \<Rightarrow> findNFSExportV3Preview c (nq_TenantID desired) (nq_ExportPath desired) | Some x \<Rightarrow> ok (Some x)) (\<lambda>found.
       case found of
         None \<Rightarrow> claim_export_v3_loop c desired allow n None
       | Some cur \<Rightarrow>
           (case export_refusal_v3 desired cur of
              Some err \<Rightarrow> fail err
            | None \<Rightarrow>
                if \<not> snd (nfsExportPatch cur desired) then ok (cur, False)
                else do {
                  r \<leftarrow> PatchNFSExportV3Preview c (ne_ID cur) (fst (nfsExportPatch cur desired))
                         \<lparr>nw_AllowFSPathCreate = allow, nw_IfMatch = ne_ETag cur\<rparr>;
                  case r of
                    Inr updated \<Rightarrow> ok (updated, False)
                  | Inl patchErr \<Rightarrow> if \<not> isAPIPreconditionFailed patchErr then fail patchErr
                                    else claim_export_v3_loop c desired allow n None }))"

definition ensureNFSExportV3Preview :: "Connection \<Rightarrow> NFSExportRequest \<Rightarrow> bool \<Rightarrow> (NFSExport \<times> bool) io" where
  "ensureNFSExportV3Preview c desired allow =
     andThen (findNFSExportV3Preview c (nq_TenantID desired) (nq_ExportPath desired)) (\<lambda>current.
       case current of
         Some cur \<Rightarrow> claim_export_v3_loop c desired allow 3 (Some cur)
       | None \<Rightarrow> do {
           r \<leftarrow> CreateNFSExportV3Preview c desired allow;
           case r of
             Inr created \<Rightarrow> ok (created, True)
           | Inl createErr \<Rightarrow>
               if isAPIAlreadyExists createErr then claim_export_v3_loop c desired allow 3 None
               else if isAmbiguousCreateError createErr then do {
                 g \<leftarrow> findNFSExportV3Preview c (nq_TenantID desired) (nq_ExportPath desired);
                 case g of
                   Inl err \<Rightarrow> fail (EWrap ''reconcile ambiguous tenant NFS export create: '' err ('' (create error: '' @ error_text createErr @ '')''))
                 | Inr None \<Rightarrow> fail createErr
                 | Inr (Some cur) \<Rightarrow> claim_export_v3_loop c desired allow 3 (Some cur) }
               else fail createErr })"

text \<open>The stable API.\<close>

definition ensure_stable_export :: "Connection \<Rightarrow> NFSExportRequest \<Rightarrow> bool \<Rightarrow> bool \<Rightarrow> (NFSExport \<times> bool) io" where
  "ensure_stable_export c desired allow strict = do {
     g \<leftarrow> GetNFSExport c (nq_ExportPath desired);
     case g of
       Inr cur \<Rightarrow> claim_export_loop c desired allow strict 3 (Some cur)
     | Inl err \<Rightarrow>
         if \<not> isAPINotFound err then fail err
         else do {
           r \<leftarrow> CreateNFSExport c desired allow;
           case r of
             Inr created \<Rightarrow> ok (created, True)
           | Inl createErr \<Rightarrow>
               if isAPIAlreadyExists createErr then claim_export_loop c desired allow strict 3 None
               else if isAmbiguousCreateError createErr then do {
                 g2 \<leftarrow> GetNFSExport c (nq_ExportPath desired);
                 case g2 of
                   Inl err \<Rightarrow> if isAPINotFound err then fail createErr
                      else fail (EWrap ''reconcile ambiguous NFS export create: '' err ('' (create error: '' @ error_text createErr @ '')''))
                 | Inr cur \<Rightarrow> claim_export_loop c desired allow strict 3 (Some cur) }
               else fail createErr } }"

definition ensureNFSExport :: "Connection \<Rightarrow> NFSExportRequest \<Rightarrow> bool \<Rightarrow> bool \<Rightarrow> (NFSExport \<times> bool) io" where
  "ensureNFSExport c desired allow strict =
     andThen (lift_res (validateNFSExportRequest desired)) (\<lambda>_.
       let desired = canonicalNFSExportRequest desired
       in if nq_TenantID desired \<noteq> 0 then ensureNFSExportV3Preview c desired allow else ensure_stable_export c desired allow strict)"

definition EnsureNFSExport :: "Connection \<Rightarrow> NFSExportRequest \<Rightarrow> bool \<Rightarrow> (NFSExport \<times> bool) io" where
  "EnsureNFSExport c desired allow = ensureNFSExport c desired allow False"

definition ClaimNFSExport :: "Connection \<Rightarrow> NFSExportRequest \<Rightarrow> bool \<Rightarrow> (NFSExport \<times> bool) io" where
  "ClaimNFSExport c desired allow = ensureNFSExport c desired allow True"

section \<open>What the operations send and learn\<close>

definition export_get :: "string \<Rightarrow> request" where
  "export_get ref = mk_request ''GET'' (nfsExportsPath @ PathEscape ref) [] None None"

definition export_get_v3 :: "string \<Rightarrow> request" where
  "export_get_v3 i = mk_request ''GET'' (nfsExportsV3PreviewPath @ PathEscape i) [] None None"

definition export_list_v3 :: request where
  "export_list_v3 = mk_request ''GET'' nfsExportsV3PreviewPath [] None None"

definition export_post :: "string \<Rightarrow> NFSExportRequest \<Rightarrow> bool \<Rightarrow> request" where
  "export_post root q allow =
     mk_request ''POST'' root (allowFSPathCreateQuery allow) None (Some (encode_export_request (canonicalNFSExportRequest q)))"

definition export_patch :: "string \<Rightarrow> string \<Rightarrow> PatchNFSExportRequest \<Rightarrow> NFSExportWriteOptions \<Rightarrow> request" where
  "export_patch root i patch opts =
     mk_request ''PATCH'' (root @ PathEscape i) (allowFSPathCreateQuery (nw_AllowFSPathCreate opts)) (ifMatchHeader (nw_IfMatch opts))
       (Some (encode_export_patch (canonicalPatchNFSExportRequest patch)))"

definition export_delete :: "string \<Rightarrow> string \<Rightarrow> request" where
  "export_delete ref etag = mk_request ''DELETE'' (nfsExportsPath @ PathEscape ref) [] (ifMatchHeader etag) None"

text \<open>The export \<open>x\<close>, with its ETag, was the answer to a reading in the trace.\<close>

definition export_answer :: "request \<Rightarrow> event list \<Rightarrow> NFSExport \<Rightarrow> bool" where
  "export_answer = tagged_answer no_export decode_export tag_export"

lemmas export_answer_grows = tagged_answer_grows [of no_export decode_export tag_export, folded export_answer_def]
lemmas export_answer_before = tagged_answer_before [of no_export decode_export tag_export, folded export_answer_def]
lemmas export_answer_after = tagged_answer_after [of no_export decode_export tag_export, folded export_answer_def]
lemmas emits_export_get = emits_tagged_get [of no_export decode_export tag_export, folded export_answer_def export_call_def]
lemmas emits_export_accepted = emits_tagged_accepted [of no_export decode_export tag_export, folded export_call_def]
lemmas sends_export_call = sends_tagged_call [of _ _ _ _ _ _ no_export decode_export tag_export, folded export_call_def]

lemma canonical_idem [simp]:
  "canonicalNFSExportRequest (canonicalNFSExportRequest q) = canonicalNFSExportRequest q"
  "nq_TenantID (canonicalNFSExportRequest q) = nq_TenantID q" "nq_ExportPath (canonicalNFSExportRequest q) = nq_ExportPath q"
  "nq_FSPath (canonicalNFSExportRequest q) = nq_FSPath q" "nq_Description (canonicalNFSExportRequest q) = nq_Description q"
  by (simp_all add: canonicalNFSExportRequest_def nonNilProtocolSlice_def elems_def)

lemma canonical_patch_idem [simp]:
  "canonicalPatchNFSExportRequest (canonicalPatchNFSExportRequest p) = canonicalPatchNFSExportRequest p"
  "np_TenantID (canonicalPatchNFSExportRequest p) = np_TenantID p"
  by (cases "np_Restrictions p"; cases "np_Fields32 p"; simp add: canonicalPatchNFSExportRequest_def nonNilProtocolSlice_def elems_def)+

lemma ref_path_Inr: "ref_path what root ref = Inr p \<Longrightarrow> p = root @ PathEscape ref"
  by (auto simp: ref_path_def andr_def split: sum.splits if_splits)

lemma ref_path_Inl: "ref_path what root ref = Inl e \<Longrightarrow> AsAPIError e = None"
  by (auto simp: ref_path_def andr_def rejectProtocolControlCharacters_def split: sum.splits if_splits)

lemma sends_with_ref:
  "(\<And>p. p = root @ PathEscape ref \<Longrightarrow> evs P (k p)) \<Longrightarrow> evs P (andThen (lift_res (ref_path what root ref)) k)"
  by (cases "ref_path what root ref") (auto simp: andThen_lift sends_ret dest: ref_path_Inr)

lemma emits_with_ref:
  assumes "emits (k (root @ PathEscape ref)) Q" "\<And>e. AsAPIError e = None \<Longrightarrow> Q [] (Inl e)"
  shows "emits (andThen (lift_res (ref_path what root ref)) k) Q"
proof (cases "ref_path what root ref")
  case (Inl e)
  then show ?thesis using assms(2) ref_path_Inl by (simp add: andThen_lift emits_ret)
next
  case (Inr p)
  then show ?thesis using assms(1) ref_path_Inr [OF Inr] by (simp add: andThen_lift)
qed

lemma emits_GetNFSExport:
  "emits (GetNFSExport c ref) (\<lambda>es r. case r of
     Inr x \<Rightarrow> export_answer (export_get ref) es x | Inl e \<Rightarrow> isAPINotFound e \<longrightarrow> not_found_answer (export_get ref) es)"
  unfolding GetNFSExport_def nfsExportRefPath_def export_get_def
  by (rule emits_with_ref, rule emits_export_get) (simp add: isAPINotFound_def)

lemma emits_GetNFSExport_ok: "emits (GetNFSExport c ref) (on_ok (export_answer (export_get ref)))"
  by (rule emits_weaken [OF emits_GetNFSExport]) (auto simp: on_ok_def)

lemma sends_GetNFSExport: "reads R \<Longrightarrow> sends R (GetNFSExport c ref)"
  unfolding GetNFSExport_def nfsExportRefPath_def by (rule sends_with_ref, rule sends_export_call, erule readsD)

lemma emits_GetV3:
  "emits (GetNFSExportV3Preview c i) (\<lambda>es r. case r of
     Inr x \<Rightarrow> export_answer (export_get_v3 i) es x | Inl e \<Rightarrow> isAPINotFound e \<longrightarrow> not_found_answer (export_get_v3 i) es)"
  unfolding GetNFSExportV3Preview_def nfsExportV3RefPath_def export_get_v3_def
  by (rule emits_with_ref, rule emits_export_get) (simp add: isAPINotFound_def)

lemma sends_GetV3: "reads R \<Longrightarrow> sends R (GetNFSExportV3Preview c i)"
  unfolding GetNFSExportV3Preview_def nfsExportV3RefPath_def by (rule sends_with_ref, rule sends_export_call, erule readsD)

lemma sends_ListNFSExports: "reads R \<Longrightarrow> sends R (ListNFSExports c)"
  unfolding ListNFSExports_def by (intro io_rules sends_GET)

lemma sends_ListV3: "reads R \<Longrightarrow> sends R (ListNFSExportsV3Preview c)"
  unfolding ListNFSExportsV3Preview_def by (intro io_rules sends_GET)

lemma sends_find: "reads R \<Longrightarrow> sends R (findNFSExportV3Preview c t p)"
  unfolding findNFSExportV3Preview_def by (intro io_rules sends_ListV3 sends_GetV3)

lemma emits_PatchV3:
  "emits (PatchNFSExportV3Preview c i patch opts) (on_ok (\<lambda>es _. accepted (export_patch nfsExportsV3PreviewPath i patch opts) es))"
  unfolding PatchNFSExportV3Preview_def nfsExportV3RefPath_def export_patch_def
  by (rule emits_with_ref, rule emits_export_accepted) simp

lemma sends_PatchV3: "R (export_patch nfsExportsV3PreviewPath i patch opts) \<Longrightarrow> sends R (PatchNFSExportV3Preview c i patch opts)"
  unfolding PatchNFSExportV3Preview_def nfsExportV3RefPath_def export_patch_def by (intro sends_with_ref sends_export_call) simp

definition export_patch_root :: "PatchNFSExportRequest \<Rightarrow> string" where
  "export_patch_root patch = (if np_TenantID patch \<noteq> None then nfsExportsV3PreviewPath else nfsExportsPath)"

lemma emits_PatchNFSExport:
  "emits (PatchNFSExport c i patch opts) (on_ok (\<lambda>es _. accepted (export_patch (export_patch_root patch) i patch opts) es))"
proof (cases "np_TenantID patch")
  case None
  show ?thesis
    unfolding PatchNFSExport_def nfsExportRefPath_def export_patch_def export_patch_root_def Let_def
    by (simp add: None) (rule emits_with_ref, rule emits_export_accepted, simp)
next
  case (Some t)
  then show ?thesis
    using emits_PatchV3 [of c i "canonicalPatchNFSExportRequest patch" opts]
    by (simp add: PatchNFSExport_def export_patch_root_def export_patch_def)
qed

lemma sends_PatchNFSExport:
  assumes "R (export_patch (export_patch_root patch) i patch opts)" shows "sends R (PatchNFSExport c i patch opts)"
proof (cases "np_TenantID patch")
  case None
  with assms show ?thesis
    unfolding PatchNFSExport_def nfsExportRefPath_def export_patch_def export_patch_root_def Let_def
    by simp (intro sends_with_ref sends_export_call, simp)
next
  case (Some t)
  with assms show ?thesis
    using sends_PatchV3 [of R i "canonicalPatchNFSExportRequest patch" opts c]
    by (simp add: PatchNFSExport_def export_patch_root_def export_patch_def)
qed

lemma emits_DeleteNFSExport:
  "emits (DeleteNFSExport c ref etag) (on_ok (\<lambda>es _. accepted (export_delete ref etag) es))"
  unfolding DeleteNFSExport_def nfsExportRefPath_def export_delete_def
  by (rule emits_with_ref) (auto intro!: emits_call_ok emits_ok answered_accepted)

lemma sends_DeleteNFSExport: "R (export_delete ref etag) \<Longrightarrow> sends R (DeleteNFSExport c ref etag)"
  unfolding DeleteNFSExport_def nfsExportRefPath_def export_delete_def by (intro io_rules sends_with_ref sends_DoJSON) simp

section \<open>A claim writes only what is permitted\<close>

definition list_entries :: "json \<Rightarrow> NFSExport list option" where
  "list_entries j = Option.bind (obj_fields j) (get_list decode_export ''entries'')"

text \<open>The tenant's export was found absent: a listing did not have it, or it was gone when it was read.\<close>

definition export_absent_v3 :: "int \<Rightarrow> string \<Rightarrow> event list \<Rightarrow> bool" where
  "export_absent_v3 t p es \<longleftrightarrow>
     (\<exists>etag raw j xs. seen export_list_v3 es etag raw j \<and> into [] list_entries raw j = Some xs \<and>
        filter (\<lambda>e. ne_TenantID e = t \<and> ne_ExportPath e = p) xs = [])
     \<or> (\<exists>i. not_found_answer (export_get_v3 i) es)"

definition export_opts :: "bool \<Rightarrow> NFSExport \<Rightarrow> NFSExportWriteOptions" where
  "export_opts allow x = \<lparr>nw_AllowFSPathCreate = allow, nw_IfMatch = ne_ETag x\<rparr>"

text \<open>What may be sent after \<open>es\<close> to claim the export \<open>d\<close>: readings; its creation once it was found absent; and the patch, under its
  ETag, of an export that was read with the filesystem path of \<open>d\<close> and, in a strict claim, with its description.\<close>

definition export_permitted :: "NFSExportRequest \<Rightarrow> bool \<Rightarrow> bool \<Rightarrow> event list \<Rightarrow> request \<Rightarrow> bool" where
  "export_permitted d allow strict es rq \<longleftrightarrow>
     rq_method rq = ''GET''
     \<or> nq_TenantID d = 0 \<and> rq = export_post nfsExportsPath d allow \<and> not_found_answer (export_get (nq_ExportPath d)) es
     \<or> nq_TenantID d = 0 \<and> (\<exists>x. export_answer (export_get (nq_ExportPath d)) es x \<and> ne_FSPath x = nq_FSPath d \<and>
          (strict \<longrightarrow> ne_Description x = nq_Description d) \<and>
          rq = export_patch nfsExportsPath (export_IDOrPath x) (fst (nfsExportPatch x d)) (export_opts allow x))
     \<or> nq_TenantID d \<noteq> 0 \<and> rq = export_post nfsExportsV3PreviewPath d allow \<and> export_absent_v3 (nq_TenantID d) (nq_ExportPath d) es
     \<or> nq_TenantID d \<noteq> 0 \<and> (\<exists>i x. export_answer (export_get_v3 i) es x \<and> ne_FSPath x = nq_FSPath d \<and>
          rq = export_patch nfsExportsV3PreviewPath (ne_ID x) (fst (nfsExportPatch x d)) (export_opts allow x))"

lemma export_absent_append: "export_absent_v3 t p es \<Longrightarrow> export_absent_v3 t p (es @ es')"
  unfolding export_absent_v3_def using seen_before not_found_before by metis

lemma export_absent_after: "export_absent_v3 t p es \<Longrightarrow> export_absent_v3 t p (es' @ es)"
  unfolding export_absent_v3_def using seen_after not_found_after by metis

lemma lasting_export_permitted: "lasting (export_permitted d allow strict)"
  unfolding lasting_def export_permitted_def using not_found_before export_answer_before export_absent_append by metis

lemma reads_export_permitted: "reads (export_permitted d allow strict h)"
  by (simp add: reads_def export_permitted_def)

lemma nfsExportPatch_canonical [simp]: "nfsExportPatch x (canonicalNFSExportRequest d) = nfsExportPatch x d"
  by (simp add: nfsExportPatch_def canonicalNFSExportRequest_def equalNFSRestrictions_def nonNilProtocolSlice_def elems_def)

lemma nfsExportPatch_tenant: "nq_TenantID d = 0 \<Longrightarrow> np_TenantID (fst (nfsExportPatch x d)) = None"
  by (simp add: nfsExportPatch_def Let_def)

lemma export_refusal_None:
  "export_refusal d strict x = None \<longleftrightarrow> ne_FSPath x = nq_FSPath d \<and> (strict \<longrightarrow> ne_Description x = nq_Description d)"
  "export_refusal_v3 d x = None \<longleftrightarrow> ne_FSPath x = nq_FSPath d"
  by (auto simp: export_refusal_def export_refusal_v3_def)

text \<open>The two loops as instances of the claim protocol.\<close>

definition look_v2 :: "Connection \<Rightarrow> NFSExportRequest \<Rightarrow> NFSExport option io" where
  "look_v2 c d = andThen (GetNFSExport c (nq_ExportPath d)) (\<lambda>x. ok (Some x))"

definition patch_v2 :: "Connection \<Rightarrow> NFSExportRequest \<Rightarrow> bool \<Rightarrow> NFSExport \<Rightarrow> NFSExport io" where
  "patch_v2 c d allow x = PatchNFSExport c (export_IDOrPath x) (fst (nfsExportPatch x d)) (export_opts allow x)"

definition write_v2 :: "NFSExportRequest \<Rightarrow> bool \<Rightarrow> NFSExport \<Rightarrow> request" where
  "write_v2 d allow x =
     export_patch (export_patch_root (fst (nfsExportPatch x d))) (export_IDOrPath x) (fst (nfsExportPatch x d)) (export_opts allow x)"

definition look_v3 :: "Connection \<Rightarrow> NFSExportRequest \<Rightarrow> NFSExport option io" where
  "look_v3 c d = findNFSExportV3Preview c (nq_TenantID d) (nq_ExportPath d)"

definition patch_v3 :: "Connection \<Rightarrow> NFSExportRequest \<Rightarrow> bool \<Rightarrow> NFSExport \<Rightarrow> NFSExport io" where
  "patch_v3 c d allow x = PatchNFSExportV3Preview c (ne_ID x) (fst (nfsExportPatch x d)) (export_opts allow x)"

definition write_v3 :: "NFSExportRequest \<Rightarrow> bool \<Rightarrow> NFSExport \<Rightarrow> request" where
  "write_v3 d allow x = export_patch nfsExportsV3PreviewPath (ne_ID x) (fst (nfsExportPatch x d)) (export_opts allow x)"

definition answer_v3 :: "event list \<Rightarrow> NFSExport \<Rightarrow> bool" where
  "answer_v3 es x \<longleftrightarrow> (\<exists>i. export_answer (export_get_v3 i) es x)"

lemma answer_v3_after: "answer_v3 es x \<Longrightarrow> answer_v3 (es' @ es) x"
  unfolding answer_v3_def using export_answer_after by blast

lemma emits_find:
  "emits (findNFSExportV3Preview c t p) (on_ok (\<lambda>es found. case found of None \<Rightarrow> export_absent_v3 t p es | Some x \<Rightarrow> answer_v3 es x))"
  unfolding findNFSExportV3Preview_def ListNFSExportsV3Preview_def andThen_assoc
proof (rule emits_call_ok, goal_cases)
  case (1 es etag xs raw j)
  have "list_entries = (\<lambda>j. Option.bind (obj_fields j) (get_list decode_export ''entries''))" by (rule ext) (rule list_entries_def)
  then have out: "into [] list_entries raw j = Some xs" using 1(2) by simp
  have sn: "seen export_list_v3 es etag raw j" using answered_seen [OF 1(1)] by (simp add: export_list_v3_def)
  let ?f = "filter (\<lambda>e. ne_TenantID e = t \<and> ne_ExportPath e = p) xs"
  show ?case
  proof (cases ?f)
    case Nil
    then have "export_absent_v3 t p es" unfolding export_absent_v3_def using sn out by blast
    with Nil show ?thesis by (simp add: emits_ok)
  next
    case (Cons e others)
    have "emits (GetNFSExportV3Preview c (ne_ID e) \<bind> (\<lambda>g. case g of Inl err \<Rightarrow> if isAPINotFound err then ok None else fail err
              | Inr full \<Rightarrow> ok (Some full)))
        (on_ok (\<lambda>es' found. case found of None \<Rightarrow> export_absent_v3 t p (es @ es') | Some x \<Rightarrow> answer_v3 (es @ es') x))"
    proof (rule emits_bind_ok [OF emits_GetV3], rule emits_case_sum, goal_cases)
      case (1 es' g err)
      then have "isAPINotFound err \<Longrightarrow> not_found_answer (export_get_v3 (ne_ID e)) (es @ es')" using not_found_mono by fastforce
      then show ?case by (intro emits_if emits_ok emits_fail) (auto simp: export_absent_v3_def)
    next
      case (2 es' g x)
      then show ?case by (intro emits_ok) (auto simp: answer_v3_def intro: export_answer_after)
    qed
    then show ?thesis by (simp add: emits_fail Cons)
  qed
qed

lemma emits_CreateV3:
  "emits (CreateNFSExportV3Preview c q allow) (on_ok (\<lambda>es _. accepted (export_post nfsExportsV3PreviewPath q allow) es))"
  unfolding CreateNFSExportV3Preview_def andThen_lift export_post_def by (auto intro: emits_case_sum emits_fail emits_export_accepted)

lemma sends_CreateV3: "R (export_post nfsExportsV3PreviewPath q allow) \<Longrightarrow> sends R (CreateNFSExportV3Preview c q allow)"
  unfolding CreateNFSExportV3Preview_def export_post_def by (intro io_rules sends_export_call)

definition export_post_root :: "NFSExportRequest \<Rightarrow> string" where
  "export_post_root q = (if nq_TenantID q \<noteq> 0 then nfsExportsV3PreviewPath else nfsExportsPath)"

lemma export_post_canonical [simp]: "export_post root (canonicalNFSExportRequest q) allow = export_post root q allow"
  by (simp add: export_post_def)

lemma emits_CreateNFSExport:
  "emits (CreateNFSExport c q allow) (on_ok (\<lambda>es _. accepted (export_post (export_post_root q) q allow) es))"
proof (cases "nq_TenantID q = 0")
  case True
  then show ?thesis
    unfolding CreateNFSExport_def andThen_lift export_post_def export_post_root_def Let_def canonical_idem
    by (auto intro: emits_case_sum emits_fail emits_export_accepted)
next
  case False
  then show ?thesis
    using emits_CreateV3 [of c "canonicalNFSExportRequest q" allow]
    by (simp add: CreateNFSExport_def andThen_lift export_post_root_def Let_def emits_case_sum emits_fail)
qed

lemma sends_CreateNFSExport: "R (export_post (export_post_root q) q allow) \<Longrightarrow> sends R (CreateNFSExport c q allow)"
  unfolding CreateNFSExport_def Let_def canonical_idem export_post_root_def
  by (cases "nq_TenantID q = 0") (auto simp: export_post_def intro!: sends_andThen sends_lift_res sends_export_call sends_CreateV3)

interpretation nfs_v2: claiming "look_v2 c d" "patch_v2 c d allow" "export_refusal d strict" "\<lambda>x. snd (nfsExportPatch x d)"
    "claim_export_loop c d allow strict" "export_answer (export_get (nq_ExportPath d))" "write_v2 d allow"
    "EMsg (''ensure NFS export '' @ fmt_q (nq_ExportPath d) @ '': concurrent modifications did not settle'')"
    "probe_by (GetNFSExport c (nq_ExportPath d))" "CreateNFSExport c d allow"
    "\<lambda>err e. EWrap ''reconcile ambiguous NFS export create: '' err ('' (create error: '' @ error_text e @ '')'')"
    "not_found_answer (export_get (nq_ExportPath d))" "export_post (export_post_root d) d allow" "ensure_stable_export c d allow strict"
  for c d allow strict
proof (unfold_locales, goal_cases)
  case (2 n cur)
  show ?case
    unfolding claim_export_loop.simps look_v2_def patch_v2_def export_opts_def by (cases cur) (simp_all only: option.case andThen_assoc andThen_ok)
next
  case 3
  show ?case unfolding look_v2_def by (rule emits_on_ok_andThen [OF emits_GetNFSExport_ok], rule emits_ok) simp
next
  case (4 R)
  then show ?case unfolding look_v2_def by (intro io_rules sends_GetNFSExport)
next
  case 8
  show ?case
    by (rule state.expand, rule ext)
      (simp add: ensure_stable_export_def probe_by_def run_bind run_andThen split: prod.split sum.split option.split)
next
  case 9
  show ?case by (rule emits_probe_by [OF emits_GetNFSExport])
qed (simp_all add: export_answer_grows patch_v2_def write_v2_def emits_PatchNFSExport sends_PatchNFSExport sends_probe_by sends_GetNFSExport
       emits_CreateNFSExport sends_CreateNFSExport not_found_after)

interpretation nfs_v3: claiming "look_v3 c d" "patch_v3 c d allow" "export_refusal_v3 d" "\<lambda>x. snd (nfsExportPatch x d)"
    "claim_export_v3_loop c d allow" "answer_v3" "write_v3 d allow"
    "EMsg (''ensure NFS export '' @ fmt_q (nq_ExportPath d) @ '' in tenant '' @ itoa (nq_TenantID d)
       @ '': concurrent creation or modification did not settle'')"
    "look_v3 c d" "CreateNFSExportV3Preview c d allow"
    "\<lambda>err e. EWrap ''reconcile ambiguous tenant NFS export create: '' err ('' (create error: '' @ error_text e @ '')'')"
    "export_absent_v3 (nq_TenantID d) (nq_ExportPath d)" "export_post nfsExportsV3PreviewPath d allow" "ensureNFSExportV3Preview c d allow"
  for c d allow
proof (unfold_locales, goal_cases)
  case (2 n cur)
  show ?case
    unfolding claim_export_v3_loop.simps look_v3_def patch_v3_def export_opts_def by (rule refl)
next
  case 3
  show ?case unfolding look_v3_def by (rule emits_weaken [OF emits_find]) (auto simp: on_ok_def)
next
  case (7 es x es0 es')
  then show ?case unfolding answer_v3_def using export_answer_grows by blast
next
  case 8
  show ?case
    by (rule state.expand, rule ext)
      (simp add: ensureNFSExportV3Preview_def look_v3_def run_bind run_andThen split: prod.split sum.split option.split)
next
  case 9
  show ?case unfolding look_v3_def by (rule emits_find)
qed (simp_all add: look_v3_def patch_v3_def write_v3_def sends_find emits_PatchV3 sends_PatchV3 emits_CreateV3 sends_CreateV3 export_absent_after)

lemma write_v2_permitted:
  assumes "nq_TenantID d = 0" "export_answer (export_get (nq_ExportPath d)) h x" "export_refusal d strict x = None"
  shows "export_permitted d allow strict h (write_v2 d allow x)"
  using assms unfolding export_permitted_def write_v2_def export_patch_root_def export_refusal_None
  by (simp add: nfsExportPatch_tenant) blast

lemma write_v3_permitted:
  assumes "nq_TenantID d \<noteq> 0" "answer_v3 h x" "export_refusal_v3 d x = None"
  shows "export_permitted d allow strict h (write_v3 d allow x)"
  using assms unfolding export_permitted_def write_v3_def answer_v3_def export_refusal_None by simp blast

lemma lawful_stable_export:
  assumes "nq_TenantID d = 0"
  shows "lawful (export_permitted d allow strict) h (ensure_stable_export c d allow strict)"
  by (rule nfs_v2.lawful_ensure [OF lasting_export_permitted reads_export_permitted write_v2_permitted [OF assms]])
    (auto simp: export_permitted_def export_post_root_def assms)

lemma lawful_tenant_export:
  assumes "nq_TenantID d \<noteq> 0"
  shows "lawful (export_permitted d allow strict) h (ensureNFSExportV3Preview c d allow)"
  by (rule nfs_v3.lawful_ensure [OF lasting_export_permitted reads_export_permitted write_v3_permitted [OF assms]])
    (auto simp: export_permitted_def assms)

lemma lawful_ensureNFSExport:
  "lawful (export_permitted d allow strict) h (ensureNFSExport c d allow strict)"
proof -
  let ?d = "canonicalNFSExportRequest d"
  have "export_permitted ?d allow strict = export_permitted d allow strict" by (simp add: export_permitted_def fun_eq_iff)
  then show ?thesis
    using lawful_stable_export [of ?d allow strict] lawful_tenant_export [of ?d allow strict]
    unfolding ensureNFSExport_def Let_def canonical_idem by (intro lawful_andThen_any lawful_lift lawful_if) simp_all
qed

text \<open>What a successful claim has seen: its creation was accepted, or the export was read with the right path and description and either did
  not differ or was patched.\<close>

definition export_claimed :: "NFSExportRequest \<Rightarrow> bool \<Rightarrow> event list \<Rightarrow> NFSExport \<times> bool \<Rightarrow> bool" where
  "export_claimed d allow es r \<longleftrightarrow>
     (if snd r then accepted (export_post nfsExportsPath d allow) es
      else \<exists>es1 es2 x. es = es1 @ es2 \<and> export_answer (export_get (nq_ExportPath d)) es1 x \<and>
             ne_FSPath x = nq_FSPath d \<and> ne_Description x = nq_Description d \<and>
             (\<not> snd (nfsExportPatch x d) \<or> accepted (write_v2 d allow x) es2))"

lemma write_v2_canonical [simp]: "write_v2 (canonicalNFSExportRequest d) allow = write_v2 d allow"
  by (simp add: write_v2_def fun_eq_iff)

lemma emits_ClaimNFSExport:
  assumes t: "nq_TenantID d = 0"
  shows "emits (ClaimNFSExport c d allow) (on_ok (export_claimed d allow))"
proof -
  let ?d = "canonicalNFSExportRequest d"
  have "(\<lambda>es r. if snd r then accepted (export_post (export_post_root ?d) ?d allow) es else nfs_v2.claimed ?d True allow es) =
      export_claimed d allow"
    unfolding nfs_v2.claimed_def export_refusal_None by (intro ext) (simp add: export_claimed_def export_post_root_def t)
  then have "emits (ensure_stable_export c ?d allow True) (on_ok (export_claimed d allow))"
    using nfs_v2.ensured [of c ?d allow True] by simp
  then show ?thesis
    unfolding ClaimNFSExport_def ensureNFSExport_def Let_def canonical_idem andThen_lift using t by (auto intro: emits_case_sum emits_fail)
qed


end
