(* ===== verification/Smb_Shares.thy ===== *)
theory Smb_Shares
  imports Nfs_Exports Users_Keys
begin

text \<open>
  \<^verbatim>\<open>internal/qumulo/smb.go\<close>: SMB shares over the stable v2 and the tenant-aware v3 API.  Claiming a share follows the protocol of
  the NFS exports and is shown to write only what is permitted.
\<close>

section \<open>Values\<close>

record SMBSharePermission =
  sp_Type :: string
  sp_Trustee :: Identity
  sp_Rights :: "string slice"

record SMBNetworkPermission =
  sn_Type :: string
  sn_AddressRanges :: "string slice"
  sn_Rights :: "string slice"

record SMBShare =
  ss_ID :: string
  ss_ShareName :: string
  ss_TenantID :: int
  ss_FSPath :: string
  ss_Description :: string
  ss_Permissions :: "SMBSharePermission slice"
  ss_NetworkPermissions :: "SMBNetworkPermission slice"
  ss_AccessBasedEnum :: bool
  ss_FileMode :: string
  ss_DirectoryMode :: string
  ss_BytesPerSector :: string
  ss_RequireEncryption :: bool
  ss_AllowFSPathCreate :: bool
  ss_ExpandVariables :: bool
  ss_OfflineCaching :: string
  ss_ETag :: string

record SMBShareRequest =
  sq_ShareName :: string
  sq_TenantID :: int
  sq_FSPath :: string
  sq_Description :: string
  sq_Permissions :: "SMBSharePermission slice"
  sq_NetworkPermissions :: "SMBNetworkPermission slice"
  sq_AccessBasedEnum :: bool
  sq_FileMode :: string
  sq_DirectoryMode :: string
  sq_BytesPerSector :: string
  sq_RequireEncryption :: bool
  sq_ExpandVariables :: bool
  sq_OfflineCaching :: string

record PatchSMBShareRequest =
  sc_ShareName :: "string option"
  sc_TenantID :: "int option"
  sc_FSPath :: "string option"
  sc_Description :: "string option"
  sc_Permissions :: "SMBSharePermission slice option"
  sc_NetworkPermissions :: "SMBNetworkPermission slice option"
  sc_AccessBasedEnum :: "bool option"
  sc_FileMode :: "string option"
  sc_DirectoryMode :: "string option"
  sc_BytesPerSector :: "string option"
  sc_RequireEncryption :: "bool option"
  sc_AllowFSPathCreate :: "bool option"
  sc_ExpandVariables :: "bool option"
  sc_OfflineCaching :: "string option"

record SMBShareWriteOptions =
  sw_AllowFSPathCreate :: bool
  sw_IfMatch :: string

definition no_share :: SMBShare where
  "no_share = \<lparr>ss_ID = [], ss_ShareName = [], ss_TenantID = 0, ss_FSPath = [], ss_Description = [], ss_Permissions = None,
     ss_NetworkPermissions = None, ss_AccessBasedEnum = False, ss_FileMode = [], ss_DirectoryMode = [], ss_BytesPerSector = [],
     ss_RequireEncryption = False, ss_AllowFSPathCreate = False, ss_ExpandVariables = False, ss_OfflineCaching = [], ss_ETag = []\<rparr>"

definition no_share_patch :: PatchSMBShareRequest where
  "no_share_patch = \<lparr>sc_ShareName = None, sc_TenantID = None, sc_FSPath = None, sc_Description = None, sc_Permissions = None,
     sc_NetworkPermissions = None, sc_AccessBasedEnum = None, sc_FileMode = None, sc_DirectoryMode = None, sc_BytesPerSector = None,
     sc_RequireEncryption = None, sc_AllowFSPathCreate = None, sc_ExpandVariables = None, sc_OfflineCaching = None\<rparr>"

definition SMBPermissionAllowed :: string where "SMBPermissionAllowed = ''ALLOWED''"
definition SMBRightRead :: string where "SMBRightRead = ''READ''"
definition SMBRightWrite :: string where "SMBRightWrite = ''WRITE''"
definition SMBOfflineFilesNoCaching :: string where "SMBOfflineFilesNoCaching = ''NO_CACHING''"
definition SMBOfflineFilesManualCaching :: string where "SMBOfflineFilesManualCaching = ''MANUAL_CACHING''"
definition SMBOfflineFilesAutomaticCaching :: string where "SMBOfflineFilesAutomaticCaching = ''AUTOMATIC_CACHING''"

section \<open>JSON\<close>

definition encode_share_permission :: "SMBSharePermission \<Rightarrow> json" where
  "encode_share_permission p =
     JObj [(''type'', JStr (sp_Type p)), (''trustee'', encode_identity (sp_Trustee p)), (''rights'', slice_json JStr (sp_Rights p))]"

definition encode_network_permission :: "SMBNetworkPermission \<Rightarrow> json" where
  "encode_network_permission p =
     JObj [(''type'', JStr (sn_Type p)), (''address_ranges'', slice_json JStr (sn_AddressRanges p)), (''rights'', slice_json JStr (sn_Rights p))]"

definition share_request_head :: "SMBShareRequest \<Rightarrow> (string \<times> json) list" where
  "share_request_head q =
     [(''share_name'', JStr (sq_ShareName q))] @ opt_int ''tenant_id'' (sq_TenantID q)
     @ [(''fs_path'', JStr (sq_FSPath q)), (''description'', JStr (sq_Description q)),
        (''permissions'', slice_json encode_share_permission (sq_Permissions q)),
        (''network_permissions'', slice_json encode_network_permission (sq_NetworkPermissions q)),
        (''access_based_enumeration_enabled'', JBool (sq_AccessBasedEnum q))]
     @ opt_str ''default_file_create_mode'' (sq_FileMode q) @ opt_str ''default_directory_create_mode'' (sq_DirectoryMode q)"

definition encode_share_request :: "SMBShareRequest \<Rightarrow> json" where
  "encode_share_request q =
     JObj (share_request_head q @ opt_str ''bytes_per_sector'' (sq_BytesPerSector q) @ [(''require_encryption'', JBool (sq_RequireEncryption q))]
           @ (if sq_ExpandVariables q then [(''expand_fs_path_variables'', JBool True)] else [])
           @ opt_str ''offline_files_caching_mode'' (sq_OfflineCaching q))"

text \<open>\<open>smbShareV3WriteRequest\<close>, filled by \<open>smbShareV3Body\<close>.\<close>

definition smbShareV3Body :: "SMBShareRequest \<Rightarrow> bool \<Rightarrow> json" where
  "smbShareV3Body q allow =
     JObj (share_request_head q
           @ [(''require_encryption'', JBool (sq_RequireEncryption q)), (''allow_fs_path_create'', JBool allow),
              (''expand_fs_path_variables'', JBool (sq_ExpandVariables q))]
           @ opt_str ''offline_files_caching_mode'' (sq_OfflineCaching q))"

definition share_patch_fields :: "PatchSMBShareRequest \<Rightarrow> bool \<Rightarrow> (string \<times> json) list" where
  "share_patch_fields p v3 =
     opt_json ''share_name'' JStr (sc_ShareName p) @ opt_json ''tenant_id'' JNum (sc_TenantID p) @ opt_json ''fs_path'' JStr (sc_FSPath p)
     @ opt_json ''description'' JStr (sc_Description p)
     @ opt_json ''permissions'' (slice_json encode_share_permission) (sc_Permissions p)
     @ opt_json ''network_permissions'' (slice_json encode_network_permission) (sc_NetworkPermissions p)
     @ opt_json ''access_based_enumeration_enabled'' JBool (sc_AccessBasedEnum p)
     @ opt_json ''default_file_create_mode'' JStr (sc_FileMode p) @ opt_json ''default_directory_create_mode'' JStr (sc_DirectoryMode p)
     @ (if v3 then [] else opt_json ''bytes_per_sector'' JStr (sc_BytesPerSector p))
     @ opt_json ''require_encryption'' JBool (sc_RequireEncryption p)
     @ opt_json ''allow_fs_path_create'' JBool (sc_AllowFSPathCreate p)
     @ opt_json ''expand_fs_path_variables'' JBool (sc_ExpandVariables p)
     @ opt_json ''offline_files_caching_mode'' JStr (sc_OfflineCaching p)"

definition decode_share_permission :: "json \<Rightarrow> SMBSharePermission option" where
  "decode_share_permission j = do {
     kvs \<leftarrow> obj_fields j; t \<leftarrow> get_str ''type'' kvs; tr \<leftarrow> get_obj decode_identity ''trustee'' kvs; r \<leftarrow> get_slice json_str ''rights'' kvs;
     Some \<lparr>sp_Type = t, sp_Trustee = tr, sp_Rights = r\<rparr> }"

definition decode_network_permission :: "json \<Rightarrow> SMBNetworkPermission option" where
  "decode_network_permission j = do {
     kvs \<leftarrow> obj_fields j; t \<leftarrow> get_str ''type'' kvs; a \<leftarrow> get_slice json_str ''address_ranges'' kvs; r \<leftarrow> get_slice json_str ''rights'' kvs;
     Some \<lparr>sn_Type = t, sn_AddressRanges = a, sn_Rights = r\<rparr> }"

definition decode_share :: "json \<Rightarrow> SMBShare option" where
  "decode_share j = do {
     kvs \<leftarrow> obj_fields j;
     i \<leftarrow> get_str ''id'' kvs; n \<leftarrow> get_str ''share_name'' kvs; t \<leftarrow> get_int ''tenant_id'' kvs; fp \<leftarrow> get_str ''fs_path'' kvs;
     d \<leftarrow> get_str ''description'' kvs;
     ps \<leftarrow> get_slice decode_share_permission ''permissions'' kvs;
     ns \<leftarrow> get_slice decode_network_permission ''network_permissions'' kvs;
     ab \<leftarrow> get_bool ''access_based_enumeration_enabled'' kvs;
     fm \<leftarrow> get_str ''default_file_create_mode'' kvs; dm \<leftarrow> get_str ''default_directory_create_mode'' kvs;
     b \<leftarrow> get_str ''bytes_per_sector'' kvs; re \<leftarrow> get_bool ''require_encryption'' kvs;
     ac \<leftarrow> get_bool ''allow_fs_path_create'' kvs; ev \<leftarrow> get_bool ''expand_fs_path_variables'' kvs;
     oc \<leftarrow> get_str ''offline_files_caching_mode'' kvs;
     Some \<lparr>ss_ID = i, ss_ShareName = n, ss_TenantID = t, ss_FSPath = fp, ss_Description = d, ss_Permissions = ps,
           ss_NetworkPermissions = ns, ss_AccessBasedEnum = ab, ss_FileMode = fm, ss_DirectoryMode = dm, ss_BytesPerSector = b,
           ss_RequireEncryption = re, ss_AllowFSPathCreate = ac, ss_ExpandVariables = ev, ss_OfflineCaching = oc, ss_ETag = []\<rparr> }"

section \<open>Requests\<close>

definition smbSharesPath :: string where "smbSharesPath = ''/v2/smb/shares/''"
definition smbSharesV3PreviewPath :: string where "smbSharesV3PreviewPath = ''/v3/smb/shares/''"

definition usesSMBV3Preview :: "SMBShareRequest \<Rightarrow> bool" where
  "usesSMBV3Preview q \<longleftrightarrow> sq_TenantID q \<noteq> 0 \<or> sq_ExpandVariables q \<or> sq_OfflineCaching q \<noteq> []"

definition validateSMBMode :: "string \<Rightarrow> string \<Rightarrow> unit res" where
  "validateSMBMode what mode =
     (if mode = [] then Inr ()
      else case ParseUint 8 12 mode of
          Some v \<Rightarrow> if v > 511 then Inl (EMsg (''SMB '' @ what @ '' '' @ fmt_q mode @ '' must be an octal mode from 0000 through 0777'')) else Inr ()
        | None \<Rightarrow> Inl (EMsg (''SMB '' @ what @ '' '' @ fmt_q mode @ '' must be an octal mode from 0000 through 0777'')))"

definition validateSMBShareRequest :: "SMBShareRequest \<Rightarrow> unit res" where
  "validateSMBShareRequest q =
     andr (rejectProtocolControlCharacters ''SMB share name'' (sq_ShareName q))
     (if TrimSpace (sq_ShareName q) = [] then Inl (EMsg ''SMB share name is required'')
      else if sq_TenantID q < 0 then Inl (EMsg ''SMB tenant ID cannot be negative'')
      else andr (rejectProtocolControlCharacters ''SMB filesystem path'' (sq_FSPath q))
        (if TrimSpace (sq_FSPath q) = [] then Inl (EMsg ''SMB filesystem path is required'')
         else if \<not> HasPrefix (sq_FSPath q) ''/'' then Inl (EMsg (''SMB filesystem path '' @ fmt_q (sq_FSPath q) @ '' must be absolute''))
         else if sq_BytesPerSector q \<noteq> [] \<and> sq_BytesPerSector q \<noteq> ''512'' then Inl (EMsg ''SMB bytes_per_sector must be 512 when specified'')
         else andr (validateSMBMode ''default_file_create_mode'' (sq_FileMode q))
           (andr (validateSMBMode ''default_directory_create_mode'' (sq_DirectoryMode q))
             (if sq_OfflineCaching q \<in> set [[], SMBOfflineFilesNoCaching, SMBOfflineFilesManualCaching, SMBOfflineFilesAutomaticCaching]
              then Inr () else Inl (EMsg (''unsupported SMB offline-files caching mode '' @ fmt_q (sq_OfflineCaching q)))))))"

definition canonicalSMBShareRequest :: "SMBShareRequest \<Rightarrow> SMBShareRequest" where
  "canonicalSMBShareRequest q =
     q\<lparr>sq_Permissions := nonNilProtocolSlice (sq_Permissions q), sq_NetworkPermissions := nonNilProtocolSlice (sq_NetworkPermissions q)\<rparr>"

definition canonicalPatchSMBShareRequest :: "PatchSMBShareRequest \<Rightarrow> PatchSMBShareRequest" where
  "canonicalPatchSMBShareRequest p =
     p\<lparr>sc_Permissions := map_option nonNilProtocolSlice (sc_Permissions p),
       sc_NetworkPermissions := map_option nonNilProtocolSlice (sc_NetworkPermissions p)\<rparr>"

definition smbShareRefPath :: "string \<Rightarrow> string res" where
  "smbShareRefPath ref = ref_path ''SMB share reference'' smbSharesPath ref"

definition smbShareV3RefPath :: "string \<Rightarrow> string res" where
  "smbShareV3RefPath i = ref_path ''SMB share ID'' smbSharesV3PreviewPath i"

definition tag_share :: "string \<Rightarrow> SMBShare \<Rightarrow> SMBShare" where
  "tag_share etag x = x\<lparr>ss_ETag := etag\<rparr>"

definition share_call :: "Connection \<Rightarrow> string \<Rightarrow> string \<Rightarrow> (string \<times> string) list \<Rightarrow> string option \<Rightarrow> json option \<Rightarrow> SMBShare io" where
  "share_call c m p q h b = tagged_call no_share decode_share tag_share c m p q h b"

definition trustee_names_query :: "bool \<Rightarrow> (string \<times> string) list" where
  "trustee_names_query populate = (if populate then [(''populate-trustee-names'', ''true'')] else [])"

section \<open>The tenant-aware API\<close>

definition CreateSMBShareV3Preview :: "Connection \<Rightarrow> SMBShareRequest \<Rightarrow> bool \<Rightarrow> SMBShare io" where
  "CreateSMBShareV3Preview c q allow =
     andThen (lift_res (validateSMBShareRequest q)) (\<lambda>_.
       share_call c ''POST'' smbSharesV3PreviewPath [] None (Some (smbShareV3Body (canonicalSMBShareRequest q) allow)))"

definition ListSMBSharesV3Preview :: "Connection \<Rightarrow> bool \<Rightarrow> SMBShare list io" where
  "ListSMBSharesV3Preview c populate =
     andThen (DoJSON c ''GET'' smbSharesV3PreviewPath (trustee_names_query populate) None None
       (into [] (\<lambda>j. Option.bind (obj_fields j) (get_list decode_share ''entries'')))) (\<lambda>(_, es). ok es)"

definition GetSMBShareV3Preview :: "Connection \<Rightarrow> string \<Rightarrow> SMBShare io" where
  "GetSMBShareV3Preview c i = andThen (lift_res (smbShareV3RefPath i)) (\<lambda>p. share_call c ''GET'' p [] None None)"

definition ReplaceSMBShareV3Preview :: "Connection \<Rightarrow> string \<Rightarrow> SMBShareRequest \<Rightarrow> SMBShareWriteOptions \<Rightarrow> SMBShare io" where
  "ReplaceSMBShareV3Preview c i q opts =
     andThen (lift_res (validateSMBShareRequest q)) (\<lambda>_. andThen (lift_res (smbShareV3RefPath i)) (\<lambda>p.
       share_call c ''PUT'' p [] (ifMatchHeader (sw_IfMatch opts))
         (Some (smbShareV3Body (canonicalSMBShareRequest q) (sw_AllowFSPathCreate opts)))))"

definition PatchSMBShareV3Preview :: "Connection \<Rightarrow> string \<Rightarrow> PatchSMBShareRequest \<Rightarrow> SMBShareWriteOptions \<Rightarrow> SMBShare io" where
  "PatchSMBShareV3Preview c i patch opts =
     andThen (lift_res (smbShareV3RefPath i)) (\<lambda>p.
       let body = canonicalPatchSMBShareRequest patch;
           body = (if sw_AllowFSPathCreate opts \<and> sc_AllowFSPathCreate body = None then body\<lparr>sc_AllowFSPathCreate := Some True\<rparr> else body)
       in share_call c ''PATCH'' p [] (ifMatchHeader (sw_IfMatch opts)) (Some (JObj (share_patch_fields body True))))"

definition DeleteSMBShareV3Preview :: "Connection \<Rightarrow> string \<Rightarrow> string \<Rightarrow> unit io" where
  "DeleteSMBShareV3Preview c i ifMatch =
     andThen (lift_res (smbShareV3RefPath i)) (\<lambda>p. andThen (DoJSON c ''DELETE'' p [] (ifMatchHeader ifMatch) None noOut) (\<lambda>_. ok ()))"

section \<open>The stable API\<close>

definition CreateSMBShare :: "Connection \<Rightarrow> SMBShareRequest \<Rightarrow> bool \<Rightarrow> SMBShare io" where
  "CreateSMBShare c q allow =
     andThen (lift_res (validateSMBShareRequest q)) (\<lambda>_.
       let q = canonicalSMBShareRequest q
       in if usesSMBV3Preview q then CreateSMBShareV3Preview c q allow
          else share_call c ''POST'' smbSharesPath (allowFSPathCreateQuery allow) None (Some (encode_share_request q)))"

definition ListSMBShares :: "Connection \<Rightarrow> bool \<Rightarrow> SMBShare list io" where
  "ListSMBShares c populate =
     andThen (DoJSON c ''GET'' smbSharesPath (trustee_names_query populate) None None (into [] (decode_array_or_null decode_share)))
       (\<lambda>(_, es). ok es)"

definition GetSMBShare :: "Connection \<Rightarrow> string \<Rightarrow> SMBShare io" where
  "GetSMBShare c ref = andThen (lift_res (smbShareRefPath ref)) (\<lambda>p. share_call c ''GET'' p [] None None)"

definition ReplaceSMBShare :: "Connection \<Rightarrow> string \<Rightarrow> SMBShareRequest \<Rightarrow> SMBShareWriteOptions \<Rightarrow> SMBShare io" where
  "ReplaceSMBShare c ref q opts =
     andThen (lift_res (validateSMBShareRequest q)) (\<lambda>_.
       let q = canonicalSMBShareRequest q
       in if usesSMBV3Preview q then ReplaceSMBShareV3Preview c ref q opts
          else andThen (lift_res (smbShareRefPath ref)) (\<lambda>p.
            share_call c ''PUT'' p (allowFSPathCreateQuery (sw_AllowFSPathCreate opts)) (ifMatchHeader (sw_IfMatch opts))
              (Some (encode_share_request q))))"

definition needs_v3_patch :: "PatchSMBShareRequest \<Rightarrow> bool" where
  "needs_v3_patch p \<longleftrightarrow> sc_TenantID p \<noteq> None \<or> sc_AllowFSPathCreate p \<noteq> None \<or> sc_ExpandVariables p \<noteq> None \<or> sc_OfflineCaching p \<noteq> None"

definition PatchSMBShare :: "Connection \<Rightarrow> string \<Rightarrow> PatchSMBShareRequest \<Rightarrow> SMBShareWriteOptions \<Rightarrow> SMBShare io" where
  "PatchSMBShare c ref patch opts =
     (let patch = canonicalPatchSMBShareRequest patch
      in if needs_v3_patch patch then PatchSMBShareV3Preview c ref patch opts
         else andThen (lift_res (smbShareRefPath ref)) (\<lambda>p.
           share_call c ''PATCH'' p (allowFSPathCreateQuery (sw_AllowFSPathCreate opts)) (ifMatchHeader (sw_IfMatch opts))
             (Some (JObj (share_patch_fields patch False)))))"

definition DeleteSMBShare :: "Connection \<Rightarrow> string \<Rightarrow> string \<Rightarrow> unit io" where
  "DeleteSMBShare c ref ifMatch =
     andThen (lift_res (smbShareRefPath ref)) (\<lambda>p. andThen (DoJSON c ''DELETE'' p [] (ifMatchHeader ifMatch) None noOut) (\<lambda>_. ok ()))"

definition share_IDOrName :: "SMBShare \<Rightarrow> string" where
  "share_IDOrName s = (if ss_ID s \<noteq> [] then ss_ID s else ss_ShareName s)"

fun delete_share_loop :: "Connection \<Rightarrow> string \<Rightarrow> nat \<Rightarrow> bool io" where
  "delete_share_loop c ref 0 = fail (EMsg (''delete SMB share '' @ fmt_q ref @ '': concurrent modifications did not settle''))"
| "delete_share_loop c ref (Suc n) = do {
     g \<leftarrow> GetSMBShare c ref;
     case g of
       Inl err \<Rightarrow> if isAPINotFound err then ok False else fail err
     | Inr current \<Rightarrow> do {
         r \<leftarrow> DeleteSMBShare c (share_IDOrName current) (ss_ETag current);
         case r of
           Inl err \<Rightarrow> if isAPINotFound err then ok False
                      else if isAPIPreconditionFailed err then delete_share_loop c ref n else fail err
         | Inr _ \<Rightarrow> ok True } }"

definition DeleteSMBShareIfExists :: "Connection \<Rightarrow> string \<Rightarrow> bool io" where
  "DeleteSMBShareIfExists c ref = delete_share_loop c ref 3"

section \<open>Claiming a share\<close>

definition smbModeEqual :: "string \<Rightarrow> string \<Rightarrow> string \<Rightarrow> bool" where
  "smbModeEqual current desired fallback = (if desired = [] then current = [] \<or> current = fallback else current = desired)"

text \<open>Trustees agree on the strongest identifier the desired one names.\<close>

definition smbTrusteeMatches :: "Identity \<Rightarrow> Identity \<Rightarrow> bool" where
  "smbTrusteeMatches desired current =
     (if id_AuthID desired \<noteq> [] then id_AuthID desired = id_AuthID current
      else if id_SID desired \<noteq> [] then id_SID desired = id_SID current
      else if id_UID desired \<noteq> None then id_UID current = id_UID desired
      else if id_Name desired \<noteq> [] then
        EqualFold (id_Name desired) (id_Name current) \<and> (id_Domain desired = [] \<or> EqualFold (id_Domain desired) (id_Domain current))
      else desired = current)"

definition equalSMBSharePermissions :: "SMBSharePermission slice \<Rightarrow> SMBSharePermission slice \<Rightarrow> bool" where
  "equalSMBSharePermissions desired current \<longleftrightarrow>
     list_all2 (\<lambda>d c. sp_Type d = sp_Type c \<and> smbTrusteeMatches (sp_Trustee d) (sp_Trustee c) \<and> elems (sp_Rights d) = elems (sp_Rights c))
       (elems desired) (elems current)"

definition equalSMBNetworkPermissions :: "SMBNetworkPermission slice \<Rightarrow> SMBNetworkPermission slice \<Rightarrow> bool" where
  "equalSMBNetworkPermissions a b \<longleftrightarrow>
     list_all2 (\<lambda>x y. sn_Type x = sn_Type y \<and> elems (sn_AddressRanges x) = elems (sn_AddressRanges y) \<and> elems (sn_Rights x) = elems (sn_Rights y))
       (elems a) (elems b)"

definition changed_to :: "bool \<Rightarrow> 'a \<Rightarrow> 'a option" where
  "changed_to differs v = (if differs then Some v else None)"

definition smbSharePatchForVersion :: "SMBShare \<Rightarrow> SMBShareRequest \<Rightarrow> bool \<Rightarrow> PatchSMBShareRequest" where
  "smbSharePatchForVersion current desired includeBytesPerSector =
     no_share_patch
       \<lparr>sc_ShareName := changed_to (ss_ShareName current \<noteq> sq_ShareName desired) (sq_ShareName desired),
        sc_Description := changed_to (ss_Description current \<noteq> sq_Description desired) (sq_Description desired),
        sc_Permissions := changed_to (\<not> equalSMBSharePermissions (sq_Permissions desired) (ss_Permissions current))
          (nonNilProtocolSlice (sq_Permissions desired)),
        sc_NetworkPermissions := changed_to (\<not> equalSMBNetworkPermissions (ss_NetworkPermissions current) (sq_NetworkPermissions desired))
          (nonNilProtocolSlice (sq_NetworkPermissions desired)),
        sc_AccessBasedEnum := changed_to (ss_AccessBasedEnum current \<noteq> sq_AccessBasedEnum desired) (sq_AccessBasedEnum desired),
        sc_FileMode := changed_to (\<not> smbModeEqual (ss_FileMode current) (sq_FileMode desired) ''0644'') (sq_FileMode desired),
        sc_DirectoryMode := changed_to (\<not> smbModeEqual (ss_DirectoryMode current) (sq_DirectoryMode desired) ''0755'') (sq_DirectoryMode desired),
        sc_BytesPerSector := changed_to (includeBytesPerSector \<and> \<not> smbModeEqual (ss_BytesPerSector current) (sq_BytesPerSector desired) ''512'')
          (sq_BytesPerSector desired),
        sc_RequireEncryption := changed_to (ss_RequireEncryption current \<noteq> sq_RequireEncryption desired) (sq_RequireEncryption desired)\<rparr>"

text \<open>The second result of the code says whether any field was set.\<close>

definition smbSharePatch :: "SMBShare \<Rightarrow> SMBShareRequest \<Rightarrow> PatchSMBShareRequest \<times> bool" where
  "smbSharePatch current desired =
     (let patch = smbSharePatchForVersion current desired True in (patch, patch \<noteq> no_share_patch))"

definition smbShareV3Patch :: "SMBShare \<Rightarrow> SMBShareRequest \<Rightarrow> bool \<Rightarrow> PatchSMBShareRequest \<times> bool" where
  "smbShareV3Patch current desired allow =
     (let patch = (smbSharePatchForVersion current desired False)
            \<lparr>sc_TenantID := changed_to (sq_TenantID desired \<noteq> 0 \<and> ss_TenantID current \<noteq> sq_TenantID desired) (sq_TenantID desired),
             sc_AllowFSPathCreate := changed_to (ss_AllowFSPathCreate current \<noteq> allow) allow,
             sc_ExpandVariables := changed_to (ss_ExpandVariables current \<noteq> sq_ExpandVariables desired) (sq_ExpandVariables desired),
             sc_OfflineCaching := changed_to (\<not> smbModeEqual (ss_OfflineCaching current) (sq_OfflineCaching desired) SMBOfflineFilesNoCaching)
               (if sq_OfflineCaching desired = [] then SMBOfflineFilesNoCaching else sq_OfflineCaching desired)\<rparr>
      in (patch, patch \<noteq> no_share_patch))"

definition findSMBShareV3Preview :: "Connection \<Rightarrow> int \<Rightarrow> string \<Rightarrow> SMBShare option io" where
  "findSMBShareV3Preview c tenantID shareName =
     andThen (ListSMBSharesV3Preview c False) (\<lambda>shares.
       case filter (\<lambda>s. ss_ShareName s = shareName \<and> (tenantID = 0 \<or> ss_TenantID s = tenantID)) shares of
         [] \<Rightarrow> ok None
       | s # others \<Rightarrow>
           if others \<noteq> [] then fail (EMsg (''multiple SMB shares named '' @ fmt_q shareName @ '' found for tenant '' @ itoa tenantID))
           else if ss_ID s = [] then fail (EMsg (''SMB v3 list returned share '' @ fmt_q shareName @ '' without an ID''))
           else do {
             g \<leftarrow> GetSMBShareV3Preview c (ss_ID s);
             case g of Inl err \<Rightarrow> if isAPINotFound err then ok None else fail err | Inr full \<Rightarrow> ok (Some full) })"

definition share_refusal :: "SMBShareRequest \<Rightarrow> bool \<Rightarrow> SMBShare \<Rightarrow> go_error option" where
  "share_refusal desired strict current =
     (if strict \<and> ss_Description current \<noteq> sq_Description desired
      then Some (EWrap [] (ESentinel ErrResourceClaimConflict) ('': SMB share '' @ fmt_q (sq_ShareName desired) @ '' has specification marker ''
             @ fmt_q (ss_Description current) @ '', requested '' @ fmt_q (sq_Description desired)))
      else if ss_FSPath current \<noteq> sq_FSPath desired
      then Some (EMsg (''SMB share '' @ fmt_q (sq_ShareName desired) @ '' already targets '' @ fmt_q (ss_FSPath current)
             @ '', refusing to retarget it to '' @ fmt_q (sq_FSPath desired)))
      else None)"

definition share_refusal_v3 :: "SMBShareRequest \<Rightarrow> SMBShare \<Rightarrow> go_error option" where
  "share_refusal_v3 desired current =
     (if ss_FSPath current \<noteq> sq_FSPath desired
      then Some (EMsg (''SMB share '' @ fmt_q (sq_ShareName desired) @ '' in tenant '' @ itoa (sq_TenantID desired) @ '' already targets ''
             @ fmt_q (ss_FSPath current) @ '', refusing to retarget it to '' @ fmt_q (sq_FSPath desired)))
      else None)"

definition share_opts :: "bool \<Rightarrow> SMBShare \<Rightarrow> SMBShareWriteOptions" where
  "share_opts allow x = \<lparr>sw_AllowFSPathCreate = allow, sw_IfMatch = ss_ETag x\<rparr>"

fun claim_share_loop :: "Connection \<Rightarrow> SMBShareRequest \<Rightarrow> bool \<Rightarrow> bool \<Rightarrow> nat \<Rightarrow> SMBShare option \<Rightarrow> (SMBShare \<times> bool) io" where
  "claim_share_loop c desired allow strict 0 current =
     fail (EMsg (''ensure SMB share '' @ fmt_q (sq_ShareName desired) @ '': concurrent modifications did not settle''))"
| "claim_share_loop c desired allow strict (Suc n) current =
     andThen (case current of None \<Rightarrow> GetSMBShare c (sq_ShareName desired) | Some x \<Rightarrow> ok x) (\<lambda>cur.
       case share_refusal desired strict cur of
         Some err \<Rightarrow> fail err
       | None \<Rightarrow>
           if \<not> snd (smbSharePatch cur desired) then ok (cur, False)
           else do {
             r \<leftarrow> PatchSMBShare c (share_IDOrName cur) (fst (smbSharePatch cur desired)) (share_opts allow cur);
             case r of
               Inr updated \<Rightarrow> ok (updated, False)
             | Inl patchErr \<Rightarrow> if \<not> isAPIPreconditionFailed patchErr then fail patchErr
                               else claim_share_loop c desired allow strict n None })"

fun claim_share_v3_loop :: "Connection \<Rightarrow> SMBShareRequest \<Rightarrow> bool \<Rightarrow> nat \<Rightarrow> SMBShare option \<Rightarrow> (SMBShare \<times> bool) io" where
  "claim_share_v3_loop c desired allow 0 current =
     fail (EMsg (''ensure SMB share '' @ fmt_q (sq_ShareName desired) @ '' in tenant '' @ itoa (sq_TenantID desired)
       @ '': concurrent creation or modification did not settle''))"
| "claim_share_v3_loop c desired allow (Suc n) current =
     andThen (case current of None \<Rightarrow> findSMBShareV3Preview c (sq_TenantID desired) (sq_ShareName desired) | Some x \<Rightarrow> ok (Some x)) (\<lambda>found.
       case found of
         None \<Rightarrow> claim_share_v3_loop c desired allow n None
       | Some cur \<Rightarrow>
           (case share_refusal_v3 desired cur of
              Some err \<Rightarrow> fail err
            | None \<Rightarrow>
                if \<not> snd (smbShareV3Patch cur desired allow) then ok (cur, False)
                else do {
                  r \<leftarrow> PatchSMBShareV3Preview c (ss_ID cur) (fst (smbShareV3Patch cur desired allow)) (share_opts False cur);
                  case r of
                    Inr updated \<Rightarrow> ok (updated, False)
                  | Inl patchErr \<Rightarrow> if \<not> isAPIPreconditionFailed patchErr then fail patchErr
                                    else claim_share_v3_loop c desired allow n None }))"

definition ensureSMBShareV3Preview :: "Connection \<Rightarrow> SMBShareRequest \<Rightarrow> bool \<Rightarrow> (SMBShare \<times> bool) io" where
  "ensureSMBShareV3Preview c desired allow =
     andThen (findSMBShareV3Preview c (sq_TenantID desired) (sq_ShareName desired)) (\<lambda>current.
       case current of
         Some cur \<Rightarrow> claim_share_v3_loop c desired allow 3 (Some cur)
       | None \<Rightarrow> do {
           r \<leftarrow> CreateSMBShareV3Preview c desired allow;
           case r of
             Inr created \<Rightarrow> ok (created, True)
           | Inl createErr \<Rightarrow>
               if isAPIAlreadyExists createErr then claim_share_v3_loop c desired allow 3 None
               else if isAmbiguousCreateError createErr then do {
                 g \<leftarrow> findSMBShareV3Preview c (sq_TenantID desired) (sq_ShareName desired);
                 case g of
                   Inl err \<Rightarrow> fail (EWrap ''reconcile ambiguous tenant SMB share create: '' err ('' (create error: '' @ error_text createErr @ '')''))
                 | Inr None \<Rightarrow> fail createErr
                 | Inr (Some cur) \<Rightarrow> claim_share_v3_loop c desired allow 3 (Some cur) }
               else fail createErr })"

text \<open>The stable API.\<close>

definition ensure_stable_share :: "Connection \<Rightarrow> SMBShareRequest \<Rightarrow> bool \<Rightarrow> bool \<Rightarrow> (SMBShare \<times> bool) io" where
  "ensure_stable_share c desired allow strict = do {
     g \<leftarrow> GetSMBShare c (sq_ShareName desired);
     case g of
       Inr cur \<Rightarrow> claim_share_loop c desired allow strict 3 (Some cur)
     | Inl err \<Rightarrow>
         if \<not> isAPINotFound err then fail err
         else do {
           r \<leftarrow> CreateSMBShare c desired allow;
           case r of
             Inr created \<Rightarrow> ok (created, True)
           | Inl createErr \<Rightarrow>
               if isAPIAlreadyExists createErr then claim_share_loop c desired allow strict 3 None
               else if isAmbiguousCreateError createErr then do {
                 g2 \<leftarrow> GetSMBShare c (sq_ShareName desired);
                 case g2 of
                   Inl err \<Rightarrow> if isAPINotFound err then fail createErr
                      else fail (EWrap ''reconcile ambiguous SMB share create: '' err ('' (create error: '' @ error_text createErr @ '')''))
                 | Inr cur \<Rightarrow> claim_share_loop c desired allow strict 3 (Some cur) }
               else fail createErr } }"

definition ensureSMBShare :: "Connection \<Rightarrow> SMBShareRequest \<Rightarrow> bool \<Rightarrow> bool \<Rightarrow> (SMBShare \<times> bool) io" where
  "ensureSMBShare c desired allow strict =
     andThen (lift_res (validateSMBShareRequest desired)) (\<lambda>_.
       let desired = canonicalSMBShareRequest desired
       in if usesSMBV3Preview desired then ensureSMBShareV3Preview c desired allow else ensure_stable_share c desired allow strict)"

definition EnsureSMBShare :: "Connection \<Rightarrow> SMBShareRequest \<Rightarrow> bool \<Rightarrow> (SMBShare \<times> bool) io" where
  "EnsureSMBShare c desired allow = ensureSMBShare c desired allow False"

definition ClaimSMBShare :: "Connection \<Rightarrow> SMBShareRequest \<Rightarrow> bool \<Rightarrow> (SMBShare \<times> bool) io" where
  "ClaimSMBShare c desired allow = ensureSMBShare c desired allow True"

section \<open>What the operations send and learn\<close>

definition share_get :: "string \<Rightarrow> request" where
  "share_get ref = mk_request ''GET'' (smbSharesPath @ PathEscape ref) [] None None"

definition share_get_v3 :: "string \<Rightarrow> request" where
  "share_get_v3 i = mk_request ''GET'' (smbSharesV3PreviewPath @ PathEscape i) [] None None"

definition share_list_v3 :: request where
  "share_list_v3 = mk_request ''GET'' smbSharesV3PreviewPath (trustee_names_query False) None None"

definition share_post :: "SMBShareRequest \<Rightarrow> bool \<Rightarrow> request" where
  "share_post q allow =
     mk_request ''POST'' smbSharesPath (allowFSPathCreateQuery allow) None (Some (encode_share_request (canonicalSMBShareRequest q)))"

definition share_post_v3 :: "SMBShareRequest \<Rightarrow> bool \<Rightarrow> request" where
  "share_post_v3 q allow = mk_request ''POST'' smbSharesV3PreviewPath [] None (Some (smbShareV3Body (canonicalSMBShareRequest q) allow))"

definition share_patch :: "string \<Rightarrow> PatchSMBShareRequest \<Rightarrow> SMBShareWriteOptions \<Rightarrow> request" where
  "share_patch i patch opts =
     mk_request ''PATCH'' (smbSharesPath @ PathEscape i) (allowFSPathCreateQuery (sw_AllowFSPathCreate opts)) (ifMatchHeader (sw_IfMatch opts))
       (Some (JObj (share_patch_fields (canonicalPatchSMBShareRequest patch) False)))"

definition share_patch_v3 :: "string \<Rightarrow> PatchSMBShareRequest \<Rightarrow> SMBShareWriteOptions \<Rightarrow> request" where
  "share_patch_v3 i patch opts =
     (let body = canonicalPatchSMBShareRequest patch;
          body = (if sw_AllowFSPathCreate opts \<and> sc_AllowFSPathCreate body = None then body\<lparr>sc_AllowFSPathCreate := Some True\<rparr> else body)
      in mk_request ''PATCH'' (smbSharesV3PreviewPath @ PathEscape i) [] (ifMatchHeader (sw_IfMatch opts))
           (Some (JObj (share_patch_fields body True))))"

definition share_delete :: "string \<Rightarrow> string \<Rightarrow> request" where
  "share_delete ref etag = mk_request ''DELETE'' (smbSharesPath @ PathEscape ref) [] (ifMatchHeader etag) None"

text \<open>The share \<open>x\<close>, with its ETag, was the answer to a reading in the trace.\<close>

definition share_answer :: "request \<Rightarrow> event list \<Rightarrow> SMBShare \<Rightarrow> bool" where
  "share_answer = tagged_answer no_share decode_share tag_share"

lemmas share_answer_grows = tagged_answer_grows [of no_share decode_share tag_share, folded share_answer_def]
lemmas share_answer_before = tagged_answer_before [of no_share decode_share tag_share, folded share_answer_def]
lemmas share_answer_after = tagged_answer_after [of no_share decode_share tag_share, folded share_answer_def]
lemmas emits_share_get = emits_tagged_get [of no_share decode_share tag_share, folded share_answer_def share_call_def]
lemmas emits_share_accepted = emits_tagged_accepted [of no_share decode_share tag_share, folded share_call_def]
lemmas sends_share_call = sends_tagged_call [of _ _ _ _ _ _ no_share decode_share tag_share, folded share_call_def]

lemma canonical_share_idem [simp]:
  "canonicalSMBShareRequest (canonicalSMBShareRequest q) = canonicalSMBShareRequest q"
  "sq_TenantID (canonicalSMBShareRequest q) = sq_TenantID q" "sq_ShareName (canonicalSMBShareRequest q) = sq_ShareName q"
  "sq_FSPath (canonicalSMBShareRequest q) = sq_FSPath q" "sq_Description (canonicalSMBShareRequest q) = sq_Description q"
  "usesSMBV3Preview (canonicalSMBShareRequest q) = usesSMBV3Preview q"
  by (simp_all add: canonicalSMBShareRequest_def nonNilProtocolSlice_def elems_def usesSMBV3Preview_def)

lemma canonical_share_patch_idem [simp]:
  "canonicalPatchSMBShareRequest (canonicalPatchSMBShareRequest p) = canonicalPatchSMBShareRequest p"
  "needs_v3_patch (canonicalPatchSMBShareRequest p) = needs_v3_patch p"
  by (cases "sc_Permissions p"; cases "sc_NetworkPermissions p";
      simp add: canonicalPatchSMBShareRequest_def nonNilProtocolSlice_def elems_def needs_v3_patch_def)+

lemma emits_GetSMBShare:
  "emits (GetSMBShare c ref) (\<lambda>es r. case r of
     Inr x \<Rightarrow> share_answer (share_get ref) es x | Inl e \<Rightarrow> isAPINotFound e \<longrightarrow> not_found_answer (share_get ref) es)"
  unfolding GetSMBShare_def smbShareRefPath_def share_get_def
  by (rule emits_with_ref, rule emits_share_get) (simp add: isAPINotFound_def)

lemma emits_GetSMBShare_ok: "emits (GetSMBShare c ref) (on_ok (share_answer (share_get ref)))"
  by (rule emits_weaken [OF emits_GetSMBShare]) (auto simp: on_ok_def)

lemma sends_GetSMBShare: "reads R \<Longrightarrow> sends R (GetSMBShare c ref)"
  unfolding GetSMBShare_def smbShareRefPath_def by (rule sends_with_ref, rule sends_share_call, erule readsD)

lemma emits_share_GetV3:
  "emits (GetSMBShareV3Preview c i) (\<lambda>es r. case r of
     Inr x \<Rightarrow> share_answer (share_get_v3 i) es x | Inl e \<Rightarrow> isAPINotFound e \<longrightarrow> not_found_answer (share_get_v3 i) es)"
  unfolding GetSMBShareV3Preview_def smbShareV3RefPath_def share_get_v3_def
  by (rule emits_with_ref, rule emits_share_get) (simp add: isAPINotFound_def)

lemma sends_share_GetV3: "reads R \<Longrightarrow> sends R (GetSMBShareV3Preview c i)"
  unfolding GetSMBShareV3Preview_def smbShareV3RefPath_def by (rule sends_with_ref, rule sends_share_call, erule readsD)

lemma sends_ListSMBShares: "reads R \<Longrightarrow> sends R (ListSMBShares c b)"
  unfolding ListSMBShares_def by (intro io_rules sends_GET)

lemma sends_share_ListV3: "reads R \<Longrightarrow> sends R (ListSMBSharesV3Preview c b)"
  unfolding ListSMBSharesV3Preview_def by (intro io_rules sends_GET)

lemma sends_find_share: "reads R \<Longrightarrow> sends R (findSMBShareV3Preview c t p)"
  unfolding findSMBShareV3Preview_def by (intro io_rules sends_share_ListV3 sends_share_GetV3)

lemma emits_share_PatchV3:
  "emits (PatchSMBShareV3Preview c i patch opts) (on_ok (\<lambda>es _. accepted (share_patch_v3 i patch opts) es))"
  unfolding PatchSMBShareV3Preview_def smbShareV3RefPath_def share_patch_v3_def Let_def
  by (rule emits_with_ref, rule emits_share_accepted) simp

lemma sends_share_PatchV3: "R (share_patch_v3 i patch opts) \<Longrightarrow> sends R (PatchSMBShareV3Preview c i patch opts)"
  unfolding PatchSMBShareV3Preview_def smbShareV3RefPath_def share_patch_v3_def Let_def by (intro sends_with_ref sends_share_call) simp

definition share_patch_any :: "string \<Rightarrow> PatchSMBShareRequest \<Rightarrow> SMBShareWriteOptions \<Rightarrow> request" where
  "share_patch_any i patch opts = (if needs_v3_patch patch then share_patch_v3 i patch opts else share_patch i patch opts)"

lemma share_patch_v3_canonical [simp]: "share_patch_v3 i (canonicalPatchSMBShareRequest p) opts = share_patch_v3 i p opts"
  by (simp add: share_patch_v3_def)

lemma emits_PatchSMBShare: "emits (PatchSMBShare c i patch opts) (on_ok (\<lambda>es _. accepted (share_patch_any i patch opts) es))"
proof (cases "needs_v3_patch patch")
  case False
  show ?thesis
    unfolding PatchSMBShare_def smbShareRefPath_def share_patch_def share_patch_any_def Let_def
    by (simp add: False) (rule emits_with_ref, rule emits_share_accepted, simp)
next
  case True
  then show ?thesis
    using emits_share_PatchV3 [of c i "canonicalPatchSMBShareRequest patch" opts] by (simp add: PatchSMBShare_def share_patch_any_def)
qed

lemma sends_PatchSMBShare:
  assumes "R (share_patch_any i patch opts)" shows "sends R (PatchSMBShare c i patch opts)"
proof (cases "needs_v3_patch patch")
  case False
  with assms show ?thesis
    unfolding PatchSMBShare_def smbShareRefPath_def share_patch_def share_patch_any_def Let_def
    by simp (intro sends_with_ref sends_share_call, simp)
next
  case True
  with assms show ?thesis
    using sends_share_PatchV3 [of R i "canonicalPatchSMBShareRequest patch" opts c] by (simp add: PatchSMBShare_def share_patch_any_def)
qed

lemma emits_DeleteSMBShare:
  "emits (DeleteSMBShare c ref etag) (on_ok (\<lambda>es _. accepted (share_delete ref etag) es))"
  unfolding DeleteSMBShare_def smbShareRefPath_def share_delete_def
  by (rule emits_with_ref) (auto intro!: emits_call_ok emits_ok answered_accepted)

lemma sends_DeleteSMBShare: "R (share_delete ref etag) \<Longrightarrow> sends R (DeleteSMBShare c ref etag)"
  unfolding DeleteSMBShare_def smbShareRefPath_def share_delete_def by (intro io_rules sends_with_ref sends_DoJSON) simp

section \<open>A claim writes only what is permitted\<close>

definition list_shares :: "json \<Rightarrow> SMBShare list option" where
  "list_shares j = Option.bind (obj_fields j) (get_list decode_share ''entries'')"

text \<open>The tenant's share was found absent: a listing did not have it, or it was gone when it was read.\<close>

definition share_absent_v3 :: "int \<Rightarrow> string \<Rightarrow> event list \<Rightarrow> bool" where
  "share_absent_v3 t p es \<longleftrightarrow>
     (\<exists>etag raw j xs. seen share_list_v3 es etag raw j \<and> into [] list_shares raw j = Some xs \<and>
        filter (\<lambda>e. ss_ShareName e = p \<and> (t = 0 \<or> ss_TenantID e = t)) xs = [])
     \<or> (\<exists>i. not_found_answer (share_get_v3 i) es)"

text \<open>What may be sent after \<open>es\<close> to claim the share \<open>d\<close>: readings; its creation once it was found absent; and the patch, under its
  ETag, of an share that was read with the filesystem path of \<open>d\<close> and, in a strict claim, with its description.\<close>

definition share_permitted :: "SMBShareRequest \<Rightarrow> bool \<Rightarrow> bool \<Rightarrow> event list \<Rightarrow> request \<Rightarrow> bool" where
  "share_permitted d allow strict es rq \<longleftrightarrow>
     rq_method rq = ''GET''
     \<or> \<not> usesSMBV3Preview d \<and> rq = share_post d allow \<and> not_found_answer (share_get (sq_ShareName d)) es
     \<or> \<not> usesSMBV3Preview d \<and> (\<exists>x. share_answer (share_get (sq_ShareName d)) es x \<and> ss_FSPath x = sq_FSPath d \<and>
          (strict \<longrightarrow> ss_Description x = sq_Description d) \<and>
          rq = share_patch (share_IDOrName x) (fst (smbSharePatch x d)) (share_opts allow x))
     \<or> usesSMBV3Preview d \<and> rq = share_post_v3 d allow \<and> share_absent_v3 (sq_TenantID d) (sq_ShareName d) es
     \<or> usesSMBV3Preview d \<and> (\<exists>i x. share_answer (share_get_v3 i) es x \<and> ss_FSPath x = sq_FSPath d \<and>
          rq = share_patch_v3 (ss_ID x) (fst (smbShareV3Patch x d allow)) (share_opts False x))"

lemma share_absent_append: "share_absent_v3 t p es \<Longrightarrow> share_absent_v3 t p (es @ es')"
  unfolding share_absent_v3_def by (blast intro: seen_before not_found_before)

lemma share_absent_after: "share_absent_v3 t p es \<Longrightarrow> share_absent_v3 t p (es' @ es)"
  unfolding share_absent_v3_def by (blast intro: seen_after not_found_after)

lemma lasting_share_permitted: "lasting (share_permitted d allow strict)"
  unfolding lasting_def share_permitted_def using not_found_before share_answer_before share_absent_append by metis

lemma reads_share_permitted: "reads (share_permitted d allow strict h)"
  by (simp add: reads_def share_permitted_def)

lemma smbSharePatch_canonical [simp]:
  "smbSharePatch x (canonicalSMBShareRequest d) = smbSharePatch x d" "smbShareV3Patch x (canonicalSMBShareRequest d) allow = smbShareV3Patch x d allow"
  by (simp_all add: smbSharePatch_def smbShareV3Patch_def smbSharePatchForVersion_def canonicalSMBShareRequest_def equalSMBSharePermissions_def
      equalSMBNetworkPermissions_def nonNilProtocolSlice_def elems_def)

lemma smbSharePatch_stable: "\<not> needs_v3_patch (fst (smbSharePatch x d))"
  by (simp add: smbSharePatch_def Let_def needs_v3_patch_def smbSharePatchForVersion_def no_share_patch_def)

lemma share_refusal_None:
  "share_refusal d strict x = None \<longleftrightarrow> ss_FSPath x = sq_FSPath d \<and> (strict \<longrightarrow> ss_Description x = sq_Description d)"
  "share_refusal_v3 d x = None \<longleftrightarrow> ss_FSPath x = sq_FSPath d"
  by (auto simp: share_refusal_def share_refusal_v3_def)

text \<open>The two loops as instances of the claim protocol.\<close>

definition look_share :: "Connection \<Rightarrow> SMBShareRequest \<Rightarrow> SMBShare option io" where
  "look_share c d = andThen (GetSMBShare c (sq_ShareName d)) (\<lambda>x. ok (Some x))"

definition patch_named :: "Connection \<Rightarrow> SMBShareRequest \<Rightarrow> bool \<Rightarrow> SMBShare \<Rightarrow> SMBShare io" where
  "patch_named c d allow x = PatchSMBShare c (share_IDOrName x) (fst (smbSharePatch x d)) (share_opts allow x)"

definition write_share :: "SMBShareRequest \<Rightarrow> bool \<Rightarrow> SMBShare \<Rightarrow> request" where
  "write_share d allow x =
     share_patch_any (share_IDOrName x) (fst (smbSharePatch x d)) (share_opts allow x)"

definition look_share_v3 :: "Connection \<Rightarrow> SMBShareRequest \<Rightarrow> SMBShare option io" where
  "look_share_v3 c d = findSMBShareV3Preview c (sq_TenantID d) (sq_ShareName d)"

definition patch_tenant :: "Connection \<Rightarrow> SMBShareRequest \<Rightarrow> bool \<Rightarrow> SMBShare \<Rightarrow> SMBShare io" where
  "patch_tenant c d allow x = PatchSMBShareV3Preview c (ss_ID x) (fst (smbShareV3Patch x d allow)) (share_opts False x)"

definition write_share_v3 :: "SMBShareRequest \<Rightarrow> bool \<Rightarrow> SMBShare \<Rightarrow> request" where
  "write_share_v3 d allow x = share_patch_v3 (ss_ID x) (fst (smbShareV3Patch x d allow)) (share_opts False x)"

definition answer_share_v3 :: "event list \<Rightarrow> SMBShare \<Rightarrow> bool" where
  "answer_share_v3 es x \<longleftrightarrow> (\<exists>i. share_answer (share_get_v3 i) es x)"

lemma answer_share_v3_after: "answer_share_v3 es x \<Longrightarrow> answer_share_v3 (es' @ es) x"
  unfolding answer_share_v3_def using share_answer_after by blast

lemma emits_find_share:
  "emits (findSMBShareV3Preview c t p) (on_ok (\<lambda>es found. case found of None \<Rightarrow> share_absent_v3 t p es | Some x \<Rightarrow> answer_share_v3 es x))"
  unfolding findSMBShareV3Preview_def ListSMBSharesV3Preview_def andThen_assoc
proof (rule emits_call_ok, goal_cases)
  case (1 es etag xs raw j)
  have "list_shares = (\<lambda>j. Option.bind (obj_fields j) (get_list decode_share ''entries''))" by (rule ext) (rule list_shares_def)
  then have out: "into [] list_shares raw j = Some xs" using 1(2) by simp
  have sn: "seen share_list_v3 es etag raw j" using answered_seen [OF 1(1)] by (simp add: share_list_v3_def)
  let ?f = "filter (\<lambda>e. ss_ShareName e = p \<and> (t = 0 \<or> ss_TenantID e = t)) xs"
  show ?case
  proof (cases ?f)
    case Nil
    then have "share_absent_v3 t p es" unfolding share_absent_v3_def using sn out by blast
    with Nil show ?thesis by (simp add: emits_ok)
  next
    case (Cons e others)
    have "emits (GetSMBShareV3Preview c (ss_ID e) \<bind> (\<lambda>g. case g of Inl err \<Rightarrow> if isAPINotFound err then ok None else fail err
              | Inr full \<Rightarrow> ok (Some full)))
        (on_ok (\<lambda>es' found. case found of None \<Rightarrow> share_absent_v3 t p (es @ es') | Some x \<Rightarrow> answer_share_v3 (es @ es') x))"
    proof (rule emits_bind_ok [OF emits_share_GetV3], rule emits_case_sum, goal_cases)
      case (1 es' g err)
      then have "isAPINotFound err \<Longrightarrow> not_found_answer (share_get_v3 (ss_ID e)) (es @ es')" using not_found_mono by fastforce
      then show ?case by (intro emits_if emits_ok emits_fail) (auto simp: share_absent_v3_def)
    next
      case (2 es' g x)
      then show ?case by (intro emits_ok) (auto simp: answer_share_v3_def intro: share_answer_after)
    qed
    then show ?thesis by (simp add: emits_fail Cons)
  qed
qed

lemma emits_share_CreateV3: "emits (CreateSMBShareV3Preview c q allow) (on_ok (\<lambda>es _. accepted (share_post_v3 q allow) es))"
  unfolding CreateSMBShareV3Preview_def andThen_lift share_post_v3_def by (auto intro: emits_case_sum emits_fail emits_share_accepted)

lemma sends_share_CreateV3: "R (share_post_v3 q allow) \<Longrightarrow> sends R (CreateSMBShareV3Preview c q allow)"
  unfolding CreateSMBShareV3Preview_def share_post_v3_def by (intro io_rules sends_share_call)

definition share_post_any :: "SMBShareRequest \<Rightarrow> bool \<Rightarrow> request" where
  "share_post_any q allow = (if usesSMBV3Preview q then share_post_v3 q allow else share_post q allow)"

lemma share_post_canonical [simp]:
  "share_post (canonicalSMBShareRequest q) allow = share_post q allow" "share_post_v3 (canonicalSMBShareRequest q) allow = share_post_v3 q allow"
  by (simp_all add: share_post_def share_post_v3_def)

lemma emits_CreateSMBShare: "emits (CreateSMBShare c q allow) (on_ok (\<lambda>es _. accepted (share_post_any q allow) es))"
proof (cases "usesSMBV3Preview q")
  case False
  then show ?thesis
    unfolding CreateSMBShare_def andThen_lift share_post_def share_post_any_def Let_def canonical_share_idem
    by (auto intro: emits_case_sum emits_fail emits_share_accepted)
next
  case True
  then show ?thesis
    using emits_share_CreateV3 [of c "canonicalSMBShareRequest q" allow]
    by (simp add: CreateSMBShare_def andThen_lift share_post_any_def Let_def emits_case_sum emits_fail)
qed

lemma sends_CreateSMBShare: "R (share_post_any q allow) \<Longrightarrow> sends R (CreateSMBShare c q allow)"
  unfolding CreateSMBShare_def Let_def canonical_share_idem share_post_any_def
  by (cases "usesSMBV3Preview q") (auto simp: share_post_def intro!: sends_andThen sends_lift_res sends_share_call sends_share_CreateV3)

interpretation smb_v2: claiming "look_share c d" "patch_named c d allow" "share_refusal d strict" "\<lambda>x. snd (smbSharePatch x d)"
    "claim_share_loop c d allow strict" "share_answer (share_get (sq_ShareName d))" "write_share d allow"
    "EMsg (''ensure SMB share '' @ fmt_q (sq_ShareName d) @ '': concurrent modifications did not settle'')"
    "probe_by (GetSMBShare c (sq_ShareName d))" "CreateSMBShare c d allow"
    "\<lambda>err e. EWrap ''reconcile ambiguous SMB share create: '' err ('' (create error: '' @ error_text e @ '')'')"
    "not_found_answer (share_get (sq_ShareName d))" "share_post_any d allow" "ensure_stable_share c d allow strict"
  for c d allow strict
proof (unfold_locales, goal_cases)
  case (2 n cur)
  show ?case
    unfolding claim_share_loop.simps look_share_def patch_named_def share_opts_def by (cases cur) (simp_all only: option.case andThen_assoc andThen_ok)
next
  case 3
  show ?case unfolding look_share_def by (rule emits_on_ok_andThen [OF emits_GetSMBShare_ok], rule emits_ok) simp
next
  case (4 R)
  then show ?case unfolding look_share_def by (intro io_rules sends_GetSMBShare)
next
  case 8
  show ?case
    by (rule state.expand, rule ext)
      (simp add: ensure_stable_share_def probe_by_def run_bind run_andThen split: prod.split sum.split option.split)
next
  case 9
  show ?case by (rule emits_probe_by [OF emits_GetSMBShare])
qed (simp_all add: share_answer_grows patch_named_def write_share_def emits_PatchSMBShare sends_PatchSMBShare sends_probe_by sends_GetSMBShare
       emits_CreateSMBShare sends_CreateSMBShare not_found_after)

interpretation smb_v3: claiming "look_share_v3 c d" "patch_tenant c d allow" "share_refusal_v3 d" "\<lambda>x. snd (smbShareV3Patch x d allow)"
    "claim_share_v3_loop c d allow" "answer_share_v3" "write_share_v3 d allow"
    "EMsg (''ensure SMB share '' @ fmt_q (sq_ShareName d) @ '' in tenant '' @ itoa (sq_TenantID d)
       @ '': concurrent creation or modification did not settle'')"
    "look_share_v3 c d" "CreateSMBShareV3Preview c d allow"
    "\<lambda>err e. EWrap ''reconcile ambiguous tenant SMB share create: '' err ('' (create error: '' @ error_text e @ '')'')"
    "share_absent_v3 (sq_TenantID d) (sq_ShareName d)" "share_post_v3 d allow" "ensureSMBShareV3Preview c d allow"
  for c d allow
proof (unfold_locales, goal_cases)
  case (2 n cur)
  show ?case
    unfolding claim_share_v3_loop.simps look_share_v3_def patch_tenant_def share_opts_def by (rule refl)
next
  case 3
  show ?case unfolding look_share_v3_def by (rule emits_weaken [OF emits_find_share]) (auto simp: on_ok_def)
next
  case (7 es x es0 es')
  then show ?case unfolding answer_share_v3_def using share_answer_grows by blast
next
  case 8
  show ?case
    by (rule state.expand, rule ext)
      (simp add: ensureSMBShareV3Preview_def look_share_v3_def run_bind run_andThen split: prod.split sum.split option.split)
next
  case 9
  show ?case unfolding look_share_v3_def by (rule emits_find_share)
qed (simp_all add: look_share_v3_def patch_tenant_def write_share_v3_def sends_find_share emits_share_PatchV3 sends_share_PatchV3 emits_share_CreateV3 sends_share_CreateV3 share_absent_after)

lemma write_share_permitted:
  assumes "\<not> usesSMBV3Preview d" "share_answer (share_get (sq_ShareName d)) h x" "share_refusal d strict x = None"
  shows "share_permitted d allow strict h (write_share d allow x)"
  using assms unfolding share_permitted_def write_share_def share_patch_any_def share_refusal_None
  by (simp add: smbSharePatch_stable) blast

lemma write_share_v3_permitted:
  assumes "usesSMBV3Preview d" "answer_share_v3 h x" "share_refusal_v3 d x = None"
  shows "share_permitted d allow strict h (write_share_v3 d allow x)"
  using assms unfolding share_permitted_def write_share_v3_def answer_share_v3_def share_refusal_None by simp blast

lemma lawful_stable_share:
  assumes "\<not> usesSMBV3Preview d"
  shows "lawful (share_permitted d allow strict) h (ensure_stable_share c d allow strict)"
  by (rule smb_v2.lawful_ensure [OF lasting_share_permitted reads_share_permitted write_share_permitted [OF assms]])
    (auto simp: share_permitted_def share_post_any_def assms)

lemma lawful_tenant_share:
  assumes "usesSMBV3Preview d"
  shows "lawful (share_permitted d allow strict) h (ensureSMBShareV3Preview c d allow)"
  by (rule smb_v3.lawful_ensure [OF lasting_share_permitted reads_share_permitted write_share_v3_permitted [OF assms]])
    (auto simp: share_permitted_def assms)

lemma lawful_ensureSMBShare:
  "lawful (share_permitted d allow strict) h (ensureSMBShare c d allow strict)"
proof -
  let ?d = "canonicalSMBShareRequest d"
  have "share_permitted ?d allow strict = share_permitted d allow strict" by (simp add: share_permitted_def fun_eq_iff)
  then show ?thesis
    using lawful_stable_share [of ?d allow strict] lawful_tenant_share [of ?d allow strict]
    unfolding ensureSMBShare_def Let_def canonical_share_idem by (intro lawful_andThen_any lawful_lift lawful_if) simp_all
qed

text \<open>What a successful claim has seen: its creation was accepted, or the share was read with the right path and description and either did
  not differ or was patched.\<close>

definition share_claimed :: "SMBShareRequest \<Rightarrow> bool \<Rightarrow> event list \<Rightarrow> SMBShare \<times> bool \<Rightarrow> bool" where
  "share_claimed d allow es r \<longleftrightarrow>
     (if snd r then accepted (share_post d allow) es
      else \<exists>es1 es2 x. es = es1 @ es2 \<and> share_answer (share_get (sq_ShareName d)) es1 x \<and>
             ss_FSPath x = sq_FSPath d \<and> ss_Description x = sq_Description d \<and>
             (\<not> snd (smbSharePatch x d) \<or> accepted (write_share d allow x) es2))"

lemma write_share_canonical [simp]: "write_share (canonicalSMBShareRequest d) allow = write_share d allow"
  by (simp add: write_share_def fun_eq_iff)

lemma emits_ClaimSMBShare:
  assumes t: "\<not> usesSMBV3Preview d"
  shows "emits (ClaimSMBShare c d allow) (on_ok (share_claimed d allow))"
proof -
  let ?d = "canonicalSMBShareRequest d"
  have "(\<lambda>es r. if snd r then accepted (share_post_any ?d allow) es else smb_v2.claimed ?d True allow es) =
      share_claimed d allow"
    unfolding smb_v2.claimed_def share_refusal_None by (intro ext) (simp add: share_claimed_def share_post_any_def t)
  then have "emits (ensure_stable_share c ?d allow True) (on_ok (share_claimed d allow))"
    using smb_v2.ensured [of c ?d allow True] by simp
  then show ?thesis
    unfolding ClaimSMBShare_def ensureSMBShare_def Let_def canonical_share_idem andThen_lift using t by (auto intro: emits_case_sum emits_fail)
qed

text \<open>Claiming or ensuring an share sends, besides readings, only what is permitted at that moment: a creation after its absence was
  observed, or the patch of an share that was read with the requested filesystem path and, in a strict claim on the stable API, with the
  requested description, under the ETag of that reading.  It never patches an share that belongs to another specification, whatever the cluster
  answers and however the call ends.\<close>

theorem ensureSMBShare_permitted:
  assumes "run_state (ensureSMBShare c d allow strict) w = (r, w')"
  shows "\<exists>es. w_events w' = w_events w @ es \<and> allowed_from (share_permitted d allow strict) [] es"
  using lawfulD [OF lawful_ensureSMBShare assms] .

end
