(* ===== verification/Csi_Backend.thy ===== *)
theory Csi_Backend
  imports Csi_Handle Smb_Shares Quotas Directories Tree_Delete
begin

text \<open>
  \<^verbatim>\<open>internal/csidriver/backend.go\<close>: a volume on the cluster, that is a directory and the NFS export or SMB share whose description carries the
  digest of the volume's immutable specification.  Claiming and removing the resource of a signed handle is shown to touch only the very
  resource the handle names, read under its durable id with every identity field and the ownership marker in place.
\<close>

section \<open>The ownership marker\<close>

record storageResource =
  sr_ID :: string
  sr_Name :: string
  sr_Path :: string

text \<open>A map in the order of its keys.\<close>

definition canonicalMapEntries :: "params \<Rightarrow> string list" where
  "canonicalMapEntries ps = concat (map (\<lambda>k. [k, param ps k]) (sort (remdups (map fst ps))))"

definition opt_true :: "string \<Rightarrow> bool \<Rightarrow> (string \<times> json) list" where
  "opt_true k b = (if b then [(k, JBool True)] else [])"

definition networks_json :: "string list \<Rightarrow> json" where
  "networks_json ns = (if ns = [] then JNull else str_list (sort ns))"

text \<open>\<open>immutableVolumeSpec\<close>, as \<open>volumeSpecFingerprint\<close> fills it and \<^verbatim>\<open>json.Marshal\<close> writes it.\<close>

definition immutableVolumeSpec :: "volumeOptions \<Rightarrow> json" where
  "immutableVolumeSpec opts =
     (let nfs = vo_Protocol opts = protocolNFS; entries = canonicalMapEntries (vo_Parameters opts)
      in JObj
        ([(''requestName'', JStr (vo_RequestName opts))]
         @ (if entries = [] then [] else [(''parameters'', str_list entries)])
         @ [(''protocol'', JStr (vo_Protocol opts)), (''endpoint'', JStr (ToLower (endpointHost (vo_Endpoint opts)))),
            (''server'', JStr (ToLower (Trim (vo_Server opts) ''[]''))), (''restPort'', JStr (vo_RESTPort opts)),
            (''fsPath'', JStr (vo_FSPath opts)), (''resourceName'', JStr (vo_ResourceName opts)),
            (''directoryMode'', JStr (vo_DirectoryMode opts)), (''allowedNetworks'', networks_json (vo_AllowedNetworks opts)),
            (''allowAllHosts'', JBool (vo_AllowAllHosts opts)), (''quotaEnabled'', JBool (vo_QuotaEnabled opts)),
            (''deleteData'', JBool (vo_DeleteData opts))]
         @ (if nfs then
              opt_str ''nfsExportPath'' (vo_NFSExportPath opts) @ opt_true ''nfsRequirePrivileged'' (vo_NFSRequirePrivileged opts)
              @ opt_str ''nfsVersion'' (vo_NFSVersion opts) @ opt_true ''nfsRootSquash'' (vo_NFSRootSquash opts)
              @ opt_str ''nfsAnonymousUID'' (vo_NFSAnonymousUID opts) @ opt_str ''nfsAnonymousGID'' (vo_NFSAnonymousGID opts)
            else
              opt_true ''smbRequireEncryption'' (vo_SMBRequireEncryption opts)
              @ opt_true ''smbAccessBasedEnumeration'' (vo_SMBAccessBasedEnum opts) @ opt_true ''smbAllowAllUsers'' (vo_SMBAllowAllUsers opts))
         @ [(''smbTrustee'', encode_identity (if nfs then no_identity else vo_SMBTrustee opts)),
            (''initialCapacity'', JNum (vo_RequestedCapacity opts))]
         @ opt_int ''initialCapacityLimit'' (vo_CapacityLimit opts)))"

definition volumeSpecFingerprint :: "volumeOptions \<Rightarrow> string" where
  "volumeSpecFingerprint opts = hex_encode (sha256 (Marshal (immutableVolumeSpec opts)))"

definition managed_text :: "string \<Rightarrow> string \<Rightarrow> string" where
  "managed_text volume spec = ''Managed by '' @ DefaultDriverName @ ''; volume='' @ volume @ ''; spec='' @ spec"

definition managedDescription :: "volumeOptions \<Rightarrow> string" where
  "managedDescription opts = managed_text (vo_ResourceName opts) (volumeSpecFingerprint opts)"

definition managedDescriptionForHandle :: "volumeHandle \<Rightarrow> string" where
  "managedDescriptionForHandle h = managed_text (path_Base (vh_FSPath h)) (vh_SpecFingerprint h)"

definition managedVolumeName :: "string \<Rightarrow> string" where
  "managedVolumeName description =
     (let prefix = ''Managed by '' @ DefaultDriverName @ ''; volume=''
      in if \<not> HasPrefix description prefix then []
         else case Cut (TrimPrefix description prefix) (CHR '';'') of (name, _, _) \<Rightarrow> name)"

definition volumeDeletionDescriptionPrefix :: string where
  "volumeDeletionDescriptionPrefix = ''Deletion in progress by '' @ DefaultDriverName @ ''; token=''"

definition volumeDeletionDescription :: "volumeHandle \<Rightarrow> string" where
  "volumeDeletionDescription h =
     volumeDeletionDescriptionPrefix
     @ hex_encode (take 16 (sha256 (Join [vh_Protocol h, vh_ResourceID h, vh_DirectoryID h, vh_FSPath h, vh_SpecFingerprint h] [CHR 0x00])))"

section \<open>Preparing a volume\<close>

definition conflict_error :: "string \<Rightarrow> go_error" where
  "conflict_error what = EWrap [] (ESentinel errVolumeConflict) what"

text \<open>The first entry of a listing that is in the way of the volume, if any.\<close>

definition export_concerns :: "volumeOptions \<Rightarrow> NFSExport \<Rightarrow> bool" where
  "export_concerns opts e \<longleftrightarrow>
     managedVolumeName (ne_Description e) = vo_ResourceName opts \<or> ne_ExportPath e = vo_NFSExportPath opts \<or> ne_FSPath e = vo_FSPath opts"

definition export_agrees :: "volumeOptions \<Rightarrow> NFSExport \<Rightarrow> bool" where
  "export_agrees opts e \<longleftrightarrow>
     vo_Protocol opts = protocolNFS \<and> ne_ExportPath e = vo_NFSExportPath opts \<and> ne_FSPath e = vo_FSPath opts \<and>
     ne_Description e = managedDescription opts"

definition share_concerns :: "volumeOptions \<Rightarrow> SMBShare \<Rightarrow> bool" where
  "share_concerns opts s \<longleftrightarrow>
     managedVolumeName (ss_Description s) = vo_ResourceName opts \<or> ss_ShareName s = vo_ResourceName opts \<or> ss_FSPath s = vo_FSPath opts"

definition share_agrees :: "volumeOptions \<Rightarrow> SMBShare \<Rightarrow> bool" where
  "share_agrees opts s \<longleftrightarrow>
     vo_Protocol opts = protocolSMB \<and> ss_ShareName s = vo_ResourceName opts \<and> ss_FSPath s = vo_FSPath opts \<and>
     ss_Description s = managedDescription opts"

definition CheckVolume :: "Connection \<Rightarrow> volumeOptions \<Rightarrow> unit io" where
  "CheckVolume c opts =
     andThen (ListNFSExports c) (\<lambda>exports.
     case find (\<lambda>e. export_concerns opts e \<and> \<not> export_agrees opts e) exports of
       Some e \<Rightarrow> fail (conflict_error ('': NFS export '' @ fmt_q (ne_ExportPath e) @ '' targets '' @ fmt_q (ne_FSPath e)))
     | None \<Rightarrow>
       andThen (ListSMBShares c False) (\<lambda>shares.
       case find (\<lambda>s. share_concerns opts s \<and> \<not> share_agrees opts s) shares of
         Some s \<Rightarrow> fail (conflict_error ('': SMB share '' @ fmt_q (ss_ShareName s) @ '' targets '' @ fmt_q (ss_FSPath s)))
       | None \<Rightarrow>
           if \<not> list_ex (export_concerns opts) exports \<and> \<not> list_ex (share_concerns opts) shares then ok ()
           else do {
             r \<leftarrow> GetFileAttributes c (vo_FSPath opts);
             case r of
               Inl err \<Rightarrow> fail (conflict_error ('': existing volume backing directory is unavailable: '' @ error_text err))
             | Inr attrs \<Rightarrow>
                 if fa_ID attrs = [] then fail (conflict_error '': existing volume backing directory has no stable identity'')
                 else ok () }))"

definition slice_of :: "'a list \<Rightarrow> 'a slice" where
  "slice_of xs = (if xs = [] then None else Some xs)"

definition volume_restriction :: "volumeOptions \<Rightarrow> NFSRestriction" where
  "volume_restriction opts =
     (let r = \<lparr>nr_HostRestrictions = (if vo_AllowAllHosts opts then Some [] else slice_of (vo_AllowedNetworks opts)),
               nr_RequirePrivilegedPort = vo_NFSRequirePrivileged opts, nr_ReadOnly = False,
               nr_RequiredAuthenticationMode = NFSAuthNone, nr_UserMapping = NFSMapNone, nr_MapToUser = None, nr_MapToGroup = None\<rparr>
      in if vo_NFSRootSquash opts
         then r\<lparr>nr_UserMapping := NFSMapRoot,
                nr_MapToUser := Some \<lparr>nid_IDType = NFSIdentityUID, nid_IDValue = vo_NFSAnonymousUID opts\<rparr>,
                nr_MapToGroup := Some \<lparr>nid_IDType = NFSIdentityGID, nid_IDValue = vo_NFSAnonymousGID opts\<rparr>\<rparr>
         else r)"

definition volume_export :: "volumeOptions \<Rightarrow> NFSExportRequest" where
  "volume_export opts =
     \<lparr>nq_ExportPath = vo_NFSExportPath opts, nq_TenantID = 0, nq_FSPath = vo_FSPath opts, nq_Description = managedDescription opts,
      nq_Restrictions = Some [volume_restriction opts], nq_Fields32 = None\<rparr>"

definition claim_conflict :: "go_error \<Rightarrow> go_error" where
  "claim_conflict err =
     (if Is_sentinel err ErrResourceClaimConflict then conflict_error ('': '' @ error_text err) else err)"

definition EnsureNFS :: "Connection \<Rightarrow> volumeOptions \<Rightarrow> storageResource io" where
  "EnsureNFS c opts = do {
     r \<leftarrow> ClaimNFSExport c (volume_export opts) False;
     case r of
       Inl err \<Rightarrow> fail (claim_conflict err)
     | Inr x \<Rightarrow> ok \<lparr>sr_ID = ne_ID (fst x), sr_Name = ne_ExportPath (fst x), sr_Path = ne_FSPath (fst x)\<rparr> }"

definition volume_share :: "volumeOptions \<Rightarrow> SMBShareRequest" where
  "volume_share opts =
     \<lparr>sq_ShareName = vo_ResourceName opts, sq_TenantID = 0, sq_FSPath = vo_FSPath opts, sq_Description = managedDescription opts,
      sq_Permissions = Some [\<lparr>sp_Type = SMBPermissionAllowed, sp_Trustee = vo_SMBTrustee opts, sp_Rights = Some [SMBRightRead, SMBRightWrite]\<rparr>],
      sq_NetworkPermissions = Some
        [\<lparr>sn_Type = SMBPermissionAllowed,
          sn_AddressRanges = (if vo_AllowAllHosts opts then Some [] else slice_of (vo_AllowedNetworks opts)),
          sn_Rights = Some [SMBRightRead, SMBRightWrite]\<rparr>],
      sq_AccessBasedEnum = vo_SMBAccessBasedEnum opts, sq_FileMode = ''0666'', sq_DirectoryMode = vo_DirectoryMode opts,
      sq_BytesPerSector = ''512'', sq_RequireEncryption = vo_SMBRequireEncryption opts, sq_ExpandVariables = False, sq_OfflineCaching = []\<rparr>"

definition EnsureSMB :: "Connection \<Rightarrow> volumeOptions \<Rightarrow> storageResource io" where
  "EnsureSMB c opts = do {
     r \<leftarrow> ClaimSMBShare c (volume_share opts) False;
     case r of
       Inl err \<Rightarrow> fail (claim_conflict err)
     | Inr x \<Rightarrow> ok \<lparr>sr_ID = ss_ID (fst x), sr_Name = ss_ShareName (fst x), sr_Path = ss_FSPath (fst x)\<rparr> }"

section \<open>The resource of a handle\<close>

text \<open>The two cases of the switches on the protocol differ only in the resource they read and write: its identity, path, description and
  ETag are what the code compares.\<close>

record volume_resource =
  vr_ID :: string
  vr_Name :: string
  vr_FSPath :: string
  vr_Description :: string
  vr_ETag :: string

definition of_export :: "NFSExport \<Rightarrow> volume_resource" where
  "of_export x = \<lparr>vr_ID = ne_ID x, vr_Name = ne_ExportPath x, vr_FSPath = ne_FSPath x, vr_Description = ne_Description x, vr_ETag = ne_ETag x\<rparr>"

definition of_share :: "SMBShare \<Rightarrow> volume_resource" where
  "of_share x = \<lparr>vr_ID = ss_ID x, vr_Name = ss_ShareName x, vr_FSPath = ss_FSPath x, vr_Description = ss_Description x, vr_ETag = ss_ETag x\<rparr>"

definition known_protocol :: "volumeHandle \<Rightarrow> bool" where
  "known_protocol h \<longleftrightarrow> vh_Protocol h = protocolNFS \<or> vh_Protocol h = protocolSMB"

definition resource_word :: "volumeHandle \<Rightarrow> string" where
  "resource_word h = (if vh_Protocol h = protocolNFS then ''NFS export'' else ''SMB share'')"

definition read_resource :: "Connection \<Rightarrow> volumeHandle \<Rightarrow> volume_resource io" where
  "read_resource c h =
     (if vh_Protocol h = protocolNFS then andThen (GetNFSExport c (vh_ResourceID h)) (\<lambda>x. ok (of_export x))
      else andThen (GetSMBShare c (vh_ResourceID h)) (\<lambda>x. ok (of_share x)))"

definition describe_resource :: "Connection \<Rightarrow> volumeHandle \<Rightarrow> string \<Rightarrow> string \<Rightarrow> unit io" where
  "describe_resource c h description etag =
     (if vh_Protocol h = protocolNFS
      then andThen (PatchNFSExport c (vh_ResourceID h) (no_export_patch\<lparr>np_Description := Some description\<rparr>)
             \<lparr>nw_AllowFSPathCreate = False, nw_IfMatch = etag\<rparr>) (\<lambda>_. ok ())
      else andThen (PatchSMBShare c (vh_ResourceID h) (no_share_patch\<lparr>sc_Description := Some description\<rparr>)
             \<lparr>sw_AllowFSPathCreate = False, sw_IfMatch = etag\<rparr>) (\<lambda>_. ok ()))"

definition delete_resource :: "Connection \<Rightarrow> volumeHandle \<Rightarrow> string \<Rightarrow> unit io" where
  "delete_resource c h etag =
     (if vh_Protocol h = protocolNFS then DeleteNFSExport c (vh_ResourceID h) etag else DeleteSMBShare c (vh_ResourceID h) etag)"

definition same_resource :: "volumeHandle \<Rightarrow> volume_resource \<Rightarrow> bool" where
  "same_resource h x \<longleftrightarrow> vr_ID x = vh_ResourceID h \<and> vr_Name x = vh_ResourceName h \<and> vr_FSPath x = vh_FSPath h"

definition sentinel_error :: "sentinel \<Rightarrow> string \<Rightarrow> go_error" where
  "sentinel_error s what = EWrap [] (ESentinel s) what"

definition ValidateVolume :: "Connection \<Rightarrow> volumeHandle \<Rightarrow> unit io" where
  "ValidateVolume c h =
     andThen (GetFileAttributes c (vh_FSPath h)) (\<lambda>attrs.
       if fa_ID attrs \<noteq> vh_DirectoryID h then fail (sentinel_error errVolumeNotFound '': backing directory identity changed'')
       else if \<not> known_protocol h then fail (sentinel_error errVolumeNotFound '': unsupported volume protocol'')
       else andThen (read_resource c h) (\<lambda>x.
         if \<not> same_resource h x then fail (sentinel_error errVolumeNotFound ('': '' @ resource_word h @ '' identity changed''))
         else if vr_Description x = volumeDeletionDescription h
         then fail (sentinel_error errVolumeNotFound ('': '' @ resource_word h @ '' deletion is in progress''))
         else if vr_Description x \<noteq> managedDescriptionForHandle h
         then fail (sentinel_error errVolumeNotFound ('': '' @ resource_word h @ '' ownership marker changed''))
         else ok ()))"

definition deletionClaimReadError :: "go_error \<Rightarrow> string \<Rightarrow> go_error" where
  "deletionClaimReadError err resource = (if isAPINotFound err then sentinel_error errVolumeResourceMissing ('': '' @ resource) else err)"

text \<open>\<open>classifyDeletionClaimWriteError\<close>: \<open>None\<close> is retry, \<open>Some\<close> the error to return.\<close>

definition classifyDeletionClaimWriteError :: "go_error \<Rightarrow> go_error option" where
  "classifyDeletionClaimWriteError err =
     (case AsAPIError err of
        None \<Rightarrow> Some err
      | Some api \<Rightarrow>
          if ae_StatusCode api = 412 then None
          else if IsNotFound api
          then Some (sentinel_error errVolumeIdentityChanged '': volume resource disappeared while claiming deletion'')
          else Some err)"

fun prepare_loop :: "Connection \<Rightarrow> volumeHandle \<Rightarrow> nat \<Rightarrow> unit io" where
  "prepare_loop c h 0 = fail (EWrap ''prepare volume deletion: '' (ESentinel errVolumeIdentityChanged) '' during concurrent modification'')"
| "prepare_loop c h (Suc n) =
     (if \<not> known_protocol h then fail (sentinel_error errVolumeIdentityChanged '': unsupported volume protocol'')
      else do {
        g \<leftarrow> read_resource c h;
        case g of
          Inl err \<Rightarrow> fail (deletionClaimReadError err (resource_word h))
        | Inr x \<Rightarrow>
            if \<not> same_resource h x
            then fail (sentinel_error errVolumeIdentityChanged ('': refusing to claim a renamed or retargeted '' @ resource_word h))
            else if vr_Description x = volumeDeletionDescription h then ok ()
            else if vr_Description x \<noteq> managedDescriptionForHandle h
            then fail (sentinel_error errVolumeIdentityChanged
                   ('': '' @ resource_word h @ '' ownership marker changed; refusing to overwrite it''))
            else do {
              r \<leftarrow> describe_resource c h (volumeDeletionDescription h) (vr_ETag x);
              case r of
                Inr _ \<Rightarrow> ok ()
              | Inl err \<Rightarrow> (case classifyDeletionClaimWriteError err of Some e \<Rightarrow> fail e | None \<Rightarrow> prepare_loop c h n) } })"

definition PrepareVolumeDeletion :: "Connection \<Rightarrow> volumeHandle \<Rightarrow> unit io" where
  "PrepareVolumeDeletion c h = prepare_loop c h 3"

text \<open>\<open>classifyConditionalDeleteError\<close>: whether to retry, and whether the resource is gone.\<close>

definition classifyConditionalDeleteError :: "go_error \<Rightarrow> bool \<times> bool" where
  "classifyConditionalDeleteError err =
     (case AsAPIError err of
        None \<Rightarrow> (False, False)
      | Some api \<Rightarrow> if IsNotFound api then (False, True) else (ae_StatusCode api = 412, False))"

fun delete_loop :: "Connection \<Rightarrow> volumeHandle \<Rightarrow> string \<Rightarrow> nat \<Rightarrow> unit io" where
  "delete_loop c h expected 0 =
     fail (EWrap ''delete volume resource: '' (ESentinel errVolumeIdentityChanged) '' during concurrent modification'')"
| "delete_loop c h expected (Suc n) =
     (if \<not> known_protocol h then fail (sentinel_error errVolumeIdentityChanged '': unsupported volume protocol'')
      else do {
        g \<leftarrow> read_resource c h;
        case g of
          Inl err \<Rightarrow> if isAPINotFound err then ok () else fail err
        | Inr x \<Rightarrow>
            if \<not> same_resource h x
            then fail (sentinel_error errVolumeIdentityChanged ('': refusing to delete a renamed or retargeted '' @ resource_word h))
            else if vr_Description x \<noteq> expected
            then fail (sentinel_error errVolumeIdentityChanged
                   ('': refusing to delete an '' @ resource_word h @ '' whose ownership marker changed''))
            else do {
              r \<leftarrow> delete_resource c h (vr_ETag x);
              case r of
                Inr _ \<Rightarrow> ok ()
              | Inl err \<Rightarrow>
                  (case classifyConditionalDeleteError err of (retry, done_) \<Rightarrow>
                    if done_ then ok () else if retry then delete_loop c h expected n else fail err) } })"

definition DeleteVolumeResource :: "Connection \<Rightarrow> volumeHandle \<Rightarrow> bool \<Rightarrow> unit io" where
  "DeleteVolumeResource c h requireDeletionClaim =
     delete_loop c h (if requireDeletionClaim then volumeDeletionDescription h else managedDescriptionForHandle h) 3"

end
