(* ===== verification/Csi_Connector.thy ===== *)
theory Csi_Connector
  imports Csi_Config Conn_Cache
begin

text \<open>
  \<^verbatim>\<open>internal/csidriver/connector.go\<close>: which credential and which trust root a call of the CSI controller uses.  A credential of the
  request and the configured one are never mixed: a request that brings any part must bring a whole credential, and a CA of the request is used only
  with the request's credential.
\<close>

definition firstValue :: "params \<Rightarrow> string list \<Rightarrow> string" where
  "firstValue ps keys = firstNonEmpty (map (\<lambda>k. TrimSpace (param ps k)) keys)"

definition hasAnyKey :: "params \<Rightarrow> string list \<Rightarrow> bool" where
  "hasAnyKey ps keys \<longleftrightarrow> list_ex (\<lambda>k. map_of ps k \<noteq> None) keys"

definition validatePresentValues :: "params \<Rightarrow> string list \<Rightarrow> unit res" where
  "validatePresentValues ps keys =
     (case find (\<lambda>k. case map_of ps k of Some v \<Rightarrow> TrimSpace v = [] | None \<Rightarrow> False) keys of
        Some key \<Rightarrow> Inl (EMsg (''key '' @ fmt_q key @ '' is present but empty''))
      | None \<Rightarrow> Inr ())"

text \<open>The configured trust root, empty for none.\<close>

definition configuredCA :: "process \<Rightarrow> Config \<Rightarrow> string res" where
  "configuredCA pr cfg =
     (if cc_CAFile cfg \<noteq> [] then
        (case pr_file pr (cc_CAFile cfg) of
           Content ca \<Rightarrow> if TrimSpace ca = [] then Inl (EMsg ''read Qumulo CA file: file is empty'') else Inr ca
         | Missing \<Rightarrow> Inl (EMsg ''read Qumulo CA file'')
         | Unreadable e \<Rightarrow> Inl (EMsg (''read Qumulo CA file: '' @ e)))
      else if cc_CredentialsDir cfg \<noteq> [] then
        (case pr_file pr (path_Join [cc_CredentialsDir cfg, ''ca.crt'']) of
           Content ca \<Rightarrow> if TrimSpace ca = [] then Inl (EMsg ''read Qumulo CA from credentials directory: file is empty'') else Inr ca
         | Missing \<Rightarrow> Inr []
         | Unreadable e \<Rightarrow> Inl (EMsg (''read Qumulo CA from credentials directory: '' @ e)))
      else Inr [])"

definition no_creds :: Credentials where
  "no_creds = \<lparr>cr_Token = [], cr_Username = [], cr_Password = []\<rparr>"

text \<open>One mounted credential file, \<open>None\<close> when there is none.\<close>

definition read_mounted :: "process \<Rightarrow> string \<Rightarrow> string \<Rightarrow> string option res" where
  "read_mounted pr dir name =
     (let p = path_Join [dir, name]
      in case pr_file pr p of
           Missing \<Rightarrow> Inr None
         | Unreadable e \<Rightarrow> Inl (EMsg (''read mounted credential '' @ fmt_q p @ '': '' @ e))
         | Content b \<Rightarrow>
             if TrimSpace b = [] then Inl (EMsg (''mounted credential '' @ fmt_q p @ '' is present but empty''))
             else Inr (Some (TrimSpace b)))"

text \<open>The credential of the mounted directory and whether there is any.\<close>

definition credentialsFromDir :: "process \<Rightarrow> string \<Rightarrow> (Credentials \<times> bool) res" where
  "credentialsFromDir pr dir =
     (if dir = [] then Inr (no_creds, False)
      else
        and_then (read_mounted pr dir ''token'') (\<lambda>token.
        and_then (read_mounted pr dir ''accessToken'') (\<lambda>accessToken.
        and_then (read_mounted pr dir ''username'') (\<lambda>username.
        and_then (read_mounted pr dir ''password'') (\<lambda>password.
          if (username \<noteq> None) \<noteq> (password \<noteq> None)
          then Inl (EMsg ''mounted username and password must either both be present or both be absent'')
          else if (token \<noteq> None \<or> accessToken \<noteq> None) \<and> (username \<noteq> None \<or> password \<noteq> None)
          then Inl (EMsg ''mounted credentials cannot combine a token with username/password'')
          else Inr (\<lparr>cr_Token = firstNonEmpty [opt_text token, opt_text accessToken], cr_Username = opt_text username,
                     cr_Password = opt_text password\<rparr>,
                    token \<noteq> None \<or> accessToken \<noteq> None \<or> username \<noteq> None \<or> password \<noteq> None))))))"

definition token_keys :: "string list" where
  "token_keys = [''qumuloToken'', ''token'', ''accessToken'']"

definition ca_keys :: "string list" where
  "ca_keys = [''ca.crt'', ''ca.pem'']"

definition request_creds :: "params \<Rightarrow> Credentials" where
  "request_creds secrets =
     \<lparr>cr_Token = firstValue secrets token_keys, cr_Username = firstValue secrets [''qumuloUsername''],
      cr_Password = firstValue secrets [''qumuloPassword'']\<rparr>"

definition environment_creds :: "process \<Rightarrow> Credentials" where
  "environment_creds pr =
     \<lparr>cr_Token = TrimSpace (pr_env pr ''QUMULO_TOKEN''), cr_Username = TrimSpace (pr_env pr ''QUMULO_USERNAME''),
      cr_Password = TrimSpace (pr_env pr ''QUMULO_PASSWORD'')\<rparr>"

text \<open>What \<open>controllerAuth\<close> falls back to when the request brings no credential: the mounted files, then the environment.\<close>

definition configured_auth :: "process \<Rightarrow> Config \<Rightarrow> (Credentials \<times> string) res" where
  "configured_auth pr cfg =
     and_then (configuredCA pr cfg) (\<lambda>ca.
     and_then (credentialsFromDir pr (cc_CredentialsDir cfg)) (\<lambda>(mounted, material).
       if material then Inr (mounted, ca)
       else
         (let creds = environment_creds pr; hasUsername = cr_Username creds \<noteq> []; hasPassword = cr_Password creds \<noteq> []
          in if hasUsername \<noteq> hasPassword
             then Inl (EMsg ''QUMULO_USERNAME and QUMULO_PASSWORD must either both be set or both be unset'')
             else if HasToken creds \<and> (hasUsername \<or> hasPassword)
             then Inl (EMsg ''environment credentials cannot combine QUMULO_TOKEN with QUMULO_USERNAME/QUMULO_PASSWORD'')
             else if \<not> HasToken creds \<and> \<not> HasPassword creds then Inl (EMsg ''Qumulo controller credentials are missing'')
             else Inr (creds, ca))))"

definition controllerAuth :: "process \<Rightarrow> Config \<Rightarrow> params \<Rightarrow> (Credentials \<times> string) res" where
  "controllerAuth pr cfg secrets =
     (let tokenPresent = hasAnyKey secrets token_keys; usernamePresent = hasAnyKey secrets [''qumuloUsername''];
          passwordPresent = hasAnyKey secrets [''qumuloPassword'']; caPresent = hasAnyKey secrets ca_keys;
          creds = request_creds secrets
      in case validatePresentValues secrets (token_keys @ [''qumuloUsername'', ''qumuloPassword''] @ ca_keys) of
           Inl err \<Rightarrow> Inl (EWrap ''request Secret: '' err [])
         | Inr _ \<Rightarrow>
             if usernamePresent \<noteq> passwordPresent
             then Inl (EMsg ''request Secret username and password must either both be present or both be absent'')
             else if tokenPresent \<and> (usernamePresent \<or> passwordPresent)
             then Inl (EMsg ''request Secret cannot combine a Qumulo token with username/password'')
             else if (tokenPresent \<or> usernamePresent \<or> passwordPresent \<or> caPresent) \<and> \<not> HasToken creds \<and> \<not> HasPassword creds
             then Inl (EMsg ''request Secret must contain a token or both Qumulo username and password; a CA alone cannot select configured credentials'')
             else if HasToken creds \<or> HasPassword creds then
               (if caPresent then Inr (creds, firstValue secrets ca_keys)
                else and_then (configuredCA pr cfg) (\<lambda>ca. Inr (creds, ca)))
             else configured_auth pr cfg)"

section \<open>The connection\<close>

text \<open>As in \<open>Cosi_Driver\<close>: the part of a connection the network decides, by the key of the cache.\<close>

record 'v CsiDriver =
  cd_cfg :: Config
  cd_proc :: process
  cd_pem_ok :: "string \<Rightarrow> bool"
  cd_conn :: "string \<Rightarrow> Connection"
  cd_sv :: "'v semver"

definition csi_DialConfig :: "Config \<Rightarrow> string \<Rightarrow> string \<Rightarrow> Credentials \<Rightarrow> string \<Rightarrow> DialConfig" where
  "csi_DialConfig cfg endpoint restPort creds ca =
     \<lparr>dc_Endpoint = endpoint, dc_RESTPort = restPort, dc_Credentials = creds, dc_InsecureSkipVerify = cc_InsecureSkipTLSVerify cfg,
      dc_CABundlePEM = ca, dc_ServerName = [], dc_UserAgent = ''qumulo-csi-driver/'' @ cc_Version cfg\<rparr>"

definition Connect :: "'v CsiDriver \<Rightarrow> string \<Rightarrow> string \<Rightarrow> params \<Rightarrow> Connection res" where
  "Connect d endpoint restPort secrets =
     (if \<not> sameEndpoint endpoint (cc_Endpoint (cd_cfg d)) then Inl (EMsg ''volume endpoint does not match this driver instance'')
      else case controllerAuth (cd_proc d) (cd_cfg d) secrets of
          Inl err \<Rightarrow> Inl err
        | Inr (creds, ca) \<Rightarrow>
           (let key = CacheKey endpoint restPort creds ca (cc_InsecureSkipTLSVerify (cd_cfg d))
            in case NewConnection (cd_pem_ok d) (csi_DialConfig (cd_cfg d) endpoint restPort creds ca) of
                 Inl err \<Rightarrow> Inl err
               | Inr dl \<Rightarrow> Inr ((cd_conn d key)\<lparr>c_creds := dl_Creds dl, c_host := host_Hostname (dl_Host dl), c_port := host_Port (dl_Host dl),
                                           c_base_url := dl_Scheme dl @ ''://'' @ dl_Host dl\<rparr>)))"

section \<open>Credentials are never mixed\<close>

lemma firstNonEmpty_ne: "firstNonEmpty vs \<noteq> [] \<longleftrightarrow> (\<exists>v\<in>set vs. v \<noteq> [])"
  by (induction vs) auto

lemma firstValue_absent: "\<not> hasAnyKey ps keys \<Longrightarrow> firstValue ps keys = []"
  using firstNonEmpty_ne [of "map (\<lambda>k. TrimSpace (param ps k)) keys"]
  by (auto simp: firstValue_def hasAnyKey_def list_ex_iff param_def)

lemma TrimSpace_again [simp]: "TrimSpace (TrimSpace s) = TrimSpace s"
proof (cases "TrimSpace s = []")
  case False
  let ?d = "dropWhile is_space"
  have l: "t \<noteq> [] \<Longrightarrow> ?d t \<noteq> [] \<Longrightarrow> \<not> is_space (hd (?d t))" for t by (metis hd_dropWhile)
  have "?d (?d t) = ?d t" for t by (induction t) auto
  moreover have "?d (TrimSpace s) = TrimSpace s"
  proof -
    obtain b where "?d s = TrimSpace s @ b"
      unfolding TrimSpace_def using suffix_dropWhile [of is_space "rev (?d s)"] by (metis rev_append rev_rev_ident suffix_def)
    moreover from this False have "?d s \<noteq> []" by auto
    then have "\<not> is_space (hd (?d s))" by (metis hd_dropWhile)
    ultimately have "\<not> is_space (hd (TrimSpace s))" using False by simp
    then show ?thesis using False by (cases "TrimSpace s") auto
  qed
  ultimately show ?thesis unfolding TrimSpace_def by (metis rev_rev_ident)
qed simp

lemma request_creds_kind:
  assumes "\<not> (hasAnyKey secrets token_keys \<and> (hasAnyKey secrets [''qumuloUsername''] \<or> hasAnyKey secrets [''qumuloPassword'']))"
  shows "\<not> (HasToken (request_creds secrets) \<and> HasPassword (request_creds secrets))"
  using assms firstValue_absent HasToken_nonempty [of "request_creds secrets"] HasPassword_nonempty [of "request_creds secrets"]
  unfolding request_creds_def by auto

lemma credentialsFromDir_kind:
  assumes "credentialsFromDir pr dir = Inr (creds, True)"
  shows "HasToken creds \<noteq> HasPassword creds"
proof -
  have r: "v = None \<or> (\<exists>t. v = Some t \<and> t \<noteq> [] \<and> TrimSpace t = t)" if "read_mounted pr dir name = Inr v" for name v
    using that by (auto simp: read_mounted_def Let_def split: file_read.splits if_splits)
  obtain token accessToken username password where
    f: "read_mounted pr dir ''token'' = Inr token" "read_mounted pr dir ''accessToken'' = Inr accessToken"
       "read_mounted pr dir ''username'' = Inr username" "read_mounted pr dir ''password'' = Inr password"
    and c: "(username \<noteq> None) = (password \<noteq> None)" "\<not> ((token \<noteq> None \<or> accessToken \<noteq> None) \<and> (username \<noteq> None \<or> password \<noteq> None))"
       "creds = \<lparr>cr_Token = firstNonEmpty [opt_text token, opt_text accessToken], cr_Username = opt_text username,
                 cr_Password = opt_text password\<rparr>" "token \<noteq> None \<or> accessToken \<noteq> None \<or> username \<noteq> None \<or> password \<noteq> None"
    using assms by (auto simp: credentialsFromDir_def and_then_Inr split: if_splits)
  show ?thesis
    using r [OF f(1)] r [OF f(2)] r [OF f(3)] r [OF f(4)] c by (auto simp: HasToken_def HasPassword_def opt_text_def)
qed

text \<open>C39: A credential of the request is used whole and with the request's trust root if it brings one; without one, the credential and the trust
  root are both the configured ones, and the request brought neither a credential nor a CA.  Either way it is a token or a password, not both.\<close>

theorem controllerAuth_unmixed:
  assumes "controllerAuth pr cfg secrets = Inr (creds, ca)"
  shows "HasToken creds \<noteq> HasPassword creds \<and>
    (if HasToken (request_creds secrets) \<or> HasPassword (request_creds secrets)
     then creds = request_creds secrets \<and>
       (if hasAnyKey secrets ca_keys then ca = firstValue secrets ca_keys else configuredCA pr cfg = Inr ca)
     else configured_auth pr cfg = Inr (creds, ca) \<and> configuredCA pr cfg = Inr ca \<and>
       \<not> hasAnyKey secrets (token_keys @ [''qumuloUsername'', ''qumuloPassword''] @ ca_keys))"
proof -
  let ?r = "request_creds secrets"
  have kind: "\<not> (hasAnyKey secrets token_keys \<and> (hasAnyKey secrets [''qumuloUsername''] \<or> hasAnyKey secrets [''qumuloPassword'']))"
    using assms by (auto simp: controllerAuth_def Let_def split: sum.splits if_splits)
  show ?thesis
  proof (cases "HasToken ?r \<or> HasPassword ?r")
    case True
    then have "creds = ?r \<and> (if hasAnyKey secrets ca_keys then ca = firstValue secrets ca_keys else configuredCA pr cfg = Inr ca)"
      using assms by (auto simp: controllerAuth_def Let_def and_then_Inr split: sum.splits if_splits)
    then show ?thesis using True request_creds_kind [OF kind] by auto
  next
    case False
    then have f: "configured_auth pr cfg = Inr (creds, ca)"
      and none: "\<not> hasAnyKey secrets (token_keys @ [''qumuloUsername'', ''qumuloPassword''] @ ca_keys)"
      using assms by (auto simp: controllerAuth_def Let_def hasAnyKey_def split: sum.splits if_splits)
    have "HasToken creds \<noteq> HasPassword creds"
      using f credentialsFromDir_kind
      by (auto simp: configured_auth_def and_then_Inr Let_def HasToken_def HasPassword_def environment_creds_def split: if_splits)
    then show ?thesis using f none False by (auto simp: configured_auth_def and_then_Inr Let_def split: if_splits)
  qed
qed

end
