(* ===== verification/Csi_Mount.thy ===== *)
theory Csi_Mount
  imports Csi_Handle "HOL-Library.AList" "HOL-Library.Multiset"
begin

text \<open>
  \<^verbatim>\<open>internal/csidriver/mount.go\<close> and \<^verbatim>\<open>mount_linux.go\<close> without their system calls: mount options, the comparison with an
  existing mount, and the reading of the kernel's mount table.  The options a caller supplies are shown to pass only when they name nothing the
  driver decides, and to be read the same way again; merging keeps what the driver chose.
\<close>

section \<open>Mount options\<close>

record mountRecord =
  mr_MountID :: string
  mr_ParentID :: string
  mr_Root :: string
  mr_Source :: string
  mr_FSType :: string
  mr_MountOptions :: "string list"
  mr_Options :: "string list"

definition reservedMountOptionKeys :: "string list" where
  "reservedMountOptionKeys =
     [''addr'', ''ip'', ''mountaddr'', ''mounthost'', ''clientaddr'', ''unc'', ''source'', ''device'', ''prefixpath'', ''prepath'',
      ''port'', ''mountport'', ''nfsprog'', ''mountprog'', ''servern'', ''servernetbiosname'',
      ''cred'', ''creds'', ''credential'', ''credentials'', ''credfile'', ''credentialsfile'', ''user'', ''username'',
      ''pass'', ''password'', ''pass2'', ''password2'', ''domain'', ''dom'', ''workgroup'', ''domainauto'',
      ''guest'', ''nullauth'', ''multiuser'', ''cruid'', ''upcall_target'', ''backupuid'', ''backupgid'', ''backup_uid'', ''backup_gid'',
      ''snapshot'',
      ''vers'', ''version'', ''nfsvers'', ''mountvers'', ''minorversion'', ''sec'', ''security'', ''seal'', ''noseal'', ''sign'', ''nosign'',
      ''proto'', ''protocol'', ''mountproto'', ''tcp'', ''tcp6'', ''udp'', ''udp6'', ''rdma'', ''rdma6'',
      ''xprtsec'', ''soft'', ''softerr'', ''softreval'', ''nosoftreval'', ''sharesock'', ''nosharesock'',
      ''bind'', ''rbind'', ''move'', ''remount'', ''defaults'', ''loop'', ''offset'', ''sizelimit'', ''sloppy'',
      ''bg'', ''background'', ''nofail'', ''auto'', ''noauto'', ''dev'', ''suid'', ''users'', ''owner'', ''group'', ''ro'', ''rw'']"

definition option_key_char :: "char \<Rightarrow> bool" where
  "option_key_char r \<longleftrightarrow> is_lower r \<or> is_upper r \<or> is_digit r \<or> r = CHR ''_'' \<or> r = CHR ''-'' \<or> r = CHR ''.''"

definition mountOptionKey :: "string \<Rightarrow> string res" where
  "mountOptionKey option =
     (case Cut option (CHR ''='') of (key, _, _) \<Rightarrow>
        if key = [] \<or> key \<noteq> TrimSpace key \<or> HasPrefix key ''-'' \<or> \<not> list_all option_key_char key
        then Inl (EMsg ''mount option has an invalid key'') else Inr (ToLower key))"

text \<open>The items of the flags, each of which may hold several.\<close>

definition option_items :: "string list \<Rightarrow> string list" where
  "option_items flags = filter (\<lambda>i. i \<noteq> []) (map TrimSpace (concat (map (\<lambda>raw. Split raw (CHR '','')) flags)))"

definition contradictory :: "(string \<times> string) list" where
  "contradictory =
     [(''exec'', ''noexec''), (''noexec'', ''exec''), (''atime'', ''noatime''), (''noatime'', ''atime''),
      (''sync'', ''async''), (''async'', ''sync''), (''ro'', ''rw''), (''rw'', ''ro'')]"

definition opposite_seen :: "(string \<times> string) list \<Rightarrow> string \<Rightarrow> string option" where
  "opposite_seen sofar key =
     (case map_of contradictory key of
        None \<Rightarrow> None
      | Some opposite \<Rightarrow> if map_of sofar opposite = None then None else Some opposite)"

definition controlled_error :: "string \<Rightarrow> go_error" where
  "controlled_error key = EMsg (''mount option '' @ fmt_q key @ '' is controlled by the Qumulo CSI driver'')"

definition normalized_option :: "string \<Rightarrow> string \<Rightarrow> string" where
  "normalized_option key item = (case Cut item (CHR ''='') of (_, value, hasValue) \<Rightarrow> if hasValue then key @ ''='' @ value else key)"

definition blocked_key :: "string \<Rightarrow> bool" where
  "blocked_key key \<longleftrightarrow> HasPrefix key ''x-mount.'' \<or> HasPrefix key ''x-mount-'' \<or> key \<in> set reservedMountOptionKeys"

text \<open>The loop of \<open>sanitizedMountFlags\<close>: \<open>sofar\<close> holds the normalized option of every key so far.\<close>

fun flags_loop :: "(string \<times> string) list \<Rightarrow> string list \<Rightarrow> (string \<times> string) list res" where
  "flags_loop sofar [] = Inr sofar"
| "flags_loop sofar (item # items) =
     (if ContainsAny item [CHR 0x00, CHR 0x0D, CHR 0x0A] then Inl (EMsg ''mount option contains a control character'')
      else and_then (mountOptionKey item) (\<lambda>key.
        if blocked_key key then Inl (controlled_error key)
        else case map_of sofar key of
            Some previous \<Rightarrow>
              if previous \<noteq> normalized_option key item
              then Inl (EMsg (''mount option '' @ fmt_q key @ '' is specified with conflicting values''))
              else flags_loop sofar items
          | None \<Rightarrow>
              (case opposite_seen sofar key of
                 Some opposite \<Rightarrow> Inl (EMsg (''mount options '' @ fmt_q key @ '' and '' @ fmt_q opposite @ '' are contradictory''))
               | None \<Rightarrow> flags_loop (sofar @ [(key, normalized_option key item)]) items)))"

definition sanitizedMountFlags :: "string list \<Rightarrow> string list res" where
  "sanitizedMountFlags flags = and_then (flags_loop [] (option_items flags)) (\<lambda>sofar. Inr (sort (map snd sofar)))"

definition rejectControlledMountOptions :: "string list \<Rightarrow> string list \<Rightarrow> unit res" where
  "rejectControlledMountOptions flags keys =
     and_then (sanitizedMountFlags flags) (\<lambda>clean.
       case find (\<lambda>option. case mountOptionKey option of Inl _ \<Rightarrow> True | Inr key \<Rightarrow> key \<in> set (map ToLower keys)) clean of
         None \<Rightarrow> Inr ()
       | Some option \<Rightarrow> (case mountOptionKey option of Inl err \<Rightarrow> Inl err | Inr key \<Rightarrow> Inl (controlled_error key)))"

section \<open>Merging\<close>

text \<open>The two maps of \<open>mergeMountOptions\<close>: options with a value by their key, and bare options.\<close>

definition add_option :: "(string \<times> string) list \<times> string list \<Rightarrow> string \<Rightarrow> (string \<times> string) list \<times> string list" where
  "add_option st option =
     (case Cut option (CHR ''='') of (key, value, found) \<Rightarrow>
        if found then (AList.update (ToLower key) (key @ ''='' @ value) (fst st), snd st)
        else (fst st, List.insert (ToLower option) (snd st)))"

definition mergeMountOptions :: "string list \<Rightarrow> string list \<Rightarrow> bool \<Rightarrow> string list res" where
  "mergeMountOptions base supplied readOnly =
     and_then (sanitizedMountFlags supplied) (\<lambda>clean.
       case foldl add_option ([], []) (base @ clean) of (vals, bare) \<Rightarrow>
         Inr (sort (map snd vals
            @ (if readOnly then List.insert ''ro'' (removeAll ''rw'' bare) else List.insert ''rw'' (removeAll ''ro'' bare)))))"

section \<open>An existing mount\<close>

record recordedMountOptions =
  ro_flags :: "string list"
  ro_values :: "(string \<times> string) list"

definition record_option :: "recordedMountOptions \<Rightarrow> string \<Rightarrow> recordedMountOptions" where
  "record_option st item =
     (case mountOptionKey item of
        Inl _ \<Rightarrow> st
      | Inr key \<Rightarrow>
          (case Cut item (CHR ''='') of (_, value, found) \<Rightarrow>
             if found then st\<lparr>ro_values := AList.update key value (ro_values st)\<rparr>
             else st\<lparr>ro_flags := List.insert key (ro_flags st)\<rparr>))"

definition newRecordedMountOptions :: "string list \<Rightarrow> recordedMountOptions" where
  "newRecordedMountOptions options = foldl record_option \<lparr>ro_flags = [], ro_values = []\<rparr> (option_items options)"

definition expectedMountFSType :: "volumeHandle \<Rightarrow> string" where
  "expectedMountFSType h =
     (if vh_Protocol h = protocolSMB then ''cifs'' else if vh_NFSVersion h = ''3'' then ''nfs'' else ''nfs4'')"

text \<open>\<open>mountSource\<close> and \<open>sameMountSource\<close> of \<^verbatim>\<open>node.go\<close>.\<close>

definition mountSource :: "volumeHandle \<Rightarrow> string" where
  "mountSource h =
     (let server = Trim (vh_Server h) ''[]'';
          server = (if ip_ok server \<and> CHR '':'' \<in> set server then ''['' @ server @ '']'' else server)
      in if vh_Protocol h = protocolSMB then ''//'' @ server @ ''/'' @ Trim (vh_ResourceName h) ''/''
         else server @ '':'' @ vh_ResourceName h)"

definition sameMountSource :: "protocol \<Rightarrow> string \<Rightarrow> string \<Rightarrow> bool" where
  "sameMountSource proto actual expected \<longleftrightarrow>
     (if proto = protocolSMB then EqualFold (TrimRight actual ''/'') (TrimRight expected ''/'') else actual = expected)"

definition validateMountedVolumeIdentity :: "volumeHandle \<Rightarrow> mountRecord \<Rightarrow> unit res" where
  "validateMountedVolumeIdentity h r =
     (if \<not> sameMountSource (vh_Protocol h) (mr_Source r) (mountSource h) then Inl (EMsg ''existing mount has an incompatible source'')
      else if \<not> EqualFold (TrimSpace (mr_FSType r)) (expectedMountFSType h)
      then Inl (EMsg ''existing mount has an incompatible filesystem type'')
      else if mr_Root r \<noteq> ''/'' then Inl (EMsg ''existing mount exposes an incompatible filesystem subtree'')
      else Inr ())"

text \<open>One requested option against the recorded ones.\<close>

definition requested_present :: "recordedMountOptions \<Rightarrow> string \<Rightarrow> bool" where
  "requested_present st option =
     (case mountOptionKey option of
        Inl _ \<Rightarrow> False
      | Inr key \<Rightarrow>
          key = ''ro'' \<or> key = ''rw'' \<or>
          (case Cut option (CHR ''='') of (_, value, found) \<Rightarrow>
             if found then map_of (ro_values st) key = Some value else key \<in> set (ro_flags st)))"

definition validateRequestedMountOptions :: "mountRecord \<Rightarrow> string list \<Rightarrow> bool \<Rightarrow> unit res" where
  "validateRequestedMountOptions r requested readOnly =
     and_then (mergeMountOptions [] requested readOnly) (\<lambda>effective.
       case find (\<lambda>option. \<not> requested_present (newRecordedMountOptions (mr_Options r)) option) effective of
         None \<Rightarrow> Inr ()
       | Some option \<Rightarrow>
          (case mountOptionKey option of
             Inl err \<Rightarrow> Inl err
           | Inr key \<Rightarrow> Inl (EMsg (''existing mount does not contain requested option '' @ fmt_q key))))"

definition require_value :: "recordedMountOptions \<Rightarrow> string \<Rightarrow> string list \<Rightarrow> bool" where
  "require_value st want keys \<longleftrightarrow>
     list_ex (\<lambda>key. case map_of (ro_values st) key of None \<Rightarrow> False | Some got \<Rightarrow> EqualFold got want) keys"

definition validateExistingMount :: "volumeHandle \<Rightarrow> mountRecord \<Rightarrow> bool \<Rightarrow> string list \<Rightarrow> unit res" where
  "validateExistingMount h r readOnly requestedFlags =
     and_then (validateMountedVolumeIdentity h r) (\<lambda>_.
     let state = newRecordedMountOptions (mr_Options r);
         mode = newRecordedMountOptions (if mr_MountOptions r = [] then mr_Options r else mr_MountOptions r);
         ro = ''ro'' \<in> set (ro_flags mode); rw = ''rw'' \<in> set (ro_flags mode);
         version = (if vh_NFSVersion h = [] then ''4.1'' else vh_NFSVersion h)
     in if ro = rw \<or> ro \<noteq> readOnly then Inl (EMsg ''existing mount has an incompatible read-only state'')
        else if ''nodev'' \<notin> set (ro_flags state) \<or> ''nosuid'' \<notin> set (ro_flags state)
        then Inl (EMsg ''existing mount is missing required security options'')
        else if vh_Protocol h = protocolSMB then
          (if \<not> require_value state ''3.1.1'' [''vers'', ''version'']
           then Inl (EMsg ''existing SMB mount has an incompatible protocol version'')
           else if vh_SMBEncrypted h \<and> ''seal'' \<notin> set (ro_flags state)
           then Inl (EMsg ''existing SMB mount is missing required encryption'')
           else validateRequestedMountOptions r requestedFlags readOnly)
        else if \<not> require_value state version [''vers'', ''nfsvers'']
        then Inl (EMsg ''existing NFS mount has an incompatible protocol version'')
        else if \<not> require_value state ''sys'' [''sec'', ''security'']
        then Inl (EMsg ''existing NFS mount has an incompatible security flavor'')
        else if ''hard'' \<notin> set (ro_flags state) \<or> ''soft'' \<in> set (ro_flags state) \<or> ''softerr'' \<in> set (ro_flags state)
        then Inl (EMsg ''existing NFS mount has an incompatible retry policy'')
        else if \<not> require_value state ''600'' [''timeo''] \<or> \<not> require_value state ''2'' [''retrans'']
        then Inl (EMsg ''existing NFS mount has incompatible timeout settings'')
        else validateRequestedMountOptions r requestedFlags readOnly)"

section \<open>The mount table\<close>

fun unescapeMountInfo :: "string \<Rightarrow> string" where
  "unescapeMountInfo (a # b # c # d # s) =
     (if [a, b, c, d] = [CHR 0x5C, CHR ''0'', CHR ''4'', CHR ''0''] then CHR '' '' # unescapeMountInfo s
      else if [a, b, c, d] = [CHR 0x5C, CHR ''0'', CHR ''1'', CHR ''1''] then CHR 0x09 # unescapeMountInfo s
      else if [a, b, c, d] = [CHR 0x5C, CHR ''0'', CHR ''1'', CHR ''2''] then CHR 0x0A # unescapeMountInfo s
      else if [a, b, c, d] = [CHR 0x5C, CHR ''1'', CHR ''3'', CHR ''4''] then CHR 0x5C # unescapeMountInfo s
      else a # unescapeMountInfo (b # c # d # s))"
| "unescapeMountInfo s = s"

definition splitMountInfoOptions :: "string \<Rightarrow> string list" where
  "splitMountInfoOptions value = map unescapeMountInfo (filter (\<lambda>p. p \<noteq> []) (map TrimSpace (Split value (CHR '',''))))"

definition strings_Fields :: "string \<Rightarrow> string list" where
  "strings_Fields s = fields_on is_space [] s"

text \<open>One line of \<^verbatim>\<open>/proc/self/mountinfo\<close>, if it is well formed and describes a mount at \<open>want\<close>.\<close>

definition mount_line :: "string \<Rightarrow> string \<Rightarrow> mountRecord option" where
  "mount_line want line =
     (let fs = strings_Fields line; sep = length (takeWhile (\<lambda>f. f \<noteq> ''-'') fs)
      in if length fs < 10 \<or> sep = length fs \<or> sep < 6 \<or> sep + 2 \<ge> length fs then None
         else if path_Clean (unescapeMountInfo (fs ! 4)) \<noteq> want then None
         else (let mo = splitMountInfoOptions (fs ! 5)
               in Some \<lparr>mr_MountID = fs ! 0, mr_ParentID = fs ! 1, mr_Root = unescapeMountInfo (fs ! 3),
                        mr_Source = unescapeMountInfo (fs ! (sep + 2)), mr_FSType = fs ! (sep + 1), mr_MountOptions = mo,
                        mr_Options = mo @ (if sep + 3 < length fs then splitMountInfoOptions (fs ! (sep + 3)) else [])\<rparr>))"

definition mount_matches :: "string \<Rightarrow> string \<Rightarrow> mountRecord list" where
  "mount_matches raw want = List.map_filter (mount_line want) (Split raw (CHR 0x0A))"

text \<open>\<open>parseMountInfo\<close> for an absolute target, with the mount points absolute as the kernel writes them: \<open>None\<close> when nothing is mounted there.\<close>

definition parseMountInfo :: "string \<Rightarrow> string \<Rightarrow> mountRecord option res" where
  "parseMountInfo raw target =
     (let matches = mount_matches raw (path_Clean target)
      in if matches = [] then Inr None
         else case filter (\<lambda>r. mr_MountID r \<notin> set (map mr_ParentID matches)) matches of
             [] \<Rightarrow> Inl (EMsg (''mount table contains a cyclic mount stack at '' @ fmt_q target))
           | [topmost] \<Rightarrow> Inr (Some topmost)
           | _ \<Rightarrow> Inl (EMsg (''mount table contains ambiguous topmost mounts at '' @ fmt_q target)))"

section \<open>Sanitized options\<close>

lemma set_TrimSpace: "set (TrimSpace s) \<subseteq> set s"
  by (auto simp: TrimSpace_def dest!: set_dropWhileD)

lemma hd_dropWhile_space: "dropWhile is_space s \<noteq> [] \<Longrightarrow> \<not> is_space (hd (dropWhile is_space s))"
  by (metis hd_dropWhile)

lemma TrimSpace_id: "s \<noteq> [] \<Longrightarrow> \<not> is_space (hd s) \<Longrightarrow> \<not> is_space (last s) \<Longrightarrow> TrimSpace s = s"
proof -
  assume s: "s \<noteq> []" "\<not> is_space (hd s)" "\<not> is_space (last s)"
  have id: "t \<noteq> [] \<Longrightarrow> \<not> is_space (hd t) \<Longrightarrow> dropWhile is_space t = t" for t by (cases t) simp_all
  show ?thesis using s by (simp add: TrimSpace_def id hd_rev)
qed

lemma last_TrimSpace: "TrimSpace s \<noteq> [] \<Longrightarrow> \<not> is_space (last (TrimSpace s))"
  unfolding TrimSpace_def last_rev using hd_dropWhile_space by (simp only: rev_is_Nil_conv not_False_eq_True simp_thms)

text \<open>An item as the loop sees it, and what it keeps of one.\<close>

definition plain_item :: "string \<Rightarrow> bool" where
  "plain_item i \<longleftrightarrow> i \<noteq> [] \<and> CHR '','' \<notin> set i \<and> \<not> is_space (last i)"

lemma option_items_plain: "list_all plain_item (option_items flags)"
  unfolding option_items_def plain_item_def list_all_iff
  using set_TrimSpace last_TrimSpace by (auto dest: Split_no_sep)

definition legal_key :: "string \<Rightarrow> bool" where
  "legal_key k \<longleftrightarrow> k \<noteq> [] \<and> list_all option_key_char k \<and> \<not> HasPrefix k ''-'' \<and> ToLower k = k"

definition option_entry :: "string \<times> string \<Rightarrow> bool" where
  "option_entry e \<longleftrightarrow>
     legal_key (fst e) \<and> \<not> blocked_key (fst e) \<and> plain_item (snd e) \<and> \<not> ContainsAny (snd e) [CHR 0x00, CHR 0x0D, CHR 0x0A] \<and>
     (snd e = fst e \<or> (\<exists>v. snd e = fst e @ ''='' @ v))"

definition compatible :: "string set \<Rightarrow> bool" where
  "compatible K \<longleftrightarrow> (\<forall>k\<in>K. \<forall>p. map_of contradictory k = Some p \<longrightarrow> p \<notin> K)"

definition flags_ok :: "(string \<times> string) list \<Rightarrow> bool" where
  "flags_ok es \<longleftrightarrow> distinct (map fst es) \<and> list_all option_entry es \<and> compatible (fst ` set es)"

lemma option_key_char_facts: "option_key_char c \<Longrightarrow> \<not> is_space c \<and> c \<noteq> CHR ''='' \<and> c \<noteq> CHR '','' \<and> c \<notin> set [CHR 0x00, CHR 0x0D, CHR 0x0A]"
  by (auto simp: option_key_char_def is_space_def is_lower_def is_upper_def is_digit_def)

lemma option_key_lower: "option_key_char c \<Longrightarrow> option_key_char (to_lower_char c)"
  by (auto simp: option_key_char_def to_lower_char_def is_upper_def is_lower_def is_digit_def)

lemma to_lower_char_idem [simp]: "to_lower_char (to_lower_char c) = to_lower_char c"
  by (auto simp: to_lower_char_def is_upper_def)

lemma to_lower_dash: "to_lower_char c = CHR ''-'' \<longleftrightarrow> c = CHR ''-''"
proof (cases "is_upper c")
  case True
  then have "97 \<le> ch (to_lower_char c)" and "65 \<le> ch c" by (simp_all add: to_lower_char_def is_upper_def)
  moreover have "ch (CHR ''-'') = 45" by simp
  ultimately have "to_lower_char c \<noteq> CHR ''-''" "c \<noteq> CHR ''-''" by (intro notI, simp)+
  then show ?thesis by simp
qed (simp add: to_lower_char_def)

lemma Cut_split: "Cut s c = (a, b, f) \<Longrightarrow> c \<notin> set a \<and> s = (if f then a @ c # b else a)"
proof (cases f)
  case True
  then show "Cut s c = (a, b, f) \<Longrightarrow> ?thesis" using Cut_True by auto
next
  case False
  then show "Cut s c = (a, b, f) \<Longrightarrow> ?thesis"
    by (auto simp: Cut_def split: list.splits)
qed

lemma mountOptionKey_Inr:
  assumes "mountOptionKey i = Inr k"
  obtains key b f where "Cut i (CHR ''='') = (key, b, f)" "legal_key k" "k = ToLower key" "list_all option_key_char key" "key \<noteq> []"
proof -
  obtain key b f where c: "Cut i (CHR ''='') = (key, b, f)" by (cases "Cut i (CHR ''='')")
  then have k: "key \<noteq> []" "\<not> HasPrefix key ''-''" "list_all option_key_char key" "k = ToLower key"
    using assms by (auto simp: mountOptionKey_def split: if_splits)
  have "legal_key k"
    using k option_key_lower to_lower_dash
    by (cases key) (auto simp: legal_key_def ToLower_def HasPrefix_def list_all_iff o_def)
  then show ?thesis using that c k by blast
qed

lemma legal_key_option:
  assumes "legal_key k" "i = k \<or> (\<exists>v. i = k @ ''='' @ v)"
  shows "mountOptionKey i = Inr k \<and> normalized_option k i = i"
proof -
  have n: "CHR ''='' \<notin> set k" using assms(1) option_key_char_facts by (auto simp: legal_key_def list_all_iff)
  have t: "TrimSpace k = k" using assms(1) option_key_char_facts last_in_set [of k] by (intro TrimSpace_id) (auto simp: legal_key_def list_all_iff)
  from assms(2) show ?thesis
  proof (elim disjE exE)
    assume "i = k"
    then show ?thesis using n t assms(1) by (simp add: mountOptionKey_def normalized_option_def Cut_none legal_key_def)
  next
    fix v assume "i = k @ ''='' @ v"
    then show ?thesis using n t assms(1) by (simp add: mountOptionKey_def normalized_option_def Cut_here legal_key_def)
  qed
qed

lemma option_entry_kept:
  assumes "mountOptionKey i = Inr k" "\<not> blocked_key k" "plain_item i" "\<not> ContainsAny i [CHR 0x00, CHR 0x0D, CHR 0x0A]"
  shows "option_entry (k, normalized_option k i)"
proof -
  obtain key b f where c: "Cut i (CHR ''='') = (key, b, f)" and k: "legal_key k" by (rule mountOptionKey_Inr [OF assms(1)])
  have i: "i = (if f then key @ CHR ''='' # b else key)" using Cut_split [OF c] by simp
  have kc: "\<forall>x\<in>set k. \<not> is_space x \<and> x \<noteq> CHR '','' \<and> x \<notin> set [CHR 0x00, CHR 0x0D, CHR 0x0A]" "k \<noteq> []"
    using k option_key_char_facts by (auto simp: legal_key_def list_all_iff)
  show ?thesis
  proof (cases f)
    case True
    then have n: "normalized_option k i = k @ ''='' @ b" using c by (simp add: normalized_option_def)
    have "CHR '','' \<notin> set b" "\<not> ContainsAny b [CHR 0x00, CHR 0x0D, CHR 0x0A]" "b \<noteq> [] \<Longrightarrow> \<not> is_space (last b)"
      using assms(3,4) i True by (auto simp: plain_item_def ContainsAny_def list_ex_iff)
    then show ?thesis
      using kc k assms(2) unfolding option_entry_def n by (auto simp: plain_item_def ContainsAny_def list_ex_iff is_space_def)
  next
    case False
    then have "normalized_option k i = k" using c by (simp add: normalized_option_def)
    then show ?thesis
      using kc k assms(2) last_in_set [of k] unfolding option_entry_def by (auto simp: plain_item_def ContainsAny_def list_ex_iff)
  qed
qed

lemma contradictory_sym: "map_of contradictory k = Some p \<Longrightarrow> map_of contradictory p = Some k \<and> p \<noteq> k"
  by (auto simp: contradictory_def split: if_splits)

lemma compatible_insert:
  "compatible (insert k K) \<longleftrightarrow> compatible K \<and> (\<forall>p. map_of contradictory k = Some p \<longrightarrow> p \<notin> K)"
  unfolding compatible_def using contradictory_sym by blast

lemma opposite_seen_None:
  "opposite_seen es k = None \<longleftrightarrow> (\<forall>p. map_of contradictory k = Some p \<longrightarrow> p \<notin> fst ` set es)"
proof (cases "map_of contradictory k")
  case (Some p)
  then show ?thesis using map_of_eq_None_iff [of es p] by (auto simp: opposite_seen_def)
qed (simp add: opposite_seen_def)

lemma flags_ok_snoc:
  "flags_ok es \<Longrightarrow> option_entry (k, v) \<Longrightarrow> map_of es k = None \<Longrightarrow> opposite_seen es k = None \<Longrightarrow> flags_ok (es @ [(k, v)])"
  by (simp add: flags_ok_def opposite_seen_None compatible_insert map_of_eq_None_iff)

lemma flags_loop_ok: "flags_loop sofar items = Inr es \<Longrightarrow> flags_ok sofar \<Longrightarrow> list_all plain_item items \<Longrightarrow> flags_ok es"
proof (induction sofar items rule: flags_loop.induct)
  case (2 sofar item items)
  obtain key where key: "mountOptionKey item = Inr key" using 2(3) by (auto simp: and_then_Inr split: if_splits)
  have c: "\<not> ContainsAny item [CHR 0x00, CHR 0x0D, CHR 0x0A]" and b: "\<not> blocked_key key"
    using 2(3) key by (auto simp: and_then_def split: if_splits)
  note facts = c key b
  show ?case
  proof (cases "map_of sofar key")
    case (Some previous)
    then show ?thesis using 2 facts by (auto simp: and_then_def split: if_splits)
  next
    case None
    have o: "opposite_seen sofar key = None" and r: "flags_loop (sofar @ [(key, normalized_option key item)]) items = Inr es"
      using 2(3) facts None by (auto simp: and_then_def split: option.splits)
    have "flags_ok (sofar @ [(key, normalized_option key item)])"
      using 2(4,5) facts None o by (intro flags_ok_snoc option_entry_kept) auto
    then show ?thesis using 2(1) [OF c b None o r] 2(5) by simp
  qed
qed simp

lemma compatible_subset: "compatible K \<Longrightarrow> K' \<subseteq> K \<Longrightarrow> compatible K'"
  unfolding compatible_def by blast

text \<open>Entries are read back as they are.\<close>

lemma flags_loop_entries: "flags_ok (sofar @ es) \<Longrightarrow> flags_loop sofar (map snd es) = Inr (sofar @ es)"
proof (induction es arbitrary: sofar)
  case (Cons e es)
  obtain k v where e: "e = (k, v)" by (cases e)
  have oe: "option_entry (k, v)" using Cons.prems e by (simp add: flags_ok_def)
  have m: "mountOptionKey v = Inr k" "normalized_option k v = v"
    using legal_key_option [of k v] oe by (simp_all add: option_entry_def)
  have n: "map_of sofar k = None" using Cons.prems e by (auto simp: flags_ok_def map_of_eq_None_iff)
  have "compatible (insert k (fst ` set sofar))"
    by (rule compatible_subset [of "fst ` set (sofar @ e # es)"]) (use Cons.prems e in \<open>auto simp: flags_ok_def\<close>)
  then have o: "opposite_seen sofar k = None" by (simp add: compatible_insert opposite_seen_None)
  show ?case using Cons.IH [of "sofar @ [e]"] Cons.prems e m n o oe by (simp add: and_then_def option_entry_def)
qed simp

lemma sort_entries: "sort (map snd es) = map snd (sort_key snd es)"
  by (rule properties_for_sort) simp_all

lemma flags_ok_mset: "mset es = mset es' \<Longrightarrow> flags_ok es \<longleftrightarrow> flags_ok es'"
proof -
  assume m: "mset es = mset es'"
  then have "set es = set es'" by (rule mset_eq_setD)
  moreover have "distinct (map fst es) \<longleftrightarrow> distinct (map fst es')"
    using m by (intro mset_eq_imp_distinct_iff) simp
  ultimately show ?thesis by (simp add: flags_ok_def list_all_iff)
qed

lemma option_items_id: "list_all (\<lambda>e. option_entry e) es \<Longrightarrow> option_items (map snd es) = map snd es"
proof (induction es)
  case (Cons e es)
  have p: "plain_item (snd e)" and k: "legal_key (fst e)" and v: "snd e = fst e \<or> (\<exists>v. snd e = fst e @ ''='' @ v)"
    using Cons.prems by (simp_all add: option_entry_def)
  have "Split (snd e) (CHR '','') = [snd e]" using p by (simp add: plain_item_def Split_def split_on_last)
  moreover have "hd (snd e) = hd (fst e)" using v k by (auto simp: legal_key_def)
  then have "\<not> is_space (hd (snd e))" using k option_key_char_facts [of "hd (fst e)"] by (cases "fst e") (auto simp: legal_key_def)
  then have "TrimSpace (snd e) = snd e" using p by (intro TrimSpace_id) (simp_all add: plain_item_def)
  ultimately show ?case using Cons p by (simp add: option_items_def plain_item_def)
qed (simp add: option_items_def)

lemma sanitizedMountFlags_Inr:
  assumes "sanitizedMountFlags flags = Inr out"
  obtains es where "flags_ok es" "out = map snd es" "sorted out"
proof -
  obtain sofar where f: "flags_loop [] (option_items flags) = Inr sofar" "out = sort (map snd sofar)"
    using assms by (auto simp: sanitizedMountFlags_def and_then_Inr)
  have "flags_ok sofar" using flags_loop_ok [OF f(1)] option_items_plain by (simp add: flags_ok_def compatible_def)
  then have "flags_ok (sort_key snd sofar)" using flags_ok_mset [of "sort_key snd sofar" sofar] by simp
  moreover have "out = map snd (sort_key snd sofar)" using f(2) sort_entries by simp
  moreover have "sorted out" using f(2) by simp
  ultimately show ?thesis by (rule that)
qed

lemma sanitized_again: "flags_ok es \<Longrightarrow> sorted (map snd es) \<Longrightarrow> sanitizedMountFlags (map snd es) = Inr (map snd es)"
proof -
  assume es: "flags_ok es" "sorted (map snd es)"
  have "flags_loop [] (map snd es) = Inr es" using flags_loop_entries [of "[]" es] es(1) by simp
  then show ?thesis using es option_items_id [of es] by (simp add: sanitizedMountFlags_def flags_ok_def and_then_def sorted_sort_id)
qed

text \<open>What a caller's option may be.\<close>

definition caller_option :: "string \<Rightarrow> bool" where
  "caller_option opt \<longleftrightarrow>
     (\<exists>k. mountOptionKey opt = Inr k \<and> \<not> blocked_key k) \<and> \<not> ContainsAny opt [CHR 0x00, CHR 0x0D, CHR 0x0A, CHR '','']"

lemma option_entry_caller: "option_entry e \<Longrightarrow> caller_option (snd e)"
  using legal_key_option [of "fst e" "snd e"]
  by (auto simp: option_entry_def caller_option_def plain_item_def ContainsAny_def list_ex_iff)


section \<open>Merged options\<close>

text \<open>An option the driver adds: a bare one, or a value for a key that no caller may set.\<close>

definition driver_option :: "string \<Rightarrow> bool" where
  "driver_option opt \<longleftrightarrow>
     CHR ''='' \<notin> set opt \<and> ToLower opt = opt \<and> opt \<noteq> ''ro'' \<and> opt \<noteq> ''rw''
     \<or> (\<exists>k v. opt = k @ CHR ''='' # v \<and> legal_key k \<and> blocked_key k)"

definition option_key :: "string \<Rightarrow> string" where
  "option_key opt = ToLower (fst (Cut opt (CHR ''='')))"

lemma legal_key_no_eq: "legal_key k \<Longrightarrow> CHR ''='' \<notin> set k"
  using option_key_char_facts by (auto simp: legal_key_def list_all_iff)

lemma add_option_bare: "snd (add_option st x) = (if CHR ''='' \<in> set x then snd st else List.insert (ToLower x) (snd st))"
proof -
  obtain a b f where c: "Cut x (CHR ''='') = (a, b, f)" by (cases "Cut x (CHR ''='')")
  then have "f \<longleftrightarrow> CHR ''='' \<in> set x" using Cut_split [OF c] by auto
  then show ?thesis using c Cut_split [OF c] by (simp add: add_option_def)
qed

lemma bare_options: "set (snd (foldl add_option st xs)) = set (snd st) \<union> ToLower ` {x \<in> set xs. CHR ''='' \<notin> set x}"
  by (induction xs arbitrary: st) (auto simp: add_option_bare)

lemma ball_subset_insert: "A \<subseteq> insert w B \<Longrightarrow> P w \<Longrightarrow> \<forall>v\<in>B. P v \<Longrightarrow> \<forall>v\<in>A. P v"
  by blast

lemma value_has_eq: "\<forall>v \<in> snd ` set (fst st). CHR ''='' \<in> set v \<Longrightarrow> \<forall>v \<in> snd ` set (fst (foldl add_option st xs)). CHR ''='' \<in> set v"
proof (induction xs arbitrary: st)
  case (Cons x xs)
  have "\<forall>v \<in> snd ` set (fst (add_option st x)). CHR ''='' \<in> set v"
  proof -
    have "snd ` set (AList.update k w al) \<subseteq> insert w (snd ` set al)" for k w and al :: "(string \<times> string) list"
      by (induction al) auto
    note upd = this
    obtain a b f where c: "Cut x (CHR ''='') = (a, b, f)" by (cases "Cut x (CHR ''='')")
    have "snd ` set (fst (add_option st x)) \<subseteq> insert (a @ ''='' @ b) (snd ` set (fst st))"
      using upd [of "ToLower a" "a @ ''='' @ b" "fst st"] c by (simp add: add_option_def subset_insertI)
    moreover have "CHR ''='' \<in> set (a @ ''='' @ b)" unfolding set_append by (rule UnI2, rule UnI1) (rule list.set_intros)
    ultimately show ?thesis using Cons.prems by (rule ball_subset_insert [where P = "\<lambda>v. CHR ''='' \<in> set v"])
  qed
  from Cons.IH [OF this] show ?case by (simp only: foldl.simps)
qed simp

text \<open>A value stays when no later option has its key.\<close>

lemma value_kept:
  "map_of (fst st) k = Some v \<Longrightarrow> \<forall>x\<in>set xs. CHR ''='' \<in> set x \<longrightarrow> option_key x \<noteq> k \<Longrightarrow> map_of (fst (foldl add_option st xs)) k = Some v"
proof (induction xs arbitrary: st)
  case (Cons x xs)
  obtain a b f where c: "Cut x (CHR ''='') = (a, b, f)" by (cases "Cut x (CHR ''='')")
  have "map_of (fst (add_option st x)) k = Some v"
    using Cons.prems c Cut_split [OF c] by (auto simp: add_option_def option_key_def update_conv)
  then show ?case using Cons by simp
qed simp

lemma value_added:
  assumes "x = k @ CHR ''='' # v" "legal_key k" "x \<in> set xs" "\<forall>y\<in>set xs. CHR ''='' \<in> set y \<longrightarrow> option_key y = k \<longrightarrow> y = x"
  shows "map_of (fst (foldl add_option st xs)) k = Some x"
proof -
  obtain ys zs where xs: "xs = ys @ x # zs" "x \<notin> set zs" using split_list_last [OF assms(3)] by blast
  have "ToLower k = k" using assms(2) by (simp add: legal_key_def)
  then have "map_of (fst (add_option (foldl add_option st ys) x)) k = Some x"
    using assms(1) legal_key_no_eq [OF assms(2)] by (simp add: add_option_def Cut_here update_conv)
  then have "map_of (fst (foldl add_option (add_option (foldl add_option st ys) x) zs)) k = Some x"
    by (rule value_kept) (use assms(4) xs in auto)
  then show ?thesis by (simp add: xs)
qed

lemma option_key_caller: "caller_option x \<Longrightarrow> \<not> blocked_key (option_key x)"
  unfolding caller_option_def
proof (elim conjE exE)
  fix k assume k: "mountOptionKey x = Inr k" "\<not> blocked_key k"
  obtain key b f where "Cut x (CHR ''='') = (key, b, f)" "k = ToLower key" by (rule mountOptionKey_Inr [OF k(1)])
  then show "\<not> blocked_key (option_key x)" using k(2) by (simp add: option_key_def)
qed

text \<open>The options of the driver with a key of their own are all there, and the mode is the one asked for.\<close>

definition mount_keeps :: "string list \<Rightarrow> bool \<Rightarrow> string list \<Rightarrow> bool" where
  "mount_keeps base readOnly out \<longleftrightarrow>
     (''ro'' \<in> set out \<longleftrightarrow> readOnly) \<and> (''rw'' \<in> set out \<longleftrightarrow> \<not> readOnly) \<and> sorted out \<and>
     (\<forall>x\<in>set base. driver_option x \<longrightarrow> (\<forall>y\<in>set base. option_key y = option_key x \<longrightarrow> y = x) \<longrightarrow> x \<in> set out)"

lemma merge_keeps:
  assumes "mergeMountOptions base supplied readOnly = Inr out"
  shows "mount_keeps base readOnly out"
proof -
  obtain clean where clean: "sanitizedMountFlags supplied = Inr clean" using assms by (auto simp: mergeMountOptions_def and_then_Inr)
  obtain es where es: "flags_ok es" "clean = map snd es" by (rule sanitizedMountFlags_Inr [OF clean])
  have caller: "caller_option x" if "x \<in> set clean" for x
    using es that option_entry_caller by (auto simp: flags_ok_def list_all_iff)
  obtain vals bare where f: "foldl add_option ([], []) (base @ clean) = (vals, bare)" by (cases "foldl add_option ([], []) (base @ clean)")
  let ?m = "if readOnly then List.insert ''ro'' (removeAll ''rw'' bare) else List.insert ''rw'' (removeAll ''ro'' bare)"
  have out: "out = sort (map snd vals @ ?m)" using assms clean f by (simp add: mergeMountOptions_def and_then_def)
  have "\<forall>v \<in> snd ` set vals. CHR ''='' \<in> set v" using value_has_eq [of "([], [])" "base @ clean"] f by simp
  then have ro: "''ro'' \<notin> snd ` set vals" "''rw'' \<notin> snd ` set vals" by auto
  have bare: "set bare = ToLower ` {x \<in> set (base @ clean). CHR ''='' \<notin> set x}"
    using bare_options [of "([], [])" "base @ clean"] f by simp
  have kept: "x \<in> set out" if x: "x \<in> set base" "driver_option x" "\<forall>y\<in>set base. option_key y = option_key x \<longrightarrow> y = x" for x
    using x(2) unfolding driver_option_def
  proof (elim disjE conjE exE)
    assume "CHR ''='' \<notin> set x" "ToLower x = x" "x \<noteq> ''ro''" "x \<noteq> ''rw''"
    then have "x \<in> set bare" using x(1) unfolding bare by (auto intro!: image_eqI [of _ _ x])
    then show ?thesis using \<open>x \<noteq> ''ro''\<close> \<open>x \<noteq> ''rw''\<close> by (simp add: out)
  next
    fix k v assume k: "x = k @ CHR ''='' # v" "legal_key k" "blocked_key k"
    have key: "option_key x = k" using k(2) legal_key_no_eq [OF k(2)] by (simp add: k(1) option_key_def Cut_here legal_key_def)
    have "\<forall>y\<in>set (base @ clean). CHR ''='' \<in> set y \<longrightarrow> option_key y = k \<longrightarrow> y = x"
      using x(3) key caller option_key_caller k(3) by (metis Un_iff set_append)
    then have "map_of (fst (foldl add_option ([], []) (base @ clean))) k = Some x"
      using x(1) by (intro value_added [OF k(1,2)]) simp_all
    then have "x \<in> snd ` set vals" using f by (auto dest!: map_of_SomeD intro: rev_image_eqI)
    then show ?thesis by (simp add: out)
  qed
  have "(''ro'' \<in> set out \<longleftrightarrow> readOnly) \<and> (''rw'' \<in> set out \<longleftrightarrow> \<not> readOnly)" using ro by (simp add: out)
  moreover have "sorted out" by (simp add: out)
  ultimately show ?thesis using kept unfolding mount_keeps_def by blast
qed


section \<open>The topmost mount\<close>

text \<open>Mounts stacked at one place, the bottom first: each is the parent of the next.\<close>

definition mount_stack :: "mountRecord list \<Rightarrow> bool" where
  "mount_stack ms \<longleftrightarrow>
     ms \<noteq> [] \<and> distinct (map mr_MountID ms) \<and> map mr_ParentID (tl ms) = map mr_MountID (butlast ms) \<and>
     mr_ParentID (hd ms) \<notin> set (map mr_MountID ms)"

lemma singleton_list: "set xs = {x} \<Longrightarrow> distinct xs \<Longrightarrow> xs = [x]"
  by (cases xs; cases "tl xs") auto

lemma stack_hidden:
  assumes "mount_stack ms" "r \<in> set ms"
  shows "mr_MountID r \<in> set (map mr_ParentID ms) \<longleftrightarrow> r \<noteq> last ms"
proof -
  have "set (map mr_ParentID ms) = insert (mr_ParentID (hd ms)) (set (map mr_ParentID (tl ms)))"
    using assms(1) by (cases ms) (auto simp: mount_stack_def)
  also have "\<dots> = insert (mr_ParentID (hd ms)) (mr_MountID ` set (butlast ms))" using assms(1) by (simp add: mount_stack_def)
  finally have p: "set (map mr_ParentID ms) = insert (mr_ParentID (hd ms)) (mr_MountID ` set (butlast ms))" .
  have bl: "ms = butlast ms @ [last ms]" using assms(1) by (simp add: mount_stack_def)
  have inj: "distinct (map mr_MountID (butlast ms @ [last ms]))" using assms(1) bl by (simp add: mount_stack_def)
  have "mr_MountID r \<noteq> mr_ParentID (hd ms)" using assms by (metis image_eqI list.set_map mount_stack_def)
  moreover have "mr_MountID r \<in> mr_MountID ` set (butlast ms) \<longleftrightarrow> r \<noteq> last ms"
  proof
    assume "mr_MountID r \<in> mr_MountID ` set (butlast ms)"
    then show "r \<noteq> last ms" using inj by auto
  next
    assume "r \<noteq> last ms"
    then have "r \<in> set (butlast ms)" using assms(2) bl by (metis in_set_butlast_appendI insert_iff list.set(2) rotate1.simps(2) set_rotate1 Un_iff set_append empty_iff list.set(1))
    then show "mr_MountID r \<in> mr_MountID ` set (butlast ms)" by simp
  qed
  ultimately show ?thesis unfolding p by simp
qed

text \<open>C38: Of mounts stacked at the target, in whatever order the table lists them, the one on top is found.\<close>

theorem parseMountInfo_topmost:
  assumes "mount_stack ms" "mset (mount_matches raw (path_Clean target)) = mset ms"
  shows "parseMountInfo raw target = Inr (Some (last ms))"
proof -
  let ?xs = "mount_matches raw (path_Clean target)"
  have s: "set ?xs = set ms" using assms(2) by (rule mset_eq_setD)
  have d: "distinct ?xs" using assms(1) mset_eq_imp_distinct_iff [OF assms(2)] by (auto simp: mount_stack_def distinct_map)
  have p: "set (map mr_ParentID ?xs) = set (map mr_ParentID ms)" using s by simp
  let ?top = "filter (\<lambda>r. mr_MountID r \<notin> set (map mr_ParentID ?xs)) ?xs"
  have "set ?top = {r \<in> set ms. mr_MountID r \<notin> set (map mr_ParentID ms)}" unfolding set_filter p s ..
  also have "\<dots> = {r \<in> set ms. r = last ms}" using stack_hidden [OF assms(1)] by blast
  also have "\<dots> = {last ms}" using assms(1) by (auto simp: mount_stack_def)
  finally have "set ?top = {last ms}" .
  moreover have "distinct ?top" using d by simp
  ultimately have "?top = [last ms]" by (rule singleton_list)
  moreover have "?xs \<noteq> []" using s assms(1) by (auto simp: mount_stack_def)
  ultimately show ?thesis by (simp add: parseMountInfo_def Let_def)
qed

end
