(* ===== verification/Csi_Driver.thy ===== *)
theory Csi_Driver
  imports Csi_Backend Csi_Connector Csi_Mount Core_Version
begin

text \<open>
  \<^verbatim>\<open>internal/csidriver/driver.go\<close>: the identity and controller calls of the CSI driver as programs over the volume operations of
  \<open>Csi_Backend\<close>.  A call returns its response or an error that carries a gRPC status.  Logging is left out, and the locks that serialise calls on
  the same name are the subject of \<open>Name_Locks\<close>.
\<close>

section \<open>Requests and responses\<close>

text \<open>The enumeration of access modes by its numbers in the CSI protocol.\<close>

definition mode_UNKNOWN :: int where "mode_UNKNOWN = 0"
definition mode_SINGLE_NODE_READER_ONLY :: int where "mode_SINGLE_NODE_READER_ONLY = 2"
definition mode_MULTI_NODE_READER_ONLY :: int where "mode_MULTI_NODE_READER_ONLY = 3"

record MountVolume =
  mv_FsType :: string
  mv_MountFlags :: "string list"

record VolumeCapability =
  vc_Mount :: "MountVolume option"
  vc_Mode :: int

record CapacityRange =
  cr_RequiredBytes :: int
  cr_LimitBytes :: int

record CreateVolumeRequest =
  cvq_Name :: string
  cvq_HasContentSource :: bool
  cvq_Parameters :: params
  cvq_Capabilities :: "VolumeCapability option list"
  cvq_CapacityRange :: "CapacityRange option"
  cvq_Secrets :: params

record CsiVolume =
  cv_VolumeId :: string
  cv_CapacityBytes :: int
  cv_VolumeContext :: params

record ValidateRequest =
  vq_VolumeId :: string
  vq_Capabilities :: "VolumeCapability option list"
  vq_VolumeContext :: params
  vq_Secrets :: params

datatype ValidateResponse = NotConfirmed string | Confirmed "VolumeCapability option list" "params option"

record ExpandRequest =
  xq_VolumeId :: string
  xq_CapacityRange :: "CapacityRange option"
  xq_Capability :: "VolumeCapability option"
  xq_Secrets :: params

section \<open>Errors\<close>

definition csi_api_status :: "api_error \<Rightarrow> string \<Rightarrow> go_error" where
  "csi_api_status api err =
     (if IsAuth api then EStatus (if ae_StatusCode api = 403 then PermissionDenied else Unauthenticated) (api_Error api)
      else if IsAlreadyExists api then EStatus AlreadyExists (api_Error api)
      else if IsNotFound api then EStatus NotFound (api_Error api)
      else if ae_StatusCode api = 412 then EStatus Aborted (api_Error api)
      else if ae_StatusCode api = 429 \<or> ae_StatusCode api \<ge> 500 then EStatus Unavailable (api_Error api)
      else if ae_StatusCode api = 400 then EStatus InvalidArgument (api_Error api)
      else EStatus Internal err)"

definition toGRPCError :: "go_error \<Rightarrow> go_error" where
  "toGRPCError err =
     (if FromError err \<noteq> None then err
      else if Is_ctx err CtxCanceled then EStatus Canceled (error_text err)
      else if Is_ctx err CtxDeadlineExceeded then EStatus DeadlineExceeded (error_text err)
      else if Is_sentinel err errVolumeConflict then EStatus AlreadyExists (error_text err)
      else if Is_sentinel err errVolumeNotFound then EStatus NotFound (error_text err)
      else if Is_sentinel err errVolumeIdentityChanged \<or> Is_sentinel err errVolumeResourceMissing
      then EStatus FailedPrecondition (error_text err)
      else case AsAPIError err of Some api \<Rightarrow> csi_api_status api (error_text err) | None \<Rightarrow> EStatus Internal (error_text err))"

definition as_grpc :: "'a io \<Rightarrow> 'a io" where
  "as_grpc m = do { r \<leftarrow> m; ret (case r of Inl e \<Rightarrow> Inl (toGRPCError e) | Inr x \<Rightarrow> Inr x) }"

text \<open>\<open>if err != nil { return nil, status.Error(codes.InvalidArgument, err.Error()) }\<close>\<close>

definition valid_arg :: "'a res \<Rightarrow> ('a \<Rightarrow> 'b io) \<Rightarrow> 'b io" where
  "valid_arg r k = (case r of Inl err \<Rightarrow> fail (EStatus InvalidArgument (error_text err)) | Inr x \<Rightarrow> k x)"

section \<open>Checks\<close>

definition controllerEnabled :: "Config \<Rightarrow> bool" where
  "controllerEnabled cfg \<longleftrightarrow> cc_Mode cfg = ''controller'' \<or> cc_Mode cfg = ''all''"

definition nodeEnabled :: "Config \<Rightarrow> bool" where
  "nodeEnabled cfg \<longleftrightarrow> cc_Mode cfg = ''node'' \<or> cc_Mode cfg = ''all''"

definition GetPluginInfo :: "Config \<Rightarrow> (string \<times> string) res" where
  "GetPluginInfo cfg =
     (if TrimSpace (cc_Name cfg) = [] then Inl (EStatus Unavailable ''CSI driver name is not configured'')
      else Inr (cc_Name cfg, cc_Version cfg))"

datatype plugin_capability = CONTROLLER_SERVICE | VOLUME_EXPANSION_ONLINE

definition GetPluginCapabilities :: "Config \<Rightarrow> plugin_capability list" where
  "GetPluginCapabilities cfg = (if controllerEnabled cfg then [CONTROLLER_SERVICE, VOLUME_EXPANSION_ONLINE] else [])"

definition Probe :: "Config \<Rightarrow> bool" where
  "Probe cfg \<longleftrightarrow>
     TrimSpace (cc_Name cfg) \<noteq> [] \<and> TrimSpace (cc_Address cfg) \<noteq> [] \<and> length (cc_HandleKey cfg) \<ge> 32 \<and>
     (controllerEnabled cfg \<longrightarrow> TrimSpace (cc_Endpoint cfg) \<noteq> []) \<and> (nodeEnabled cfg \<longrightarrow> TrimSpace (cc_NodeID cfg) \<noteq> [])"

datatype controller_capability = CREATE_DELETE_VOLUME | EXPAND_VOLUME

definition ControllerGetCapabilities :: "controller_capability list" where
  "ControllerGetCapabilities = [CREATE_DELETE_VOLUME, EXPAND_VOLUME]"

definition defaultVolumeBytes :: int where "defaultVolumeBytes = 2 ^ 30"

definition requestedCapacity :: "CapacityRange option \<Rightarrow> int res" where
  "requestedCapacity r =
     (case r of
        None \<Rightarrow> Inr defaultVolumeBytes
      | Some rng \<Rightarrow>
          (let required = cr_RequiredBytes rng; limit = cr_LimitBytes rng
           in if required < 0 \<or> limit < 0 then Inl (EMsg ''capacity values must not be negative'')
              else
                (let required = (if required \<noteq> 0 then required
                                 else if limit > 0 \<and> limit < defaultVolumeBytes then limit else defaultVolumeBytes)
                 in if limit > 0 \<and> required > limit
                    then Inl (EMsg (''required capacity '' @ itoa required @ '' exceeds limit '' @ itoa limit))
                    else if required = 2 ^ 63 - 1 then Inl (EMsg ''requested capacity is too large'')
                    else Inr required)))"

definition limit_bytes :: "CapacityRange option \<Rightarrow> int" where
  "limit_bytes r = (case r of None \<Rightarrow> 0 | Some rng \<Rightarrow> cr_LimitBytes rng)"

definition protocol_flags_ok :: "protocol \<Rightarrow> string \<Rightarrow> string list \<Rightarrow> unit res" where
  "protocol_flags_ok proto fsType flags =
     (if proto = protocolNFS then
        (if fsType \<noteq> [] \<and> fsType \<noteq> ''nfs'' \<and> fsType \<noteq> ''nfs4''
         then Inl (EMsg (''NFS volume requested incompatible fsType '' @ fmt_q fsType))
         else rejectControlledMountOptions flags [''vers'', ''nfsvers'', ''proto'', ''soft'', ''softerr''])
      else if proto = protocolSMB then
        (if fsType \<noteq> [] \<and> fsType \<noteq> ''cifs'' \<and> fsType \<noteq> ''smb3''
         then Inl (EMsg (''SMB volume requested incompatible fsType '' @ fmt_q fsType))
         else rejectControlledMountOptions flags [''vers'', ''seal'', ''noseal'', ''sec''])
      else Inr ())"

definition capability_ok :: "protocol \<Rightarrow> VolumeCapability option \<Rightarrow> unit res" where
  "capability_ok proto cap =
     (case Option.bind cap vc_Mount of
        None \<Rightarrow> Inl (EMsg ''only mounted filesystem volumes are supported'')
      | Some m \<Rightarrow>
          if vc_Mode (the cap) = mode_UNKNOWN then Inl (EMsg ''volume access mode is required'')
          else and_then (protocol_flags_ok proto (ToLower (TrimSpace (mv_FsType m))) (mv_MountFlags m)) (\<lambda>_.
               and_then (sanitizedMountFlags (mv_MountFlags m)) (\<lambda>_. Inr ())))"

fun capabilities_ok :: "protocol \<Rightarrow> VolumeCapability option list \<Rightarrow> unit res" where
  "capabilities_ok proto [] = Inr ()"
| "capabilities_ok proto (cap # caps) = and_then (capability_ok proto cap) (\<lambda>_. capabilities_ok proto caps)"

definition validateVolumeCapabilities :: "protocol \<Rightarrow> VolumeCapability option list \<Rightarrow> unit res" where
  "validateVolumeCapabilities proto caps =
     (if caps = [] then Inl (EMsg ''at least one volume capability is required'') else capabilities_ok proto caps)"

definition bool_text :: "bool \<Rightarrow> string" where
  "bool_text b = (if b then ''true'' else ''false'')"

definition volumeContextForHandle :: "volumeHandle \<Rightarrow> params" where
  "volumeContextForHandle h =
     [(''protocol'', vh_Protocol h), (''server'', vh_Server h)]
     @ (if vh_Protocol h = protocolNFS then [(''exportPath'', vh_ResourceName h), (''nfsVersion'', vh_NFSVersion h)]
        else [(''shareName'', vh_ResourceName h), (''encryptionRequired'', bool_text (vh_SMBEncrypted h))])"

definition equalStringMap :: "params \<Rightarrow> params \<Rightarrow> bool" where
  "equalStringMap left right \<longleftrightarrow> length left = length right \<and> list_all (\<lambda>(k, v). param right k = v) left"

definition volumeContextCompatible :: "params \<Rightarrow> params \<Rightarrow> bool" where
  "volumeContextCompatible request expected \<longleftrightarrow>
     list_all (\<lambda>(k, want). case map_of request k of None \<Rightarrow> True | Some got \<Rightarrow> got = want) expected"

section \<open>Create\<close>

definition with_backend :: "'v CsiDriver \<Rightarrow> string \<Rightarrow> string \<Rightarrow> params \<Rightarrow> (Connection \<Rightarrow> 'a io) \<Rightarrow> 'a io" where
  "with_backend d endpoint restPort secrets k =
     (case Connect d endpoint restPort secrets of Inl err \<Rightarrow> fail (toGRPCError err) | Inr c \<Rightarrow> k c)"

definition ensure_resource :: "Connection \<Rightarrow> volumeOptions \<Rightarrow> storageResource io" where
  "ensure_resource c opts =
     (if vo_Protocol opts = protocolNFS then EnsureNFS c opts
      else if vo_Protocol opts = protocolSMB then EnsureSMB c opts
      else ok \<lparr>sr_ID = [], sr_Name = [], sr_Path = []\<rparr>)"

definition create_quota :: "Connection \<Rightarrow> volumeOptions \<Rightarrow> string \<Rightarrow> int \<Rightarrow> int \<Rightarrow> int io" where
  "create_quota c opts fileID capacity limit =
     (if vo_QuotaEnabled opts \<and> capacity > 0 then
        andThen (as_grpc (EnsureQuotaAtLeast c fileID capacity)) (\<lambda>cap.
          if limit > 0 \<and> cap > limit
          then fail (EStatus AlreadyExists (''existing volume capacity '' @ itoa cap @ '' exceeds requested limit '' @ itoa limit))
          else ok cap)
      else ok capacity)"

definition create_handle :: "volumeOptions \<Rightarrow> string \<Rightarrow> storageResource \<Rightarrow> volumeHandle" where
  "create_handle opts fileID resource =
     \<lparr>vh_Protocol = vo_Protocol opts, vh_Endpoint = vo_Endpoint opts, vh_RESTPort = vo_RESTPort opts, vh_Server = vo_Server opts,
      vh_FSPath = vo_FSPath opts, vh_DirectoryID = fileID, vh_ResourceID = sr_ID resource, vh_ResourceName = sr_Name resource,
      vh_SpecFingerprint = volumeSpecFingerprint opts, vh_Capacity = 0, vh_QuotaEnabled = vo_QuotaEnabled opts,
      vh_DeleteData = vo_DeleteData opts, vh_NFSVersion = vo_NFSVersion opts, vh_SMBEncrypted = vo_SMBRequireEncryption opts\<rparr>"

definition finish_volume :: "Config \<Rightarrow> Connection \<Rightarrow> volumeHandle \<Rightarrow> int \<Rightarrow> CsiVolume io" where
  "finish_volume cfg c h capacity =
     andThen (as_grpc (ValidateVolume c h)) (\<lambda>_.
       case volumeHandle_encode h (cc_HandleKey cfg) of
         Inl err \<Rightarrow> fail (EStatus Internal (error_text err))
       | Inr volumeID \<Rightarrow> ok \<lparr>cv_VolumeId = volumeID, cv_CapacityBytes = capacity, cv_VolumeContext = volumeContextForHandle h\<rparr>)"

definition create_volume :: "'v CsiDriver \<Rightarrow> Connection \<Rightarrow> volumeOptions \<Rightarrow> int \<Rightarrow> int \<Rightarrow> CsiVolume io" where
  "create_volume d c opts capacity limit =
     andThen (as_grpc (EnsureVersion (cd_sv d) c (cc_VersionFloor (cd_cfg d)))) (\<lambda>_.
     andThen (as_grpc (CheckVolume c opts)) (\<lambda>_.
     andThen (as_grpc (EnsureDirectory c (vo_FSPath opts) [])) (\<lambda>attrs.
     if fa_ID attrs = [] then fail (EStatus Internal ''Qumulo returned no file ID for the volume directory'')
     else andThen (as_grpc (ensure_resource c opts)) (\<lambda>resource.
     if sr_ID resource = [] \<or> sr_Name resource = [] then fail (EStatus Internal ''Qumulo returned an incomplete file share identity'')
     else andThen (as_grpc (EnsureDirectory c (vo_FSPath opts) (vo_DirectoryMode opts))) (\<lambda>configured.
     if fa_ID configured \<noteq> fa_ID attrs
     then fail (EStatus FailedPrecondition ''volume directory identity changed while provisioning'')
     else andThen (create_quota c opts (fa_ID configured) capacity limit) (\<lambda>cap.
       finish_volume (cd_cfg d) c (create_handle opts (fa_ID configured) resource) cap))))))"

text \<open>What of a request is decided before any call: the options with the capacity.\<close>

definition create_options :: "Config \<Rightarrow> CreateVolumeRequest \<Rightarrow> (volumeOptions \<times> int) res" where
  "create_options cfg q =
     and_then (parseVolumeOptions cfg (cvq_Name q) (cvq_Parameters q)) (\<lambda>opts.
     and_then (validateVolumeCapabilities (vo_Protocol opts) (cvq_Capabilities q)) (\<lambda>_.
     and_then (requestedCapacity (cvq_CapacityRange q)) (\<lambda>capacity.
       Inr (opts\<lparr>vo_RequestedCapacity := capacity,
                 vo_CapacityLimit := (if cvq_CapacityRange q = None then vo_CapacityLimit opts else limit_bytes (cvq_CapacityRange q))\<rparr>,
            capacity))))"

definition CreateVolume :: "'v CsiDriver \<Rightarrow> CreateVolumeRequest \<Rightarrow> CsiVolume io" where
  "CreateVolume d q =
     (if \<not> controllerEnabled (cd_cfg d) then fail (EStatus Unimplemented ''controller service is disabled'')
      else if TrimSpace (cvq_Name q) = [] then fail (EStatus InvalidArgument ''volume name is required'')
      else if cvq_HasContentSource q
      then fail (EStatus InvalidArgument ''volume cloning and snapshot sources are not supported'')
      else valid_arg (create_options (cd_cfg d) q) (\<lambda>(opts, capacity).
        with_backend d (vo_Endpoint opts) (vo_RESTPort opts) (cvq_Secrets q) (\<lambda>c.
          create_volume d c opts capacity (limit_bytes (cvq_CapacityRange q)))))"

section \<open>Delete, validate, expand\<close>

definition with_handle :: "Config \<Rightarrow> string \<Rightarrow> (volumeHandle \<Rightarrow> 'a io) \<Rightarrow> 'a io" where
  "with_handle cfg i k =
     (if \<not> controllerEnabled cfg then fail (EStatus Unimplemented ''controller service is disabled'')
      else if TrimSpace i = [] then fail (EStatus InvalidArgument ''volume ID is required'')
      else valid_arg (decodeVolumeHandle i cfg) k)"

definition delete_without_data :: "Connection \<Rightarrow> volumeHandle \<Rightarrow> unit io" where
  "delete_without_data c h = do {
     p \<leftarrow> PrepareVolumeDeletion c h;
     case p of
       Inl err \<Rightarrow> if Is_sentinel err errVolumeResourceMissing then ok () else fail (toGRPCError err)
     | Inr _ \<Rightarrow> as_grpc (DeleteVolumeResource c h True) }"

definition delete_volume :: "Connection \<Rightarrow> volumeHandle \<Rightarrow> unit io" where
  "delete_volume c h =
     (if \<not> vh_DeleteData h then as_grpc (DeleteVolumeResource c h False)
      else do {
        r \<leftarrow> GetFileAttributes c (vh_FSPath h);
        case r of
          Inl err \<Rightarrow> if isAPINotFound err then delete_without_data c h else fail (toGRPCError err)
        | Inr attrs \<Rightarrow>
            if fa_ID attrs = [] then fail (EStatus Internal ''Qumulo returned no stable identity for the volume directory'')
            else if fa_ID attrs \<noteq> vh_DirectoryID h
            then fail (EStatus FailedPrecondition ''volume path now refers to a different filesystem object; refusing data deletion'')
            else andThen (as_grpc (PrepareVolumeDeletion c h)) (\<lambda>_.
                 andThen (as_grpc (TreeDelete c (fa_ID attrs))) (\<lambda>_.
                 as_grpc (DeleteVolumeResource c h True))) })"

definition DeleteVolume :: "'v CsiDriver \<Rightarrow> string \<Rightarrow> params \<Rightarrow> unit io" where
  "DeleteVolume d volumeId secrets =
     with_handle (cd_cfg d) volumeId (\<lambda>h. with_backend d (vh_Endpoint h) (vh_RESTPort h) secrets (\<lambda>c. delete_volume c h))"

definition ValidateVolumeCapabilities :: "'v CsiDriver \<Rightarrow> ValidateRequest \<Rightarrow> ValidateResponse io" where
  "ValidateVolumeCapabilities d q =
     with_handle (cd_cfg d) (vq_VolumeId q) (\<lambda>h.
       case validateVolumeCapabilities (vh_Protocol h) (vq_Capabilities q) of
         Inl err \<Rightarrow> ok (NotConfirmed (error_text err))
       | Inr _ \<Rightarrow>
           if vq_VolumeContext q \<noteq> [] \<and> \<not> volumeContextCompatible (vq_VolumeContext q) (volumeContextForHandle h)
           then ok (NotConfirmed ''volume context does not match the provisioned volume'')
           else with_backend d (vh_Endpoint h) (vh_RESTPort h) (vq_Secrets q) (\<lambda>c.
             andThen (as_grpc (ValidateVolume c h)) (\<lambda>_.
               ok (Confirmed (vq_Capabilities q) (if vq_VolumeContext q \<noteq> [] then Some (volumeContextForHandle h) else None)))))"

definition expand_volume :: "Connection \<Rightarrow> volumeHandle \<Rightarrow> int \<Rightarrow> int \<Rightarrow> int io" where
  "expand_volume c h capacity limit =
     andThen (as_grpc (ValidateVolume c h)) (\<lambda>_.
     andThen (as_grpc (EnsureQuotaAtLeast c (vh_DirectoryID h) capacity)) (\<lambda>cap.
       if limit > 0 \<and> cap > limit
       then fail (EStatus OutOfRange (''current volume capacity '' @ itoa cap @ '' exceeds requested limit '' @ itoa limit))
       else ok cap))"

definition ControllerExpandVolume :: "'v CsiDriver \<Rightarrow> ExpandRequest \<Rightarrow> int io" where
  "ControllerExpandVolume d q =
     with_handle (cd_cfg d) (xq_VolumeId q) (\<lambda>h.
       if xq_CapacityRange q = None then fail (EStatus InvalidArgument ''capacity range is required'')
       else valid_arg (case xq_Capability q of
              None \<Rightarrow> Inr () | Some cap \<Rightarrow> validateVolumeCapabilities (vh_Protocol h) [Some cap]) (\<lambda>_.
            valid_arg (requestedCapacity (xq_CapacityRange q)) (\<lambda>capacity.
            if \<not> vh_QuotaEnabled h
            then fail (EStatus FailedPrecondition ''volume quota is disabled; expansion cannot be enforced'')
            else with_backend d (vh_Endpoint h) (vh_RESTPort h) (xq_Secrets q) (\<lambda>c.
              expand_volume c h capacity (limit_bytes (xq_CapacityRange q))))))"

end
