(* ===== verification/Error_Kinds.thy ===== *)
theory Error_Kinds
  imports Trace_Logic
begin

text \<open>
  Which errors an operation can return.  The REST layer makes errors out of texts, context errors, answers of the cluster and wrappings of these;
  a kind of error that holds of those and survives wrapping therefore holds of every error of the layer.  The locale states that contract; its
  interpretation is that no such error carries a sentinel of the drivers.
\<close>

definition fails_with :: "(go_error \<Rightarrow> bool) \<Rightarrow> 'a io \<Rightarrow> bool" where
  "fails_with P m \<longleftrightarrow> emits m (\<lambda>_ r. \<forall>e. r = Inl e \<longrightarrow> P e)"

lemma fails_with_ok: "fails_with P (ok x)"
  by (simp add: fails_with_def emits_ret)

lemma fails_with_fail: "P e \<Longrightarrow> fails_with P (fail e)"
  by (simp add: fails_with_def emits_ret)

lemma fails_with_lift: "(\<And>e. r = Inl e \<Longrightarrow> P e) \<Longrightarrow> fails_with P (lift_res r)"
  by (simp add: fails_with_def lift_res_def emits_ret)

lemma fails_with_andThen: "fails_with P m \<Longrightarrow> (\<And>x. fails_with P (k x)) \<Longrightarrow> fails_with P (andThen m k)"
  unfolding fails_with_def by (rule emits_andThen, assumption) simp_all

lemma fails_with_bind: "emits m (\<lambda>_ _. True) \<Longrightarrow> (\<And>x. fails_with P (f x)) \<Longrightarrow> fails_with P (m \<bind> f)"
  unfolding fails_with_def by (rule emits_bind, assumption) simp

lemma fails_with_if: "(b \<Longrightarrow> fails_with P m) \<Longrightarrow> (\<not> b \<Longrightarrow> fails_with P n) \<Longrightarrow> fails_with P (if b then m else n)"
  by simp

lemma fails_with_case_prod: "(\<And>a b. p = (a, b) \<Longrightarrow> fails_with P (f a b)) \<Longrightarrow> fails_with P (case_prod f p)"
  by (cases p) simp

lemmas fails_with_rules = fails_with_ok fails_with_andThen fails_with_if fails_with_case_prod

locale error_kind =
  fixes P :: "go_error \<Rightarrow> bool"
  assumes msg: "P (EMsg m)" and ctx: "P (ECtx x)" and api: "P (EApi a)" and wrapped: "P e \<Longrightarrow> P (EWrap pre e post)"
begin

lemma errors_doLogin: "fails_with P (doLogin c)"
  unfolding doLogin_def
  by (intro fails_with_bind emits_http_any)
    (auto split: reply.split option.split intro!: fails_with_fail fails_with_ok fails_with_bind emits_putw msg ctx api wrapped)

lemma errors_relogin: "fails_with P (relogin c)"
  unfolding relogin_def by (intro fails_with_if fails_with_fail errors_doLogin api)

lemma errors_authorize: "fails_with P (authorize c)"
  unfolding authorize_def by (intro fails_with_bind fails_with_rules errors_relogin emits_getw_any)

lemma errors_sleepBackoff: "fails_with P (sleepBackoff c n)"
  unfolding sleepBackoff_def
  by (intro fails_with_bind emits_getw_any) (auto split: option.split intro!: fails_with_fail fails_with_bind fails_with_ok emits_emit ctx)

lemma errors_request_loop: "(\<And>e. err = Some e \<Longrightarrow> P e) \<Longrightarrow> fails_with P (request_loop c rq n relogged err)"
proof (induction n arbitrary: relogged err)
  case 0
  then show ?case by (auto split: option.split intro!: fails_with_fail msg)
next
  case (Suc n)
  have again: "fails_with P (request_loop c rq n b (Some e))" if "P e" for b e
    by (rule Suc.IH) (use that in simp)
  show ?case
    unfolding request_loop.simps Let_def
    by (intro fails_with_rules errors_sleepBackoff errors_authorize fails_with_bind emits_http_any)
      (auto split: reply.split intro!: fails_with_fail fails_with_ok fails_with_andThen errors_relogin again msg ctx api wrapped)
qed

lemma errors_DoJSON: "fails_with P (DoJSON c m p q h b out)"
  unfolding DoJSON_def
  by (intro fails_with_andThen errors_request_loop) (auto split: option.split intro!: fails_with_fail fails_with_ok msg)

lemma errors_call: "(\<And>x. fails_with P (k x)) \<Longrightarrow> fails_with P (andThen (DoJSON c m p q h b out) k)"
  by (intro fails_with_andThen errors_DoJSON)

end

interpretation unmarked: error_kind "\<lambda>e. \<forall>s. \<not> Is_sentinel e s"
  by unfold_locales simp_all

end
