(* ===== verification/Volume_Logic.thy ===== *)
theory Volume_Logic
  imports Csi_Backend Error_Kinds
begin

text \<open>
  What the volume operations of \<open>Csi_Backend\<close> send and learn.  A removal or a validation rests on readings of the very resource the handle
  names, under its durable id; the requests that change it carry the ETag of such a reading.
\<close>

section \<open>Requests and readings of a handle's resource\<close>

definition handle_get :: "volumeHandle \<Rightarrow> request" where
  "handle_get h = (if vh_Protocol h = protocolNFS then export_get (vh_ResourceID h) else share_get (vh_ResourceID h))"

definition describe_request :: "volumeHandle \<Rightarrow> string \<Rightarrow> string \<Rightarrow> request" where
  "describe_request h d etag =
     (if vh_Protocol h = protocolNFS
      then export_patch nfsExportsPath (vh_ResourceID h) (no_export_patch\<lparr>np_Description := Some d\<rparr>)
             \<lparr>nw_AllowFSPathCreate = False, nw_IfMatch = etag\<rparr>
      else share_patch (vh_ResourceID h) (no_share_patch\<lparr>sc_Description := Some d\<rparr>)
             \<lparr>sw_AllowFSPathCreate = False, sw_IfMatch = etag\<rparr>)"

definition delete_request :: "volumeHandle \<Rightarrow> string \<Rightarrow> request" where
  "delete_request h etag =
     (if vh_Protocol h = protocolNFS then export_delete (vh_ResourceID h) etag else share_delete (vh_ResourceID h) etag)"

text \<open>The resource \<open>x\<close>, with its ETag, was the answer to a reading of the handle's resource.\<close>

definition handle_read :: "volumeHandle \<Rightarrow> event list \<Rightarrow> volume_resource \<Rightarrow> bool" where
  "handle_read h es x \<longleftrightarrow>
     (if vh_Protocol h = protocolNFS then \<exists>e. export_answer (handle_get h) es e \<and> x = of_export e
      else \<exists>s. share_answer (handle_get h) es s \<and> x = of_share s)"

lemma handle_read_grows: "handle_read h es x \<Longrightarrow> handle_read h (es0 @ es @ es') x"
  unfolding handle_read_def by (auto split: if_splits intro: export_answer_grows share_answer_grows)

lemma handle_read_before: "handle_read h es x \<Longrightarrow> handle_read h (es @ es') x"
  using handle_read_grows [of h es x "[]"] by simp

lemma handle_read_after: "handle_read h es x \<Longrightarrow> handle_read h (es0 @ es) x"
  using handle_read_grows [of h es x es0 "[]"] by simp

lemma emits_read_resource:
  "emits (read_resource c h) (\<lambda>es r. case r of
     Inr x \<Rightarrow> handle_read h es x | Inl e \<Rightarrow> isAPINotFound e \<longrightarrow> not_found_answer (handle_get h) es)"
  unfolding read_resource_def handle_read_def handle_get_def
  by (intro emits_if; rule emits_andThen, rule emits_GetNFSExport emits_GetSMBShare) (auto intro!: emits_ret)

lemma emits_read_resource_ok: "emits (read_resource c h) (on_ok (handle_read h))"
  by (rule emits_weaken [OF emits_read_resource]) (auto simp: on_ok_def)

lemma sends_read_resource: "reads R \<Longrightarrow> sends R (read_resource c h)"
  unfolding read_resource_def by (intro io_rules sends_GetNFSExport sends_GetSMBShare)

lemma emits_describe_resource: "emits (describe_resource c h d etag) (on_ok (\<lambda>es _. was_seen (describe_request h d etag) es))"
proof -
  have e: "export_patch_root (no_export_patch\<lparr>np_Description := Some d\<rparr>) = nfsExportsPath"
    and s: "\<not> needs_v3_patch (no_share_patch\<lparr>sc_Description := Some d\<rparr>)"
    by (simp_all add: export_patch_root_def no_export_patch_def needs_v3_patch_def no_share_patch_def)
  have seen: "accepted rq es \<Longrightarrow> was_seen rq es" for rq es unfolding accepted_def using answered_was_seen by blast
  show ?thesis
    unfolding describe_resource_def describe_request_def
    by (intro emits_if; rule emits_andThen_ok, rule emits_PatchNFSExport emits_PatchSMBShare)
      (auto simp: e s share_patch_any_def intro!: emits_ok seen)
qed

lemma sends_describe_resource: "R (describe_request h d etag) \<Longrightarrow> sends R (describe_resource c h d etag)"
  unfolding describe_resource_def describe_request_def
  by (intro io_rules sends_PatchNFSExport sends_PatchSMBShare)
    (simp_all add: export_patch_root_def no_export_patch_def needs_v3_patch_def no_share_patch_def share_patch_any_def)

lemma emits_delete_call:
  "emits (andThen (DoJSON c ''DELETE'' p [] hdr None noOut) (\<lambda>_. ok ())) (\<lambda>es r. case r of
     Inr _ \<Rightarrow> was_seen (mk_request ''DELETE'' p [] hdr None) es
   | Inl e \<Rightarrow> isAPINotFound e \<longrightarrow> not_found_answer (mk_request ''DELETE'' p [] hdr None) es)"
  by (rule emits_call) (auto intro!: emits_ret dest: answered_was_seen not_found_seen')

lemma emits_delete_resource:
  "emits (delete_resource c h etag) (\<lambda>es r. case r of
     Inr _ \<Rightarrow> was_seen (delete_request h etag) es
   | Inl e \<Rightarrow> isAPINotFound e \<longrightarrow> not_found_answer (delete_request h etag) es)"
  unfolding delete_resource_def delete_request_def DeleteNFSExport_def DeleteSMBShare_def nfsExportRefPath_def smbShareRefPath_def
    export_delete_def share_delete_def
  by (auto intro!: emits_with_ref emits_delete_call simp: isAPINotFound_def)

lemma sends_delete_resource: "R (delete_request h etag) \<Longrightarrow> sends R (delete_resource c h etag)"
  unfolding delete_resource_def delete_request_def by (intro io_rules sends_DeleteNFSExport sends_DeleteSMBShare) simp_all

section \<open>Validation\<close>

text \<open>The resource is the handle's in every field the code compares, and carries the description \<open>d\<close>.\<close>

definition owned :: "volumeHandle \<Rightarrow> string \<Rightarrow> volume_resource \<Rightarrow> bool" where
  "owned h d x \<longleftrightarrow> same_resource h x \<and> vr_Description x = d"

definition directory_verified :: "volumeHandle \<Rightarrow> event list \<Rightarrow> bool" where
  "directory_verified h es \<longleftrightarrow> (\<exists>a. attrs_read (vh_FSPath h) es a \<and> fa_ID a = vh_DirectoryID h)"

definition validated :: "volumeHandle \<Rightarrow> event list \<Rightarrow> bool" where
  "validated h es \<longleftrightarrow> directory_verified h es \<and> (\<exists>x. handle_read h es x \<and> owned h (managedDescriptionForHandle h) x)"

lemma directory_verified_grows: "directory_verified h es \<Longrightarrow> directory_verified h (es0 @ es @ es')"
  unfolding directory_verified_def by (metis attrs_read_mono in_mono set_append subsetI Un_iff)

lemma validated_grows: "validated h es \<Longrightarrow> validated h (es0 @ es @ es')"
  unfolding validated_def using directory_verified_grows handle_read_grows by blast

lemma emits_ValidateVolume: "emits (ValidateVolume c h) (on_ok (\<lambda>es _. validated h es))"
  unfolding ValidateVolume_def
proof (intro emits_on_ok_andThen [OF emits_GetFileAttributes_ok] emits_if emits_fail
    emits_on_ok_andThen [OF emits_read_resource_ok], goal_cases)
  case (1 es a es' x)
  have "directory_verified h (es @ es')"
    using 1 attrs_read_mono [of "vh_FSPath h" es a "es @ es'"] unfolding directory_verified_def by auto
  moreover have "handle_read h (es @ es') x" using 1 handle_read_after by blast
  ultimately show ?case using 1 by (intro emits_ok) (auto simp: validated_def owned_def)
qed

lemma sends_ValidateVolume: "reads R \<Longrightarrow> sends R (ValidateVolume c h)"
  unfolding ValidateVolume_def by (intro io_rules sends_GetFileAttributes sends_read_resource)

section \<open>The deletion claim\<close>

text \<open>The resource was the handle's when it was read, and was read or written with the tombstone.\<close>

definition tombstoned :: "volumeHandle \<Rightarrow> event list \<Rightarrow> bool" where
  "tombstoned h es \<longleftrightarrow>
     (\<exists>x. handle_read h es x \<and>
        (owned h (volumeDeletionDescription h) x \<or>
         owned h (managedDescriptionForHandle h) x \<and> was_seen (describe_request h (volumeDeletionDescription h) (vr_ETag x)) es))"

text \<open>The one write of the claim: the tombstone, under the ETag of a reading of the handle's managed resource.\<close>

definition claim_permitted :: "volumeHandle \<Rightarrow> event list \<Rightarrow> request \<Rightarrow> bool" where
  "claim_permitted h es rq \<longleftrightarrow>
     (\<exists>x. handle_read h es x \<and> owned h (managedDescriptionForHandle h) x \<and>
        rq = describe_request h (volumeDeletionDescription h) (vr_ETag x))"

lemma was_seen_before: "was_seen rq es \<Longrightarrow> was_seen rq (es @ es')"
  unfolding was_seen_def using seen_before by blast

lemma tombstoned_grows: "tombstoned h es \<Longrightarrow> tombstoned h (es0 @ es @ es')"
  unfolding tombstoned_def using handle_read_grows was_seen_before was_seen_append by blast

lemma claim_permitted_before: "claim_permitted h es rq \<Longrightarrow> claim_permitted h (es @ es') rq"
  unfolding claim_permitted_def using handle_read_before by blast

lemma emits_prepare_loop: "emits (prepare_loop c h n) (on_ok (\<lambda>es _. tombstoned h es))"
proof (induction n)
  case 0
  show ?case by (simp add: emits_fail)
next
  case (Suc n)
  have again: "emits (prepare_loop c h n) (on_ok (\<lambda>es' _. tombstoned h (es @ es')))" for es
    by (rule emits_weaken [OF Suc.IH]) (auto simp: on_ok_def dest: tombstoned_grows [of h _ es "[]"])
  show ?case
    unfolding prepare_loop.simps
  proof (intro emits_if emits_fail emits_bind_ok [OF emits_read_resource_ok] emits_case_sum, goal_cases)
    case (1 es g x)
    then have "handle_read h es x" "owned h (volumeDeletionDescription h) x" by (simp_all add: owned_def)
    then show ?case by (intro emits_ok) (auto simp: tombstoned_def)
  next
    case (2 es g x)
    then have rd: "handle_read h es x" "owned h (managedDescriptionForHandle h) x" by (simp_all add: owned_def)
    show ?case
    proof (rule emits_bind_ok [OF emits_describe_resource], intro emits_case_sum emits_case_option emits_fail, goal_cases)
      case (1 es' r e)
      show ?case using again [of "es @ es'"] by simp
    next
      case (2 es' r u)
      then show ?case using rd handle_read_before was_seen_append
        by (intro emits_ok) (auto simp: tombstoned_def, blast)
    qed
  qed
qed

lemma emits_PrepareVolumeDeletion: "emits (PrepareVolumeDeletion c h) (on_ok (\<lambda>es _. tombstoned h es))"
  unfolding PrepareVolumeDeletion_def by (rule emits_prepare_loop)

text \<open>That the resource is missing is reported only when the cluster said so.\<close>

lemma unmarked_with_ref:
  "(\<And>p. fails_with (\<lambda>e. \<forall>s. \<not> Is_sentinel e s) (k p)) \<Longrightarrow>
    fails_with (\<lambda>e. \<forall>s. \<not> Is_sentinel e s) (andThen (lift_res (ref_path what root ref)) k)"
  by (intro fails_with_andThen fails_with_lift)
    (auto simp: ref_path_def andr_def rejectProtocolControlCharacters_def split: sum.splits if_splits)

lemma unmarked_resource:
  "fails_with (\<lambda>e. \<forall>s. \<not> Is_sentinel e s) (read_resource c h)"
  "fails_with (\<lambda>e. \<forall>s. \<not> Is_sentinel e s) (describe_resource c h d etag)"
  unfolding read_resource_def describe_resource_def GetNFSExport_def GetSMBShare_def PatchNFSExport_def PatchSMBShare_def
    PatchNFSExportV3Preview_def PatchSMBShareV3Preview_def nfsExportRefPath_def nfsExportV3RefPath_def smbShareRefPath_def
    smbShareV3RefPath_def export_call_def share_call_def tagged_call_def Let_def
  by (intro fails_with_rules unmarked_with_ref unmarked.errors_DoJSON)+

lemma emits_read_resource_errors:
  "emits (read_resource c h) (\<lambda>es r. case r of
     Inr x \<Rightarrow> True | Inl e \<Rightarrow> (isAPINotFound e \<longrightarrow> not_found_answer (handle_get h) es) \<and> (\<forall>s. \<not> Is_sentinel e s))"
  by (rule emits_weaken [OF emits_conj [OF emits_read_resource unmarked_resource(1) [unfolded fails_with_def]]])
    (auto split: sum.splits)

lemma emits_prepare_missing:
  "emits (prepare_loop c h n) (\<lambda>es r. \<forall>e. r = Inl e \<longrightarrow> Is_sentinel e errVolumeResourceMissing \<longrightarrow> not_found_answer (handle_get h) es)"
proof (induction n)
  case 0
  show ?case by (simp add: emits_ret)
next
  case (Suc n)
  let ?Q = "\<lambda>es r. \<forall>e. r = Inl e \<longrightarrow> Is_sentinel e errVolumeResourceMissing \<longrightarrow> not_found_answer (handle_get h) es"
  have again: "emits (prepare_loop c h n) (\<lambda>es'. ?Q (es @ es'))" for es
    by (rule emits_weaken [OF Suc.IH]) (blast intro: not_found_after)
  have none: "\<not> Is_sentinel e errVolumeResourceMissing"
    if "classifyDeletionClaimWriteError err = Some e" "\<forall>s. \<not> Is_sentinel err s" for err e
    using that by (auto simp: classifyDeletionClaimWriteError_def sentinel_error_def split: option.splits if_splits)
  show ?case
    unfolding prepare_loop.simps
  proof (rule emits_if, goal_cases)
    case 2
    show ?case
    proof (rule emits_bind [OF emits_read_resource_errors], rule emits_case_sum, goal_cases)
      case (1 es g e)
      then show ?case by (intro emits_ret) (auto simp: deletionClaimReadError_def sentinel_error_def)
    next
      case (2 es g x)
      show ?case
      proof (intro emits_if, goal_cases)
        case 4
        show ?case
          by (rule emits_bind [OF unmarked_resource(2) [unfolded fails_with_def]])
            (auto split: sum.split option.split intro!: emits_ret again [of "es @ es'" for es', simplified] dest: none)
      qed (simp_all add: emits_ret sentinel_error_def)
    qed
  qed (simp add: emits_ret sentinel_error_def)
qed

lemma lawful_prepare_loop:
  assumes P: "lasting P" "\<And>h. reads (P h)" "\<And>es rq. claim_permitted h (hist @ es) rq \<Longrightarrow> P (hist @ es) rq"
  shows "lawful P hist (prepare_loop c h n)"
  using P(3)
proof (induction n arbitrary: hist)
  case (Suc n)
  have again: "lawful P (hist @ es) (prepare_loop c h n)" for es
    by (rule Suc.IH) (use Suc.prems [of "es @ es'" for es'] in simp)
  show ?case
    unfolding prepare_loop.simps
  proof (intro lawful_rules lawful_bind [OF lawful_sends [OF P(1) sends_read_resource [OF P(2)]] emits_read_resource_ok], goal_cases)
    case (1 es g x)
    then have "claim_permitted h (hist @ es) (describe_request h (volumeDeletionDescription h) (vr_ETag x))"
      using handle_read_after unfolding claim_permitted_def owned_def by (auto intro!: exI [of _ x])
    then have "sends (P (hist @ es)) (describe_resource c h (volumeDeletionDescription h) (vr_ETag x))"
      by (intro sends_describe_resource Suc.prems)
    then show ?case
      by (intro lawful_bind_any [OF lawful_sends [OF P(1)]]) (assumption | intro lawful_rules | use again [of "es @ es'" for es'] in simp)+
  qed
qed (simp only: prepare_loop.simps lawful_ret)

lemma lawful_PrepareVolumeDeletion:
  assumes "lasting P" "\<And>h. reads (P h)" "\<And>es rq. claim_permitted h (hist @ es) rq \<Longrightarrow> P (hist @ es) rq"
  shows "lawful P hist (PrepareVolumeDeletion c h)"
  unfolding PrepareVolumeDeletion_def by (rule lawful_prepare_loop [OF assms])

section \<open>Deleting the resource\<close>

definition deletion_marker :: "volumeHandle \<Rightarrow> bool \<Rightarrow> string" where
  "deletion_marker h claimed = (if claimed then volumeDeletionDescription h else managedDescriptionForHandle h)"

definition removal_permitted :: "volumeHandle \<Rightarrow> string \<Rightarrow> event list \<Rightarrow> request \<Rightarrow> bool" where
  "removal_permitted h d es rq \<longleftrightarrow> (\<exists>x. handle_read h es x \<and> owned h d x \<and> rq = delete_request h (vr_ETag x))"

lemma removal_permitted_before: "removal_permitted h d es rq \<Longrightarrow> removal_permitted h d (es @ es') rq"
  unfolding removal_permitted_def using handle_read_before by blast

text \<open>The resource was reported missing, or its deletion was accepted.\<close>

definition resource_gone :: "volumeHandle \<Rightarrow> event list \<Rightarrow> bool" where
  "resource_gone h es \<longleftrightarrow>
     not_found_answer (handle_get h) es \<or> (\<exists>etag. was_seen (delete_request h etag) es \<or> not_found_answer (delete_request h etag) es)"

lemma resource_gone_after: "resource_gone h es \<Longrightarrow> resource_gone h (es0 @ es)"
  unfolding resource_gone_def using not_found_after was_seen_append by blast

lemma conditional_delete_done: "classifyConditionalDeleteError e = (retry, True) \<Longrightarrow> isAPINotFound e"
  by (auto simp: classifyConditionalDeleteError_def isAPINotFound_def split: option.splits if_splits)

lemma emits_delete_loop: "emits (delete_loop c h d n) (on_ok (\<lambda>es _. resource_gone h es))"
proof (induction n)
  case 0
  show ?case by (simp add: emits_fail)
next
  case (Suc n)
  have again: "emits (delete_loop c h d n) (on_ok (\<lambda>es' _. resource_gone h (es @ es')))" for es
    by (rule emits_weaken [OF Suc.IH]) (auto simp: on_ok_def intro: resource_gone_after)
  show ?case
    unfolding delete_loop.simps
  proof (intro emits_if emits_fail emits_bind_ok [OF emits_read_resource] emits_case_sum, goal_cases)
    case (1 es g e)
    then show ?case by (intro emits_ok) (simp add: resource_gone_def)
  next
    case (2 es g x)
    show ?case
    proof (rule emits_bind_ok [OF emits_delete_resource], rule emits_case_sum, goal_cases)
      case (1 es' r e)
      have gone: "resource_gone h (es @ es')" if "classifyConditionalDeleteError e = (b, True)" for b
        using 1 conditional_delete_done [OF that] resource_gone_after [of h es' es] by (auto simp: resource_gone_def)
      show ?case
        using again [of "es @ es'"] gone by (auto split: prod.split intro!: emits_ok emits_fail)
    next
      case (2 es' r u)
      then show ?case using resource_gone_after [of h es' es] by (intro emits_ok) (auto simp: resource_gone_def)
    qed
  qed
qed

lemma emits_DeleteVolumeResource: "emits (DeleteVolumeResource c h b) (on_ok (\<lambda>es _. resource_gone h es))"
  unfolding DeleteVolumeResource_def by (rule emits_delete_loop)

lemma lawful_delete_loop:
  assumes P: "lasting P" "\<And>h. reads (P h)" "\<And>es rq. removal_permitted h d (hist @ es) rq \<Longrightarrow> P (hist @ es) rq"
  shows "lawful P hist (delete_loop c h d n)"
  using P(3)
proof (induction n arbitrary: hist)
  case (Suc n)
  have again: "lawful P (hist @ es) (delete_loop c h d n)" for es
    by (rule Suc.IH) (use Suc.prems [of "es @ es'" for es'] in simp)
  show ?case
    unfolding delete_loop.simps
  proof (intro lawful_rules lawful_bind [OF lawful_sends [OF P(1) sends_read_resource [OF P(2)]] emits_read_resource_ok], goal_cases)
    case (1 es g x)
    then have "removal_permitted h d (hist @ es) (delete_request h (vr_ETag x))"
      using handle_read_after unfolding removal_permitted_def owned_def by (auto intro!: exI [of _ x])
    then have "sends (P (hist @ es)) (delete_resource c h (vr_ETag x))"
      by (intro sends_delete_resource Suc.prems)
    then show ?case
      by (intro lawful_bind_any [OF lawful_sends [OF P(1)]]) (assumption | intro lawful_rules | use again [of "es @ es'" for es'] in simp)+
  qed
qed (simp only: delete_loop.simps lawful_ret)

lemma lawful_DeleteVolumeResource:
  assumes "lasting P" "\<And>h. reads (P h)"
    "\<And>es rq. removal_permitted h (deletion_marker h b) (hist @ es) rq \<Longrightarrow> P (hist @ es) rq"
  shows "lawful P hist (DeleteVolumeResource c h b)"
  unfolding DeleteVolumeResource_def deletion_marker_def [symmetric] by (rule lawful_delete_loop [OF assms])

end
