(* ===== verification/Directory_Logic.thy ===== *)
theory Directory_Logic
  imports Directories Claims
begin

text \<open>
  What \<open>EnsureDirectory\<close> sends: directories are created only on the cleaned path, one component below the other, each after its absence was
  reported, and the mode of an existing directory is changed only when one is asked for.
\<close>

text \<open>The path of a list of components.\<close>

definition seg_path :: "string list \<Rightarrow> string" where
  "seg_path ss = ''/'' @ Join ss ''/''"

lemma Join_snoc: "xs \<noteq> [] \<Longrightarrow> Join (xs @ [x]) sep = Join xs sep @ sep @ x"
  by (simp add: Join_append)

lemma joinFSPath_seg:
  assumes "list_all plain_seg ss"
  shows "joinFSPath (seg_path ss) s = seg_path (ss @ [s])"
proof (cases ss rule: rev_cases)
  case Nil
  then show ?thesis by (simp add: joinFSPath_def seg_path_def)
next
  case (snoc xs x)
  then have x: "x \<noteq> []" "CHR ''/'' \<notin> set x" using assms by (auto simp: plain_seg_def)
  then have l: "last x \<noteq> CHR ''/''" by (metis last_in_set)
  define p where "p = seg_path ss"
  have "\<exists>q. p = ''/'' @ q @ x" by (cases "xs = []") (simp_all add: p_def snoc seg_path_def Join_snoc)
  then have p: "p \<noteq> ''/''" "last p = last x" "p \<noteq> []" using x by auto
  have "rev p = last p # rev (butlast p)" using p(3) by (metis append_butlast_last_id rev.simps(2) rev_rev_ident)
  then have "TrimRight p ''/'' = p" using p l unfolding TrimRight_def by (metis dropWhile.simps(2) empty_set list.simps(15) rev_rev_ident singletonD)
  then have "joinFSPath p s = p @ ''/'' @ s" using p(1) by (simp add: joinFSPath_def)
  then show ?thesis using Join_snoc [of ss s "''/''"] unfolding p_def by (simp add: seg_path_def snoc)
qed

lemma seg_path_prefix: "HasPrefix (seg_path (xs @ ys)) (seg_path xs)"
  by (cases "xs = []"; cases "ys = []") (simp_all add: seg_path_def Join_append HasPrefix_iff)

definition dir_permitted :: "string \<Rightarrow> event list \<Rightarrow> request \<Rightarrow> bool" where
  "dir_permitted clean es rq \<longleftrightarrow>
     (\<exists>parent name. rq = create_dir_request parent name \<and> HasPrefix clean (joinFSPath parent name) \<and>
        not_found_answer (attrs_get (joinFSPath parent name)) es)"

lemma dir_permitted_before: "dir_permitted p es rq \<Longrightarrow> dir_permitted p (es @ es') rq"
  unfolding dir_permitted_def by (metis not_found_mono set_append sup_ge1)

lemma sends_CreateDirectory: "R (create_dir_request parent name) \<Longrightarrow> sends R (CreateDirectory c parent name)"
  unfolding CreateDirectory_def create_dir_request_def by (intro io_rules sends_DoJSON)

lemma lawful_ensure_loop:
  assumes P: "lasting P" "\<And>h. reads (P h)" "\<And>es rq. dir_permitted (seg_path (before @ rest)) es rq \<Longrightarrow> P es rq"
    and plain: "list_all plain_seg (before @ rest)"
  shows "lawful P h (ensure_loop c (seg_path before) attrs rest)"
  using P(3) plain
proof (induction rest arbitrary: before attrs h)
  case Nil
  show ?case by (simp only: ensure_loop.simps lawful_ret)
next
  case (Cons x rest)
  have nxt: "joinFSPath (seg_path before) x = seg_path (before @ [x])" using Cons.prems(2) by (intro joinFSPath_seg) simp
  have again: "lawful P h (ensure_loop c (seg_path (before @ [x])) a rest)" for h a
    by (rule Cons.IH) (use Cons.prems in simp_all)
  have get: "lawful P h (GetFileAttributes c p)" for h p by (intro lawful_sends [OF P(1)] sends_GetFileAttributes P(2))
  have gone: "emits (GetFileAttributes c p) (\<lambda>es r. \<forall>e. r = Inl e \<longrightarrow> isAPINotFound e \<longrightarrow> not_found_answer (attrs_get p) es)" for p
    by (rule emits_weaken [OF emits_GetFileAttributes]) (auto split: sum.splits)
  have create: "lawful P h (CreateDirectory c (seg_path before) x)" if "not_found_answer (attrs_get (seg_path (before @ [x]))) h" for h
  proof -
    have "dir_permitted (seg_path (before @ x # rest)) h (create_dir_request (seg_path before) x)"
      using that nxt seg_path_prefix [of "before @ [x]" rest] unfolding dir_permitted_def by (intro exI conjI) auto
    then show ?thesis using Cons.prems(1) by (intro lawful_sends [OF P(1)] sends_CreateDirectory)
  qed
  show ?case
    unfolding ensure_loop.simps Let_def nxt
  proof (rule lawful_bind [OF get gone], intro lawful_rules lawful_andThen_any again, goal_cases)
    case (1 es g e)
    then have "not_found_answer (attrs_get (seg_path (before @ [x]))) (h @ es)" by (auto elim: not_found_mono)
    then show ?case
      by (intro lawful_bind_any [OF create]) (assumption | intro lawful_rules lawful_bind_any get lawful_andThen_any again)+
  qed
qed

lemma lawful_EnsureDirectory:
  assumes P: "lasting P" "\<And>h. reads (P h)" "\<And>es rq. dir_permitted (path_Clean p) es rq \<Longrightarrow> P es rq"
    and mode: "\<And>es. mode \<noteq> [] \<Longrightarrow> P (h @ es) (mode_patch (path_Clean p) mode)"
  shows "lawful P h (EnsureDirectory c p mode)"
proof -
  have "lawful P h (if path_Clean p = ''/'' then GetFileAttributes c (path_Clean p)
      else andThen (ensure_loop c ''/'' None (Split (TrimPrefix (path_Clean p) ''/'') (CHR ''/''))) (\<lambda>attrs.
         case attrs of
           None \<Rightarrow> fail (EMsg (''ensure directory '' @ path_Clean p @ '' returned no attributes''))
         | Some a \<Rightarrow>
             if mode \<noteq> [] \<and> fa_Mode a \<noteq> mode then
               andThen (wrap (''set directory mode on '' @ path_Clean p @ '': '') (PatchFileMode c (path_Clean p) mode)) (\<lambda>_. ok (a\<lparr>fa_Mode := mode\<rparr>))
             else ok a))" if abs: "HasPrefix p ''/''"
  proof (rule lawful_if)
    assume ne: "path_Clean p \<noteq> ''/''"
    obtain ss where ss: "list_all plain_seg ss" "path_Clean p = seg_path ss"
      using path_Clean_rooted [OF abs] unfolding seg_path_def by blast
    have "ss \<noteq> []" using ne ss(2) by (auto simp: seg_path_def)
    then have split: "Split (TrimPrefix (path_Clean p) ''/'') (CHR ''/'') = ss"
      unfolding ss(2) seg_path_def TrimPrefix_append by (intro Split_Join plain_no_slash [OF ss(1)])
    have "lawful P h (ensure_loop c (seg_path []) None ss)"
      by (rule lawful_ensure_loop [OF P(1,2)]) (use P(3) ss in simp_all)
    then have "lawful P h (ensure_loop c ''/'' None ss)" by (simp add: seg_path_def)
    then show "lawful P h (andThen (ensure_loop c ''/'' None (Split (TrimPrefix (path_Clean p) ''/'') (CHR ''/''))) (\<lambda>attrs.
         case attrs of
           None \<Rightarrow> fail (EMsg (''ensure directory '' @ path_Clean p @ '' returned no attributes''))
         | Some a \<Rightarrow>
             if mode \<noteq> [] \<and> fa_Mode a \<noteq> mode then
               andThen (wrap (''set directory mode on '' @ path_Clean p @ '': '') (PatchFileMode c (path_Clean p) mode)) (\<lambda>_. ok (a\<lparr>fa_Mode := mode\<rparr>))
             else ok a))"
      unfolding split
      by (rule lawful_andThen_any) (intro lawful_rules lawful_andThen_any lawful_sends [OF P(1)] sends_PatchFileMode mode, auto)
  qed (intro lawful_sends [OF P(1)] sends_GetFileAttributes P(2))
  then show ?thesis
    unfolding EnsureDirectory_def
    by (cases "cleanFSPath p") (auto simp: andThen_lift lawful_ret cleanFSPath_def Let_def split: if_splits)
qed

section \<open>What is known of the directory\<close>

text \<open>The attributes of a directory were read or answered to its creation.\<close>

definition dir_made :: "string \<Rightarrow> event list \<Rightarrow> string \<Rightarrow> bool" where
  "dir_made p es i \<longleftrightarrow>
     (\<exists>parent name etag raw j a. joinFSPath parent name = p \<and> seen (create_dir_request parent name) es etag raw j \<and>
        into no_attrs decode_attrs raw j = Some a \<and> fa_ID a = i)"

definition dir_known :: "string \<Rightarrow> event list \<Rightarrow> string \<Rightarrow> bool" where
  "dir_known p es i \<longleftrightarrow> (\<exists>a. attrs_read p es a \<and> fa_ID a = i) \<or> dir_made p es i"

lemma dir_known_grows: "dir_known p es i \<Longrightarrow> dir_known p (es0 @ es @ es') i"
  unfolding dir_known_def dir_made_def using seen_inside
  by (metis attrs_read_mono le_sup_iff set_append sup.cobounded2 sup_ge1)

lemma dir_known_after: "dir_known p es i \<Longrightarrow> dir_known p (es0 @ es) i"
  using dir_known_grows [of p es i es0 "[]"] by simp

lemma emits_CreateDirectory: "emits (CreateDirectory c parent name) (on_ok (\<lambda>es a. dir_known (joinFSPath parent name) es (fa_ID a)))"
  unfolding CreateDirectory_def
proof (rule emits_on_ok_andThen [where P = "\<lambda>es _. es = []"], goal_cases)
  case 1
  show ?case unfolding lift_res_def by (rule emits_ret) (simp add: on_ok_def)
next
  case (2 es u)
  show ?case
  proof (rule emits_call_ok, fold create_dir_request_def, goal_cases)
    case (1 es' etag a raw j)
    then have "dir_made (joinFSPath parent name) es' (fa_ID a)" unfolding dir_made_def using answered_seen by blast
    then show ?case using 2 by (simp add: Let_def emits_ok dir_known_def)
  qed
qed

lemma emits_ensure_loop:
  "emits (ensure_loop c cur attrs rest)
     (on_ok (\<lambda>es r. \<forall>a. r = Some a \<longrightarrow> rest = [] \<and> attrs = Some a \<or> dir_known (foldl joinFSPath cur rest) es (fa_ID a)))"
proof (induction rest arbitrary: cur attrs)
  case Nil
  then show ?case by (simp add: emits_ok)
next
  case (Cons x rest)
  let ?nxt = "joinFSPath cur x" and ?p = "foldl joinFSPath (joinFSPath cur x) rest"
  have again: "emits (andThen (lift_res (requireDirectory a ?nxt)) (\<lambda>_. ensure_loop c ?nxt (Some a) rest))
      (on_ok (\<lambda>es' r. \<forall>a. r = Some a \<longrightarrow> dir_known ?p (es @ es') (fa_ID a)))" if "dir_known ?nxt es (fa_ID a)" for a es
  proof (rule emits_on_ok_andThen [where P = "\<lambda>es' _. es' = []"], goal_cases)
    case 1
    show ?case unfolding lift_res_def by (rule emits_ret) (simp add: on_ok_def)
  next
    case (2 es' u)
    show ?case
      by (rule emits_weaken [OF Cons.IH]) (use 2 that dir_known_after dir_known_grows [of ?nxt es "fa_ID a" "[]"] in \<open>auto simp: on_ok_def\<close>)
  qed
  have get: "emits (GetFileAttributes c p) (on_ok (\<lambda>es a. dir_known p es (fa_ID a)))" for p
    by (rule emits_weaken [OF emits_GetFileAttributes_ok]) (auto simp: on_ok_def dir_known_def)
  have made: "emits (case r of
        Inr a \<Rightarrow> ok a
      | Inl cerr \<Rightarrow> do { g2 \<leftarrow> GetFileAttributes c ?nxt;
          case g2 of Inl _ \<Rightarrow> fail (EWrap (''create directory '' @ ?nxt @ '': '') cerr []) | Inr a \<Rightarrow> ok a })
      (on_ok (\<lambda>es' a. dir_known ?nxt (es @ es') (fa_ID a)))" if "on_ok (\<lambda>es a. dir_known ?nxt es (fa_ID a)) es r" for es r
    using that dir_known_after
    by (cases r) (auto intro!: emits_ok emits_bind_ok [OF get] emits_fail split: sum.split)
  show ?case
    unfolding ensure_loop.simps Let_def
  proof (rule emits_bind_ok [OF get], rule emits_case_sum, rule emits_if, goal_cases)
    case (2 es g e)
    show ?case
    proof (rule emits_bind_ok [OF emits_CreateDirectory], rule emits_bind_ok [OF made], assumption, goal_cases)
      case (1 es1 r es2 created)
      show ?case
      proof (rule emits_case_sum, rule emits_fail, goal_cases)
        case (1 a)
        have "dir_known ?nxt (es @ es1 @ es2) (fa_ID a)" using \<open>on_ok _ es2 created\<close> 1 dir_known_after by auto
        from again [OF this] show ?case by simp
      qed
    qed
  next
    case (3 es g a)
    then show ?case using again [of es a] by simp
  qed (rule emits_fail)
qed

lemma foldl_joinFSPath: "list_all plain_seg (before @ ss) \<Longrightarrow> foldl joinFSPath (seg_path before) ss = seg_path (before @ ss)"
proof (induction ss arbitrary: before)
  case (Cons s ss)
  then show ?case using Cons.IH [of "before @ [s]"] joinFSPath_seg [of before s] by simp
qed simp

lemma emits_EnsureDirectory: "emits (EnsureDirectory c p mode) (on_ok (\<lambda>es a. dir_known (path_Clean p) es (fa_ID a)))"
proof (cases "HasPrefix p ''/''")
  case True
  obtain ss where ss: "list_all plain_seg ss" "path_Clean p = seg_path ss"
    using path_Clean_rooted [OF True] unfolding seg_path_def by blast
  have "emits (if path_Clean p = ''/'' then GetFileAttributes c (path_Clean p)
      else andThen (ensure_loop c ''/'' None (Split (TrimPrefix (path_Clean p) ''/'') (CHR ''/''))) (\<lambda>attrs.
         case attrs of
           None \<Rightarrow> fail (EMsg (''ensure directory '' @ path_Clean p @ '' returned no attributes''))
         | Some a \<Rightarrow>
             if mode \<noteq> [] \<and> fa_Mode a \<noteq> mode then
               andThen (wrap (''set directory mode on '' @ path_Clean p @ '': '') (PatchFileMode c (path_Clean p) mode)) (\<lambda>_. ok (a\<lparr>fa_Mode := mode\<rparr>))
             else ok a)) (on_ok (\<lambda>es a. dir_known (path_Clean p) es (fa_ID a)))"
  proof (rule emits_if)
    assume "path_Clean p \<noteq> ''/''"
    then have ne: "ss \<noteq> []" using ss(2) by (auto simp: seg_path_def)
    then have split: "Split (TrimPrefix (path_Clean p) ''/'') (CHR ''/'') = ss"
      unfolding ss(2) seg_path_def TrimPrefix_append by (intro Split_Join plain_no_slash [OF ss(1)])
    have path: "foldl joinFSPath ''/'' ss = path_Clean p" using foldl_joinFSPath [of "[]" ss] ss by (simp add: seg_path_def)
    have loop: "emits (ensure_loop c ''/'' None ss) (on_ok (\<lambda>es r. \<forall>a. r = Some a \<longrightarrow> dir_known (path_Clean p) es (fa_ID a)))"
      by (rule emits_weaken [OF emits_ensure_loop]) (use path in \<open>auto simp: on_ok_def\<close>)
    have any: "emits (wrap pre (PatchFileMode c q m)) (on_ok (\<lambda>_ _. True))" for pre q m
      unfolding PatchFileMode_def by (rule emits_on_ok_wrap, rule emits_call_ok) (auto intro!: emits_ok)
    show "emits (andThen (ensure_loop c ''/'' None (Split (TrimPrefix (path_Clean p) ''/'') (CHR ''/''))) (\<lambda>attrs.
         case attrs of
           None \<Rightarrow> fail (EMsg (''ensure directory '' @ path_Clean p @ '' returned no attributes''))
         | Some a \<Rightarrow>
             if mode \<noteq> [] \<and> fa_Mode a \<noteq> mode then
               andThen (wrap (''set directory mode on '' @ path_Clean p @ '': '') (PatchFileMode c (path_Clean p) mode)) (\<lambda>_. ok (a\<lparr>fa_Mode := mode\<rparr>))
             else ok a)) (on_ok (\<lambda>es a. dir_known (path_Clean p) es (fa_ID a)))"
      unfolding split
    proof (rule emits_on_ok_andThen [OF loop], rule emits_case_option, rule emits_fail, rule emits_if, goal_cases)
      case (1 es attrs a)
      then show ?case by (intro emits_on_ok_andThen [OF any]) (auto intro!: emits_ok simp: dir_known_grows [of _ _ _ "[]", simplified])
    next
      case (2 es attrs a)
      then show ?case by (intro emits_ok) simp
    qed
  qed (rule emits_weaken [OF emits_GetFileAttributes_ok], auto simp: on_ok_def dir_known_def)
  then show ?thesis
    unfolding EnsureDirectory_def
    by (cases "cleanFSPath p") (auto simp: andThen_lift emits_fail cleanFSPath_def Let_def split: if_splits)
next
  case False
  then show ?thesis unfolding EnsureDirectory_def by (simp add: cleanFSPath_def andThen_lift emits_fail)
qed

end
