(* ===== verification/Csi_Control.thy ===== *)
theory Csi_Control
  imports Csi_Driver Volume_Logic Directory_Logic Status_Map
begin

text \<open>
  What the controller calls of \<open>Csi_Driver\<close> guarantee.  A deletion destroys nothing before the handle's directory was verified and the
  handle's resource claimed; an expansion grows only the quota of a validated volume, within the limits of the request; every error carries a status.
\<close>

section \<open>Calls\<close>

lemma emits_as_grpc: "emits m (on_ok P) \<Longrightarrow> emits (as_grpc m) (on_ok P)"
  unfolding as_grpc_def by (rule emits_bind, assumption, rule emits_ret) (simp add: on_ok_def split: sum.split)

lemma lawful_as_grpc: "lawful P h m \<Longrightarrow> lawful P h (as_grpc m)"
  unfolding as_grpc_def by (rule lawful_bind_any) (auto intro: lawful_ret)

lemma silent_fail: "run_state (fail e) w = (r, w') \<Longrightarrow> r = Inl e \<and> w' = w"
  by simp

text \<open>A call on a handle reaches the cluster only for a handle that decodes.\<close>

lemma run_with_handle:
  assumes "run_state (with_handle cfg i k) w = (r, w')"
  shows "(\<exists>e. r = Inl e) \<and> w' = w \<or> (\<exists>h. decodeVolumeHandle i cfg = Inr h \<and> run_state (k h) w = (r, w'))"
  using assms by (auto simp: with_handle_def valid_arg_def split: if_splits sum.splits)

lemma run_with_backend:
  assumes "run_state (with_backend d e p s k) w = (r, w')"
  shows "(\<exists>err. r = Inl err) \<and> w' = w \<or> (\<exists>c. Connect d e p s = Inr c \<and> run_state (k c) w = (r, w'))"
  using assms by (auto simp: with_backend_def split: sum.splits)

section \<open>Deletion\<close>

definition data_gone :: "volumeHandle \<Rightarrow> event list \<Rightarrow> bool" where
  "data_gone h es \<longleftrightarrow> deletion_observed (vh_DirectoryID h) es \<or> not_found_answer (attrs_get (vh_FSPath h)) es"

lemma emits_TreeDelete: "emits (TreeDelete c f) (on_ok (\<lambda>es _. deletion_observed f es))"
  unfolding TreeDelete_def by (rule emits_treeDelete)

lemma deletion_observed_grows: "deletion_observed f es \<Longrightarrow> deletion_observed f (es0 @ es @ es')"
proof -
  assume "deletion_observed f es"
  then consider "not_found_answer (job_post f) es" | es1 es2 where "es = es1 @ es2" "job_known f es1" "not_found_answer (job_get f) es2"
    unfolding deletion_observed_def by blast
  then show ?thesis
  proof cases
    case 1
    then have "not_found_answer (job_post f) (es0 @ es @ es')" by (rule not_found_mono) auto
    then show ?thesis by (simp add: deletion_observed_def)
  next
    case 2
    then have "job_known f (es0 @ es1)" "not_found_answer (job_get f) (es2 @ es')"
      using job_known_append not_found_before by blast+
    then show ?thesis unfolding deletion_observed_def 2(1) by (metis append.assoc)
  qed
qed

lemma data_gone_grows: "data_gone h es \<Longrightarrow> data_gone h (es0 @ es @ es')"
  unfolding data_gone_def using deletion_observed_grows not_found_before not_found_after by blast

lemma data_gone_before: "data_gone h es \<Longrightarrow> data_gone h (es @ es')"
  using data_gone_grows [of h es "[]"] by simp

lemma data_gone_after: "data_gone h es \<Longrightarrow> data_gone h (es0 @ es)"
  using data_gone_grows [of h es es0 "[]"] by simp

text \<open>The requests of a deletion, each with what must have happened before: without data, only the removal of the handle's managed resource;
  with data, first the tombstone, then, for the directory the handle names and only if it was seen at its path, its deletion, and the removal
  of the tombstoned resource once the data is gone.\<close>

definition place_checked :: "volumeHandle \<Rightarrow> event list \<Rightarrow> bool" where
  "place_checked h es \<longleftrightarrow> directory_verified h es \<or> not_found_answer (attrs_get (vh_FSPath h)) es"

definition volume_deletion_permitted :: "volumeHandle \<Rightarrow> event list \<Rightarrow> request \<Rightarrow> bool" where
  "volume_deletion_permitted h es rq \<longleftrightarrow>
     rq_method rq = ''GET''
     \<or> \<not> vh_DeleteData h \<and> removal_permitted h (managedDescriptionForHandle h) es rq
     \<or> vh_DeleteData h \<and> claim_permitted h es rq \<and> place_checked h es
     \<or> vh_DeleteData h \<and> rq = job_post (vh_DirectoryID h) \<and> directory_verified h es \<and> tombstoned h es
     \<or> vh_DeleteData h \<and> removal_permitted h (volumeDeletionDescription h) es rq \<and> tombstoned h es \<and> data_gone h es"

lemma directory_verified_before: "directory_verified h es \<Longrightarrow> directory_verified h (es @ es')"
  using directory_verified_grows [of h es "[]"] by simp

lemma tombstoned_before: "tombstoned h es \<Longrightarrow> tombstoned h (es @ es')"
  using tombstoned_grows [of h es "[]"] by simp

lemma tombstoned_after: "tombstoned h es \<Longrightarrow> tombstoned h (es0 @ es)"
  using tombstoned_grows [of h es es0 "[]"] by simp

lemma place_checked_before: "place_checked h es \<Longrightarrow> place_checked h (es @ es')"
  unfolding place_checked_def using directory_verified_before not_found_before by blast

lemma lasting_deletion: "lasting (volume_deletion_permitted h)"
  unfolding lasting_def volume_deletion_permitted_def
  using removal_permitted_before claim_permitted_before place_checked_before directory_verified_before tombstoned_before data_gone_before
  by meson

lemma reads_deletion: "reads (volume_deletion_permitted h es)"
  by (simp add: reads_def volume_deletion_permitted_def)

lemma lawful_delete_volume: "lawful (volume_deletion_permitted h) hist (delete_volume c h)"
proof -
  let ?P = "volume_deletion_permitted h"
  note P = lasting_deletion [of h] reads_deletion [of h]
  have removal: "lawful ?P hs (as_grpc (DeleteVolumeResource c h True))" if "vh_DeleteData h" "tombstoned h hs" "data_gone h hs" for hs
    by (intro lawful_as_grpc lawful_DeleteVolumeResource P)
      (use that tombstoned_before data_gone_before in \<open>auto simp: volume_deletion_permitted_def deletion_marker_def\<close>)
  have claim: "lawful ?P hs (PrepareVolumeDeletion c h)" if "vh_DeleteData h" "place_checked h hs" for hs
    by (intro lawful_PrepareVolumeDeletion P) (use that place_checked_before in \<open>auto simp: volume_deletion_permitted_def\<close>)
  have tree: "lawful ?P hs (TreeDelete c (vh_DirectoryID h))" if "vh_DeleteData h" "directory_verified h hs" "tombstoned h hs" for hs
    by (intro lawful_sends P sends_TreeDelete) (use that in \<open>simp add: volume_deletion_permitted_def\<close>)
  have without: "lawful ?P hs (delete_without_data c h)"
    if d: "vh_DeleteData h" "not_found_answer (attrs_get (vh_FSPath h)) hs" for hs
    unfolding delete_without_data_def
  proof (rule lawful_bind [OF claim emits_PrepareVolumeDeletion], goal_cases)
    case (3 es r)
    then show ?case
      using d tombstoned_after not_found_before
      by (intro lawful_rules removal) (auto simp: data_gone_def)
  qed (use d in \<open>simp_all add: place_checked_def\<close>)
  have keep: "lawful ?P hist (as_grpc (DeleteVolumeResource c h False))" if "\<not> vh_DeleteData h"
    by (intro lawful_as_grpc lawful_DeleteVolumeResource P) (use that in \<open>auto simp: volume_deletion_permitted_def deletion_marker_def\<close>)
  have "lawful ?P hist (GetFileAttributes c (vh_FSPath h))" by (intro lawful_sends P sends_GetFileAttributes)
  then show ?thesis
    unfolding delete_volume_def
  proof (intro lawful_if keep lawful_bind [OF _ emits_GetFileAttributes] lawful_case_sum lawful_ret without, goal_cases)
    case (5 es r attrs)
    then have "attrs_read (vh_FSPath h) (hist @ es) attrs" "fa_ID attrs = vh_DirectoryID h"
      using attrs_read_mono [of _ es _ "hist @ es"] by auto
    then have dir: "directory_verified h (hist @ es)" unfolding directory_verified_def by blast
    show ?case
      unfolding \<open>fa_ID attrs = vh_DirectoryID h\<close>
    proof (rule lawful_andThen [OF lawful_as_grpc [OF claim] emits_as_grpc [OF emits_PrepareVolumeDeletion]], goal_cases)
      case (3 es1 u)
      then have t: "tombstoned h ((hist @ es) @ es1)" and d: "directory_verified h ((hist @ es) @ es1)"
        using dir tombstoned_after directory_verified_before by blast+
      show ?case
      proof (rule lawful_andThen [OF lawful_as_grpc [OF tree] emits_as_grpc [OF emits_TreeDelete]], goal_cases)
        case (4 es2 u')
        then have "data_gone h (((hist @ es) @ es1) @ es2)" using data_gone_after by (auto simp: data_gone_def)
        moreover have "tombstoned h (((hist @ es) @ es1) @ es2)" using t by (rule tombstoned_before)
        ultimately show ?case using \<open>\<not> \<not> vh_DeleteData h\<close> by (intro removal) simp_all
      qed (use t d \<open>\<not> \<not> vh_DeleteData h\<close> in auto)
    qed (use dir \<open>\<not> \<not> vh_DeleteData h\<close> in \<open>auto simp: place_checked_def\<close>)
  qed (auto intro: not_found_after)
qed

lemma emits_delete_volume:
  "emits (delete_volume c h) (on_ok (\<lambda>es _. resource_gone h es \<and> (vh_DeleteData h \<longrightarrow> data_gone h es)))"
proof -
  have res: "emits (as_grpc (DeleteVolumeResource c h b)) (on_ok (\<lambda>es' _. resource_gone h (es @ es')))" for es b
    by (rule emits_as_grpc, rule emits_weaken [OF emits_DeleteVolumeResource]) (auto simp: on_ok_def intro: resource_gone_after)
  have both: "emits (as_grpc (DeleteVolumeResource c h True)) (on_ok (\<lambda>es' _. resource_gone h (es @ es') \<and> (vh_DeleteData h \<longrightarrow> data_gone h (es @ es'))))"
    if "data_gone h es" for es
    by (rule emits_weaken [OF res [of True es]]) (use that data_gone_before in \<open>auto simp: on_ok_def\<close>)
  have gone: "emits (PrepareVolumeDeletion c h) (\<lambda>es r. \<forall>e. r = Inl e \<longrightarrow> Is_sentinel e errVolumeResourceMissing \<longrightarrow> resource_gone h es)"
    unfolding PrepareVolumeDeletion_def by (rule emits_weaken [OF emits_prepare_missing]) (auto simp: resource_gone_def)
  have without: "emits (delete_without_data c h) (on_ok (\<lambda>es' _. resource_gone h (es @ es') \<and> (vh_DeleteData h \<longrightarrow> data_gone h (es @ es'))))"
    if d: "not_found_answer (attrs_get (vh_FSPath h)) es" for es
    unfolding delete_without_data_def
  proof (rule emits_bind_ok [OF gone], intro emits_case_sum emits_if emits_fail, goal_cases)
    case (1 es' r e)
    then have "resource_gone h es'" by blast
    then show ?case using d not_found_before resource_gone_after by (intro emits_ok) (auto simp: data_gone_def)
  next
    case (2 es' r u)
    show ?case using both [of "es @ es'"] d not_found_before by (simp add: data_gone_def)
  qed
  have tree: "emits (as_grpc (TreeDelete c (vh_DirectoryID h))) (on_ok (\<lambda>es _. data_gone h es))"
    by (rule emits_as_grpc, rule emits_weaken [OF emits_TreeDelete]) (auto simp: on_ok_def data_gone_def)
  have any: "emits (as_grpc (PrepareVolumeDeletion c h)) (on_ok (\<lambda>_ _. True))"
    by (rule emits_as_grpc, rule emits_weaken [OF gone]) (simp add: on_ok_def)
  show ?thesis
    unfolding delete_volume_def
  proof (intro emits_if emits_bind_ok [OF emits_GetFileAttributes] emits_case_sum emits_fail, goal_cases)
    case 1
    then show ?case by (intro emits_weaken [OF res [of False "[]"]]) (simp add: on_ok_def)
  next
    case (2 es r e)
    then show ?case by (intro without) simp
  next
    case (3 es r attrs)
    then have i: "fa_ID attrs = vh_DirectoryID h" by simp
    show ?case
      unfolding i
    proof (rule emits_on_ok_andThen [OF any], rule emits_on_ok_andThen [OF tree], goal_cases)
      case (1 es1 u es2 u')
      then have "data_gone h (es @ es1 @ es2)" using data_gone_after [of h es2 "es @ es1"] by simp
      from both [OF this] show ?case by simp
    qed
  qed
qed


text \<open>C11: A deletion that succeeds has removed the handle's resource, or the cluster reported it missing; and if the handle says to delete the data,
  the directory is gone: its tree-delete ended, or nothing is at its path.\<close>

theorem DeleteVolume_success:
  assumes "run_state (DeleteVolume d i secrets) w = (Inr (), w')"
  shows "\<exists>h es. decodeVolumeHandle i (cd_cfg d) = Inr h \<and> w_events w' = w_events w @ es \<and>
    resource_gone h es \<and> (vh_DeleteData h \<longrightarrow> data_gone h es)"
proof -
  obtain h where h: "decodeVolumeHandle i (cd_cfg d) = Inr h"
    "run_state (with_backend d (vh_Endpoint h) (vh_RESTPort h) secrets (\<lambda>c. delete_volume c h)) w = (Inr (), w')"
    using run_with_handle [OF assms [unfolded DeleteVolume_def]] by blast
  obtain c where "run_state (delete_volume c h) w = (Inr (), w')" using run_with_backend [OF h(2)] by blast
  from emits_on_okD [OF emits_delete_volume this] h(1) show ?thesis by blast
qed

section \<open>Capacity\<close>

text \<open>The capacity a request asks for is positive and within the limits it states; without limits it is one gibibyte, and the largest 64-bit value
  is refused.\<close>

lemma requested_capacity:
  assumes "requestedCapacity r = Inr n"
  shows "0 < n \<and> n \<noteq> 2 ^ 63 - 1 \<and> (r = None \<longrightarrow> n = defaultVolumeBytes) \<and>
    (\<forall>rng. r = Some rng \<longrightarrow> cr_RequiredBytes rng \<le> n \<and> (0 < cr_LimitBytes rng \<longrightarrow> n \<le> cr_LimitBytes rng) \<and>
       (cr_RequiredBytes rng \<noteq> 0 \<longrightarrow> n = cr_RequiredBytes rng))"
  using assms by (auto simp: requestedCapacity_def Let_def defaultVolumeBytes_def split: option.splits if_splits)

text \<open>A capacity that is accepted is positive, below the largest 64-bit value, and within the bounds of the request.\<close>

theorem requestedCapacity_bounds:
  assumes "requestedCapacity r = Inr n"
  shows "0 < n \<and> n \<noteq> 2 ^ 63 - 1 \<and> (r = None \<longrightarrow> n = defaultVolumeBytes) \<and>
    (\<forall>rng. r = Some rng \<longrightarrow> cr_RequiredBytes rng \<le> n \<and> (0 < cr_LimitBytes rng \<longrightarrow> n \<le> cr_LimitBytes rng) \<and>
       (cr_RequiredBytes rng \<noteq> 0 \<longrightarrow> n = cr_RequiredBytes rng))"
  using requested_capacity [OF assms] .

section \<open>Expansion\<close>

text \<open>Quotas are written only for the directory of a validated volume.\<close>

definition expansion_permitted :: "volumeHandle \<Rightarrow> int \<Rightarrow> event list \<Rightarrow> request \<Rightarrow> bool" where
  "expansion_permitted h capacity es rq \<longleftrightarrow>
     rq_method rq = ''GET''
     \<or> validated h es \<and> (rq = quota_post (vh_DirectoryID h) capacity \<or> (\<exists>etag. rq = quota_put (vh_DirectoryID h) capacity etag))"

lemma validated_before: "validated h es \<Longrightarrow> validated h (es @ es')"
  using validated_grows [of h es "[]"] by simp

lemma validated_after: "validated h es \<Longrightarrow> validated h (es0 @ es)"
  using validated_grows [of h es es0 "[]"] by simp

lemma lasting_expansion: "lasting (expansion_permitted h cap)" and reads_expansion: "reads (expansion_permitted h cap es)"
  unfolding lasting_def reads_def expansion_permitted_def using validated_before by blast+

lemma emits_EnsureQuotaAtLeast: "emits (EnsureQuotaAtLeast c f l) (on_ok (ensured f l))"
  unfolding EnsureQuotaAtLeast_def by (intro emits_if emits_fail emits_ensure_quota_loop)

lemma sends_EnsureQuotaAtLeast:
  "reads R \<Longrightarrow> R (quota_post f l) \<Longrightarrow> (\<And>etag. R (quota_put f l etag)) \<Longrightarrow> sends R (EnsureQuotaAtLeast c f l)"
  unfolding EnsureQuotaAtLeast_def by (intro io_rules sends_ensure_quota_loop)

lemma lawful_expand_volume: "lawful (expansion_permitted h capacity) hist (expand_volume c h capacity limit)"
  unfolding expand_volume_def
proof (rule lawful_andThen [OF lawful_as_grpc emits_as_grpc [OF emits_ValidateVolume]], goal_cases)
  case 1
  show ?case by (intro lawful_sends lasting_expansion sends_ValidateVolume reads_expansion)
next
  case (2 es u)
  then have "validated h (hist @ es)" by (rule validated_after)
  then have "lawful (expansion_permitted h capacity) (hist @ es) (EnsureQuotaAtLeast c (vh_DirectoryID h) capacity)"
    by (intro lawful_sends lasting_expansion sends_EnsureQuotaAtLeast reads_expansion) (auto simp: expansion_permitted_def)
  then show ?case by (intro lawful_andThen_any lawful_as_grpc lawful_rules)
qed

lemma emits_expand_volume:
  "emits (expand_volume c h capacity limit)
     (on_ok (\<lambda>es n. capacity \<le> n \<and> (0 < limit \<longrightarrow> n \<le> limit) \<and> validated h es \<and> ensured (vh_DirectoryID h) capacity es n))"
  unfolding expand_volume_def
proof (rule emits_on_ok_andThen [OF emits_as_grpc [OF emits_ValidateVolume]],
    rule emits_on_ok_andThen [OF emits_as_grpc [OF emits_EnsureQuotaAtLeast]], rule emits_if, rule emits_fail, goal_cases)
  case (1 es u es' n)
  then show ?case using validated_before ensured_ge ensured_append by (intro emits_ok) auto
qed

text \<open>C12: An expansion that succeeds was asked of a volume with a quota and a request with a range: the capacity it returns is at least what the range
  requires and at most its limit, the volume was validated, and the capacity is in force for its directory; on the way it sends only readings until the
  volume is validated, and then only quotas of that directory.\<close>

theorem ControllerExpandVolume_bounds:
  assumes "run_state (ControllerExpandVolume d q) w = (Inr n, w')"
  shows "\<exists>h rng capacity es. decodeVolumeHandle (xq_VolumeId q) (cd_cfg d) = Inr h \<and> vh_QuotaEnabled h \<and> xq_CapacityRange q = Some rng \<and>
    requestedCapacity (Some rng) = Inr capacity \<and> cr_RequiredBytes rng \<le> n \<and> (0 < cr_LimitBytes rng \<longrightarrow> n \<le> cr_LimitBytes rng) \<and>
    w_events w' = w_events w @ es \<and> validated h es \<and> ensured (vh_DirectoryID h) capacity es n \<and>
    allowed_from (expansion_permitted h capacity) [] es"
proof -
  obtain h where h: "decodeVolumeHandle (xq_VolumeId q) (cd_cfg d) = Inr h"
    and run: "run_state (if xq_CapacityRange q = None then fail (EStatus InvalidArgument ''capacity range is required'')
       else valid_arg (case xq_Capability q of
              None \<Rightarrow> Inr () | Some cap \<Rightarrow> validateVolumeCapabilities (vh_Protocol h) [Some cap]) (\<lambda>_.
            valid_arg (requestedCapacity (xq_CapacityRange q)) (\<lambda>capacity.
            if \<not> vh_QuotaEnabled h
            then fail (EStatus FailedPrecondition ''volume quota is disabled; expansion cannot be enforced'')
            else with_backend d (vh_Endpoint h) (vh_RESTPort h) (xq_Secrets q) (\<lambda>c.
              expand_volume c h capacity (limit_bytes (xq_CapacityRange q)))))) w = (Inr n, w')"
    using run_with_handle [OF assms [unfolded ControllerExpandVolume_def]] by blast
  obtain rng where rng: "xq_CapacityRange q = Some rng" using run by (cases "xq_CapacityRange q") auto
  obtain capacity where cap: "requestedCapacity (Some rng) = Inr capacity" "vh_QuotaEnabled h"
    and run2: "run_state (with_backend d (vh_Endpoint h) (vh_RESTPort h) (xq_Secrets q) (\<lambda>c. expand_volume c h capacity (cr_LimitBytes rng))) w
      = (Inr n, w')"
    using run by (auto simp: rng valid_arg_def limit_bytes_def split: sum.splits if_splits)
  obtain c where run3: "run_state (expand_volume c h capacity (cr_LimitBytes rng)) w = (Inr n, w')"
    using run_with_backend [OF run2] by blast
  obtain es where es: "w_events w' = w_events w @ es" "capacity \<le> n" "0 < cr_LimitBytes rng \<longrightarrow> n \<le> cr_LimitBytes rng" "validated h es"
      "ensured (vh_DirectoryID h) capacity es n"
    using emits_on_okD [OF emits_expand_volume run3] by blast
  have "allowed_from (expansion_permitted h capacity) [] es" using lawfulD [OF lawful_expand_volume run3] es(1) by auto
  moreover have "cr_RequiredBytes rng \<le> n" using requested_capacity [OF cap(1)] es(2) by auto
  ultimately show ?thesis using h rng cap es by blast
qed

section \<open>Errors\<close>

lemma csi_api_status_code: "\<exists>k. FromError (csi_api_status a e) = Some k \<and> k \<noteq> OK"
  by (simp add: csi_api_status_def)

lemma sentinel_leaf:
  "Is_sentinel e s \<Longrightarrow> FromError e = None \<and> \<not> Is_ctx e x \<and> (Is_sentinel e s' \<longleftrightarrow> s' = s)"
  by (induction e) auto

text \<open>C40: Every error of the CSI driver becomes a gRPC error whose code is not OK, mapping it again changes nothing, and a conflict, a missing volume and
  a changed identity keep their meaning through any wrapping.\<close>

theorem toGRPCError_total:
  assumes "real_status e"
  shows "FromError (toGRPCError e) \<noteq> None \<and> FromError (toGRPCError e) \<noteq> Some OK \<and> toGRPCError (toGRPCError e) = toGRPCError e \<and>
    (Is_sentinel e errVolumeConflict \<longrightarrow> FromError (toGRPCError e) = Some AlreadyExists) \<and>
    (Is_sentinel e errVolumeNotFound \<longrightarrow> FromError (toGRPCError e) = Some NotFound) \<and>
    (Is_sentinel e errVolumeIdentityChanged \<longrightarrow> FromError (toGRPCError e) = Some FailedPrecondition)"
proof -
  have s: "\<exists>k. FromError (toGRPCError e) = Some k \<and> k \<noteq> OK"
  proof (cases "FromError e")
    case (Some k)
    then show ?thesis using real_status_FromError [OF assms] by (simp add: toGRPCError_def)
  next
    case None
    then show ?thesis using csi_api_status_code by (cases "AsAPIError e") (simp_all add: toGRPCError_def)
  qed
  moreover from this have "toGRPCError (toGRPCError e) = toGRPCError e" by (auto simp: toGRPCError_def [of "toGRPCError e"])
  moreover have "Is_sentinel e s \<Longrightarrow> s \<in> {errVolumeConflict, errVolumeNotFound, errVolumeIdentityChanged} \<Longrightarrow>
      FromError (toGRPCError e) = Some (if s = errVolumeConflict then AlreadyExists else if s = errVolumeNotFound then NotFound else FailedPrecondition)" for s
    using sentinel_leaf [of e s] by (auto simp: toGRPCError_def)
  ultimately show ?thesis by (auto split: if_splits)
qed

end
