(* ===== verification/Csi_Create.thy ===== *)
theory Csi_Create
  imports Csi_Control
begin

text \<open>
  What \<open>CreateVolume\<close> of \<open>Csi_Driver\<close> guarantees.  Missing directories are created and the protocol resource is claimed; only after the
  claim has been won is the mode of the directory changed or a quota set, so a request that loses the race changes nothing of the winner's volume.
  The volume it returns was validated, and its id decodes to the handle that was validated.
\<close>

section \<open>The claim\<close>

text \<open>The volume's resource was created, or read with the volume's directory and ownership marker.\<close>

definition volume_claimed :: "volumeOptions \<Rightarrow> event list \<Rightarrow> bool" where
  "volume_claimed opts es \<longleftrightarrow>
     (if vo_Protocol opts = protocolNFS then
        was_seen (export_post nfsExportsPath (volume_export opts) False) es \<or>
        (\<exists>x. export_answer (export_get (vo_NFSExportPath opts)) es x \<and> ne_FSPath x = vo_FSPath opts \<and> ne_Description x = managedDescription opts)
      else
        was_seen (share_post (volume_share opts) False) es \<or>
        (\<exists>x. share_answer (share_get (vo_ResourceName opts)) es x \<and> ss_FSPath x = vo_FSPath opts \<and> ss_Description x = managedDescription opts))"

lemma volume_claimed_grows: "volume_claimed opts es \<Longrightarrow> volume_claimed opts (es0 @ es @ es')"
  unfolding volume_claimed_def
  by (auto split: if_splits intro: was_seen_before was_seen_append dest: export_answer_grows share_answer_grows)

lemma volume_claimed_before: "volume_claimed opts es \<Longrightarrow> volume_claimed opts (es @ es')"
  using volume_claimed_grows [of opts es "[]"] by simp

lemma volume_claimed_after: "volume_claimed opts es \<Longrightarrow> volume_claimed opts (es0 @ es)"
  using volume_claimed_grows [of opts es es0 "[]"] by simp

definition claim_request :: "volumeOptions \<Rightarrow> event list \<Rightarrow> request \<Rightarrow> bool" where
  "claim_request opts =
     (if vo_Protocol opts = protocolNFS then export_permitted (volume_export opts) False True
      else share_permitted (volume_share opts) False True)"

lemma volume_requests [simp]:
  "nq_TenantID (volume_export opts) = 0" "nq_ExportPath (volume_export opts) = vo_NFSExportPath opts"
  "nq_FSPath (volume_export opts) = vo_FSPath opts" "nq_Description (volume_export opts) = managedDescription opts"
  "\<not> usesSMBV3Preview (volume_share opts)" "sq_ShareName (volume_share opts) = vo_ResourceName opts"
  "sq_FSPath (volume_share opts) = vo_FSPath opts" "sq_Description (volume_share opts) = managedDescription opts"
  by (simp_all add: volume_export_def volume_share_def usesSMBV3Preview_def)

lemma accepted_was_seen: "accepted rq es \<Longrightarrow> was_seen rq es"
  unfolding accepted_def using answered_was_seen by blast

lemma emits_ensure_resource:
  "emits (ensure_resource c opts) (on_ok (\<lambda>es x. sr_ID x \<noteq> [] \<longrightarrow> volume_claimed opts es))"
proof -
  have nfs: "volume_claimed opts es" if "export_claimed (volume_export opts) False es x" "vo_Protocol opts = protocolNFS" for es x
    using that export_answer_before by (fastforce simp: export_claimed_def volume_claimed_def split: if_splits dest: accepted_was_seen)
  have smb: "volume_claimed opts es" if "share_claimed (volume_share opts) False es x" "vo_Protocol opts \<noteq> protocolNFS" for es x
    using that share_answer_before by (fastforce simp: share_claimed_def volume_claimed_def split: if_splits dest: accepted_was_seen)
  have 1: "emits (EnsureNFS c opts) (on_ok (\<lambda>es x. volume_claimed opts es))" if "vo_Protocol opts = protocolNFS"
    unfolding EnsureNFS_def
    by (intro emits_bind_ok [OF emits_ClaimNFSExport] emits_case_sum emits_fail) (use that in \<open>auto intro!: emits_ok nfs\<close>)
  have 2: "emits (EnsureSMB c opts) (on_ok (\<lambda>es x. volume_claimed opts es))" if "vo_Protocol opts \<noteq> protocolNFS"
    unfolding EnsureSMB_def
    by (intro emits_bind_ok [OF emits_ClaimSMBShare] emits_case_sum emits_fail) (use that in \<open>auto intro!: emits_ok smb\<close>)
  have w: "emits m (on_ok (\<lambda>es x. sr_ID x \<noteq> [] \<longrightarrow> volume_claimed opts es))" if "emits m (on_ok (\<lambda>es x. volume_claimed opts es))" for m
    by (rule emits_weaken [OF that]) (simp add: on_ok_def)
  show ?thesis
    unfolding ensure_resource_def
    by (rule emits_if, rule w, erule 1, rule emits_if, rule w, erule 2, rule emits_ok, simp)
qed

lemma lawful_ensure_resource: "lawful (claim_request opts) h (ensure_resource c opts)"
  unfolding ensure_resource_def EnsureNFS_def EnsureSMB_def ClaimNFSExport_def ClaimSMBShare_def claim_request_def
  by (intro lawful_if lawful_bind_any lawful_ret lawful_case_sum) (auto simp: lawful_ensureNFSExport lawful_ensureSMBShare protocolNFS_def protocolSMB_def)

section \<open>What is sent\<close>

text \<open>The requests of a creation: directories on the volume's path that were reported missing, the claim, and, once the claim has been won, the
  mode of the volume's directory and, if asked for, its quota.\<close>

definition create_permitted :: "volumeOptions \<Rightarrow> int \<Rightarrow> event list \<Rightarrow> request \<Rightarrow> bool" where
  "create_permitted opts capacity es rq \<longleftrightarrow>
     rq_method rq = ''GET''
     \<or> dir_permitted (path_Clean (vo_FSPath opts)) es rq
     \<or> claim_request opts es rq
     \<or> volume_claimed opts es \<and>
         (rq = mode_patch (path_Clean (vo_FSPath opts)) (vo_DirectoryMode opts)
          \<or> vo_QuotaEnabled opts \<and> (\<exists>f. dir_known (path_Clean (vo_FSPath opts)) es f \<and>
               (rq = quota_post f capacity \<or> (\<exists>etag. rq = quota_put f capacity etag))))"

lemma lasting_claim: "lasting (claim_request opts)"
  unfolding claim_request_def using lasting_export_permitted lasting_share_permitted by simp

lemma dir_known_before: "dir_known p es i \<Longrightarrow> dir_known p (es @ es') i"
  using dir_known_grows [of p es i "[]"] by simp

lemma lasting_create: "lasting (create_permitted opts capacity)"
  unfolding lasting_def create_permitted_def
  using dir_permitted_before lastingD [OF lasting_claim] volume_claimed_before dir_known_before by blast

lemma reads_create: "reads (create_permitted opts capacity es)"
  by (simp add: reads_def create_permitted_def)

lemma sends_CheckVolume: "reads R \<Longrightarrow> sends R (CheckVolume c opts)"
  unfolding CheckVolume_def
  by (intro io_rules sends_ListNFSExports sends_ListSMBShares sends_GetFileAttributes)

lemma lawful_create_volume: "lawful (create_permitted opts capacity) h (create_volume d c opts capacity limit)"
proof -
  let ?P = "create_permitted opts capacity"
  note P = lasting_create [of opts capacity] reads_create [of opts capacity]
  have dir0: "lawful ?P hs (EnsureDirectory c (vo_FSPath opts) [])" for hs
    by (intro lawful_EnsureDirectory P) (auto simp: create_permitted_def)
  have dir: "lawful ?P hs (EnsureDirectory c (vo_FSPath opts) (vo_DirectoryMode opts))" if "volume_claimed opts hs" for hs
    by (intro lawful_EnsureDirectory P) (use that volume_claimed_before in \<open>auto simp: create_permitted_def\<close>)
  have claim: "lawful ?P hs (ensure_resource c opts)" for hs
    by (rule lawful_mono [OF lawful_ensure_resource]) (simp add: create_permitted_def)
  have quota: "lawful ?P hs (create_quota c opts f capacity limit)"
    if "volume_claimed opts hs" "dir_known (path_Clean (vo_FSPath opts)) hs f" for hs f
    unfolding create_quota_def
    by (intro lawful_if lawful_andThen_any lawful_as_grpc lawful_ret lawful_sends P sends_EnsureQuotaAtLeast)
      (use that in \<open>auto simp: create_permitted_def\<close>)
  have finish: "lawful ?P hs (finish_volume cfg c hd cap)" for hs cfg hd cap
    unfolding finish_volume_def
    by (intro lawful_andThen_any lawful_as_grpc lawful_rules lawful_sends P sends_ValidateVolume)
  show ?thesis
    unfolding create_volume_def
  proof (rule lawful_andThen_any [OF lawful_as_grpc [OF lawful_sends [OF P(1) sends_EnsureVersion [OF P(2)]]]],
      rule lawful_andThen_any [OF lawful_as_grpc [OF lawful_sends [OF P(1) sends_CheckVolume [OF P(2)]]]],
      rule lawful_andThen_any [OF lawful_as_grpc [OF dir0]], rule lawful_if, rule lawful_ret,
      rule lawful_andThen [OF lawful_as_grpc [OF claim] emits_as_grpc [OF emits_ensure_resource]], rule lawful_if, rule lawful_ret, goal_cases)
    case (1 es1 ver es2 u es3 attrs es4 res)
    then have cl: "volume_claimed opts ((((h @ es1) @ es2) @ es3) @ es4)" using volume_claimed_after by auto
    show ?case
    proof (rule lawful_andThen [OF lawful_as_grpc [OF dir [OF cl]] emits_as_grpc [OF emits_EnsureDirectory]], rule lawful_if, rule lawful_ret, goal_cases)
      case (1 es5 configured)
      then show ?case
        using volume_claimed_before [OF cl] dir_known_after
        by (intro lawful_andThen_any [OF quota] finish) auto
    qed
  qed
qed

section \<open>What is returned\<close>

lemma create_options_Inr:
  assumes "create_options cfg q = Inr (opts, capacity)"
  obtains opts0 where "parseVolumeOptions cfg (cvq_Name q) (cvq_Parameters q) = Inr opts0" "requestedCapacity (cvq_CapacityRange q) = Inr capacity"
    "\<exists>l. opts = opts0\<lparr>vo_RequestedCapacity := capacity, vo_CapacityLimit := l\<rparr>"
    "validateVolumeCapabilities (vo_Protocol opts) (cvq_Capabilities q) = Inr ()"
proof -
  obtain opts0 u where o: "parseVolumeOptions cfg (cvq_Name q) (cvq_Parameters q) = Inr opts0"
    "validateVolumeCapabilities (vo_Protocol opts0) (cvq_Capabilities q) = Inr u" "requestedCapacity (cvq_CapacityRange q) = Inr capacity"
    "opts = opts0\<lparr>vo_RequestedCapacity := capacity,
       vo_CapacityLimit := (if cvq_CapacityRange q = None then vo_CapacityLimit opts0 else limit_bytes (cvq_CapacityRange q))\<rparr>"
    using assms unfolding create_options_def and_then_Inr sum.inject prod.inject by blast
  have "vo_Protocol opts = vo_Protocol opts0" by (simp add: o(4))
  then have "validateVolumeCapabilities (vo_Protocol opts) (cvq_Capabilities q) = Inr ()" using o(2) by simp
  then show ?thesis using o(4) by (intro that [OF o(1,3)] exI) simp_all
qed

lemma path_Base_resource:
  assumes "p = b @ ''/'' @ s" "plain_seg s"
  shows "path_Base p = s"
proof -
  have s: "s \<noteq> []" "CHR ''/'' \<notin> set s" using assms(2) by (auto simp: plain_seg_def)
  have l: "last s \<noteq> CHR ''/''" using s by (metis last_in_set)
  have "TrimRight p ''/'' = p" using assms(1) s l by (intro TrimRight_id) (auto simp del: append_Cons)
  moreover have "takeWhile (\<lambda>c. c \<noteq> CHR ''/'') (rev p) = rev s"
    using s(2) unfolding assms(1) rev_append append_assoc by (subst takeWhile_append2) auto
  ultimately show ?thesis using assms(1) s by (simp add: path_Base_def Let_def)
qed

text \<open>The marker a handle expects is the one its creation wrote.\<close>

lemma managed_marker:
  assumes "closed_options cfg name opts" "vh_FSPath h = vo_FSPath opts" "vh_SpecFingerprint h = volumeSpecFingerprint opts"
  shows "managedDescriptionForHandle h = managedDescription opts"
proof -
  obtain base where "vo_FSPath opts = (base @ ''/'' @ vo_Protocol opts) @ ''/'' @ volumeResourceName name" "vo_ResourceName opts = volumeResourceName name"
    using assms(1) by (auto simp: closed_options_def)
  then have "path_Base (vo_FSPath opts) = vo_ResourceName opts" using path_Base_resource resource_plain by metis
  then show ?thesis using assms by (simp add: managedDescriptionForHandle_def managedDescription_def)
qed

lemma closed_options_capacity:
  "closed_options cfg name (opts\<lparr>vo_RequestedCapacity := c, vo_CapacityLimit := l\<rparr>) \<longleftrightarrow> closed_options cfg name opts"
  by (simp add: closed_options_def)

lemma endpointHost_trim: "endpointHost (TrimSpace s) = endpointHost s"
  by (simp add: endpointHost_def Let_def)

lemma create_handle_bound:
  assumes "parseVolumeOptions cfg name ps = Inr opts0" "opts = opts0\<lparr>vo_RequestedCapacity := capacity, vo_CapacityLimit := l\<rparr>"
    and plain: "TrimSpace (cc_DataServer cfg) = [] \<Longrightarrow> cc_DataServer cfg = []"
  shows "bound_to cfg (create_handle opts f res)"
proof -
  obtain base where o: "configuredRESTPort (cc_Endpoint cfg) (cc_RESTPort cfg) = Inr (vo_RESTPort opts0)" "vo_Endpoint opts0 = cc_Endpoint cfg"
    "data_server cfg = Inr (vo_Server opts0)"
    by (rule parseVolumeOptions_Inr [OF assms(1)])
  have srv: "cc_DataServer cfg = [] \<or> EqualFold (endpointHost (vo_Server opts0)) (endpointHost (cc_DataServer cfg))"
  proof (cases "TrimSpace (cc_DataServer cfg) = []")
    case False
    then have "vo_Server opts0 = TrimSpace (cc_DataServer cfg)" using o(3) by (auto simp: data_server_def Let_def and_then_Inr)
    then show ?thesis by (simp add: endpointHost_trim EqualFold_def)
  qed (use plain in blast)
  then show ?thesis using o(1,2) by (simp add: bound_to_def create_handle_def sameEndpoint_def EqualFold_def assms(2))
qed

text \<open>The volume that is returned: its id is the signed handle of the options, for the directory and the resource that were validated; the claim was
  won; and the capacity, with a quota, is in force, at least the one asked for and within the limit.\<close>

definition capacity_ok :: "volumeOptions \<Rightarrow> int \<Rightarrow> int \<Rightarrow> volumeHandle \<Rightarrow> event list \<Rightarrow> int \<Rightarrow> bool" where
  "capacity_ok opts capacity limit h es n \<longleftrightarrow>
     (if vo_QuotaEnabled opts \<and> 0 < capacity
      then (\<exists>es1 es2. es = es1 @ es2 \<and> ensured (vh_DirectoryID h) capacity es1 n) \<and> capacity \<le> n \<and> (0 < limit \<longrightarrow> n \<le> limit)
      else n = capacity)"

definition provisioned :: "Config \<Rightarrow> volumeOptions \<Rightarrow> int \<Rightarrow> int \<Rightarrow> event list \<Rightarrow> CsiVolume \<Rightarrow> volumeHandle \<Rightarrow> bool" where
  "provisioned cfg opts capacity limit es v h \<longleftrightarrow>
     (\<exists>res. h = create_handle opts (vh_DirectoryID h) res) \<and> volumeHandle_encode h (cc_HandleKey cfg) = Inr (cv_VolumeId v) \<and>
     cv_VolumeContext v = volumeContextForHandle h \<and> vh_DirectoryID h \<noteq> [] \<and> dir_known (path_Clean (vo_FSPath opts)) es (vh_DirectoryID h) \<and>
     volume_claimed opts es \<and> validated h es \<and> capacity_ok opts capacity limit h es (cv_CapacityBytes v)"

lemma emits_create_quota:
  "emits (create_quota c opts f capacity limit) (on_ok (\<lambda>es n.
     if vo_QuotaEnabled opts \<and> 0 < capacity then ensured f capacity es n \<and> capacity \<le> n \<and> (0 < limit \<longrightarrow> n \<le> limit) else n = capacity))"
  unfolding create_quota_def
  by (intro emits_if emits_on_ok_andThen [OF emits_as_grpc [OF emits_EnsureQuotaAtLeast]] emits_fail emits_ok)
    (auto dest: ensured_ge)

lemma emits_finish_volume:
  "emits (finish_volume cfg c h capacity) (on_ok (\<lambda>es v. validated h es \<and> volumeHandle_encode h (cc_HandleKey cfg) = Inr (cv_VolumeId v) \<and>
     cv_CapacityBytes v = capacity \<and> cv_VolumeContext v = volumeContextForHandle h))"
  unfolding finish_volume_def
  by (rule emits_on_ok_andThen [OF emits_as_grpc [OF emits_ValidateVolume]]) (auto intro!: emits_fail emits_ok split: sum.split)

lemma emits_create_volume:
  "emits (create_volume d c opts capacity limit) (on_ok (\<lambda>es v. \<exists>h. provisioned (cd_cfg d) opts capacity limit es v h))"
proof -
  have any: "emits (as_grpc m) (on_ok (\<lambda>_ _. True))" if "emits m P" for m :: "'b io" and P
    by (rule emits_as_grpc, rule emits_weaken [OF that]) (simp add: on_ok_def)
  have ver: "emits (EnsureVersion (cd_sv d) c f) (\<lambda>_ _. True)" for f
    using sends_EnsureVersion [of "\<lambda>_. True"] unfolding evs_def reads_def by (blast intro: emits_any)
  have check: "emits (CheckVolume c opts) (\<lambda>_ _. True)"
    using sends_CheckVolume [of "\<lambda>_. True"] unfolding evs_def reads_def by (blast intro: emits_any)
  note dir = emits_as_grpc [OF emits_EnsureDirectory]
  show ?thesis
    unfolding create_volume_def
  proof (rule emits_on_ok_andThen [OF any [OF ver]], rule emits_on_ok_andThen [OF any [OF check]], rule emits_on_ok_andThen [OF dir],
      rule emits_if, rule emits_fail, rule emits_on_ok_andThen [OF emits_as_grpc [OF emits_ensure_resource]], rule emits_if, rule emits_fail,
      rule emits_on_ok_andThen [OF dir], rule emits_if, rule emits_fail, rule emits_on_ok_andThen [OF emits_create_quota],
      rule emits_weaken [OF emits_finish_volume], goal_cases)
    case (1 es1 ver es2 u es3 attrs es4 res es5 configured es6 n es7 r)
    let ?h = "create_handle opts (fa_ID configured) res" and ?es = "es1 @ es2 @ es3 @ es4 @ es5 @ es6 @ es7"
    have id: "vh_DirectoryID ?h = fa_ID configured" by (simp add: create_handle_def)
    have cl: "volume_claimed opts ?es" using 1 volume_claimed_grows [of opts es4 "es1 @ es2 @ es3" "es5 @ es6 @ es7"] by simp
    have dk: "dir_known (path_Clean (vo_FSPath opts)) ?es (fa_ID configured)"
      using 1 dir_known_grows [of "path_Clean (vo_FSPath opts)" es5 "fa_ID configured" "es1 @ es2 @ es3 @ es4" "es6 @ es7"] by simp
    have cap: "capacity_ok opts capacity limit ?h ?es n"
    proof (cases "vo_QuotaEnabled opts \<and> 0 < capacity")
      case True
      then have "ensured (fa_ID configured) capacity ((es1 @ es2 @ es3 @ es4 @ es5) @ es6) n" "capacity \<le> n" "0 < limit \<longrightarrow> n \<le> limit"
        using 1 ensured_append by auto
      then show ?thesis using True unfolding capacity_ok_def id by (auto intro: exI [of _ "es1 @ es2 @ es3 @ es4 @ es5 @ es6"])
    qed (use 1 in \<open>auto simp: capacity_ok_def\<close>)
    have "validated ?h ?es" if "validated ?h es7" using that validated_after [of ?h es7 "es1 @ es2 @ es3 @ es4 @ es5 @ es6"] by simp
    then show ?case
      using 1 cl dk cap id
      by (auto simp: on_ok_def provisioned_def intro!: exI [of _ ?h] exI [of _ res])
  qed
qed

lemma run_CreateVolume:
  assumes "run_state (CreateVolume d q) w = (r, w')"
  shows "(\<exists>e. r = Inl e) \<and> w' = w \<or> (\<exists>opts capacity c. create_options (cd_cfg d) q = Inr (opts, capacity) \<and>
    run_state (create_volume d c opts capacity (limit_bytes (cvq_CapacityRange q))) w = (r, w'))"
proof (cases "create_options (cd_cfg d) q")
  case (Inl e)
  then show ?thesis using assms by (auto simp: CreateVolume_def valid_arg_def split: if_splits)
next
  case (Inr x)
  obtain opts capacity where x: "x = (opts, capacity)" by (cases x)
  consider "(\<exists>e. r = Inl e) \<and> w' = w"
    | "run_state (with_backend d (vo_Endpoint opts) (vo_RESTPort opts) (cvq_Secrets q) (\<lambda>c.
         create_volume d c opts capacity (limit_bytes (cvq_CapacityRange q)))) w = (r, w')"
    using assms Inr x by (auto simp: CreateVolume_def valid_arg_def split: if_splits)
  then show ?thesis using Inr x run_with_backend by cases blast+
qed


text \<open>C9: A creation that succeeds returns a volume whose id is the signed handle of the request's options, for a directory seen at the volume's path
  and a resource that was claimed and then read again with the marker of these options; its capacity is in force and within the request; and the id
  decodes to that handle, if the strings the cluster supplied are text.\<close>

theorem CreateVolume_success:
  assumes "run_state (CreateVolume d q) w = (Inr v, w')"
    and "TrimSpace (cc_DataServer (cd_cfg d)) = [] \<Longrightarrow> cc_DataServer (cd_cfg d) = []"
  shows "\<exists>opts capacity h es. create_options (cd_cfg d) q = Inr (opts, capacity) \<and> w_events w' = w_events w @ es \<and>
    provisioned (cd_cfg d) opts capacity (limit_bytes (cvq_CapacityRange q)) es v h \<and>
    managedDescriptionForHandle h = managedDescription opts \<and>
    (text_handle h \<longrightarrow> decodeVolumeHandle (cv_VolumeId v) (cd_cfg d) = Inr h)"
proof -
  obtain opts capacity c where o: "create_options (cd_cfg d) q = Inr (opts, capacity)"
    and run: "run_state (create_volume d c opts capacity (limit_bytes (cvq_CapacityRange q))) w = (Inr v, w')"
    using run_CreateVolume [OF assms(1)] by blast
  obtain opts0 l where p: "parseVolumeOptions (cd_cfg d) (cvq_Name q) (cvq_Parameters q) = Inr opts0"
    and l: "opts = opts0\<lparr>vo_RequestedCapacity := capacity, vo_CapacityLimit := l\<rparr>"
    using create_options_Inr [OF o] by metis
  obtain es h where es: "w_events w' = w_events w @ es" and h: "provisioned (cd_cfg d) opts capacity (limit_bytes (cvq_CapacityRange q)) es v h"
    using emits_on_okD [OF emits_create_volume run] by blast
  obtain res where hd: "h = create_handle opts (vh_DirectoryID h) res" and enc: "volumeHandle_encode h (cc_HandleKey (cd_cfg d)) = Inr (cv_VolumeId v)"
    using h unfolding provisioned_def by blast
  have cl: "closed_options (cd_cfg d) (cvq_Name q) opts"
    using closed_volume_options [OF p] unfolding l closed_options_capacity .
  have "vh_FSPath h = vo_FSPath opts" "vh_SpecFingerprint h = volumeSpecFingerprint opts"
    by (subst hd, simp add: create_handle_def)+
  then have m: "managedDescriptionForHandle h = managedDescription opts" by (rule managed_marker [OF cl])
  have "bound_to (cd_cfg d) h" by (subst hd) (rule create_handle_bound [OF p l assms(2)])
  then have "decodeVolumeHandle (cv_VolumeId v) (cd_cfg d) = Inr h" if "text_handle h"
    using encode_Inr [OF enc] decode_signed that by blast
  then show ?thesis using o es h m by blast
qed

end
