(* ===== verification/Csi_Runs.thy ===== *)
theory Csi_Runs
  imports Concrete_Runs Csi_Create
begin

text \<open>
  The properties of the CSI driver applied at concrete inputs and runs.  Digests and signatures stay symbolic; everything else is evaluated.
\<close>

section \<open>A configuration and a volume\<close>

definition sample_key :: bytes where
  "sample_key = replicate 32 (CHR ''k'')"

definition sample_cfg :: Config where
  "sample_cfg = \<lparr>cc_Name = DefaultDriverName, cc_Version = ''1'', cc_Address = DefaultControllerAddr, cc_Mode = ''all'', cc_NodeID = ''n'',
     cc_Endpoint = ''h'', cc_DataServer = ''h'', cc_RESTPort = ''8000'', cc_BasePath = ''/v'', cc_VersionFloor = [], cc_CredentialsDir = [],
     cc_CAFile = [], cc_InsecureSkipTLSVerify = False, cc_DefaultAllowedNetworks = [], cc_StateDir = ''/s'', cc_KubeletRoot = ''/k'',
     cc_HandleKeyFile = [], cc_HandleKey = sample_key\<rparr>"

lemma sample_cfg_sel [simp]:
  "cc_Mode sample_cfg = ''all''" "cc_Endpoint sample_cfg = ''h''" "cc_DataServer sample_cfg = ''h''" "cc_RESTPort sample_cfg = ''8000''"
  "cc_BasePath sample_cfg = ''/v''" "cc_CredentialsDir sample_cfg = []" "cc_CAFile sample_cfg = []" "cc_HandleKey sample_cfg = sample_key"
  "cc_DefaultAllowedNetworks sample_cfg = []" "cc_VersionFloor sample_cfg = []" "cc_InsecureSkipTLSVerify sample_cfg = False"
  by (simp_all add: sample_cfg_def)

lemma sample_key_length [simp]: "length sample_key = 32"
  by (simp add: sample_key_def)

lemma port_text: "ParseUint 10 16 ''8000'' = Some 8000" "validatedPort n ''8000'' = Inr ''8000''"
  by (rule sample_ports)+

lemma sample_url: "Contains ''h'' ''://'' = False" "TrimSpace ''h'' = ''h''"
  "url_Parse ''https://h'' = Some \<lparr>u_Scheme = ''https'', u_Opaque = [], u_User = None, u_Host = ''h'', u_Path = [], u_RawQuery = [], u_Fragment = []\<rparr>"
  "host_Hostname ''h'' = ''h''" "host_Port ''h'' = []" "HasPrefix ''h'' ''://'' = False"
  by code_simp+

lemma sample_rest_port: "configuredRESTPort ''h'' ''8000'' = Inr ''8000''"
  unfolding configuredRESTPort_def Let_def
  by (simp add: sample_url sample_values port_text url_Hostname_def url_Port_def)

lemma sample_server: "validateDataServer ''h'' = Inr ()" "sameEndpoint ''h'' ''h''" "EqualFold (endpointHost ''h'') (endpointHost ''h'')"
  by code_simp+

text \<open>The handle of an NFS volume at \<^verbatim>\<open>/v/nfs/x\<close>; its fingerprint is the digest of the empty text.\<close>

definition sample_handle :: "bool \<Rightarrow> volumeHandle" where
  "sample_handle dd = \<lparr>vh_Protocol = protocolNFS, vh_Endpoint = ''h'', vh_RESTPort = ''8000'', vh_Server = ''h'', vh_FSPath = ''/v/nfs/x'',
     vh_DirectoryID = ''7'', vh_ResourceID = ''7'', vh_ResourceName = ''/e/x'', vh_SpecFingerprint = hex_encode (sha256 []), vh_Capacity = 0,
     vh_QuotaEnabled = True, vh_DeleteData = dd, vh_NFSVersion = ''4.1'', vh_SMBEncrypted = False\<rparr>"

lemma sample_handle_sel [simp]:
  "vh_Protocol (sample_handle dd) = protocolNFS" "vh_Endpoint (sample_handle dd) = ''h''" "vh_RESTPort (sample_handle dd) = ''8000''"
  "vh_Server (sample_handle dd) = ''h''" "vh_FSPath (sample_handle dd) = ''/v/nfs/x''" "vh_DirectoryID (sample_handle dd) = ''7''"
  "vh_ResourceID (sample_handle dd) = ''7''" "vh_ResourceName (sample_handle dd) = ''/e/x''" "vh_QuotaEnabled (sample_handle dd)"
  "vh_DeleteData (sample_handle dd) = dd" "vh_SpecFingerprint (sample_handle dd) = hex_encode (sha256 [])"
  "vh_NFSVersion (sample_handle dd) = ''4.1''"
  by (simp_all add: sample_handle_def)

lemma sample_handle_plain: "handle_path_ok ''/v/nfs/x''" "HasPrefix ''/e/x'' ''/''" "path_Clean ''/e/x'' = ''/e/x''"
  "\<not> ContainsAny (''h'' @ ''h'' @ ''/e/x'' @ ''8000'') [CHR 0x00, CHR 0x0D, CHR 0x0A]"
  by code_simp+

lemma fingerprint_ok: "handle_spec_ok (hex_encode (sha256 s))" "hex_encode (sha256 s) \<noteq> []"
proof -
  have l: "length (hex_encode (sha256 s)) = 64" by simp
  then show "hex_encode (sha256 s) \<noteq> []" by (metis list.size(3) zero_neq_numeral)
  have "to_lower_char c = c" if "c \<in> set (hex_encode (sha256 s))" for c
    using hex_encode_hex [OF that] by (auto simp: to_lower_char_def lower_alnum_def is_lower_def is_digit_def is_upper_def)
  then have "ToLower (hex_encode (sha256 s)) = hex_encode (sha256 s)" unfolding ToLower_def by (rule map_idI)
  then show "handle_spec_ok (hex_encode (sha256 s))" by (simp add: handle_spec_ok_def)
qed

lemma sample_handle_valid: "volumeHandle_validate (sample_handle dd) = Inr ()"
  unfolding volumeHandle_validate_def sample_handle_sel
  by (simp add: sample_handle_plain [simplified] fingerprint_ok fingerprint_ok(2) [symmetric] port_text sample_rest_port sample_server handle_resource_ok_def protocolNFS_def)

definition sample_id :: "bool \<Rightarrow> string" where
  "sample_id dd = volumeHandlePrefix @ b64_encode (Marshal (handle_json (sample_handle dd))) @ ''.''
     @ signVolumeHandle (b64_encode (Marshal (handle_json (sample_handle dd)))) sample_key"

lemma handle_bound: "bound_to sample_cfg (sample_handle dd)"
  by (simp add: bound_to_def sample_server sample_rest_port)

lemma ascii_utf8: "list_all (\<lambda>c. ch c < 128) s \<Longrightarrow> utf8_valid s"
  by (induction s) (simp_all add: utf8_size_def byte_at_def)

lemma utf8_lower_alnum: "list_all lower_alnum s \<Longrightarrow> utf8_valid s"
  by (rule ascii_utf8) (auto simp: list_all_iff lower_alnum_def is_lower_def is_digit_def)

lemma fingerprint_utf8: "utf8_valid (hex_encode (sha256 s))"
  using hex_encode_hex by (intro utf8_lower_alnum) (fastforce simp: list_all_iff)

lemma sample_text: "text_handle (sample_handle dd)"
proof -
  have "list_all utf8_valid [''nfs'', ''h'', ''8000'', ''/v/nfs/x'', ''7'', ''/e/x'', ''4.1'']" by code_simp
  then show ?thesis by (simp add: text_handle_def fingerprint_utf8 protocolNFS_def) (simp add: sample_handle_def)
qed

lemma sample_signed: "signed_payload sample_key (b64_encode (Marshal (handle_json (sample_handle dd)))) (sample_id dd)"
  by (simp add: signed_payload_def sample_id_def)

lemma sample_decoded: "decodeVolumeHandle (sample_id dd) sample_cfg = Inr (sample_handle dd)"
  by (rule decode_signed) (simp_all add: sample_signed sample_handle_valid handle_bound sample_text)

lemma sample_encoded: "volumeHandle_encode (sample_handle dd) (cc_HandleKey sample_cfg) = Inr (sample_id dd)"
  by (simp add: volumeHandle_encode_def sample_handle_valid and_then_def sample_id_def Let_def)

lemma decodeVolumeHandle_encode_witness: "decodeVolumeHandle (sample_id True) sample_cfg = Inr (sample_handle True)"
  by (rule decodeVolumeHandle_encode [OF sample_encoded handle_bound sample_text])

lemma decodeVolumeHandle_authentic_witness:
  "\<exists>payload. sample_id True = volumeHandlePrefix @ payload @ ''.'' @ signVolumeHandle payload sample_key \<and> payload_reads payload (sample_handle True)"
  using decodeVolumeHandle_authentic [OF sample_decoded [of True]] by simp

section \<open>A driver that is connected\<close>

definition sample_csi :: "(string \<Rightarrow> string \<Rightarrow> reply) \<Rightarrow> nat CsiDriver" where
  "sample_csi f = \<lparr>cd_cfg = sample_cfg, cd_proc = sample_process, cd_pem_ok = (\<lambda>_. False), cd_conn = (\<lambda>_. static_conn f), cd_sv = sample_semver\<rparr>"

lemma sample_csi_sel [simp]: "cd_cfg (sample_csi f) = sample_cfg" "cd_proc (sample_csi f) = sample_process" "cd_sv (sample_csi f) = sample_semver"
  "cd_pem_ok (sample_csi f) = (\<lambda>_. False)" "cd_conn (sample_csi f) k = static_conn f"
  by (simp_all add: sample_csi_def)

lemma sample_auth: "controllerAuth sample_process sample_cfg [] = Inr (sample_creds, [])"
proof -
  have t: "TrimSpace ''t'' = ''t''" "TrimSpace [] = []" by code_simp+
  have "configured_auth sample_process sample_cfg = Inr (sample_creds, [])"
    by (simp add: configured_auth_def configuredCA_def credentialsFromDir_def environment_creds_def sample_process_def sample_creds_def and_then_def
        HasToken_def HasPassword_def Let_def t)
  then show ?thesis
    by (simp add: controllerAuth_def hasAnyKey_def validatePresentValues_def token_keys_def ca_keys_def request_creds_def firstValue_def param_def
        HasToken_def HasPassword_def t)
qed

lemma controllerAuth_unmixed_witness: "HasToken sample_creds \<noteq> HasPassword sample_creds \<and> configuredCA sample_process sample_cfg = Inr []"
  using controllerAuth_unmixed [OF sample_auth] by (simp add: configuredCA_def)

lemma sample_dial: "\<exists>dl. NewConnection (\<lambda>_. False) (csi_DialConfig sample_cfg ''h'' ''8000'' sample_creds []) = Inr dl \<and> dl_Scheme dl = ''https''
    \<and> dl_Host dl = ''h:8000'' \<and> dl_Creds dl = sample_creds"
proof -
  have v: "EqualFold ''https'' ''https''" "TrimSpace ''t'' = ''t''" "JoinHostPort ''h'' ''8000'' = ''h:8000''" "host_Port ''h:8000'' = ''8000''"
    by code_simp+
  have k: "HasToken sample_creds" by (simp add: HasToken_def sample_creds_def v)
  show ?thesis
    unfolding NewConnection_def Let_def csi_DialConfig_def DialConfig.select_convs
    by (simp only: sample_url k v simp_thms if_True if_False option.case URL.select_convs URL.update_convs url_Hostname_def url_Port_def port_text
        refl list.distinct append.simps) (simp add: v port_text)
qed

lemma sample_connect: "Connect (sample_csi f) ''h'' ''8000'' [] = Inr (static_conn f)"
proof -
  obtain dl where dl: "NewConnection (\<lambda>_. False) (csi_DialConfig sample_cfg ''h'' ''8000'' sample_creds []) = Inr dl" "dl_Scheme dl = ''https''"
    "dl_Host dl = ''h:8000''" "dl_Creds dl = sample_creds" using sample_dial by blast
  have h: "host_Hostname ''h:8000'' = ''h''" "host_Port ''h:8000'' = ''8000''" by code_simp+
  show ?thesis
    by (simp add: Connect_def sample_server sample_auth dl h Let_def) (simp add: static_conn_def const_conn_def sample_creds_def)
qed

lemma sample_controller: "controllerEnabled sample_cfg"
  by (simp add: controllerEnabled_def)

lemma sample_id_present: "TrimSpace (sample_id dd) \<noteq> []"
proof -
  have "\<not> is_space (CHR ''q'')" by code_simp
  then show ?thesis by (simp add: sample_id_def volumeHandlePrefix_def TrimSpace_def)
qed

lemma run_DeleteVolume:
  "run_state (DeleteVolume (sample_csi f) (sample_id dd) []) w = run_state (delete_volume (static_conn f) (sample_handle dd)) w"
  by (simp add: DeleteVolume_def with_handle_def sample_controller sample_id_present sample_decoded valid_arg_def with_backend_def sample_connect)

text \<open>Deleting again what is gone: the cluster reports the directory and the export missing.\<close>

lemma sample_ref: "nfsExportRefPath ''7'' = Inr ''/v2/nfs/exports/7''"
  by code_simp

lemma DeleteVolume_success_witness:
  "\<exists>es. resource_gone (sample_handle True) es \<and> data_gone (sample_handle True) es"
proof -
  have "fst (run_state (DeleteVolume (sample_csi (\<lambda>_ _. Http 404 [] [] None)) (sample_id True) []) world0) = Inr ()"
    by (simp add: run_DeleteVolume delete_volume_def delete_without_data_def PrepareVolumeDeletion_def numeral_eq_Suc read_resource_def known_protocol_def
        GetFileAttributes_def GetNFSExport_def export_call_def tagged_call_def sample_ref lift_res_def run_simps run_404 deletionClaimReadError_def
        sentinel_error_def)
  from DeleteVolume_success [OF fst_run [OF this]] show ?thesis by (auto simp: sample_decoded)
qed


section \<open>A volume is created\<close>

definition sample_params :: params where
  "sample_params = [(''protocol'', ''nfs''), (''allowAllHosts'', ''true'')]"

abbreviation sample_name :: string where
  "sample_name \<equiv> volumeResourceName ''x''"

definition sample_options :: volumeOptions where
  "sample_options = \<lparr>vo_RequestName = ''x'', vo_Parameters = sample_params, vo_Protocol = protocolNFS, vo_Endpoint = ''h'', vo_Server = ''h'',
     vo_RESTPort = ''8000'', vo_FSPath = ''/v/nfs/'' @ sample_name, vo_ResourceName = sample_name, vo_DirectoryMode = ''0777'',
     vo_AllowedNetworks = [], vo_AllowAllHosts = True, vo_QuotaEnabled = True, vo_DeleteData = True,
     vo_NFSExportPath = ''/k8s/'' @ sample_name, vo_NFSRequirePrivileged = False, vo_NFSVersion = ''4.1'', vo_NFSRootSquash = True,
     vo_NFSAnonymousUID = ''65534'', vo_NFSAnonymousGID = ''65534'', vo_SMBRequireEncryption = True, vo_SMBAccessBasedEnum = True,
     vo_SMBAllowAllUsers = False, vo_SMBTrustee = no_identity, vo_RequestedCapacity = 0, vo_CapacityLimit = 0\<rparr>"

lemma sample_params_lookup:
  "param sample_params ''protocol'' = ''nfs''" "param sample_params ''allowAllHosts'' = ''true''"
  "k \<notin> set [''protocol'', ''allowAllHosts''] \<Longrightarrow> param sample_params k = []"
  by (auto simp: sample_params_def param_def)

lemma sample_anonymous: "anonymous_ids_ok ''65534'' ''65534'' = Inr ()"
proof -
  have c: "char_of (51 :: nat) = CHR ''3''" "char_of (52 :: nat) = CHR ''4''" "char_of (53 :: nat) = CHR ''5''" "char_of (54 :: nat) = CHR ''6''"
    by code_simp+
  then have "itoa 65534 = ''65534''" by (simp add: itoa_def nat_digits.simps)
  then have "ParseUint 10 32 ''65534'' = Some 65534" by (simp add: ParseUint_def digits_val_def is_digit_def)
  then show ?thesis by (simp add: anonymous_ids_ok_def)
qed

lemma sample_paths:
  "path_Join [''/v'', protocolNFS, sample_name] = ''/v/nfs/'' @ sample_name" "path_Join [''/k8s'', sample_name] = ''/k8s/'' @ sample_name"
proof -
  have c: "path_Clean ''/v'' = ''/v''" "path_Clean ''/k8s'' = ''/k8s''" "HasPrefix ''/v'' ''/''" "HasPrefix ''/k8s'' ''/''" by code_simp+
  show "path_Join [''/v'', protocolNFS, sample_name] = ''/v/nfs/'' @ sample_name"
    using path_Join_below [OF c(1,3), of "[protocolNFS, sample_name]"] resource_plain plain_protocol by (simp add: protocolNFS_def)
  show "path_Join [''/k8s'', sample_name] = ''/k8s/'' @ sample_name"
    using path_Join_below [OF c(2,4), of "[sample_name]"] resource_plain by simp
qed

lemma sample_parsed_options: "parseVolumeOptions sample_cfg ''x'' sample_params = Inr sample_options"
proof -
  have v: "ToLower (TrimSpace ''nfs'') = protocolNFS" "TrimSpace [] = []" "TrimSpace ''true'' = ''true''" "ParseBool ''true'' = Some True"
    "validatedVolumePath ''basePath'' ''/v'' False = Inr ''/v''" "validatedVolumePath ''nfsExportPrefix'' ''/k8s'' True = Inr ''/k8s''"
    "modePattern ''0777''" "splitList [] = []" "TrimSpace ''65534'' = ''65534''" "TrimSpace ''4.1'' = ''4.1''" "protocolNFS \<noteq> protocolSMB"
    by code_simp+
  have keys: "find (\<lambda>kv. \<not> HasPrefix (fst kv) kubernetesReservedParameterPrefix \<and> fst kv \<notin> set volumeParameterKeys) sample_params = None"
    by (simp add: sample_params_def volumeParameterKeys_def)
  show ?thesis
    unfolding parseVolumeOptions_def keys Let_def option.case
    by (simp add: sample_params_lookup v check_endpoint_def strictBool_def firstParameter_def or_default_def allowed_networks_def
        validateNetworkRules_def data_server_def sample_server sample_url sample_rest_port and_then_step sample_anonymous sample_paths sample_options_def
        Let_def)
qed

lemma parseVolumeOptions_closed_witness: "closed_options sample_cfg ''x'' sample_options"
  by (rule parseVolumeOptions_closed [OF sample_parsed_options])

definition sample_request :: CreateVolumeRequest where
  "sample_request = \<lparr>cvq_Name = ''x'', cvq_HasContentSource = False, cvq_Parameters = sample_params,
     cvq_Capabilities = [Some \<lparr>vc_Mount = Some \<lparr>mv_FsType = [], mv_MountFlags = []\<rparr>, vc_Mode = 1\<rparr>],
     cvq_CapacityRange = Some \<lparr>cr_RequiredBytes = 5, cr_LimitBytes = 0\<rparr>, cvq_Secrets = []\<rparr>"

abbreviation sample_opts :: volumeOptions where
  "sample_opts \<equiv> sample_options\<lparr>vo_RequestedCapacity := 5, vo_CapacityLimit := 0\<rparr>"

lemma sample_capacity: "requestedCapacity (Some \<lparr>cr_RequiredBytes = 5, cr_LimitBytes = 0\<rparr>) = Inr 5"
  by (simp add: requestedCapacity_def)

lemma sample_create_options: "create_options sample_cfg sample_request = Inr (sample_opts, 5)"
proof -
  have "validateVolumeCapabilities protocolNFS [Some \<lparr>vc_Mount = Some \<lparr>mv_FsType = [], mv_MountFlags = []\<rparr>, vc_Mode = 1\<rparr>] = Inr ()" by code_simp
  then show ?thesis
    by (simp add: create_options_def sample_request_def sample_parsed_options and_then_step sample_capacity limit_bytes_def)
      (simp add: sample_options_def sample_capacity and_then_step)
qed

text \<open>A cluster without the volume: nothing is listed, the export's path is unknown, and every other answer is the same object.\<close>

definition sample_body :: "string \<Rightarrow> string \<Rightarrow> string \<Rightarrow> json" where
  "sample_body ep fs d = JObj [(''id'', JStr ''7''), (''export_path'', JStr ep), (''fs_path'', JStr fs), (''description'', JStr d),
     (''mode'', JStr ''0777''), (''limit'', JStr ''9'')]"

definition sample_cluster :: "json \<Rightarrow> string \<Rightarrow> string \<Rightarrow> reply" where
  "sample_cluster b m p =
     (if m = ''GET'' \<and> (p = nfsExportsPath \<or> p = smbSharesPath) then Http 200 [] ''x'' (Some (JArr []))
      else if HasPrefix p (nfsExportsPath @ ''%'') then Http 404 [] [] None
      else Http 200 [] ''x'' (Some b))"

lemma sample_decodes:
  "into no_attrs decode_attrs ''x'' (Some (sample_body ep fs d)) =
     Some \<lparr>fa_ID = ''7'', fa_Path = [], fa_Name = [], fa_Mode = ''0777'', fa_Owner = [], fa_Type = []\<rparr>"
  "into no_export decode_export ''x'' (Some (sample_body ep fs d)) = Some (no_export\<lparr>ne_ID := ''7'', ne_ExportPath := ep, ne_FSPath := fs, ne_Description := d\<rparr>)"
  "into no_quota decode_quota ''x'' (Some (sample_body ep fs d)) = Some \<lparr>q_ID = ''7'', q_Limit = 9, q_ETag = []\<rparr>"
proof -
  have p: "ParseInt64 ''9'' = Some 9" by code_simp
  note d = into_def sample_body_def decode_attrs_def decode_export_def decode_quota_def get_str_def get_int_def get_list_def quota_limit_text_def get_slice_def
    EqualFold_def ToLower_def to_lower_char_def is_upper_def
  show "into no_attrs decode_attrs ''x'' (Some (sample_body ep fs d)) =
     Some \<lparr>fa_ID = ''7'', fa_Path = [], fa_Name = [], fa_Mode = ''0777'', fa_Owner = [], fa_Type = []\<rparr>" by (simp add: d)
  show "into no_export decode_export ''x'' (Some (sample_body ep fs d)) = Some (no_export\<lparr>ne_ID := ''7'', ne_ExportPath := ep, ne_FSPath := fs, ne_Description := d\<rparr>)"
    by (simp add: d no_export_def)
  show "into no_quota decode_quota ''x'' (Some (sample_body ep fs d)) = Some \<lparr>q_ID = ''7'', q_Limit = 9, q_ETag = []\<rparr>"
    by (simp add: d p)
qed

lemma sample_answers:
  "sample_cluster b m (slash (filePath p t)) = Http 200 [] ''x'' (Some b)"
  "sample_cluster b m (slash (quota_path i)) = Http 200 [] ''x'' (Some b)"
  "sample_cluster b ''GET'' (slash nfsExportsPath) = Http 200 [] ''x'' (Some (JArr []))"
  "sample_cluster b ''GET'' (slash smbSharesPath) = Http 200 [] ''x'' (Some (JArr []))"
  "sample_cluster b ''POST'' (slash nfsExportsPath) = Http 200 [] ''x'' (Some b)"
  "sample_cluster b m (slash ''/v2/nfs/exports/7'') = Http 200 [] ''x'' (Some b)"
  "sample_cluster b m (slash (''/v2/nfs/exports/%'' @ s)) = Http 404 [] [] None"
  by (simp_all add: sample_cluster_def slash_def HasPrefix_def filePath_def quota_path_def quotas_path_def nfsExportsPath_def smbSharesPath_def)

text \<open>A program that yields a value from any warm world, and leaves the world warm.\<close>

definition warm :: "world \<Rightarrow> bool" where
  "warm w \<longleftrightarrow> w_bearer w = ''t'' \<and> w_version w = ''7.2.0''"

definition yields :: "'a prog \<Rightarrow> 'a \<Rightarrow> bool" where
  "yields m x \<longleftrightarrow> (\<forall>w. warm w \<longrightarrow> (\<exists>w'. run_state m w = (x, w') \<and> warm w'))"

lemma warm_logged: "warm (logged e w) \<longleftrightarrow> warm w"
  by (simp add: warm_def)

lemma yields_ret: "yields (ret x) x"
  by (simp add: yields_def run_simps)

lemma yields_run: "yields m x \<Longrightarrow> fst (run_state m warm_world) = x"
  by (auto simp: yields_def warm_def dest: spec [of _ warm_world])

lemma yields_lift: "yields (lift_res r) r"
  by (simp add: lift_res_def yields_ret)

lemma yields_bind:
  assumes "yields m a" "yields (k a) v"
  shows "yields (State_Monad.bind m k) v"
  unfolding yields_def
proof (intro allI impI)
  fix w assume "warm w"
  then obtain w1 where w1: "run_state m w = (a, w1)" "warm w1" using assms(1) by (auto simp: yields_def)
  then obtain w2 where "run_state (k a) w1 = (v, w2)" "warm w2" using assms(2) by (auto simp: yields_def)
  then show "\<exists>w'. run_state (State_Monad.bind m k) w = (v, w') \<and> warm w'" using w1 by (simp add: run_simps)
qed

lemma yields_andThen:
  assumes "yields m (Inr a)" "yields (k a) v"
  shows "yields (andThen m k) v"
  unfolding andThen_def by (rule yields_bind [OF assms(1)]) (simp add: assms(2))

lemma yields_as_grpc:
  assumes "yields m (Inr a)"
  shows "yields (as_grpc m) (Inr a)"
  unfolding as_grpc_def by (rule yields_bind [OF assms]) (simp add: yields_ret)

lemma yields_DoJSON:
  assumes "f m (slash p) = Http 200 etag raw j" "out raw j = Some x"
  shows "yields (DoJSON (static_conn f) m p q h b out) (Inr (etag, x))"
  using assms by (auto simp: yields_def warm_def run_static_ok)

lemma yields_DoJSON_missing:
  assumes "f m (slash p) = Http 404 [] [] None"
  shows "yields (DoJSON (static_conn f) m p q h b out) (Inl (EApi (parseAPIError 404 [] None)))"
  using assms by (auto simp: yields_def warm_def run_static_err)

abbreviation sample_conn :: "string \<Rightarrow> string \<Rightarrow> string \<Rightarrow> Connection" where
  "sample_conn ep fs d \<equiv> static_conn (sample_cluster (sample_body ep fs d))"

abbreviation sample_attrs :: FileAttributes where
  "sample_attrs \<equiv> \<lparr>fa_ID = ''7'', fa_Path = [], fa_Name = [], fa_Mode = ''0777'', fa_Owner = [], fa_Type = []\<rparr>"

abbreviation sample_export :: "string \<Rightarrow> string \<Rightarrow> string \<Rightarrow> NFSExport" where
  "sample_export ep fs d \<equiv> no_export\<lparr>ne_ID := ''7'', ne_ExportPath := ep, ne_FSPath := fs, ne_Description := d\<rparr>"

lemma yields_sample:
  assumes "sample_cluster (sample_body ep fs d) m (slash p) = Http 200 [] ''x'' j" "out ''x'' j = Some x"
  shows "yields (DoJSON (sample_conn ep fs d) m p q h b out) (Inr ([], x))"
  by (rule yields_DoJSON) (rule assms)+

lemma yields_attrs: "yields (GetFileAttributes (sample_conn ep fs d) p) (Inr sample_attrs)"
  unfolding GetFileAttributes_def
  by (rule yields_andThen, rule yields_sample, rule sample_answers(1), rule sample_decodes(1)) (simp add: yields_ret)

lemma tag_no_etag: "tag_export [] (sample_export ep fs d) = sample_export ep fs d"
  by (simp add: tag_export_def no_export_def)

lemma yields_export: "yields (GetNFSExport (sample_conn ep fs d) ''7'') (Inr (sample_export ep fs d))"
  unfolding GetNFSExport_def export_call_def tagged_call_def sample_ref
  by (rule yields_andThen [OF yields_lift], rule yields_andThen, rule yields_sample, rule sample_answers(6), rule sample_decodes(2))
    (simp add: yields_ret tag_no_etag)

lemma yields_ensure_loop:
  "yields (ensure_loop (sample_conn ep fs d) cur a ss) (Inr (if ss = [] then a else Some sample_attrs))"
proof (induction ss arbitrary: cur a)
  case (Cons s ss)
  show ?case
    unfolding ensure_loop.simps Let_def
    by (rule yields_bind [OF yields_attrs], simp add: requireDirectory_def)
      (rule yields_andThen [OF yields_lift], use Cons [of "joinFSPath cur s" "Some sample_attrs"] in \<open>simp split: if_splits\<close>)
qed (simp add: yields_ret)

lemma Split_some: "Split s sep \<noteq> []"
proof -
  have "split_on sep acc s \<noteq> []" for acc by (induction s arbitrary: acc) auto
  then show ?thesis by (simp add: Split_def)
qed

lemma yields_EnsureDirectory:
  assumes "mode = [] \<or> mode = ''0777''" "cleanFSPath p = Inr clean" "clean \<noteq> ''/''"
  shows "yields (EnsureDirectory (sample_conn ep fs d) p mode) (Inr sample_attrs)"
  unfolding EnsureDirectory_def assms(2)
  by (rule yields_andThen [OF yields_lift])
    (use assms(1,3) Split_some in \<open>auto intro!: yields_andThen [OF yields_ensure_loop] simp: yields_ret\<close>)

lemma yields_lists:
  "yields (ListNFSExports (sample_conn ep fs d)) (Inr [])" "yields (ListSMBShares (sample_conn ep fs d) b) (Inr [])"
  unfolding ListNFSExports_def ListSMBShares_def
  by (rule yields_andThen, rule yields_sample, rule sample_answers(3), simp add: into_def, simp add: yields_ret)
    (rule yields_andThen, rule yields_sample, rule sample_answers(4), simp add: into_def, simp add: yields_ret)

lemma yields_quota: "yields (EnsureQuotaAtLeast (sample_conn ep fs d) ''7'' 5) (Inr 9)"
  unfolding EnsureQuotaAtLeast_def
  by (simp add: numeral_eq_Suc GetQuota_def)
    (rule yields_bind, rule yields_andThen, rule yields_sample, rule sample_answers(2), rule sample_decodes(3), simp,
      rule yields_ret, simp add: yields_ret)

lemma deletion_not_managed: "managedDescriptionForHandle h \<noteq> volumeDeletionDescription h'"
  by (simp add: managedDescriptionForHandle_def volumeDeletionDescription_def volumeDeletionDescriptionPrefix_def managed_text_def)

lemma yields_ValidateVolume:
  assumes "vh_Protocol h = protocolNFS" "vh_DirectoryID h = ''7''" "vh_ResourceID h = ''7''"
  shows "yields (ValidateVolume (sample_conn (vh_ResourceName h) (vh_FSPath h) (managedDescriptionForHandle h)) h) (Inr ())"
proof -
  let ?c = "sample_conn (vh_ResourceName h) (vh_FSPath h) (managedDescriptionForHandle h)"
  let ?x = "sample_export (vh_ResourceName h) (vh_FSPath h) (managedDescriptionForHandle h)"
  have r: "yields (read_resource ?c h) (Inr (of_export ?x))"
    unfolding read_resource_def assms(3) using yields_andThen [OF yields_export yields_ret] assms(1) by simp
  show ?thesis
    unfolding ValidateVolume_def
    by (rule yields_andThen [OF yields_attrs])
      (simp add: assms known_protocol_def, rule yields_andThen [OF r],
        simp add: same_resource_def of_export_def assms deletion_not_managed yields_ret)
qed

lemma run_expansion:
  "run_state (ControllerExpandVolume (sample_csi f) \<lparr>xq_VolumeId = sample_id dd, xq_CapacityRange = Some \<lparr>cr_RequiredBytes = 5, cr_LimitBytes = 0\<rparr>,
      xq_Capability = None, xq_Secrets = []\<rparr>) w = run_state (expand_volume (static_conn f) (sample_handle dd) 5 0) w"
  by (simp add: ControllerExpandVolume_def with_handle_def sample_controller sample_id_present sample_decoded valid_arg_def sample_capacity
      with_backend_def sample_connect limit_bytes_def)

lemma ControllerExpandVolume_bounds_witness:
  "\<exists>es. validated (sample_handle True) es \<and> ensured ''7'' 5 es 9"
proof -
  let ?h = "sample_handle True"
  let ?f = "sample_cluster (sample_body (vh_ResourceName ?h) (vh_FSPath ?h) (managedDescriptionForHandle ?h))"
  have "yields (expand_volume (static_conn ?f) ?h 5 0) (Inr 9)"
    unfolding expand_volume_def
    by (rule yields_andThen [OF yields_as_grpc [OF yields_ValidateVolume]])
      (simp_all, rule yields_andThen [OF yields_as_grpc [OF yields_quota]], simp add: yields_ret)
  then have "fst (run_state (expand_volume (static_conn ?f) ?h 5 0) warm_world) = Inr 9"
    by (rule yields_run)
  then have "fst (run_state (ControllerExpandVolume (sample_csi ?f) \<lparr>xq_VolumeId = sample_id True,
      xq_CapacityRange = Some \<lparr>cr_RequiredBytes = 5, cr_LimitBytes = 0\<rparr>, xq_Capability = None, xq_Secrets = []\<rparr>) warm_world) = Inr 9"
    unfolding run_expansion .
  from ControllerExpandVolume_bounds [OF fst_run [OF this]] show ?thesis
    by (auto simp: sample_decoded sample_capacity)
qed

lemma sample_fs_clean: "path_Clean (''/v/nfs/'' @ sample_name) = ''/v/nfs/'' @ sample_name"
  "path_Clean (''/k8s/'' @ sample_name) = ''/k8s/'' @ sample_name"
proof -
  have "list_all plain_seg [''v'', ''nfs'', sample_name]" "list_all plain_seg [''k8s'', sample_name]" using resource_plain by (simp_all add: plain_seg_def)
  from this [THEN path_Clean_segs] show "path_Clean (''/v/nfs/'' @ sample_name) = ''/v/nfs/'' @ sample_name"
    "path_Clean (''/k8s/'' @ sample_name) = ''/k8s/'' @ sample_name" by simp_all
qed

lemma sample_name_chars: "c \<in> set sample_name \<Longrightarrow> name_char c"
  using resource_legal [of "''x''"] by (auto simp: legal_bucket_def list_all_iff)

lemma sample_name_plain: "c \<in> set sample_name \<Longrightarrow> \<not> c \<in> set [CHR 0x00, CHR 0x0D, CHR 0x0A, CHR 0x5C, CHR ''/'', CHR 0x09, CHR '' '']"
  using sample_name_chars [of c] by (auto simp: name_char_def lower_alnum_def is_lower_def is_digit_def)

lemma TrimSpace_rooted: "TrimSpace (CHR ''/'' # s) \<noteq> []"
  by (auto simp: TrimSpace_def is_space_def)

lemma printable_no_control: "list_all (\<lambda>c. 32 \<le> ch c \<and> ch c < 127) s \<Longrightarrow> \<not> has_control s"
  by (induction s rule: has_control.induct) auto

lemma sample_no_control: "\<not> has_control (''/v/nfs/'' @ sample_name)" "\<not> has_control (''/k8s/'' @ sample_name)"
proof -
  have "32 \<le> ch c \<and> ch c < 127" if "c \<in> set sample_name" for c
    using sample_name_chars [OF that] by (auto simp: name_char_def lower_alnum_def is_lower_def is_digit_def)
  then have s: "list_all (\<lambda>c. 32 \<le> ch c \<and> ch c < 127) sample_name" by (simp add: list_all_iff)
  show "\<not> has_control (''/v/nfs/'' @ sample_name)" "\<not> has_control (''/k8s/'' @ sample_name)"
    by (rule printable_no_control, simp add: s)+
qed

lemma sample_ref_k8s: "\<exists>s. nfsExportRefPath (''/k8s/'' @ sample_name) = Inr (''/v2/nfs/exports/%'' @ s)"
proof -
  have u: "\<not> unreserved (CHR ''/'')" "CHR ''/'' \<notin> set ''$&+:=@''" "TrimSpace (CHR ''/'' # s) \<noteq> []" for s
    by (simp_all add: unreserved_def is_lower_def is_upper_def is_digit_def TrimSpace_rooted)
  have e: "PathEscape (CHR ''/'' # s) = CHR ''%'' # CHR ''2'' # CHR ''F'' # PathEscape s" for s
    using u by (simp add: PathEscape_def pct_def HEXD_def)
  show ?thesis
    using sample_no_control(2) u(3)
    by (simp add: nfsExportRefPath_def ref_path_def andr_def rejectProtocolControlCharacters_def nfsExportsPath_def e)
qed

lemma sample_clean: "cleanFSPath (''/v/nfs/'' @ sample_name) = Inr (''/v/nfs/'' @ sample_name)"
  using sample_name_plain sample_fs_clean by (auto simp: cleanFSPath_def ContainsAny_def list_ex_iff Let_def TrimSpace_rooted HasPrefix_def)

lemma sample_options_sel:
  "vo_Protocol sample_opts = protocolNFS" "vo_FSPath sample_opts = ''/v/nfs/'' @ sample_name" "vo_NFSExportPath sample_opts = ''/k8s/'' @ sample_name"
  "vo_ResourceName sample_opts = sample_name" "vo_DirectoryMode sample_opts = ''0777''" "vo_QuotaEnabled sample_opts"
  "vo_Endpoint sample_opts = ''h''" "vo_RESTPort sample_opts = ''8000''" "vo_Server sample_opts = ''h''" "vo_NFSVersion sample_opts = ''4.1''"
  by (simp_all add: sample_options_def)

abbreviation sample_cluster_conn :: Connection where
  "sample_cluster_conn \<equiv> sample_conn (''/k8s/'' @ sample_name) (''/v/nfs/'' @ sample_name) (managedDescription sample_opts)"

abbreviation sample_claimed :: storageResource where
  "sample_claimed \<equiv> \<lparr>sr_ID = ''7'', sr_Name = ''/k8s/'' @ sample_name, sr_Path = ''/v/nfs/'' @ sample_name\<rparr>"

lemma yields_EnsureNFS: "yields (EnsureNFS sample_cluster_conn sample_opts) (Inr sample_claimed)"
proof -
  let ?d = "canonicalNFSExportRequest (volume_export sample_opts)"
  have valid: "validateNFSExportRequest (volume_export sample_opts) = Inr ()"
    using sample_no_control
    by (simp add: validateNFSExportRequest_def volume_export_def sample_options_sel rejectProtocolControlCharacters_def andr_def TrimSpace_rooted HasPrefix_def)
  have sel: "nq_TenantID ?d = 0" "nq_ExportPath ?d = ''/k8s/'' @ sample_name"
    by (simp_all add: canonicalNFSExportRequest_def volume_export_def sample_options_sel)
  have fields: "nq_TenantID (volume_export sample_opts) = 0" "nq_ExportPath (volume_export sample_opts) = ''/k8s/'' @ sample_name"
    "nq_FSPath ?d = nq_FSPath (volume_export sample_opts)"
    by (simp_all add: canonicalNFSExportRequest_def volume_export_def sample_options_sel)
  have validd: "validateNFSExportRequest ?d = Inr ()"
    unfolding validateNFSExportRequest_def sel fields using valid [unfolded validateNFSExportRequest_def sel fields] by simp
  obtain s where s: "nfsExportRefPath (''/k8s/'' @ sample_name) = Inr (''/v2/nfs/exports/%'' @ s)" using sample_ref_k8s by blast
  have get: "yields (GetNFSExport sample_cluster_conn (''/k8s/'' @ sample_name)) (Inl (EApi (parseAPIError 404 [] None)))"
    unfolding GetNFSExport_def export_call_def tagged_call_def s andThen_def
    by (rule yields_bind, rule yields_lift, simp only: sum.case, rule yields_bind, rule yields_DoJSON_missing, rule sample_answers(7))
      (simp add: yields_ret)
  have new: "yields (CreateNFSExport sample_cluster_conn ?d False)
      (Inr (sample_export (''/k8s/'' @ sample_name) (''/v/nfs/'' @ sample_name) (managedDescription sample_opts)))"
    unfolding CreateNFSExport_def validd export_call_def tagged_call_def Let_def
    by (rule yields_andThen, rule yields_lift) (simp add: sel(1) canonicalNFSExportRequest_def, rule yields_andThen, rule yields_sample, rule sample_answers(5),
      rule sample_decodes(2), simp add: tag_no_etag [simplified] yields_ret)
  have "yields (ClaimNFSExport sample_cluster_conn (volume_export sample_opts) False)
      (Inr (sample_export (''/k8s/'' @ sample_name) (''/v/nfs/'' @ sample_name) (managedDescription sample_opts), True))"
    unfolding ClaimNFSExport_def ensureNFSExport_def valid Let_def ensure_stable_export_def
    by (rule yields_andThen, rule yields_lift) (simp only: sel if_True if_False simp_thms, rule yields_bind, rule get,
      simp only: sum.case missing if_False simp_thms, rule yields_bind, rule new, simp add: yields_ret)
  then show ?thesis
    unfolding EnsureNFS_def by (rule yields_bind) (simp add: yields_ret)
qed

lemma yields_EnsureVersion: "yields (EnsureVersion sample_semver (static_conn f) []) (Inr ''7.2.0'')"
proof -
  have "core_version_text ''7.2.0'' = ''7.2.0''" by code_simp
  then have floor: "CheckFloor sample_semver ''7.2.0'' [] = Inr ()"
    by (simp add: CheckFloor_def ParseCoreVersion_def DefaultFloor_def AbsoluteMinimum_def TrimPrefix_def HasPrefix_def sample_semver_def)
  have "yields (Version (static_conn f)) (Inr ''7.2.0'')" by (simp add: yields_def Version_def run_simps warm_def)
  then show ?thesis unfolding EnsureVersion_def by (rule yields_andThen) (simp add: floor yields_ret)
qed

abbreviation sample_volume :: volumeHandle where
  "sample_volume \<equiv> create_handle sample_opts ''7'' sample_claimed"

lemma sample_volume_valid: "volumeHandle_validate sample_volume = Inr ()"
proof -
  have p: "handle_path_ok (''/v/nfs/'' @ sample_name)"
    using sample_name_plain sample_fs_clean by (auto simp: handle_path_ok_def ContainsAny_def list_ex_iff HasPrefix_def)
  have c: "\<not> ContainsAny (''h'' @ ''h'' @ (''/k8s/'' @ sample_name) @ ''8000'') [CHR 0x00, CHR 0x0D, CHR 0x0A]"
    using sample_name_plain by (auto simp: ContainsAny_def list_ex_iff)
  have r: "handle_resource_ok sample_volume = Inr ()"
    using sample_fs_clean(2) by (simp add: handle_resource_ok_def create_handle_def sample_options_sel HasPrefix_def)
  have sel: "vh_Protocol sample_volume = protocolNFS" "vh_Endpoint sample_volume = ''h''" "vh_RESTPort sample_volume = ''8000''"
    "vh_Server sample_volume = ''h''" "vh_FSPath sample_volume = ''/v/nfs/'' @ sample_name" "vh_DirectoryID sample_volume = ''7''"
    "vh_ResourceID sample_volume = ''7''" "vh_ResourceName sample_volume = ''/k8s/'' @ sample_name"
    "vh_SpecFingerprint sample_volume = hex_encode (sha256 (Marshal (immutableVolumeSpec sample_opts)))"
    by (simp_all add: create_handle_def sample_options_sel volumeSpecFingerprint_def del: append_Cons)
  show ?thesis
    unfolding volumeHandle_validate_def sel
    using p c r by (simp add: fingerprint_ok fingerprint_ok(2) [symmetric] port_text sample_rest_port sample_server del: append_Cons)
qed

lemma sample_marker: "managedDescriptionForHandle sample_volume = managedDescription sample_opts"
proof (rule managed_marker [of sample_cfg "''x''"])
  have "closed_options sample_cfg ''x'' sample_options" by (rule closed_volume_options [OF sample_parsed_options])
  then show "closed_options sample_cfg ''x'' sample_opts" by (simp only: closed_options_capacity)
qed (simp_all add: create_handle_def)

definition sample_created :: CsiVolume where
  "sample_created = \<lparr>cv_VolumeId = volumeHandlePrefix @ b64_encode (Marshal (handle_json sample_volume)) @ ''.''
       @ signVolumeHandle (b64_encode (Marshal (handle_json sample_volume))) sample_key,
     cv_CapacityBytes = 9, cv_VolumeContext = volumeContextForHandle sample_volume\<rparr>"

lemma yields_create_volume: "yields (create_volume (sample_csi f) sample_cluster_conn sample_opts 5 0) (Inr sample_created)"
proof -
  let ?c = sample_cluster_conn
  have ne: "(''/k8s/'' @ sample_name = []) = False" by simp
  have ver: "yields (EnsureVersion sample_semver ?c (cc_VersionFloor sample_cfg)) (Inr ''7.2.0'')"
    unfolding sample_cfg_sel by (rule yields_EnsureVersion)
  have check: "yields (CheckVolume ?c sample_opts) (Inr ())"
    unfolding CheckVolume_def
    by (rule yields_andThen, rule yields_lists) (simp, rule yields_andThen, rule yields_lists, simp add: yields_ret)
  have dir: "yields (EnsureDirectory ?c (vo_FSPath sample_opts) mode) (Inr sample_attrs)" if "mode = [] \<or> mode = ''0777''" for mode
    unfolding sample_options_sel by (rule yields_EnsureDirectory [OF that sample_clean]) simp
  have res: "yields (ensure_resource ?c sample_opts) (Inr sample_claimed)"
    using yields_EnsureNFS by (simp add: ensure_resource_def sample_options_sel)
  have quota: "yields (create_quota ?c sample_opts ''7'' 5 0) (Inr 9)"
    unfolding create_quota_def by (simp add: sample_options_sel) (rule yields_andThen, rule yields_as_grpc, rule yields_quota, simp add: yields_ret)
  have val: "yields (ValidateVolume ?c sample_volume) (Inr ())"
    using yields_ValidateVolume [of sample_volume, unfolded sample_marker] by (simp add: create_handle_def sample_options_sel)
  have finish: "yields (finish_volume sample_cfg ?c sample_volume 9) (Inr sample_created)"
    unfolding finish_volume_def
    by (rule yields_andThen, rule yields_as_grpc, rule val)
      (simp add: volumeHandle_encode_def sample_volume_valid and_then_step Let_def sample_created_def yields_ret del: append_Cons)
  show ?thesis
    unfolding create_volume_def sample_csi_sel
    by (rule yields_andThen, rule yields_as_grpc, rule ver,
      rule yields_andThen, rule yields_as_grpc, rule check, rule yields_andThen, rule yields_as_grpc, rule dir, simp,
      simp only: FileAttributes.select_convs list.distinct if_False, rule yields_andThen, rule yields_as_grpc, rule res,
      simp only: storageResource.select_convs ne list.distinct if_False simp_thms, rule yields_andThen, rule yields_as_grpc, rule dir,
      simp add: sample_options_sel, simp only: FileAttributes.select_convs simp_thms if_False, rule yields_andThen, rule quota)
      (use finish in simp)
qed

lemma run_CreateVolume_sample:
  "run_state (CreateVolume (sample_csi f) sample_request) w = run_state (create_volume (sample_csi f) (static_conn f) sample_opts 5 0) w"
proof -
  have "TrimSpace ''x'' \<noteq> []" by code_simp
  then have "\<not> TrimSpace (cvq_Name sample_request) = []" "\<not> cvq_HasContentSource sample_request" "cvq_Secrets sample_request = []"
    "limit_bytes (cvq_CapacityRange sample_request) = 0"
    by (simp_all add: sample_request_def limit_bytes_def)
  then show ?thesis
    by (simp add: CreateVolume_def sample_controller sample_create_options valid_arg_def with_backend_def sample_options_sel sample_connect)
qed

lemma sample_created_run: "fst (run_state (CreateVolume (sample_csi (sample_cluster (sample_body (''/k8s/'' @ sample_name) (''/v/nfs/'' @ sample_name)
    (managedDescription sample_opts)))) sample_request) warm_world) = Inr sample_created"
  unfolding run_CreateVolume_sample
  by (rule yields_run [OF yields_create_volume])

lemma CreateVolume_success_witness:
  "\<exists>h es. provisioned sample_cfg sample_opts 5 0 es sample_created h"
proof -
  have "limit_bytes (cvq_CapacityRange sample_request) = 0" by (simp add: sample_request_def limit_bytes_def)
  moreover have "TrimSpace ''h'' \<noteq> []" by (simp add: sample_url)
  ultimately show ?thesis
    using CreateVolume_success [OF fst_run [OF sample_created_run]] by (auto simp: sample_create_options)
qed


section \<open>Claims, capacity, errors, mounts\<close>


lemma ensureSMBShare_permitted_witness:
  "\<exists>es. w_events (snd (run_state (ensureSMBShare sample_cluster_conn (volume_share sample_opts) False True) warm_world)) = w_events warm_world @ es \<and>
     allowed_from (share_permitted (volume_share sample_opts) False True) [] es"
  by (rule ensureSMBShare_permitted [OF fst_run [OF refl]])

lemma requestedCapacity_bounds_witness: "(0 :: int) < 5 \<and> (5 :: int) \<noteq> 2 ^ 63 - 1"
  using requestedCapacity_bounds [OF sample_capacity] by blast

lemma toGRPCError_total_witness: "FromError (toGRPCError (ESentinel errVolumeConflict)) = Some AlreadyExists"
  using toGRPCError_total [of "ESentinel errVolumeConflict"] by simp



definition stacked_table :: string where
  "stacked_table = ''41 30 0:1 / /t rw - nfs h:/e rw'' @ [CHR 0x0A] @ ''30 1 0:1 / /t ro - nfs h:/d ro''"

definition lower_mount :: mountRecord where
  "lower_mount = \<lparr>mr_MountID = ''30'', mr_ParentID = ''1'', mr_Root = ''/'', mr_Source = ''h:/d'', mr_FSType = ''nfs'', mr_MountOptions = [''ro''],
     mr_Options = [''ro'', ''ro'']\<rparr>"

definition upper_mount :: mountRecord where
  "upper_mount = \<lparr>mr_MountID = ''41'', mr_ParentID = ''30'', mr_Root = ''/'', mr_Source = ''h:/e'', mr_FSType = ''nfs'', mr_MountOptions = [''rw''],
     mr_Options = [''rw'', ''rw'']\<rparr>"

lemma parseMountInfo_topmost_witness: "parseMountInfo stacked_table ''/t'' = Inr (Some upper_mount)"
proof -
  have m: "mount_matches stacked_table (path_Clean ''/t'') = [upper_mount, lower_mount]"
    unfolding stacked_table_def upper_mount_def lower_mount_def by code_simp
  have "mount_stack [lower_mount, upper_mount]" by (simp add: mount_stack_def lower_mount_def upper_mount_def)
  from parseMountInfo_topmost [OF this, of stacked_table "''/t''"] show ?thesis by (simp add: m)
qed

end
