(* ===== verification/Name_Locks.thy ===== *)
theory Name_Locks
  imports Csi_Driver "HOL-Library.Multiset"
begin

text \<open>
  \<^verbatim>\<open>lockCreateName\<close> of \<^verbatim>\<open>internal/csidriver/driver.go\<close>: a table of locks by name with reference counts, under the interleavings of any number
  of calls.  The sections under \<^verbatim>\<open>createMu\<close> are one step each, as are the operations of a lock's own mutex.  A call locks the keys of its
  request in order, works, and unlocks them in the reverse order (\<^verbatim>\<open>defer\<close>); it may return early at any point between.
\<close>

section \<open>The table and its operations\<close>

record createNameLock =
  lo_holder :: "nat option"
  lo_refs :: int

record lock_table =
  lt_entries :: "string \<Rightarrow> nat option"
  lt_objects :: "createNameLock list"

definition empty_locks :: lock_table where
  "empty_locks = \<lparr>lt_entries = (\<lambda>_. None), lt_objects = []\<rparr>"

definition count_ref :: "nat \<Rightarrow> int \<Rightarrow> lock_table \<Rightarrow> lock_table" where
  "count_ref l n t = t\<lparr>lt_objects := (lt_objects t)[l := (lt_objects t ! l)\<lparr>lo_refs := lo_refs (lt_objects t ! l) + n\<rparr>]\<rparr>"

text \<open>The first section under \<^verbatim>\<open>createMu\<close>: find the lock or make it, and count the caller.\<close>

definition lock_enter :: "string \<Rightarrow> lock_table \<Rightarrow> nat \<times> lock_table" where
  "lock_enter name t =
     (case lt_entries t name of
        Some l \<Rightarrow> (l, count_ref l 1 t)
      | None \<Rightarrow>
          (let l = length (lt_objects t)
           in (l, count_ref l 1 (t\<lparr>lt_entries := (lt_entries t)(name \<mapsto> l), lt_objects := lt_objects t @ [\<lparr>lo_holder = None, lo_refs = 0\<rparr>]\<rparr>))))"

definition set_holder :: "nat \<Rightarrow> nat option \<Rightarrow> lock_table \<Rightarrow> lock_table" where
  "set_holder l h t = t\<lparr>lt_objects := (lt_objects t)[l := (lt_objects t ! l)\<lparr>lo_holder := h\<rparr>]\<rparr>"

text \<open>The second section: the caller leaves, the last one removes the entry.\<close>

definition lock_leave :: "string \<Rightarrow> nat \<Rightarrow> lock_table \<Rightarrow> lock_table" where
  "lock_leave name l t =
     (let t = count_ref l (- 1) t
      in if lo_refs (lt_objects t ! l) = 0 then t\<lparr>lt_entries := (lt_entries t)(name := None)\<rparr> else t)"

section \<open>Calls\<close>

definition name_key :: "string \<Rightarrow> string" where "name_key n = ''name'' @ CHR 0x00 # n"
definition path_key :: "string \<Rightarrow> string" where "path_key p = ''path'' @ CHR 0x00 # p"

text \<open>The keys of a call in the order it locks them: \<open>CreateVolume\<close> and \<open>DeleteVolume\<close>.\<close>

definition create_lock_keys :: "string \<Rightarrow> volumeOptions \<Rightarrow> string list" where
  "create_lock_keys name opts = [name_key name, path_key (vo_FSPath opts)]"

definition delete_lock_keys :: "volumeHandle \<Rightarrow> string list" where
  "delete_lock_keys h = [path_key (vh_FSPath h)]"

datatype phase = Running | Waiting string nat | Leaving string nat

record call =
  ca_todo :: "string list"
  ca_held :: "(string \<times> nat) list"
  ca_phase :: phase

definition idle :: "call \<Rightarrow> bool" where
  "idle c \<longleftrightarrow> ca_todo c = [] \<and> ca_held c = [] \<and> ca_phase c = Running"

type_synonym lock_system = "lock_table \<times> call list"

inductive lock_step :: "lock_system \<Rightarrow> lock_system \<Rightarrow> bool" where
  enter: "\<lbrakk>i < length cs; ca_phase (cs ! i) = Running; ca_todo (cs ! i) = k # ks; lock_enter k t = (l, t')\<rbrakk>
    \<Longrightarrow> lock_step (t, cs) (t', cs[i := (cs ! i)\<lparr>ca_todo := ks, ca_phase := Waiting k l\<rparr>])"
| acquire: "\<lbrakk>i < length cs; ca_phase (cs ! i) = Waiting k l; lo_holder (lt_objects t ! l) = None\<rbrakk>
    \<Longrightarrow> lock_step (t, cs) (set_holder l (Some i) t, cs[i := (cs ! i)\<lparr>ca_held := (k, l) # ca_held (cs ! i), ca_phase := Running\<rparr>])"
| give_up: "\<lbrakk>i < length cs; ca_phase (cs ! i) = Running; ca_todo (cs ! i) \<noteq> []\<rbrakk>
    \<Longrightarrow> lock_step (t, cs) (t, cs[i := (cs ! i)\<lparr>ca_todo := []\<rparr>])"
| unlock: "\<lbrakk>i < length cs; ca_phase (cs ! i) = Running; ca_todo (cs ! i) = []; ca_held (cs ! i) = (k, l) # hs\<rbrakk>
    \<Longrightarrow> lock_step (t, cs) (set_holder l None t, cs[i := (cs ! i)\<lparr>ca_held := hs, ca_phase := Leaving k l\<rparr>])"
| leave: "\<lbrakk>i < length cs; ca_phase (cs ! i) = Leaving k l\<rbrakk>
    \<Longrightarrow> lock_step (t, cs) (lock_leave k l t, cs[i := (cs ! i)\<lparr>ca_phase := Running\<rparr>])"

text \<open>The same steps as a function: what call \<open>i\<close> can do next, and what the system can.\<close>

definition call_steps :: "lock_table \<Rightarrow> call list \<Rightarrow> nat \<Rightarrow> lock_system list" where
  "call_steps t cs i =
     (case ca_phase (cs ! i) of
        Running \<Rightarrow>
          (case ca_todo (cs ! i) of
             k # ks \<Rightarrow>
               [case lock_enter k t of (l, t') \<Rightarrow> (t', cs[i := (cs ! i)\<lparr>ca_todo := ks, ca_phase := Waiting k l\<rparr>]),
                (t, cs[i := (cs ! i)\<lparr>ca_todo := []\<rparr>])]
           | [] \<Rightarrow>
               (case ca_held (cs ! i) of
                  (k, l) # hs \<Rightarrow> [(set_holder l None t, cs[i := (cs ! i)\<lparr>ca_held := hs, ca_phase := Leaving k l\<rparr>])]
                | [] \<Rightarrow> []))
      | Waiting k l \<Rightarrow>
          (if lo_holder (lt_objects t ! l) = None
           then [(set_holder l (Some i) t, cs[i := (cs ! i)\<lparr>ca_held := (k, l) # ca_held (cs ! i), ca_phase := Running\<rparr>])] else [])
      | Leaving k l \<Rightarrow> [(lock_leave k l t, cs[i := (cs ! i)\<lparr>ca_phase := Running\<rparr>])])"

definition lock_steps :: "lock_system \<Rightarrow> lock_system list" where
  "lock_steps s = (case s of (t, cs) \<Rightarrow> concat (map (call_steps t cs) [0..<length cs]))"

lemma lock_step_iff: "lock_step s s' \<longleftrightarrow> s' \<in> set (lock_steps s)"
proof
  assume "lock_step s s'"
  then have "\<exists>i<length (snd s). s' \<in> set (call_steps (fst s) (snd s) i)"
    by (induction rule: lock_step.induct) (auto simp: call_steps_def split: list.split)
  then show "s' \<in> set (lock_steps s)" by (cases s) (auto simp: lock_steps_def)
next
  assume "s' \<in> set (lock_steps s)"
  then obtain t cs i where s: "s = (t, cs)" and i: "i < length cs" and m: "s' \<in> set (call_steps t cs i)"
    by (cases s) (auto simp: lock_steps_def)
  show "lock_step s s'"
  proof (cases "ca_phase (cs ! i)")
    case Running
    show ?thesis
    proof (cases "ca_todo (cs ! i)")
      case (Cons k ks)
      obtain l t' where e: "lock_enter k t = (l, t')" by (cases "lock_enter k t")
      then show ?thesis
        using m Running Cons lock_step.enter [OF i Running Cons e] lock_step.give_up [OF i Running] by (auto simp: s call_steps_def)
    next
      case Nil
      then show ?thesis
        using m Running lock_step.unlock [OF i Running Nil] by (auto simp: s call_steps_def split: list.splits)
    qed
  next
    case (Waiting k l)
    then show ?thesis using m lock_step.acquire [OF i Waiting] by (auto simp: s call_steps_def split: if_splits)
  next
    case (Leaving k l)
    then show ?thesis using m lock_step.leave [OF i Leaving] by (auto simp: s call_steps_def)
  qed
qed

text \<open>A request arrives at an idle caller.\<close>

inductive lock_event :: "lock_system \<Rightarrow> lock_system \<Rightarrow> bool" where
  step: "lock_step s s' \<Longrightarrow> lock_event s s'"
| arrive: "\<lbrakk>i < length cs; idle (cs ! i); (\<exists>n opts. ks = create_lock_keys n opts) \<or> (\<exists>h. ks = delete_lock_keys h)\<rbrakk>
    \<Longrightarrow> lock_event (t, cs) (t, cs[i := (cs ! i)\<lparr>ca_todo := ks\<rparr>])"

definition lock_start :: "nat \<Rightarrow> lock_system" where
  "lock_start n = (empty_locks, replicate n \<lparr>ca_todo = [], ca_held = [], ca_phase = Running\<rparr>)"

section \<open>The invariant\<close>

definition pending :: "phase \<Rightarrow> (string \<times> nat) list" where
  "pending p = (case p of Running \<Rightarrow> [] | Waiting k l \<Rightarrow> [(k, l)] | Leaving k l \<Rightarrow> [(k, l)])"

definition refs_of :: "call \<Rightarrow> (string \<times> nat) multiset" where
  "refs_of c = mset (ca_held c @ pending (ca_phase c))"

definition all_refs :: "call list \<Rightarrow> (string \<times> nat) multiset" where
  "all_refs cs = sum_list (map refs_of cs)"

lemma all_refs_update:
  assumes "i < length cs"
  shows "all_refs (cs[i := c]) + refs_of (cs ! i) = all_refs cs + refs_of c"
proof -
  have "all_refs cs = all_refs (take i cs @ cs ! i # drop (Suc i) cs)" using id_take_nth_drop [OF assms] by simp
  moreover have "all_refs (cs[i := c]) = all_refs (take i cs @ c # drop (Suc i) cs)" using upd_conv_take_nth_drop [OF assms] by simp
  ultimately show ?thesis by (simp add: all_refs_def)
qed

lemma in_all_refs: "x \<in># all_refs cs \<longleftrightarrow> (\<exists>i<length cs. x \<in># refs_of (cs ! i))"
proof -
  have "x \<in># all_refs cs \<longleftrightarrow> (\<exists>c\<in>set cs. x \<in># refs_of c)" unfolding all_refs_def by (induction cs) auto
  then show ?thesis by (metis in_set_conv_nth)
qed

lemma held_refs: "i < length cs \<Longrightarrow> x \<in> set (ca_held (cs ! i)) \<Longrightarrow> x \<in># all_refs cs"
  by (auto simp: in_all_refs refs_of_def)

lemma pending_refs: "i < length cs \<Longrightarrow> ca_phase (cs ! i) = Waiting k l \<or> ca_phase (cs ! i) = Leaving k l \<Longrightarrow> (k, l) \<in># all_refs cs"
  by (auto simp: in_all_refs refs_of_def pending_def)

text \<open>An entry is there exactly while its lock is referenced, and the lock counts the references; no two keys share a lock.\<close>

definition counted :: "lock_table \<Rightarrow> (string \<times> nat) multiset \<Rightarrow> bool" where
  "counted t R \<longleftrightarrow>
     (\<forall>k l. lt_entries t k = Some l \<longleftrightarrow> (k, l) \<in># R) \<and>
     (\<forall>k l. (k, l) \<in># R \<longrightarrow> l < length (lt_objects t) \<and> lo_refs (lt_objects t ! l) = int (count R (k, l))) \<and>
     (\<forall>k k' l. (k, l) \<in># R \<longrightarrow> (k', l) \<in># R \<longrightarrow> k = k')"

text \<open>A lock is held by whoever has it among the held ones, and by nobody else.\<close>

definition owned_by :: "lock_table \<Rightarrow> call list \<Rightarrow> bool" where
  "owned_by t cs \<longleftrightarrow>
     (\<forall>i<length cs. \<forall>(k, l)\<in>set (ca_held (cs ! i)). lo_holder (lt_objects t ! l) = Some i) \<and>
     (\<forall>k l i. lt_entries t k = Some l \<longrightarrow> lo_holder (lt_objects t ! l) = Some i \<longrightarrow> i < length cs \<and> (k, l) \<in> set (ca_held (cs ! i)))"

text \<open>A call locks names before paths: the order that rules deadlock out.\<close>

definition key_rank :: "string \<Rightarrow> nat" where
  "key_rank k = (if HasPrefix k ''path'' then 1 else 0)"

definition ordered_call :: "call \<Rightarrow> bool" where
  "ordered_call c \<longleftrightarrow>
     sorted_wrt (\<lambda>a b. key_rank a < key_rank b)
       (rev (map fst (ca_held c)) @ (case ca_phase c of Waiting k l \<Rightarrow> [k] | _ \<Rightarrow> []) @ ca_todo c) \<and>
     (\<forall>k l. ca_phase c = Leaving k l \<longrightarrow> ca_todo c = [])"

definition locks_ok :: "lock_system \<Rightarrow> bool" where
  "locks_ok s \<longleftrightarrow> (case s of (t, cs) \<Rightarrow> counted t (all_refs cs) \<and> owned_by t cs \<and> list_all ordered_call cs)"

lemma key_ranks [simp]: "key_rank (name_key n) = 0" "key_rank (path_key p) = 1"
  by (simp_all add: key_rank_def name_key_def path_key_def HasPrefix_def)

lemma start_ok: "locks_ok (lock_start n)"
proof -
  have "all_refs (replicate n \<lparr>ca_todo = [], ca_held = [], ca_phase = Running\<rparr>) = {#}"
    by (induction n) (simp_all add: all_refs_def refs_of_def pending_def)
  then show ?thesis
    by (simp add: locks_ok_def lock_start_def counted_def owned_by_def empty_locks_def list_all_iff ordered_call_def)
qed

lemma table_sel [simp]:
  "lt_entries (count_ref l n t) = lt_entries t" "length (lt_objects (count_ref l n t)) = length (lt_objects t)"
  "lt_entries (set_holder l h t) = lt_entries t" "length (lt_objects (set_holder l h t)) = length (lt_objects t)"
  by (simp_all add: count_ref_def set_holder_def)

lemma object_sel [simp]:
  assumes "l' < length (lt_objects t)"
  shows "lo_refs (lt_objects (count_ref l n t) ! l') = lo_refs (lt_objects t ! l') + (if l' = l then n else 0)"
    "lo_refs (lt_objects (set_holder l h t) ! l') = lo_refs (lt_objects t ! l')"
    "lo_holder (lt_objects (count_ref l n t) ! l') = lo_holder (lt_objects t ! l')"
    "lo_holder (lt_objects (set_holder l h t) ! l') = (if l' = l then h else lo_holder (lt_objects t ! l'))"
  using assms by (cases "l = l'"; simp add: count_ref_def set_holder_def)+

lemma leave_sel [simp]:
  "length (lt_objects (lock_leave k l t)) = length (lt_objects t)"
  "l' < length (lt_objects t) \<Longrightarrow> lo_holder (lt_objects (lock_leave k l t) ! l') = lo_holder (lt_objects t ! l')"
  "l' < length (lt_objects t) \<Longrightarrow> lo_refs (lt_objects (lock_leave k l t) ! l') = lo_refs (lt_objects t ! l') - (if l' = l then 1 else 0)"
  by (simp_all add: lock_leave_def Let_def)

lemma countedD:
  assumes "counted t R" "(k, l) \<in># R"
  shows "lt_entries t k = Some l" "l < length (lt_objects t)" "lo_refs (lt_objects t ! l) = int (count R (k, l))"
    "(k', l) \<in># R \<Longrightarrow> k' = k"
  using assms unfolding counted_def by blast+

lemma counted_holder [simp]: "counted (set_holder l h t) R \<longleftrightarrow> counted t R"
proof -
  have "(l' < length (lt_objects t) \<and> lo_refs (lt_objects (set_holder l h t) ! l') = n) = (l' < length (lt_objects t) \<and> lo_refs (lt_objects t ! l') = n)" for l' n
    by auto
  then show ?thesis unfolding counted_def by simp
qed

lemma enter_cases:
  assumes "lock_enter k t = (l, t')"
  obtains (old) "lt_entries t k = Some l" "t' = count_ref l 1 t"
  | (new) "lt_entries t k = None" "l = length (lt_objects t)" "lt_entries t' = (lt_entries t)(k \<mapsto> l)"
      "lt_objects t' = lt_objects t @ [\<lparr>lo_holder = None, lo_refs = 1\<rparr>]"
proof (cases "lt_entries t k")
  case None
  then show ?thesis using assms by (intro new) (auto simp: lock_enter_def Let_def count_ref_def)
next
  case (Some l0)
  then show ?thesis using assms by (intro old) (auto simp: lock_enter_def)
qed

lemma counted_enter:
  assumes "counted t R" "lock_enter k t = (l, t')"
  shows "counted t' (R + {#(k, l)#})"
  using assms(2)
proof (cases rule: enter_cases)
  case old
  then have "(k, l) \<in># R" using assms(1) unfolding counted_def by blast
  then show ?thesis using assms(1) countedD(2,3) [OF assms(1)] unfolding counted_def old(2) by auto
next
  case n: new
  let ?n = "length (lt_objects t)"
  have e: "l = ?n" "lt_entries t' = (lt_entries t)(k \<mapsto> ?n)" "length (lt_objects t') = Suc ?n"
    and o: "\<And>l'. l' < ?n \<Longrightarrow> lo_refs (lt_objects t' ! l') = lo_refs (lt_objects t ! l')" "lo_refs (lt_objects t' ! ?n) = 1"
    using n by (simp_all add: nth_append)
  have new: "(k', ?n) \<notin># R" for k' using countedD(2) [OF assms(1)] by blast
  have k: "(k, l') \<notin># R" for l' using assms(1) n(1) unfolding counted_def by force
  show ?thesis
    unfolding counted_def e(1,2,3)
  proof (intro conjI allI impI)
    fix k' l' show "((lt_entries t)(k \<mapsto> ?n)) k' = Some l' \<longleftrightarrow> (k', l') \<in># R + {#(k, ?n)#}"
      using assms(1) k new unfolding counted_def by auto
    assume r: "(k', l') \<in># R + {#(k, ?n)#}"
    then show "l' < Suc ?n" using countedD(2) [OF assms(1)] by (auto simp: less_Suc_eq)
    show "lo_refs (lt_objects t' ! l') = int (count (R + {#(k, ?n)#}) (k', l'))"
    proof (cases "(k', l') \<in># R")
      case True
      then have "l' < ?n" "lo_refs (lt_objects t ! l') = int (count R (k', l'))" using countedD(2,3) [OF assms(1) True] by blast+
      then show ?thesis using o(1) by simp
    next
      case False
      then have "k' = k" "l' = ?n" using r by auto
      moreover have "count R (k, ?n) = 0" using new by (simp add: not_in_iff)
      ultimately show ?thesis using o(2) by simp
    qed
  next
    fix k1 k2 l' assume "(k1, l') \<in># R + {#(k, ?n)#}" "(k2, l') \<in># R + {#(k, ?n)#}"
    then show "k1 = k2" using countedD(4) [OF assms(1)] new by auto
  qed
qed

lemma counted_leave:
  assumes "counted t R" "(k, l) \<in># R"
  shows "counted (lock_leave k l t) (R - {#(k, l)#})"
proof -
  let ?R = "R - {#(k, l)#}" and ?t = "lock_leave k l t"
  have l: "l < length (lt_objects t)" "lo_refs (lt_objects t ! l) = int (count R (k, l))" using countedD(2,3) [OF assms] by blast+
  have sub: "(k', l') \<in># R" if "(k', l') \<in># ?R" for k' l' using in_diffD [OF that] .
  have other: "(k', l') \<in># ?R \<longleftrightarrow> (k', l') \<in># R" if "(k', l') \<noteq> (k, l)" for k' l' using that by (metis count_diff diff_zero count_single not_in_iff)
  have this_key: "(k, l) \<in># ?R \<longleftrightarrow> count R (k, l) > 1" by (simp add: count_greater_zero_iff [symmetric] del: count_greater_zero_iff)
  have keys: "lt_entries ?t k' = (if k' = k \<and> count R (k, l) = 1 then None else lt_entries t k')" for k'
    using l by (auto simp: lock_leave_def Let_def)
  show ?thesis
    unfolding counted_def
  proof (intro conjI allI impI)
    fix k' l'
    show "lt_entries ?t k' = Some l' \<longleftrightarrow> (k', l') \<in># ?R"
    proof (cases "(k', l') = (k, l)")
      case True
      have "count R (k, l) \<ge> 1" using assms(2) by (simp add: Suc_le_eq)
      then have "count R (k, l) \<noteq> 1 \<longleftrightarrow> (k, l) \<in># ?R" using this_key by linarith
      then show ?thesis using True countedD(1) [OF assms] by (cases "count R (k, l) = 1") (simp_all add: keys)
    next
      case False
      then have "(k', l') \<in># ?R \<longleftrightarrow> lt_entries t k' = Some l'" using other assms(1) unfolding counted_def by blast
      moreover have "k' = k \<longrightarrow> lt_entries t k' \<noteq> Some l'" using False countedD(1) [OF assms] by auto
      ultimately show ?thesis by (auto simp: keys)
    qed
    assume r: "(k', l') \<in># ?R"
    show "l' < length (lt_objects ?t)" using countedD(2) [OF assms(1) sub [OF r]] by simp
    show "lo_refs (lt_objects ?t ! l') = int (count ?R (k', l'))"
    proof (cases "l' = l")
      case True
      then have "k' = k" using countedD(4) [OF assms(1)] sub [OF r] assms(2) by blast
      then show ?thesis using True l assms(2) by (simp add: of_nat_diff Suc_le_eq)
    next
      case False
      then show ?thesis using countedD(2,3) [OF assms(1) sub [OF r]] by simp
    qed
  next
    fix k1 k2 l' assume "(k1, l') \<in># ?R" "(k2, l') \<in># ?R"
    then show "k1 = k2" using countedD(4) [OF assms(1)] sub by blast
  qed
qed

section \<open>Every step keeps it\<close>

lemma owned_byD:
  assumes "owned_by t cs"
  shows "i < length cs \<Longrightarrow> (k, l) \<in> set (ca_held (cs ! i)) \<Longrightarrow> lo_holder (lt_objects t ! l) = Some i"
    "lt_entries t k = Some l \<Longrightarrow> lo_holder (lt_objects t ! l) = Some i \<Longrightarrow> i < length cs \<and> (k, l) \<in> set (ca_held (cs ! i))"
  using assms unfolding owned_by_def by fast+

text \<open>A step that changes neither what is held nor a holder.\<close>

lemma owned_by_same:
  assumes "owned_by t cs" "i < length cs" "ca_held c = ca_held (cs ! i)"
    and "\<And>l. l < length (lt_objects t) \<Longrightarrow> lo_holder (lt_objects t' ! l) = lo_holder (lt_objects t ! l)"
    and "\<And>k l. lt_entries t' k = Some l \<Longrightarrow> lo_holder (lt_objects t' ! l) \<noteq> None \<Longrightarrow> lt_entries t k = Some l \<and> l < length (lt_objects t)"
    and "\<And>k l j. j < length cs \<Longrightarrow> (k, l) \<in> set (ca_held (cs ! j)) \<Longrightarrow> l < length (lt_objects t)"
  shows "owned_by t' (cs[i := c])"
proof -
  have h: "ca_held (cs[i := c] ! j) = ca_held (cs ! j)" if "j < length cs" for j using that assms(2,3) by (simp add: nth_list_update)
  show ?thesis
    unfolding owned_by_def
  proof (intro conjI allI impI ballI)
    fix j x assume j: "j < length (cs[i := c])" "x \<in> set (ca_held (cs[i := c] ! j))"
    obtain k l where x: "x = (k, l)" by (cases x)
    then have "(k, l) \<in> set (ca_held (cs ! j))" "j < length cs" using j h by simp_all
    then show "case x of (k, l) \<Rightarrow> lo_holder (lt_objects t' ! l) = Some j"
      using x assms(4,6) owned_byD(1) [OF assms(1)] by simp
  next
    fix k l j assume e: "lt_entries t' k = Some l" "lo_holder (lt_objects t' ! l) = Some j"
    then have k: "lt_entries t k = Some l" "l < length (lt_objects t)" using assms(5) [of k l] by simp_all
    then have "lo_holder (lt_objects t ! l) = Some j" using e(2) assms(4) by simp
    with k(1) have "j < length cs \<and> (k, l) \<in> set (ca_held (cs ! j))" by (rule owned_byD(2) [OF assms(1)])
    then show "j < length (cs[i := c])" "(k, l) \<in> set (ca_held (cs[i := c] ! j))" using h by simp_all
  qed
qed

lemma ordered_update: "list_all ordered_call cs \<Longrightarrow> ordered_call c \<Longrightarrow> list_all ordered_call (cs[i := c])"
  using set_update_subset_insert [of cs i c] by (auto simp: list_all_iff)

lemma ordered_at: "list_all ordered_call cs \<Longrightarrow> i < length cs \<Longrightarrow> ordered_call (cs ! i)"
  by (simp add: list_all_length)

lemma held_valid: "counted t (all_refs cs) \<Longrightarrow> j < length cs \<Longrightarrow> (k, l) \<in> set (ca_held (cs ! j)) \<Longrightarrow> l < length (lt_objects t)"
  using countedD(2) held_refs by blast

lemma refs_replaced:
  assumes "i < length cs" "refs_of c = refs_of (cs ! i)"
  shows "all_refs (cs[i := c]) = all_refs cs"
  using all_refs_update [OF assms(1), of c] assms(2) by simp

lemma refs_added:
  assumes "i < length cs" "refs_of c = refs_of (cs ! i) + {#x#}"
  shows "all_refs (cs[i := c]) = all_refs cs + {#x#}"
  using all_refs_update [OF assms(1), of c] assms(2) by simp

lemma refs_removed:
  assumes "i < length cs" "refs_of (cs ! i) = refs_of c + {#x#}"
  shows "all_refs (cs[i := c]) = all_refs cs - {#x#}"
proof -
  have "all_refs (cs[i := c]) + {#x#} + refs_of c = all_refs cs + refs_of c"
    using all_refs_update [OF assms(1), of c] assms(2) by (simp add: ac_simps)
  then have "all_refs (cs[i := c]) + {#x#} = all_refs cs" by (rule add_right_imp_eq)
  then show ?thesis by (metis add_diff_cancel_right')
qed

lemma enter_holder:
  assumes "lock_enter k t = (l, t')" "l' < length (lt_objects t)"
  shows "lo_holder (lt_objects t' ! l') = lo_holder (lt_objects t ! l')"
  using assms(1) by (cases rule: enter_cases) (use assms(2) in \<open>auto simp: nth_append\<close>)

lemma enter_entry:
  assumes "lock_enter k t = (l, t')" "lt_entries t' k' = Some l'" "lo_holder (lt_objects t' ! l') \<noteq> None"
  shows "lt_entries t k' = Some l'"
  using assms(1) by (cases rule: enter_cases) (use assms(2,3) in \<open>auto simp: nth_append split: if_splits\<close>)

lemma enter_ok:
  assumes "locks_ok (t, cs)" "i < length cs" "ca_phase (cs ! i) = Running" "ca_todo (cs ! i) = k # ks" "lock_enter k t = (l, t')"
  shows "locks_ok (t', cs[i := (cs ! i)\<lparr>ca_todo := ks, ca_phase := Waiting k l\<rparr>])"
proof -
  let ?c = "(cs ! i)\<lparr>ca_todo := ks, ca_phase := Waiting k l\<rparr>"
  have inv: "counted t (all_refs cs)" "owned_by t cs" "list_all ordered_call cs" using assms(1) by (simp_all add: locks_ok_def)
  have "counted t' (all_refs (cs[i := ?c]))"
    using refs_added [OF assms(2), of ?c "(k, l)"] counted_enter [OF inv(1) assms(5)] assms(3) by (simp add: refs_of_def pending_def)
  moreover have "owned_by t' (cs[i := ?c])"
  proof (rule owned_by_same [OF inv(2) assms(2)])
    fix l' assume "l' < length (lt_objects t)"
    then show "lo_holder (lt_objects t' ! l') = lo_holder (lt_objects t ! l')"
      by (rule enter_holder [OF assms(5)])
  next
    fix k' l' assume e: "lt_entries t' k' = Some l'" "lo_holder (lt_objects t' ! l') \<noteq> None"
    have "lt_entries t k' = Some l'"
      by (rule enter_entry [OF assms(5) e])
    moreover from this have "l' < length (lt_objects t)" using inv(1) countedD(2) unfolding counted_def by blast
    ultimately show "lt_entries t k' = Some l' \<and> l' < length (lt_objects t)" ..
  qed (use held_valid [OF inv(1)] in auto)
  moreover have "ordered_call ?c" using ordered_at [OF inv(3) assms(2)] assms(3,4) by (simp add: ordered_call_def)
  ultimately show ?thesis using ordered_update [OF inv(3)] by (simp add: locks_ok_def)
qed


lemma locks_okD:
  assumes "locks_ok (t, cs)"
  shows "counted t (all_refs cs)" "owned_by t cs" "list_all ordered_call cs"
  using assms by (simp_all add: locks_ok_def)

lemma locks_okI:
  assumes "locks_ok (t, cs)" "counted t' (all_refs (cs[i := c]))" "owned_by t' (cs[i := c])" "ordered_call c"
  shows "locks_ok (t', cs[i := c])"
  using assms(2,3) ordered_update [OF locks_okD(3) [OF assms(1)] assms(4)] by (simp add: locks_ok_def)

lemma acquire_ok:
  assumes "locks_ok (t, cs)" "i < length cs" "ca_phase (cs ! i) = Waiting k l" "lo_holder (lt_objects t ! l) = None"
  shows "locks_ok (set_holder l (Some i) t, cs[i := (cs ! i)\<lparr>ca_held := (k, l) # ca_held (cs ! i), ca_phase := Running\<rparr>])"
    (is "locks_ok (?t, cs[i := ?c])")
proof (rule locks_okI [OF assms(1)])
  note inv = locks_okD [OF assms(1)]
  have R: "all_refs (cs[i := ?c]) = all_refs cs"
    by (rule refs_replaced [OF assms(2)]) (simp add: refs_of_def pending_def assms(3))
  show "counted ?t (all_refs (cs[i := ?c]))" using inv(1) by (simp add: R)
  have r: "(k, l) \<in># all_refs cs" using pending_refs [OF assms(2)] assms(3) by blast
  have l: "l < length (lt_objects t)" by (rule countedD(2) [OF inv(1) r])
  show "owned_by ?t (cs[i := ?c])"
    unfolding owned_by_def
  proof (intro conjI allI impI ballI)
    fix j x assume j: "j < length (cs[i := ?c])" "x \<in> set (ca_held (cs[i := ?c] ! j))"
    obtain k' l' where x: "x = (k', l')" by (cases x)
    have "(k', l') \<in> set (ca_held (cs ! j)) \<or> j = i \<and> (k', l') = (k, l)" using j x by (cases "j = i") auto
    then show "case x of (k', l') \<Rightarrow> lo_holder (lt_objects ?t ! l') = Some j"
      using x l j(1) assms(4) owned_byD(1) [OF inv(2), of j k' l'] held_valid [OF inv(1), of j k' l'] by auto
  next
    fix k' l' j assume e: "lt_entries ?t k' = Some l'" "lo_holder (lt_objects ?t ! l') = Some j"
    then have r': "(k', l') \<in># all_refs cs" using inv(1) unfolding counted_def by simp
    note v = countedD(2) [OF inv(1) r']
    have "j < length cs \<and> (k', l') \<in> set (ca_held (cs ! j)) \<or> j = i \<and> (k', l') = (k, l)"
    proof (cases "l' = l")
      case True
      then show ?thesis using e(2) l countedD(4) [OF inv(1) r] r' by simp
    next
      case False
      then show ?thesis using e v owned_byD(2) [OF inv(2), of k' l' j] by simp
    qed
    then show "j < length (cs[i := ?c])" "(k', l') \<in> set (ca_held (cs[i := ?c] ! j))" using assms(2) by (auto simp: nth_list_update)
  qed
  show "ordered_call ?c" using ordered_at [OF inv(3) assms(2)] assms(3) by (simp add: ordered_call_def)
qed

lemma give_up_ok:
  assumes "locks_ok (t, cs)" "i < length cs" "ca_phase (cs ! i) = Running"
  shows "locks_ok (t, cs[i := (cs ! i)\<lparr>ca_todo := []\<rparr>])" (is "locks_ok (t, cs[i := ?c])")
proof (rule locks_okI [OF assms(1)])
  note inv = locks_okD [OF assms(1)]
  show "counted t (all_refs (cs[i := ?c]))" using inv(1) refs_replaced [OF assms(2), of ?c] by (simp add: refs_of_def)
  show "owned_by t (cs[i := ?c])"
    by (rule owned_by_same [OF inv(2) assms(2)]) (use held_valid [OF inv(1)] countedD(2) [OF inv(1)] inv(1) in \<open>auto simp: counted_def\<close>)
  show "ordered_call ?c" using ordered_at [OF inv(3) assms(2)] assms(3) by (simp add: ordered_call_def sorted_wrt_append)
qed

lemma held_distinct:
  assumes "ordered_call c" "ca_held c = (k, l) # hs" "(k, l') \<in> set hs"
  shows False
  using assms by (fastforce simp: ordered_call_def sorted_wrt_append)

lemma unlock_ok:
  assumes "locks_ok (t, cs)" "i < length cs" "ca_phase (cs ! i) = Running" "ca_todo (cs ! i) = []" "ca_held (cs ! i) = (k, l) # hs"
  shows "locks_ok (set_holder l None t, cs[i := (cs ! i)\<lparr>ca_held := hs, ca_phase := Leaving k l\<rparr>])"
    (is "locks_ok (?t, cs[i := ?c])")
proof (rule locks_okI [OF assms(1)])
  note inv = locks_okD [OF assms(1)]
  have R: "all_refs (cs[i := ?c]) = all_refs cs"
    by (rule refs_replaced [OF assms(2)]) (simp add: refs_of_def pending_def assms(3,5))
  show "counted ?t (all_refs (cs[i := ?c]))" using inv(1) by (simp add: R)
  have h: "(k, l) \<in> set (ca_held (cs ! i))" by (simp add: assms(5))
  note r = held_refs [OF assms(2) h]
  note owner = owned_byD(1) [OF inv(2) assms(2) h]
  show "owned_by ?t (cs[i := ?c])"
    unfolding owned_by_def
  proof (intro conjI allI impI ballI)
    fix j x assume j: "j < length (cs[i := ?c])" "x \<in> set (ca_held (cs[i := ?c] ! j))"
    obtain k' l' where x: "x = (k', l')" by (cases x)
    have old: "(k', l') \<in> set (ca_held (cs ! j))" and here: "j = i \<Longrightarrow> (k', l') \<in> set hs"
      using j x assms(5) by (cases "j = i"; simp)+
    have j': "j < length cs" using j(1) by simp
    have "l' \<noteq> l"
    proof
      assume "l' = l"
      then have "j = i" using owned_byD(1) [OF inv(2) j' old] owner by simp
      moreover have "k' = k" using countedD(4) [OF inv(1) r] held_refs [OF j' old] \<open>l' = l\<close> by simp
      ultimately show False using here held_distinct [OF ordered_at [OF inv(3) assms(2)] assms(5)] by blast
    qed
    then show "case x of (k', l') \<Rightarrow> lo_holder (lt_objects ?t ! l') = Some j"
      using x owned_byD(1) [OF inv(2) j' old] held_valid [OF inv(1) j' old] by simp
  next
    fix k' l' j assume e: "lt_entries ?t k' = Some l'" "lo_holder (lt_objects ?t ! l') = Some j"
    then have "(k', l') \<in># all_refs cs" using inv(1) unfolding counted_def by simp
    note v = countedD(2) [OF inv(1) this]
    have "l' \<noteq> l" "lo_holder (lt_objects t ! l') = Some j" using e(2) v by (auto split: if_splits)
    then have "j < length cs \<and> (k', l') \<in> set (ca_held (cs ! j))" using e(1) owned_byD(2) [OF inv(2), of k' l' j] by simp
    then show "j < length (cs[i := ?c])" "(k', l') \<in> set (ca_held (cs[i := ?c] ! j))"
      using \<open>l' \<noteq> l\<close> assms(5) by (cases "j = i"; simp)+
  qed
  show "ordered_call ?c" using ordered_at [OF inv(3) assms(2)] assms(3-5) by (simp add: ordered_call_def sorted_wrt_append)
qed

lemma leave_ok:
  assumes "locks_ok (t, cs)" "i < length cs" "ca_phase (cs ! i) = Leaving k l"
  shows "locks_ok (lock_leave k l t, cs[i := (cs ! i)\<lparr>ca_phase := Running\<rparr>])" (is "locks_ok (?t, cs[i := ?c])")
proof (rule locks_okI [OF assms(1)])
  note inv = locks_okD [OF assms(1)]
  have r: "(k, l) \<in># all_refs cs" using pending_refs [OF assms(2)] assms(3) by blast
  have "all_refs (cs[i := ?c]) = all_refs cs - {#(k, l)#}"
    by (rule refs_removed [OF assms(2)]) (simp add: refs_of_def pending_def assms(3))
  then show "counted ?t (all_refs (cs[i := ?c]))" using counted_leave [OF inv(1) r] by simp
  have sub: "lt_entries ?t k' = Some l' \<Longrightarrow> lt_entries t k' = Some l'" for k' l'
    by (simp add: lock_leave_def Let_def split: if_splits)
  show "owned_by ?t (cs[i := ?c])"
  proof (rule owned_by_same [OF inv(2) assms(2)])
    fix k' l' assume "lt_entries ?t k' = Some l'"
    note e = sub [OF this]
    then have "(k', l') \<in># all_refs cs" using inv(1) unfolding counted_def by blast
    then show "lt_entries t k' = Some l' \<and> l' < length (lt_objects t)" using e countedD(2) [OF inv(1)] by blast
  qed (use held_valid [OF inv(1)] in auto)
  show "ordered_call ?c" using ordered_at [OF inv(3) assms(2)] assms(3) by (auto simp: ordered_call_def)
qed

lemma step_ok: "lock_step s s' \<Longrightarrow> locks_ok s \<Longrightarrow> locks_ok s'"
  by (induction rule: lock_step.induct) (simp_all add: enter_ok acquire_ok give_up_ok unlock_ok leave_ok)

lemma arrive_ok:
  assumes "locks_ok (t, cs)" "i < length cs" "idle (cs ! i)" "(\<exists>n opts. ks = create_lock_keys n opts) \<or> (\<exists>h. ks = delete_lock_keys h)"
  shows "locks_ok (t, cs[i := (cs ! i)\<lparr>ca_todo := ks\<rparr>])" (is "locks_ok (t, cs[i := ?c])")
proof (rule locks_okI [OF assms(1)])
  note inv = locks_okD [OF assms(1)]
  show "counted t (all_refs (cs[i := ?c]))" using inv(1) refs_replaced [OF assms(2), of ?c] by (simp add: refs_of_def)
  show "owned_by t (cs[i := ?c])"
    by (rule owned_by_same [OF inv(2) assms(2)]) (use held_valid [OF inv(1)] countedD(2) [OF inv(1)] inv(1) in \<open>auto simp: counted_def\<close>)
  show "ordered_call ?c" using assms(3,4) by (auto simp: ordered_call_def idle_def create_lock_keys_def delete_lock_keys_def)
qed

lemma event_ok: "lock_event s s' \<Longrightarrow> locks_ok s \<Longrightarrow> locks_ok s'"
  by (induction rule: lock_event.induct) (simp_all add: step_ok arrive_ok)

lemma reachable_ok: "lock_event\<^sup>*\<^sup>* (lock_start n) s \<Longrightarrow> locks_ok s"
  by (induction rule: rtranclp_induct) (simp_all add: start_ok event_ok)


section \<open>Progress\<close>

lemma key_rank_le: "key_rank k \<le> 1" by (simp add: key_rank_def)

text \<open>A holder that waits itself waits for a key of a higher rank than what it holds.\<close>

lemma wait_above_held:
  assumes "ordered_call c" "ca_phase c = Waiting k' l'" "(k, l) \<in> set (ca_held c)"
  shows "key_rank k < key_rank k'"
  using assms by (force simp: ordered_call_def sorted_wrt_append)

lemma lock_can_step:
  assumes "i < length cs" "\<not> idle (cs ! i)" "\<And>k l. ca_phase (cs ! i) = Waiting k l \<Longrightarrow> lo_holder (lt_objects t ! l) = None"
  shows "\<exists>s'. lock_step (t, cs) s'"
proof (cases "ca_phase (cs ! i)")
  case Running
  show ?thesis
  proof (cases "ca_todo (cs ! i)")
    case Nil
    then obtain k l hs where "ca_held (cs ! i) = (k, l) # hs" using assms(2) Running by (cases "ca_held (cs ! i)") (auto simp: idle_def)
    then show ?thesis using lock_step.unlock [OF assms(1) Running Nil] by blast
  next
    case (Cons k ks)
    then show ?thesis using lock_step.enter [OF assms(1) Running Cons] by (cases "lock_enter k t") blast
  qed
next
  case (Waiting k l) then show ?thesis using lock_step.acquire [OF assms(1) Waiting] assms(3) by blast
next
  case (Leaving k l) then show ?thesis using lock_step.leave [OF assms(1) Leaving] by blast
qed

lemma waiting_can_step:
  assumes "locks_ok (t, cs)" "i < length cs" "ca_phase (cs ! i) = Waiting k l"
  shows "\<exists>s'. lock_step (t, cs) s'"
  using assms(2,3)
proof (induction "2 - key_rank k" arbitrary: i k l rule: less_induct)
  case (less k i l)
  note inv = locks_okD [OF assms(1)]
  have "(k, l) \<in># all_refs cs" using pending_refs less.prems by blast
  then have e: "lt_entries t k = Some l" by (rule countedD(1) [OF inv(1)])
  show ?case
  proof (cases "lo_holder (lt_objects t ! l)")
    case None
    then show ?thesis using lock_step.acquire [OF less.prems] by blast
  next
    case (Some j)
    then have j: "j < length cs" "(k, l) \<in> set (ca_held (cs ! j))" using owned_byD(2) [OF inv(2) e] by blast+
    have busy: "\<not> idle (cs ! j)" using j(2) by (auto simp: idle_def)
    show ?thesis
    proof (cases "\<exists>k' l'. ca_phase (cs ! j) = Waiting k' l'")
      case True
      then obtain k' l' where w: "ca_phase (cs ! j) = Waiting k' l'" by blast
      have "key_rank k < key_rank k'" by (rule wait_above_held [OF ordered_at [OF inv(3) j(1)] w j(2)])
      then have "2 - key_rank k' < 2 - key_rank k" using key_rank_le [of k'] by linarith
      then show ?thesis using less.hyps j(1) w by blast
    next
      case False
      then show ?thesis using lock_can_step [OF j(1) busy] by blast
    qed
  qed
qed

lemma busy_can_step:
  assumes "locks_ok (t, cs)" "\<not> list_all idle cs"
  shows "\<exists>s'. lock_step (t, cs) s'"
proof -
  obtain i where i: "i < length cs" "\<not> idle (cs ! i)" using assms(2) by (auto simp: list_all_length)
  show ?thesis
  proof (cases "\<exists>k l. ca_phase (cs ! i) = Waiting k l")
    case True then show ?thesis using waiting_can_step [OF assms(1) i(1)] by blast
  next
    case False then show ?thesis using lock_can_step [OF i] by blast
  qed
qed

text \<open>What a call has left to do.\<close>

definition work :: "call \<Rightarrow> nat" where
  "work c = 4 * length (ca_todo c) + 2 * length (ca_held c) + (case ca_phase c of Running \<Rightarrow> 0 | Waiting k l \<Rightarrow> 3 | Leaving k l \<Rightarrow> 1)"

lemma work_update:
  assumes "i < length cs" "work c < work (cs ! i)"
  shows "sum_list (map work (cs[i := c])) < sum_list (map work cs)"
proof -
  have "cs = take i cs @ cs ! i # drop (Suc i) cs" using id_take_nth_drop [OF assms(1)] .
  then have "sum_list (map work cs) = sum_list (map work (take i cs @ cs ! i # drop (Suc i) cs))" by simp
  then show ?thesis using assms(2) by (simp add: upd_conv_take_nth_drop [OF assms(1)])
qed

definition total_work :: "lock_system \<Rightarrow> nat" where
  "total_work s = sum_list (map work (snd s))"

lemma step_work: "lock_step s s' \<Longrightarrow> total_work s' < total_work s"
  by (induction rule: lock_step.induct; unfold total_work_def snd_conv; rule work_update; simp add: work_def)

lemma steps_work: "(lock_step ^^ m) s s' \<Longrightarrow> m + total_work s' \<le> total_work s"
proof (induction m arbitrary: s')
  case (Suc m)
  then obtain u where "(lock_step ^^ m) s u" "lock_step u s'" by auto
  then show ?case using Suc.IH [of u] step_work [of u s'] by simp
qed simp

lemma steps_ok: "lock_step\<^sup>*\<^sup>* s s' \<Longrightarrow> locks_ok s \<Longrightarrow> locks_ok s'"
  by (induction rule: rtranclp_induct) (simp_all add: step_ok)

section \<open>What the locks give the controller\<close>

text \<open>C16: under every interleaving of requests, two calls never hold the lock of the same volume name or path at once, and the call that
  works under a key is the one its mutex names; so all that \<^verbatim>\<open>CreateVolume\<close> and \<^verbatim>\<open>DeleteVolume\<close> do to one path happens one after the other.\<close>

theorem lockCreateName_exclusive:
  assumes "lock_event\<^sup>*\<^sup>* (lock_start n) (t, cs)" "i < length cs" "j < length cs"
    and "(k, l) \<in> set (ca_held (cs ! i))" "(k, l') \<in> set (ca_held (cs ! j))"
  shows "i = j \<and> l = l' \<and> lo_holder (lt_objects t ! l) = Some i"
proof -
  note inv = locks_okD [OF reachable_ok [OF assms(1)]]
  have "lt_entries t k = Some l" "lt_entries t k = Some l'"
    using countedD(1) [OF inv(1) held_refs [OF assms(2,4)]] countedD(1) [OF inv(1) held_refs [OF assms(3,5)]] by blast+
  then show ?thesis using owned_byD(1) [OF inv(2) assms(2,4)] owned_byD(1) [OF inv(2) assms(3,5)] by simp
qed

text \<open>the map of locks holds a key exactly while some call has it, waits for it or is leaving it, and the count of a lock in the map is
  the number of those calls: no entry leaks, and an entry in use is never removed.\<close>

theorem lockCreateName_entries:
  assumes "lock_event\<^sup>*\<^sup>* (lock_start n) (t, cs)"
  shows "(\<forall>k l. lt_entries t k = Some l \<longleftrightarrow> (\<exists>i<length cs. (k, l) \<in> set (ca_held (cs ! i) @ pending (ca_phase (cs ! i))))) \<and>
    (\<forall>k l. lt_entries t k = Some l \<longrightarrow> lo_refs (lt_objects t ! l) = int (count (all_refs cs) (k, l))) \<and>
    (list_all idle cs \<longrightarrow> lt_entries t = (\<lambda>_. None))"
proof (intro conjI allI impI)
  note inv = locks_okD [OF reachable_ok [OF assms]]
  have e: "lt_entries t k = Some l \<longleftrightarrow> (k, l) \<in># all_refs cs" for k l using inv(1) unfolding counted_def by blast
  show "lt_entries t k = Some l \<longleftrightarrow> (\<exists>i<length cs. (k, l) \<in> set (ca_held (cs ! i) @ pending (ca_phase (cs ! i))))" for k l
    unfolding e by (simp add: in_all_refs refs_of_def)
  show "lt_entries t k = Some l \<Longrightarrow> lo_refs (lt_objects t ! l) = int (count (all_refs cs) (k, l))" for k l
    using countedD(3) [OF inv(1)] e by blast
  assume idle: "list_all idle cs"
  have "(k, l) \<notin># all_refs cs" for k l
    using idle by (auto simp: in_all_refs refs_of_def list_all_length idle_def pending_def)
  then show "lt_entries t = (\<lambda>_. None)" using e by (metis not_None_eq ext)
qed

text \<open>C17: whatever the scheduler does, the calls in flight finish: a run of their steps has a bounded length, and it can only stop where
  every call has returned. In particular two \<^verbatim>\<open>CreateVolume\<close> calls never wait for each other.\<close>

theorem lockCreateName_live:
  assumes "lock_event\<^sup>*\<^sup>* (lock_start n) s" "(lock_step ^^ m) s s'"
  shows "m \<le> total_work s \<and> ((\<nexists>s''. lock_step s' s'') \<longrightarrow> list_all idle (snd s'))"
proof (intro conjI impI)
  show "m \<le> total_work s" using steps_work [OF assms(2)] by simp
  assume "\<nexists>s''. lock_step s' s''"
  moreover have "locks_ok s'" using steps_ok [OF relpowp_imp_rtranclp [OF assms(2)] reachable_ok [OF assms(1)]] .
  ultimately show "list_all idle (snd s')" using busy_can_step [of "fst s'" "snd s'"] by (metis prod.collapse)
qed

section \<open>Two calls that create the same volume\<close>

text \<open>One call of \<^verbatim>\<open>CreateVolume\<close> has locked the name, a second one waits for it.\<close>

definition vol_keys :: "string list" where
  "vol_keys = create_lock_keys ''vol'' (undefined\<lparr>vo_FSPath := ''/k8s/vol''\<rparr>)"

definition first_call :: call where
  "first_call = \<lparr>ca_todo = [path_key ''/k8s/vol''], ca_held = [(name_key ''vol'', 0)], ca_phase = Running\<rparr>"

definition second_call :: call where
  "second_call = \<lparr>ca_todo = [path_key ''/k8s/vol''], ca_held = [], ca_phase = Waiting (name_key ''vol'') 0\<rparr>"

definition contended :: lock_system where
  "contended = (\<lparr>lt_entries = [name_key ''vol'' \<mapsto> 0], lt_objects = [\<lparr>lo_holder = Some 0, lo_refs = 2\<rparr>]\<rparr>, [first_call, second_call])"

abbreviation "idle_call \<equiv> \<lparr>ca_todo = [], ca_held = [], ca_phase = Running\<rparr>"

abbreviation "one_lock h n \<equiv> \<lparr>lt_entries = [name_key ''vol'' \<mapsto> 0], lt_objects = [\<lparr>lo_holder = h, lo_refs = n\<rparr>]\<rparr>"

lemma vol_keys: "vol_keys = [name_key ''vol'', path_key ''/k8s/vol'']" by (simp add: vol_keys_def create_lock_keys_def)

lemma arrive_vol: "i < length cs \<Longrightarrow> idle (cs ! i) \<Longrightarrow> cs' = cs[i := (cs ! i)\<lparr>ca_todo := vol_keys\<rparr>] \<Longrightarrow> lock_event (t, cs) (t, cs')"
  using lock_event.arrive [of i cs vol_keys t] by (auto simp: vol_keys_def)

lemma contended_reached: "lock_event\<^sup>*\<^sup>* (lock_start 2) contended"
proof -
  let ?w = "\<lparr>ca_todo = vol_keys, ca_held = [], ca_phase = Running\<rparr>"
  have 1: "lock_event (lock_start 2) (empty_locks, [?w, idle_call])"
    unfolding lock_start_def by (rule arrive_vol [of 0]) (simp_all add: idle_def eval_nat_numeral)
  have 2: "lock_event (empty_locks, [?w, idle_call]) (one_lock None 1, [second_call, idle_call])"
    using lock_step.enter [of 0 "[?w, idle_call]" "name_key ''vol''" "[path_key ''/k8s/vol'']" empty_locks 0 "one_lock None 1"]
    by (intro lock_event.step) (simp add: vol_keys lock_enter_def empty_locks_def count_ref_def second_call_def)
  have 3: "lock_event (one_lock None 1, [second_call, idle_call]) (one_lock (Some 0) 1, [first_call, idle_call])"
    using lock_step.acquire [of 0 "[second_call, idle_call]" "name_key ''vol''" 0 "one_lock None 1"]
    by (intro lock_event.step) (simp add: second_call_def first_call_def set_holder_def)
  have 4: "lock_event (one_lock (Some 0) 1, [first_call, idle_call]) (one_lock (Some 0) 1, [first_call, ?w])"
    by (rule arrive_vol [of 1]) (simp_all add: idle_def)
  have 5: "lock_event (one_lock (Some 0) 1, [first_call, ?w]) contended"
    using lock_step.enter [of 1 "[first_call, ?w]" "name_key ''vol''" "[path_key ''/k8s/vol'']" "one_lock (Some 0) 1" 0 "one_lock (Some 0) 2"]
    by (intro lock_event.step) (simp add: vol_keys lock_enter_def count_ref_def second_call_def contended_def)
  show ?thesis using 1 2 3 4 5 by (meson rtranclp.rtrancl_refl rtranclp.rtrancl_into_rtrancl)
qed

theorem lockCreateName_exclusive_witness:
  "lo_holder (lt_objects (fst contended) ! 0) = Some 0"
  using lockCreateName_exclusive [of 2 "fst contended" "snd contended" 0 0 "name_key ''vol''" 0 0] contended_reached
  by (simp add: contended_def first_call_def)

theorem lockCreateName_entries_witness:
  "lo_refs (lt_objects (fst contended) ! 0) = int (count (all_refs (snd contended)) (name_key ''vol'', 0))"
  proof -
  have "lock_event\<^sup>*\<^sup>* (lock_start 2) (fst contended, snd contended)" using contended_reached by simp
  from lockCreateName_entries [OF this] have "lt_entries (fst contended) (name_key ''vol'') = Some 0 \<longrightarrow> ?thesis" by blast
  then show ?thesis by (simp add: contended_def)
qed

text \<open>A run that goes on until no step is left.\<close>

lemma run_to_end: "\<exists>m s'. (lock_step ^^ m) s s' \<and> (\<nexists>s''. lock_step s' s'')"
proof (induction "total_work s" arbitrary: s rule: less_induct)
  case less
  show ?case
  proof (cases "\<exists>u. lock_step s u")
    case True
    then obtain u where u: "lock_step s u" by blast
    then obtain m s' where "(lock_step ^^ m) u s'" "\<nexists>s''. lock_step s' s''" using less step_work by blast
    then show ?thesis using relpowp_Suc_I2 [where P = lock_step, OF u] by blast
  next
    case False
    then have "(lock_step ^^ 0) s s \<and> (\<nexists>s''. lock_step s s'')" by simp
    then show ?thesis by blast
  qed
qed

text \<open>Both calls of the example return, within 13 steps.\<close>

theorem lockCreateName_live_witness:
  "\<exists>m s'. (lock_step ^^ m) contended s' \<and> m \<le> 13 \<and> list_all idle (snd s')"
proof -
  obtain m s' where "(lock_step ^^ m) contended s'" "\<nexists>s''. lock_step s' s''" using run_to_end by blast
  moreover have "total_work contended \<le> 13" by (simp add: total_work_def contended_def first_call_def second_call_def work_def)
  ultimately show ?thesis using lockCreateName_live [OF contended_reached, of m s'] by (meson le_trans)
qed

end
