(* ===== verification/Node_System.thy ===== *)
theory Node_System
  imports Go_Error "HOL-Library.State_Monad" "HOL-Library.Sublist"
begin

text \<open>
  The system calls of the node service.  A program is a state monad over the trace of its system calls and the table of target locks of the
  driver (\<^verbatim>\<open>nodeTargetLock\<close> of \<^verbatim>\<open>internal/csidriver/driver.go\<close>).  The kernel, the file system and every other process are an arbitrary function of the
  whole trace (\<open>kernel\<close>), so a statement for every kernel holds for every state of the disk and every interference.  \<open>does\<close> relates the
  result of a program to the calls it makes.
\<close>

section \<open>The kernel\<close>

text \<open>An error of the \<^verbatim>\<open>os\<close> package as it comes from a call: its text, and whether it means that the file is missing or present.\<close>

record os_error =
  oe_Text :: string
  oe_NotExist :: bool
  oe_Exist :: bool

record file_info =
  fi_Dir :: bool
  fi_Symlink :: bool
  fi_Regular :: bool
  fi_Perm :: nat
  fi_Size :: int

text \<open>The calls that only succeed or fail.  Files that are open are named by their path.\<close>

datatype os_call =
    SysMkdir string nat
  | SysMkdirAll string nat
  | SysChmod string nat
  | SysFchmod string nat
  | SysWrite string bytes
  | SysFsync string
  | SysClose string
  | SysRename string string
  | SysRemove string
  | SysOpen string

datatype os_event =
    Did os_call "os_error option"
  | Lstat string "os_error + file_info"
  | CreateTemp string string "os_error + string"
  | ReadAll string "os_error + bytes"
  | Exec string "string list" "os_error option" string

record kernel =
  k_do :: "os_event list \<Rightarrow> os_call \<Rightarrow> os_error option"
  k_lstat :: "os_event list \<Rightarrow> string \<Rightarrow> os_error + file_info"
  k_temp :: "os_event list \<Rightarrow> string \<Rightarrow> string \<Rightarrow> os_error + string"
  k_read :: "os_event list \<Rightarrow> string \<Rightarrow> os_error + bytes"
  k_exec :: "os_event list \<Rightarrow> string \<Rightarrow> string list \<Rightarrow> os_error option \<times> string"

record nodeTargetLock =
  tl_refs :: int
  tl_publishFingerprint :: string

record node_state =
  ns_trace :: "os_event list"
  ns_targets :: "string \<Rightarrow> nodeTargetLock option"

type_synonym 'a sys = "(node_state, 'a) state"

text \<open>An error inside the node service: one of a call, which \<open>os.IsNotExist\<close> can look into, or any other.\<close>

datatype node_error = Raw os_error | Plain go_error

type_synonym 'a nres = "node_error + 'a"

section \<open>Programs\<close>

definition observe :: "(os_event list \<Rightarrow> 'a) \<Rightarrow> ('a \<Rightarrow> os_event) \<Rightarrow> 'a sys" where
  "observe f ev = State (\<lambda>s. let x = f (ns_trace s) in (x, s\<lparr>ns_trace := ns_trace s @ [ev x]\<rparr>))"

definition os_do :: "kernel \<Rightarrow> os_call \<Rightarrow> os_error option sys" where
  "os_do K c = observe (\<lambda>h. k_do K h c) (Did c)"

definition os_Lstat :: "kernel \<Rightarrow> string \<Rightarrow> (os_error + file_info) sys" where
  "os_Lstat K p = observe (\<lambda>h. k_lstat K h p) (Lstat p)"

definition os_CreateTemp :: "kernel \<Rightarrow> string \<Rightarrow> string \<Rightarrow> (os_error + string) sys" where
  "os_CreateTemp K dir pattern = observe (\<lambda>h. k_temp K h dir pattern) (CreateTemp dir pattern)"

definition os_ReadAll :: "kernel \<Rightarrow> string \<Rightarrow> (os_error + bytes) sys" where
  "os_ReadAll K p = observe (\<lambda>h. k_read K h p) (ReadAll p)"

definition os_Exec :: "kernel \<Rightarrow> string \<Rightarrow> string list \<Rightarrow> (os_error option \<times> string) sys" where
  "os_Exec K name args = observe (\<lambda>h. k_exec K h name args) (\<lambda>(e, out). Exec name args e out)"

text \<open>\<open>x, err := m; if err != nil { return h(err) }; k x\<close>\<close>

definition checked :: "('e \<Rightarrow> 'f) \<Rightarrow> ('e + 'a) sys \<Rightarrow> ('a \<Rightarrow> ('f + 'b) sys) \<Rightarrow> ('f + 'b) sys" where
  "checked h m k = do { r \<leftarrow> m; case r of Inl e \<Rightarrow> State_Monad.return (Inl (h e)) | Inr x \<Rightarrow> k x }"

text \<open>The same for a call that only fails.\<close>

definition check_do :: "(os_error \<Rightarrow> 'f) \<Rightarrow> os_error option sys \<Rightarrow> ('f + 'b) sys \<Rightarrow> ('f + 'b) sys" where
  "check_do h m k = do { r \<leftarrow> m; case r of Some e \<Rightarrow> State_Monad.return (Inl (h e)) | None \<Rightarrow> k }"

abbreviation done_ok :: "'a \<Rightarrow> ('e + 'a) sys" where "done_ok x \<equiv> State_Monad.return (Inr x)"
abbreviation give :: "'e \<Rightarrow> ('e + 'a) sys" where "give e \<equiv> State_Monad.return (Inl e)"

text \<open>What a function defers runs on every return.\<close>

definition deferred :: "'a sys \<Rightarrow> unit sys \<Rightarrow> 'a sys" where
  "deferred m cleanup = do { r \<leftarrow> m; _ \<leftarrow> cleanup; State_Monad.return r }"

definition get_targets :: "(string \<Rightarrow> nodeTargetLock option) sys" where
  "get_targets = State (\<lambda>s. (ns_targets s, s))"

definition set_targets :: "((string \<Rightarrow> nodeTargetLock option) \<Rightarrow> (string \<Rightarrow> nodeTargetLock option)) \<Rightarrow> unit sys" where
  "set_targets f = State (\<lambda>s. ((), s\<lparr>ns_targets := f (ns_targets s)\<rparr>))"

fun node_text :: "node_error \<Rightarrow> string" where
  "node_text (Raw e) = oe_Text e"
| "node_text (Plain e) = error_text e"

text \<open>\<open>fmt.Errorf(pre + "%w", err)\<close> and \<open>os.IsNotExist\<close>, which does not look through such a wrapping.\<close>

definition wrapped :: "string \<Rightarrow> node_error \<Rightarrow> node_error" where
  "wrapped pre err = Plain (EMsg (pre @ node_text err))"

fun os_IsNotExist :: "node_error \<Rightarrow> bool" where
  "os_IsNotExist (Raw e) \<longleftrightarrow> oe_NotExist e"
| "os_IsNotExist (Plain e) \<longleftrightarrow> False"

definition msg :: "string \<Rightarrow> node_error" where
  "msg t = Plain (EMsg t)"

section \<open>What a program does\<close>

definition does :: "'a sys \<Rightarrow> (os_event list \<Rightarrow> 'a \<Rightarrow> bool) \<Rightarrow> bool" where
  "does m Q \<longleftrightarrow> (\<forall>s. \<exists>es. ns_trace (snd (run_state m s)) = ns_trace s @ es \<and> Q es (fst (run_state m s)))"

named_theorems does_rules

lemma doesD:
  assumes "does m Q" "run_state m s = (r, s')"
  obtains es where "ns_trace s' = ns_trace s @ es" "Q es r"
  using assms unfolding does_def by (metis fst_conv snd_conv)

lemma does_weaken: "does m P \<Longrightarrow> (\<And>es r. P es r \<Longrightarrow> Q es r) \<Longrightarrow> does m Q"
  unfolding does_def by blast

lemma does_return: "Q [] x \<Longrightarrow> does (State_Monad.return x) Q"
  by (simp add: does_def State_Monad.return_def)

lemma does_bind:
  assumes "does m P" "\<And>es x. P es x \<Longrightarrow> does (f x) (\<lambda>es' r. Q (es @ es') r)"
  shows "does (m \<bind> f) Q"
  unfolding does_def
proof (intro allI)
  fix s
  obtain x s1 where m: "run_state m s = (x, s1)" by (cases "run_state m s")
  obtain es where 1: "ns_trace s1 = ns_trace s @ es" "P es x" using assms(1) m by (rule doesD)
  obtain r s2 where f: "run_state (f x) s1 = (r, s2)" by (cases "run_state (f x) s1")
  obtain es' where 2: "ns_trace s2 = ns_trace s1 @ es'" "Q (es @ es') r" using assms(2) [OF 1(2)] f by (rule doesD)
  have "run_state (m \<bind> f) s = (r, s2)" using m f by (cases m) (simp add: State_Monad.bind_def)
  then show "\<exists>es. ns_trace (snd (run_state (m \<bind> f) s)) = ns_trace s @ es \<and> Q es (fst (run_state (m \<bind> f) s))"
    using 1 2 by auto
qed

lemma does_observe: "(\<And>x. Q [ev x] x) \<Longrightarrow> does (observe f ev) Q"
  by (simp add: does_def observe_def Let_def)

lemma does_calls:
  "(\<And>x. Q1 [Did c x] x) \<Longrightarrow> does (os_do K c) Q1"
  "(\<And>y. Q2 [Lstat p y] y) \<Longrightarrow> does (os_Lstat K p) Q2"
  "(\<And>z. Q3 [CreateTemp dir pattern z] z) \<Longrightarrow> does (os_CreateTemp K dir pattern) Q3"
  "(\<And>v. Q4 [ReadAll p v] v) \<Longrightarrow> does (os_ReadAll K p) Q4"
  "(\<And>e out. Q5 [Exec name args e out] (e, out)) \<Longrightarrow> does (os_Exec K name args) Q5"
  by (auto simp: os_do_def os_Lstat_def os_CreateTemp_def os_ReadAll_def os_Exec_def intro!: does_observe)

lemma does_checked:
  assumes "does m P" "\<And>es e. P es (Inl e) \<Longrightarrow> Q es (Inl (h e))" "\<And>es x. P es (Inr x) \<Longrightarrow> does (k x) (\<lambda>es' r. Q (es @ es') r)"
  shows "does (checked h m k) Q"
  unfolding checked_def
  by (rule does_bind [OF assms(1)]) (auto split: sum.splits intro!: does_return assms(2,3))

lemma does_check_do:
  assumes "does m P" "\<And>es e. P es (Some e) \<Longrightarrow> Q es (Inl (h e))" "\<And>es. P es None \<Longrightarrow> does k (\<lambda>es' r. Q (es @ es') r)"
  shows "does (check_do h m k) Q"
  unfolding check_do_def
  by (rule does_bind [OF assms(1)]) (auto split: option.splits intro!: does_return assms(2,3))

lemma does_deferred:
  assumes "does m P" "\<And>es r. P es r \<Longrightarrow> does cleanup (\<lambda>es' _. Q (es @ es') r)"
  shows "does (deferred m cleanup) Q"
  unfolding deferred_def
  by (rule does_bind [OF assms(1)], rule does_bind, erule assms(2), rule does_return) simp

lemma does_targets: "(\<And>t. Q [] t) \<Longrightarrow> does get_targets Q" "R [] () \<Longrightarrow> does (set_targets f) R"
  by (simp_all add: does_def get_targets_def set_targets_def)

lemma does_const: "does (State_Monad.return x) (\<lambda>es r. es = [] \<and> r = x)"
  by (rule does_return) simp

text \<open>Every call of a program satisfies \<open>P\<close>.\<close>

definition only :: "(os_event \<Rightarrow> bool) \<Rightarrow> 'a sys \<Rightarrow> bool" where
  "only P m \<longleftrightarrow> does m (\<lambda>es r. list_all P es)"

lemma only_return [does_rules]: "only P (State_Monad.return x)"
  unfolding only_def by (rule does_return) simp

lemma only_bind [does_rules]: "only P m \<Longrightarrow> (\<And>x. only P (f x)) \<Longrightarrow> only P (m \<bind> f)"
  unfolding only_def by (erule does_bind, rule does_weaken, blast) simp

lemma only_checked [does_rules]: "only P m \<Longrightarrow> (\<And>x. only P (k x)) \<Longrightarrow> only P (checked h m k)"
  unfolding only_def by (erule does_checked, simp, rule does_weaken, blast) simp

lemma only_check_do [does_rules]: "only P m \<Longrightarrow> only P k \<Longrightarrow> only P (check_do h m k)"
  unfolding only_def by (erule does_check_do, simp, erule does_weaken) simp

lemma only_deferred [does_rules]: "only P m \<Longrightarrow> only P cleanup \<Longrightarrow> only P (deferred m cleanup)"
  unfolding only_def by (erule does_deferred, erule does_weaken) simp

lemma only_calls [does_rules]:
  "(\<And>x. P (Did c x)) \<Longrightarrow> only P (os_do K c)"
  "(\<And>y. P (Lstat p y)) \<Longrightarrow> only P (os_Lstat K p)"
  "(\<And>z. P (CreateTemp dir pattern z)) \<Longrightarrow> only P (os_CreateTemp K dir pattern)"
  "(\<And>v. P (ReadAll p v)) \<Longrightarrow> only P (os_ReadAll K p)"
  "(\<And>e out. P (Exec name args e out)) \<Longrightarrow> only P (os_Exec K name args)"
  unfolding only_def by (rule does_calls; simp)+

lemma only_targets [does_rules]: "only P get_targets" "only P (set_targets f)"
  unfolding only_def by (rule does_targets; simp)+

lemma only_if [does_rules]: "(b \<Longrightarrow> only P m) \<Longrightarrow> (\<not> b \<Longrightarrow> only P n) \<Longrightarrow> only P (if b then m else n)"
  by simp

lemma only_sum [does_rules]: "(\<And>e. r = Inl e \<Longrightarrow> only P (f e)) \<Longrightarrow> (\<And>x. r = Inr x \<Longrightarrow> only P (g x)) \<Longrightarrow> only P (case r of Inl e \<Rightarrow> f e | Inr x \<Rightarrow> g x)"
  by (simp split: sum.split)

lemma only_option [does_rules]: "(r = None \<Longrightarrow> only P f) \<Longrightarrow> (\<And>x. r = Some x \<Longrightarrow> only P (g x)) \<Longrightarrow> only P (case r of None \<Rightarrow> f | Some x \<Rightarrow> g x)"
  by (simp split: option.split)


lemma only_prod [does_rules]: "(\<And>a b. r = (a, b) \<Longrightarrow> only P (f a b)) \<Longrightarrow> only P (case r of (a, b) \<Rightarrow> f a b)"
  by (simp split: prod.split)

lemma only_mono: "only P m \<Longrightarrow> (\<And>e. P e \<Longrightarrow> Q e) \<Longrightarrow> only Q m"
  unfolding only_def by (erule does_weaken) (auto simp: list_all_iff)

lemma does_conj: "does m P \<Longrightarrow> does m Q \<Longrightarrow> does m (\<lambda>es r. P es r \<and> Q es r)"
  unfolding does_def by (metis same_append_eq)

lemma checked_return [simp]:
  "checked h (State_Monad.return (Inl e)) k = give (h e)" "checked h (State_Monad.return (Inr x)) k = k x"
  by (simp_all add: checked_def)

section \<open>Calls that were made in order\<close>

text \<open>Before it succeeds, the program makes the calls \<open>xs\<close> with these answers, in this order, others between.\<close>

definition leaves :: "os_event list \<Rightarrow> ('e + 'a) sys \<Rightarrow> bool" where
  "leaves xs m \<longleftrightarrow> does m (\<lambda>es r. isl r \<or> subseq xs es)"

named_theorems leaves_rules

lemma leaves_return [leaves_rules]: "leaves xs (give e)" "leaves [] (done_ok x)"
  unfolding leaves_def by (rule does_return; simp)+

lemma leaves_none [leaves_rules]: "only (\<lambda>_. True) m \<Longrightarrow> leaves [] m"
  unfolding leaves_def only_def by (erule does_weaken) simp

lemma leaves_call [leaves_rules]: "leaves xs k \<Longrightarrow> leaves (Did c None # xs) (check_do h (os_do K c) k)"
  unfolding leaves_def
  by (rule does_check_do [OF does_calls(1) [of "\<lambda>es r. es = [Did c r]"]]) (auto elim!: does_weaken)

lemma leaves_skip [leaves_rules]:
  assumes "only (\<lambda>_. True) m" "\<And>x. leaves xs (k x)"
  shows "leaves xs (checked h m k)"
  unfolding leaves_def
  by (rule does_checked [OF assms(1) [unfolded only_def]]) (auto intro!: does_weaken [OF assms(2) [unfolded leaves_def]] list_emb_append2)

lemma leaves_deferred [leaves_rules]: "leaves xs m \<Longrightarrow> only (\<lambda>_. True) c \<Longrightarrow> leaves xs (deferred m c)"
  unfolding leaves_def only_def
  by (erule does_deferred) (auto elim!: does_weaken intro: list_emb_append2 subseq_order.trans [OF _ list_emb_prefix])

lemma leaves_if [leaves_rules]: "(b \<Longrightarrow> leaves xs m) \<Longrightarrow> (\<not> b \<Longrightarrow> leaves xs n) \<Longrightarrow> leaves xs (if b then m else n)"
  by simp

end
