(* ===== verification/Publish_State.thy ===== *)
theory Publish_State
  imports Node_System Csi_Handle
begin

unbundle bit_operations_syntax

text \<open>
  \<^verbatim>\<open>internal/csidriver/publish_state.go\<close>: the fingerprint of what a target was published with, kept in a file that survives the node pod.
  Writing goes through a temporary file, \<^verbatim>\<open>fsync\<close> and \<^verbatim>\<open>rename\<close>; the branches for Windows are left out, as the node service runs on Linux.
\<close>

section \<open>Where the state lives\<close>

definition publishStateDirectoryName :: string where
  "publishStateDirectoryName = ''.qumulo-csi-publish-state''"

definition publishStateDirectory :: "Config \<Rightarrow> string res" where
  "publishStateDirectory cfg =
     and_then
       (if TrimSpace (cc_Address cfg) \<noteq> [] then
          and_then (parseCSIAddress (cc_Address cfg)) (\<lambda>(network, endpoint).
            if network \<noteq> ''unix'' then Inl (EMsg ''durable publish state requires a Unix CSI socket'')
            else Inr (path_Dir (path_Clean endpoint)))
        else Inr (TrimSpace (cc_StateDir cfg)))
       (\<lambda>base. if base = [] \<or> base = ''.'' then Inl (EMsg ''durable publish state directory is unavailable'')
               else Inr (path_Join [base, publishStateDirectoryName]))"

definition publishStatePath :: "Config \<Rightarrow> string \<Rightarrow> string res" where
  "publishStatePath cfg target =
     and_then (publishStateDirectory cfg) (\<lambda>dir. Inr (path_Join [dir, hex_encode (sha256 (path_Clean target)) @ ''.json'']))"

definition validatePublishFingerprint :: "string \<Rightarrow> unit res" where
  "validatePublishFingerprint f =
     (case hex_decode f of
        None \<Rightarrow> Inl (EMsg ''durable publish fingerprint is invalid'')
      | Some b \<Rightarrow> if length b \<noteq> 32 \<or> ToLower f \<noteq> f then Inl (EMsg ''durable publish fingerprint is invalid'') else Inr ())"

section \<open>The content of the file\<close>

definition durablePublishState :: "string \<Rightarrow> json" where
  "durablePublishState f = JObj [(''fingerprint'', JStr f)]"

text \<open>What \<open>json.NewEncoder(temp).Encode\<close> writes, and what a strict decoder over at most 1025 bytes reads.\<close>

definition state_text :: "string \<Rightarrow> bytes" where
  "state_text f = Marshal (durablePublishState f) @ [CHR 0x0A]"

definition decode_state :: "bytes \<Rightarrow> string res" where
  "decode_state raw =
     (case json_decode (take 1025 raw) of
        None \<Rightarrow> Inl (EMsg ''decode durable publish state'')
      | Some (j, rest) \<Rightarrow>
          (case obj_fields j of
             None \<Rightarrow> Inl (EMsg ''decode durable publish state'')
           | Some kvs \<Rightarrow>
               if \<not> list_all (strict_entry [(''fingerprint'', json_is_str)]) kvs then Inl (EMsg ''decode durable publish state'')
               else case get_str ''fingerprint'' kvs of
                   None \<Rightarrow> Inl (EMsg ''decode durable publish state'')
                 | Some f \<Rightarrow>
                     if skip rest \<noteq> [] then Inl (EMsg ''decode durable publish state: trailing data'')
                     else and_then (validatePublishFingerprint f) (\<lambda>_. Inr f)))"

section \<open>Checks of the file system\<close>

abbreviation not_real_dir :: "file_info \<Rightarrow> bool" where
  "not_real_dir i \<equiv> \<not> fi_Dir i \<or> fi_Symlink i"

definition validatePublishStateBase :: "kernel \<Rightarrow> string \<Rightarrow> unit nres sys" where
  "validatePublishStateBase K dir =
     checked (\<lambda>e. wrapped ''inspect CSI socket directory: '' (Raw e)) (os_Lstat K (path_Dir dir)) (\<lambda>i.
       if not_real_dir i then give (msg ''CSI socket path must be a real directory'')
       else if fi_Perm i AND 18 \<noteq> 0 then give (msg ''CSI socket directory must not be group- or world-writable'')
       else done_ok ())"

text \<open>The part of \<open>ensurePublishStateDirectory\<close> after the directory was made or found.\<close>

definition secure_dir :: "kernel \<Rightarrow> string \<Rightarrow> string nres sys" where
  "secure_dir K dir =
     checked (\<lambda>e. wrapped ''inspect durable publish state directory: '' (Raw e)) (os_Lstat K dir) (\<lambda>i.
       if not_real_dir i then give (msg ''durable publish state path must be a real directory'')
       else check_do (\<lambda>e. wrapped ''secure durable publish state directory: '' (Raw e)) (os_do K (SysChmod dir 448)) (do {
         r \<leftarrow> os_Lstat K dir;
         case r of
           Inl _ \<Rightarrow> give (msg ''durable publish state directory permissions are not 0700'')
         | Inr i \<Rightarrow> if fi_Perm i \<noteq> 448 then give (msg ''durable publish state directory permissions are not 0700'') else done_ok dir }))"

definition ensurePublishStateDirectory :: "kernel \<Rightarrow> Config \<Rightarrow> string nres sys" where
  "ensurePublishStateDirectory K cfg =
     checked Plain (State_Monad.return (publishStateDirectory cfg)) (\<lambda>dir.
     checked id (validatePublishStateBase K dir) (\<lambda>_. do {
       made \<leftarrow> os_do K (SysMkdir dir 448);
       case made of
         Some e \<Rightarrow> if \<not> oe_Exist e then give (wrapped ''create durable publish state directory: '' (Raw e)) else secure_dir K dir
       | None \<Rightarrow> secure_dir K dir }))"

definition inspectPublishStateFile :: "kernel \<Rightarrow> string \<Rightarrow> bool \<Rightarrow> file_info option nres sys" where
  "inspectPublishStateFile K path allowMissing = do {
     r \<leftarrow> os_Lstat K path;
     case r of
       Inl e \<Rightarrow> if allowMissing \<and> oe_NotExist e then done_ok None else give (Raw e)
     | Inr i \<Rightarrow>
         if \<not> fi_Regular i \<or> fi_Symlink i then give (msg ''durable publish state file must be a regular file'')
         else if fi_Perm i \<noteq> 384 then give (msg ''durable publish state file permissions are not 0600'')
         else if fi_Size i \<le> 0 \<or> fi_Size i > 1024 then give (msg ''durable publish state file has an invalid size'')
         else done_ok (Some i) }"

definition syncPublishStateDirectory :: "kernel \<Rightarrow> string \<Rightarrow> unit nres sys" where
  "syncPublishStateDirectory K dir =
     check_do (\<lambda>e. wrapped ''open durable publish state directory: '' (Raw e)) (os_do K (SysOpen dir))
       (deferred
         (check_do (\<lambda>e. wrapped ''sync durable publish state directory: '' (Raw e)) (os_do K (SysFsync dir)) (done_ok ()))
         (do { _ \<leftarrow> os_do K (SysClose dir); State_Monad.return () }))"

section \<open>Writing, reading, removing\<close>

text \<open>What \<open>writePublishState\<close> does with its temporary file.\<close>

definition replace_state :: "kernel \<Rightarrow> string \<Rightarrow> string \<Rightarrow> string \<Rightarrow> string \<Rightarrow> unit nres sys" where
  "replace_state K dir path temp fingerprint =
     check_do (\<lambda>e. wrapped ''secure durable publish state: '' (Raw e)) (os_do K (SysFchmod temp 384)) (
     check_do (\<lambda>e. wrapped ''encode durable publish state: '' (Raw e)) (os_do K (SysWrite temp (state_text fingerprint))) (
     check_do (\<lambda>e. wrapped ''sync durable publish state: '' (Raw e)) (os_do K (SysFsync temp)) (
     check_do (\<lambda>e. wrapped ''close durable publish state: '' (Raw e)) (os_do K (SysClose temp)) (
     check_do (\<lambda>e. wrapped ''atomically replace durable publish state: '' (Raw e)) (os_do K (SysRename temp path))
       (syncPublishStateDirectory K dir)))))"

definition discard_temp :: "kernel \<Rightarrow> string \<Rightarrow> unit sys" where
  "discard_temp K temp = do { _ \<leftarrow> os_do K (SysClose temp); _ \<leftarrow> os_do K (SysRemove temp); State_Monad.return () }"

definition writePublishState :: "kernel \<Rightarrow> Config \<Rightarrow> string \<Rightarrow> string \<Rightarrow> unit nres sys" where
  "writePublishState K cfg target fingerprint =
     checked Plain (State_Monad.return (validatePublishFingerprint fingerprint)) (\<lambda>_.
     checked id (ensurePublishStateDirectory K cfg) (\<lambda>dir.
     checked Plain (State_Monad.return (publishStatePath cfg target)) (\<lambda>path.
     checked (wrapped ''inspect existing durable publish state: '') (inspectPublishStateFile K path True) (\<lambda>_.
     checked (\<lambda>e. wrapped ''create durable publish state: '' (Raw e)) (os_CreateTemp K dir ''.publish-*.tmp'') (\<lambda>temp.
       deferred (replace_state K dir path temp fingerprint) (discard_temp K temp))))))"

text \<open>The checks that reading and removing share.\<close>

definition check_state_dir :: "kernel \<Rightarrow> string \<Rightarrow> file_info \<Rightarrow> unit nres sys" where
  "check_state_dir K dir i =
     (if not_real_dir i then give (msg ''durable publish state path must be a real directory'')
      else if fi_Perm i \<noteq> 448 then give (msg ''durable publish state directory permissions are not 0700'')
      else done_ok ())"

definition readPublishState :: "kernel \<Rightarrow> Config \<Rightarrow> string \<Rightarrow> string nres sys" where
  "readPublishState K cfg target =
     checked Plain (State_Monad.return (publishStateDirectory cfg)) (\<lambda>dir.
     checked id (validatePublishStateBase K dir) (\<lambda>_.
     checked Raw (os_Lstat K dir) (\<lambda>i.
     checked id (check_state_dir K dir i) (\<lambda>_.
     checked Plain (State_Monad.return (publishStatePath cfg target)) (\<lambda>path.
     checked id (inspectPublishStateFile K path False) (\<lambda>_.
     check_do Raw (os_do K (SysOpen path)) (
       deferred
         (checked Raw (os_ReadAll K path) (\<lambda>raw. checked Plain (State_Monad.return (decode_state raw)) done_ok))
         (do { _ \<leftarrow> os_do K (SysClose path); State_Monad.return () }))))))))"

text \<open>The end of \<open>removePublishState\<close>: the file is removed if it was found.\<close>

definition remove_file_state :: "kernel \<Rightarrow> string \<Rightarrow> string \<Rightarrow> unit nres sys" where
  "remove_file_state K dir path = do {
     gone \<leftarrow> os_do K (SysRemove path);
     case gone of
       Some e \<Rightarrow> if \<not> oe_NotExist e then give (wrapped ''remove durable publish state: '' (Raw e)) else syncPublishStateDirectory K dir
     | None \<Rightarrow> syncPublishStateDirectory K dir }"

definition remove_if_found :: "kernel \<Rightarrow> string \<Rightarrow> string \<Rightarrow> unit nres sys" where
  "remove_if_found K dir path =
     checked (wrapped ''inspect durable publish state before removal: '') (inspectPublishStateFile K path True) (\<lambda>found.
       if found = None then done_ok () else remove_file_state K dir path)"

definition removePublishState :: "kernel \<Rightarrow> Config \<Rightarrow> string \<Rightarrow> unit nres sys" where
  "removePublishState K cfg target =
     checked Plain (State_Monad.return (publishStateDirectory cfg)) (\<lambda>dir.
     checked id (validatePublishStateBase K dir) (\<lambda>_. do {
       r \<leftarrow> os_Lstat K dir;
       case r of
         Inl e \<Rightarrow> if oe_NotExist e then done_ok () else give (wrapped ''inspect durable publish state directory: '' (Raw e))
       | Inr i \<Rightarrow>
           checked id (check_state_dir K dir i) (\<lambda>_.
           checked Plain (State_Monad.return (publishStatePath cfg target)) (remove_if_found K dir)) }))"

section \<open>What is written is read back\<close>

lemma hex_decode_chars: "hex_decode f = Some b \<Longrightarrow> list_all is_hex_digit f \<and> length f = 2 * length b"
proof (induction f arbitrary: b rule: hex_decode.induct)
  case (3 c d s)
  have "unhex x = Some h \<Longrightarrow> is_hex_digit x" for x h
    by (auto simp: unhex_def is_hex_digit_def is_digit_def split: if_splits)
  then show ?case using 3 by (fastforce split: option.splits)
qed simp_all

lemma hex_plain: "list_all is_hex_digit f \<Longrightarrow> escape f = f \<and> utf8_valid f"
proof (induction f)
  case (Cons c f)
  have "ch c < 128 \<and> esc_ascii c = [c]" using Cons.prems by (auto simp: is_hex_digit_def is_digit_def esc_ascii_def)
  then show ?case using Cons by (simp add: utf8_size_def byte_at_def)
qed simp

lemma fingerprint_hex:
  assumes "validatePublishFingerprint f = Inr ()"
  shows "length f = 64" "list_all is_hex_digit f"
  using assms hex_decode_chars [of f] by (auto simp: validatePublishFingerprint_def split: option.splits if_splits)

lemma state_text: "list_all is_hex_digit f \<Longrightarrow> state_text f = ''{'' @ quote ''fingerprint'' @ '':'' @ [CHR 0x22] @ f @ [CHR 0x22] @ ''}'' @ [CHR 0x0A]"
  using hex_plain [of f] by (simp add: state_text_def durablePublishState_def quote_def)

lemma length_state_text: "validatePublishFingerprint f = Inr () \<Longrightarrow> length (state_text f) = 83"
proof -
  assume f: "validatePublishFingerprint f = Inr ()"
  have "length (quote ''fingerprint'') = 13" by code_simp
  then show ?thesis using fingerprint_hex [OF f] by (simp add: state_text)
qed

lemma state_reads: "utf8_valid f \<Longrightarrow> json_decode (state_text f) = Some (durablePublishState f, [CHR 0x0A])"
proof -
  assume "utf8_valid f"
  moreover have "utf8_valid ''fingerprint''" by code_simp
  ultimately have "reads_back (durablePublishState f)" by (intro Marshal_reads_back) (simp add: durablePublishState_def)
  then have "2 * length (Marshal (durablePublishState f)) < n \<longrightarrow> ends_number [CHR 0x0A]
      \<longrightarrow> jvalue n (Marshal (durablePublishState f) @ [CHR 0x0A]) = Some (durablePublishState f, [CHR 0x0A])" for n
    unfolding reads_back_def by blast
  then show ?thesis by (simp add: json_decode_def state_text_def ends_number_def is_digit_def del: jvalue.simps)
qed

text \<open>The file that is written for a fingerprint has a size the reader accepts and is read back as that fingerprint.\<close>

theorem publish_state_roundtrip:
  assumes "validatePublishFingerprint f = Inr ()"
  shows "decode_state (state_text f) = Inr f \<and> 0 < length (state_text f) \<and> length (state_text f) \<le> 1024"
proof -
  have u: "utf8_valid f" using hex_plain fingerprint_hex(2) [OF assms] by blast
  have "take 1025 (state_text f) = state_text f" by (simp add: length_state_text [OF assms])
  then have "decode_state (state_text f) = Inr f"
    using assms state_reads [OF u]
    by (simp add: decode_state_def durablePublishState_def strict_entry_def get_str_def EqualFold_def and_then_def skip_def json_space_def)
  then show ?thesis by (simp add: length_state_text [OF assms])
qed

lemma decode_state_Inr: "decode_state raw = Inr f \<Longrightarrow> validatePublishFingerprint f = Inr ()"
  by (auto simp: decode_state_def and_then_def split: option.splits prod.splits if_splits sum.splits)

section \<open>The calls they make\<close>

text \<open>A call of this module: nothing is executed, only the state file and temporary files are removed or renamed.\<close>

fun state_event :: "string \<Rightarrow> os_event \<Rightarrow> bool" where
  "state_event path (Exec _ _ _ _) \<longleftrightarrow> False"
| "state_event path (CreateTemp _ p _) \<longleftrightarrow> p = ''.publish-*.tmp''"
| "state_event path (Did (SysRename _ p) _) \<longleftrightarrow> p = path"
| "state_event path _ \<longleftrightarrow> True"

text \<open>The content is in a file of its own and on the disk before it gets the name of the state file; then the directory is.\<close>

definition persisted :: "Config \<Rightarrow> string \<Rightarrow> string \<Rightarrow> os_event list \<Rightarrow> bool" where
  "persisted cfg target f es \<longleftrightarrow>
     (\<exists>dir path temp. publishStateDirectory cfg = Inr dir \<and> publishStatePath cfg target = Inr path \<and>
        subseq [CreateTemp dir ''.publish-*.tmp'' (Inr temp), Did (SysFchmod temp 384) None, Did (SysWrite temp (state_text f)) None,
          Did (SysFsync temp) None, Did (SysClose temp) None, Did (SysRename temp path) None, Did (SysOpen dir) None,
          Did (SysFsync dir) None] es)"

lemmas state_defs =
  validatePublishStateBase_def secure_dir_def ensurePublishStateDirectory_def inspectPublishStateFile_def syncPublishStateDirectory_def
  replace_state_def discard_temp_def writePublishState_def check_state_dir_def readPublishState_def
  remove_file_state_def remove_if_found_def removePublishState_def

lemma state_only:
  "only (state_event p) (validatePublishStateBase K dir)" "only (state_event p) (secure_dir K dir)"
  "only (state_event p) (ensurePublishStateDirectory K cfg)" "only (state_event p) (inspectPublishStateFile K path m)"
  "only (state_event p) (syncPublishStateDirectory K dir)" "only (state_event p) (replace_state K dir p temp f)"
  "only (state_event p) (discard_temp K temp)" "only (state_event p) (check_state_dir K dir i)"
  "only (state_event p) (readPublishState K cfg target)" "only (state_event p) (removePublishState K cfg target)"
  unfolding state_defs by (intro does_rules; simp)+

lemma write_only: "publishStatePath cfg target = Inr path \<Longrightarrow> only (state_event path) (writePublishState K cfg target f)"
  unfolding writePublishState_def by (auto intro!: does_rules state_only simp: state_event.simps)

lemma replace_leaves:
  "leaves [Did (SysFchmod temp 384) None, Did (SysWrite temp (state_text f)) None, Did (SysFsync temp) None, Did (SysClose temp) None,
     Did (SysRename temp path) None, Did (SysOpen dir) None, Did (SysFsync dir) None] (replace_state K dir path temp f)"
  unfolding replace_state_def syncPublishStateDirectory_def by (rule leaves_rules does_rules TrueI)+

lemma ensure_dir: "does (ensurePublishStateDirectory K cfg) (\<lambda>es r. \<forall>d. r = Inr d \<longrightarrow> publishStateDirectory cfg = Inr d)"
proof -
  have sec: "does (secure_dir K dir) (\<lambda>es r. \<forall>d. r = Inr d \<longrightarrow> d = dir)" for dir
    unfolding secure_dir_def
    by (rule does_checked, rule does_calls, rule TrueI)
      (auto intro!: does_return does_check_do [OF does_calls(1)] does_bind [OF does_calls(2)] split: sum.splits)
  show ?thesis
  proof (cases "publishStateDirectory cfg")
    case (Inr dir)
    have "does (validatePublishStateBase K dir) (\<lambda>_ _. True)" for dir
      using state_only(1) unfolding only_def by (rule does_weaken) simp
    then show ?thesis
      unfolding ensurePublishStateDirectory_def Inr checked_return
      by (rule does_checked) (auto intro!: does_bind [OF does_calls(1)] does_return sec [THEN does_weaken] split: option.splits)
  qed (simp add: ensurePublishStateDirectory_def does_return)
qed

lemma does_any: "only P m \<Longrightarrow> does m (\<lambda>_ _. True)"
  unfolding only_def by (erule does_weaken) simp

lemma write_persists:
  "does (writePublishState K cfg target f) (\<lambda>es r. r = Inr () \<longrightarrow> persisted cfg target f es)"
proof (cases "validatePublishFingerprint f")
  case v: (Inr u)
  show ?thesis
    unfolding writePublishState_def v checked_return
  proof (rule does_checked [OF ensure_dir])
    fix es1 dir assume "\<forall>d. Inr dir = Inr d \<longrightarrow> publishStateDirectory cfg = Inr d"
    then have dir: "publishStateDirectory cfg = Inr dir" by simp
    then obtain path where path: "publishStatePath cfg target = Inr path" by (simp add: publishStatePath_def and_then_def)
    show "does (checked Plain (State_Monad.return (publishStatePath cfg target)) (\<lambda>path.
        checked (wrapped ''inspect existing durable publish state: '') (inspectPublishStateFile K path True) (\<lambda>_.
        checked (\<lambda>e. wrapped ''create durable publish state: '' (Raw e)) (os_CreateTemp K dir ''.publish-*.tmp'') (\<lambda>temp.
          deferred (replace_state K dir path temp f) (discard_temp K temp)))))
      (\<lambda>es r. r = Inr () \<longrightarrow> persisted cfg target f (es1 @ es))"
      unfolding path checked_return
    proof (rule does_checked [OF does_any [OF state_only(4)]])
      fix es2
      show "does (checked (\<lambda>e. wrapped ''create durable publish state: '' (Raw e)) (os_CreateTemp K dir ''.publish-*.tmp'') (\<lambda>temp.
          deferred (replace_state K dir path temp f) (discard_temp K temp)))
        (\<lambda>es r. r = Inr () \<longrightarrow> persisted cfg target f (es1 @ es2 @ es))"
      proof (rule does_checked [OF does_calls(3) [of "\<lambda>es z. es = [CreateTemp dir ''.publish-*.tmp'' z]"]])
        fix es3 temp assume e3: "es3 = [CreateTemp dir ''.publish-*.tmp'' (Inr temp)]"
        have "only (\<lambda>_. True) (discard_temp K temp)" using state_only(7) by (rule only_mono) simp
        then have "leaves [Did (SysFchmod temp 384) None, Did (SysWrite temp (state_text f)) None, Did (SysFsync temp) None,
            Did (SysClose temp) None, Did (SysRename temp path) None, Did (SysOpen dir) None, Did (SysFsync dir) None]
          (deferred (replace_state K dir path temp f) (discard_temp K temp))"
          by (rule leaves_deferred [OF replace_leaves])
        then show "does (deferred (replace_state K dir path temp f) (discard_temp K temp))
          (\<lambda>es r. r = Inr () \<longrightarrow> persisted cfg target f (es1 @ es2 @ es3 @ es))"
          unfolding leaves_def
        proof (rule does_weaken, intro impI)
          fix es4 and r :: "unit nres" assume "r = Inr ()" and l: "isl r \<or> subseq [Did (SysFchmod temp 384) None, Did (SysWrite temp (state_text f)) None,
              Did (SysFsync temp) None, Did (SysClose temp) None, Did (SysRename temp path) None, Did (SysOpen dir) None, Did (SysFsync dir) None] es4"
          then show "persisted cfg target f (es1 @ es2 @ es3 @ es4)"
            unfolding persisted_def by (auto simp: dir path e3 intro!: exI [of _ temp] list_emb_append2)
        qed
      qed simp_all
    qed simp
  qed simp
qed (simp add: writePublishState_def does_return)

lemma write_valid: "does (writePublishState K cfg target f) (\<lambda>es r. r = Inr () \<longrightarrow> validatePublishFingerprint f = Inr ())"
proof (cases "validatePublishFingerprint f")
  case (Inl e)
  then show ?thesis by (simp add: writePublishState_def does_return)
next
  case (Inr u)
  then show ?thesis by (intro does_weaken [OF write_persists]) simp
qed

text \<open>C18: Writing the state executes nothing and renames onto the state file only; when it succeeds, the whole content was written to a new
  file with mode 0600 and synced before it replaced the old one, and the directory was synced after: a crash leaves the old state or the new.\<close>

theorem writePublishState_durable:
  assumes "run_state (writePublishState K cfg target f) s = (r, s')"
  shows "\<exists>es. ns_trace s' = ns_trace s @ es \<and> (\<forall>path. publishStatePath cfg target = Inr path \<longrightarrow> list_all (state_event path) es) \<and>
    (r = Inr () \<longrightarrow> validatePublishFingerprint f = Inr () \<and> persisted cfg target f es)"
proof -
  have main: "does (writePublishState K cfg target f) (\<lambda>es r. r = Inr () \<longrightarrow> validatePublishFingerprint f = Inr () \<and> persisted cfg target f es)"
    using does_conj [OF write_valid write_persists] by (rule does_weaken) simp
  obtain es where es: "ns_trace s' = ns_trace s @ es" "r = Inr () \<longrightarrow> validatePublishFingerprint f = Inr () \<and> persisted cfg target f es"
    by (rule doesD [OF main assms])
  have "list_all (state_event path) es" if path: "publishStatePath cfg target = Inr path" for path
  proof -
    obtain es' where "ns_trace s' = ns_trace s @ es'" "list_all (state_event path) es'"
      by (rule doesD [OF write_only [OF path, unfolded only_def] assms])
    then show ?thesis using es(1) by simp
  qed
  then show ?thesis using es by blast
qed


text \<open>What reading returns was in the state file, and is a fingerprint.\<close>

definition state_was_read :: "Config \<Rightarrow> string \<Rightarrow> string \<Rightarrow> os_event list \<Rightarrow> bool" where
  "state_was_read cfg target f es \<longleftrightarrow>
     (\<exists>path raw. publishStatePath cfg target = Inr path \<and> ReadAll path (Inr raw) \<in> set es \<and> decode_state raw = Inr f)"

lemma does_checked_later:
  assumes "only P m" "\<And>y. does (k y) (\<lambda>es r. \<forall>x. r = Inr x \<longrightarrow> R x es)" "\<And>es es' x. R x es' \<Longrightarrow> R x (es @ es')"
  shows "does (checked h m k) (\<lambda>es r. \<forall>x. r = Inr x \<longrightarrow> R x es)"
  by (rule does_checked [OF does_any [OF assms(1)]]) (auto intro: does_weaken [OF assms(2)] assms(3))

lemma state_was_read_later: "state_was_read cfg target f es' \<Longrightarrow> state_was_read cfg target f (es @ es')"
  by (auto simp: state_was_read_def)

lemma read_reads: "does (readPublishState K cfg target) (\<lambda>es r. \<forall>f. r = Inr f \<longrightarrow> state_was_read cfg target f es)"
proof (cases "publishStatePath cfg target")
  case (Inl e)
  then show ?thesis
    unfolding readPublishState_def Inl checked_return
    by (intro does_checked_later [where P = "\<lambda>_. True"] does_rules TrueI state_was_read_later does_return state_only [THEN only_mono]) simp_all
next
  case path: (Inr path)
  have core: "does (deferred (checked Raw (os_ReadAll K path) (\<lambda>raw. checked Plain (State_Monad.return (decode_state raw)) done_ok))
      (do { _ \<leftarrow> os_do K (SysClose path); State_Monad.return () })) (\<lambda>es r. \<forall>f. r = Inr f \<longrightarrow> state_was_read cfg target f es)"
  proof (rule does_deferred [where P = "\<lambda>es r. \<forall>f. r = Inr f \<longrightarrow> state_was_read cfg target f es"])
    show "does (checked Raw (os_ReadAll K path) (\<lambda>raw. checked Plain (State_Monad.return (decode_state raw)) done_ok))
      (\<lambda>es r. \<forall>f. r = Inr f \<longrightarrow> state_was_read cfg target f es)"
    proof (rule does_checked [OF does_calls(4) [of "\<lambda>es v. es = [ReadAll path v]"]])
      fix es raw assume "es = [ReadAll path (Inr raw)]"
      then show "does (checked Plain (State_Monad.return (decode_state raw)) done_ok)
          (\<lambda>es' r. \<forall>f. r = Inr f \<longrightarrow> state_was_read cfg target f (es @ es'))"
        by (cases "decode_state raw") (auto intro!: does_return simp: state_was_read_def path)
    qed simp_all
  next
    fix es and r :: "string nres" assume "\<forall>f. r = Inr f \<longrightarrow> state_was_read cfg target f es"
    then show "does (do { _ \<leftarrow> os_do K (SysClose path); State_Monad.return () }) (\<lambda>es' _. \<forall>f. r = Inr f \<longrightarrow> state_was_read cfg target f (es @ es'))"
      by (intro does_bind [OF does_calls(1)] does_return) (auto simp: state_was_read_def)
  qed
  have open_core: "does (check_do Raw (os_do K (SysOpen path)) (deferred (checked Raw (os_ReadAll K path) (\<lambda>raw.
      checked Plain (State_Monad.return (decode_state raw)) done_ok)) (do { _ \<leftarrow> os_do K (SysClose path); State_Monad.return () })))
      (\<lambda>es r. \<forall>f. r = Inr f \<longrightarrow> state_was_read cfg target f es)"
    by (rule does_check_do [OF does_calls(1)]) (auto intro!: does_weaken [OF core] simp: state_was_read_def)
  show ?thesis
    unfolding readPublishState_def path checked_return
    by (intro does_checked_later [where P = "\<lambda>_. True"] does_rules TrueI state_was_read_later does_return state_only [THEN only_mono] open_core)
qed

end
