(* ===== verification/Csi_Node.thy ===== *)
theory Csi_Node
  imports Publish_State Csi_Driver
begin

text \<open>
  \<^verbatim>\<open>internal/csidriver/node.go\<close> with the system calls of \<^verbatim>\<open>mount.go\<close> and \<^verbatim>\<open>mount_linux.go\<close>: publishing a volume at a target of the kubelet and
  taking it away again, as programs over \<open>Node_System\<close>.
\<close>

section \<open>The target path\<close>

definition path_segs :: "string \<Rightarrow> string list" where
  "path_segs p = filter (\<lambda>x. x \<noteq> []) (Split p (CHR ''/''))"

fun strip_common :: "string list \<Rightarrow> string list \<Rightarrow> string list \<times> string list" where
  "strip_common (x # xs) (y # ys) = (if x = y then strip_common xs ys else (x # xs, y # ys))"
| "strip_common xs ys = (xs, ys)"

text \<open>\<open>filepath.Rel\<close> for clean absolute paths.\<close>

definition filepath_Rel :: "string \<Rightarrow> string \<Rightarrow> string" where
  "filepath_Rel base targ =
     (case strip_common (path_segs base) (path_segs targ) of (up, down) \<Rightarrow>
        if up = [] \<and> down = [] then ''.'' else Join (map (\<lambda>_. ''..'') up @ down) ''/'')"

text \<open>The loop of \<open>rejectExistingSymlinkComponents\<close>.\<close>

fun symlink_loop :: "kernel \<Rightarrow> string \<Rightarrow> string list \<Rightarrow> unit nres sys" where
  "symlink_loop K current [] = done_ok ()"
| "symlink_loop K current (component # rest) = do {
     r \<leftarrow> os_Lstat K (path_Join [current, component]);
     case r of
       Inl e \<Rightarrow> if oe_NotExist e then symlink_loop K (path_Join [current, component]) rest
                else give (wrapped ''inspect target path: '' (Raw e))
     | Inr i \<Rightarrow>
         if fi_Symlink i then give (msg (''target path contains symlink component '' @ fmt_q (path_Join [current, component])))
         else symlink_loop K (path_Join [current, component]) rest }"

definition rejectExistingSymlinkComponents :: "kernel \<Rightarrow> string \<Rightarrow> string \<Rightarrow> unit nres sys" where
  "rejectExistingSymlinkComponents K root rel = symlink_loop K root (Split rel (CHR ''/''))"

definition validateTargetPath :: "kernel \<Rightarrow> string \<Rightarrow> string \<Rightarrow> unit nres sys" where
  "validateTargetPath K root target =
     (if TrimSpace root = [] \<or> TrimSpace target = [] then give (msg ''kubelet root and target path are required'')
      else if \<not> HasPrefix root ''/'' \<or> \<not> HasPrefix target ''/'' then give (msg ''kubelet root and target path must be absolute'')
      else let rel = filepath_Rel (path_Clean root) (path_Clean target)
        in if rel = ''.'' \<or> rel = ''..'' \<or> HasPrefix rel ''../''
           then give (msg (''target path '' @ fmt_q target @ '' is outside kubelet root '' @ fmt_q root))
           else rejectExistingSymlinkComponents K (path_Clean root) rel)"

section \<open>Credentials for SMB\<close>

definition smb_secret_error :: "params \<Rightarrow> node_error option" where
  "smb_secret_error secrets =
     (let username = TrimSpace (param secrets ''username''); password = param secrets ''password'';
          domain = TrimSpace (param secrets ''domain'')
      in if username = [] \<or> password = [] then Some (msg ''SMB node-publish secret must contain username and password'')
         else case find (\<lambda>(k, v). ContainsAny v [CHR 0x00, CHR 0x0D, CHR 0x0A])
                [(''username'', username), (''password'', password), (''domain'', domain)] of
             Some (k, _) \<Rightarrow> Some (msg (''SMB '' @ k @ '' contains a control character''))
           | None \<Rightarrow> None)"

definition smb_credentials_text :: "params \<Rightarrow> bytes" where
  "smb_credentials_text secrets =
     ''username='' @ TrimSpace (param secrets ''username'') @ [CHR 0x0A] @ ''password='' @ param secrets ''password'' @ [CHR 0x0A]
     @ (if TrimSpace (param secrets ''domain'') = [] then [] else ''domain='' @ TrimSpace (param secrets ''domain'') @ [CHR 0x0A])"

definition remove_file :: "kernel \<Rightarrow> string \<Rightarrow> unit sys" where
  "remove_file K p = do { _ \<leftarrow> os_do K (SysRemove p); State_Monad.return () }"

definition close_file :: "kernel \<Rightarrow> string \<Rightarrow> unit sys" where
  "close_file K p = do { _ \<leftarrow> os_do K (SysClose p); State_Monad.return () }"

text \<open>On success the name of the file; the caller removes it.\<close>

definition fill_credentials :: "kernel \<Rightarrow> string \<Rightarrow> bytes \<Rightarrow> string nres sys" where
  "fill_credentials K name content = do {
     r \<leftarrow> os_do K (SysFchmod name 384);
     case r of
       Some e \<Rightarrow> do { _ \<leftarrow> close_file K name; _ \<leftarrow> remove_file K name; give (Raw e) }
     | None \<Rightarrow> do {
         r \<leftarrow> os_do K (SysWrite name content);
         case r of
           Some e \<Rightarrow> do { _ \<leftarrow> close_file K name; _ \<leftarrow> remove_file K name; give (Raw e) }
         | None \<Rightarrow> do {
             r \<leftarrow> os_do K (SysClose name);
             case r of
               Some e \<Rightarrow> do { _ \<leftarrow> remove_file K name; give (Raw e) }
             | None \<Rightarrow> done_ok name } } }"

definition writeSMBCredentials :: "kernel \<Rightarrow> string \<Rightarrow> params \<Rightarrow> string nres sys" where
  "writeSMBCredentials K stateDir secrets =
     (case smb_secret_error secrets of
        Some err \<Rightarrow> give err
      | None \<Rightarrow>
          check_do (\<lambda>e. wrapped ''create CSI state directory: '' (Raw e)) (os_do K (SysMkdirAll stateDir 448)) (
          checked (\<lambda>e. wrapped ''inspect CSI state directory: '' (Raw e)) (os_Lstat K stateDir) (\<lambda>i.
            if not_real_dir i then give (msg ''CSI state path must be a real directory'')
            else check_do (\<lambda>e. wrapped ''secure CSI state directory: '' (Raw e)) (os_do K (SysChmod stateDir 448)) (
              checked (\<lambda>e. wrapped ''create SMB credentials file: '' (Raw e)) (os_CreateTemp K stateDir ''smb-credentials-*'') (\<lambda>name.
                fill_credentials K name (smb_credentials_text secrets))))))"

section \<open>The mounter\<close>

definition Lookup :: "kernel \<Rightarrow> string \<Rightarrow> mountRecord option nres sys" where
  "Lookup K target =
     checked (\<lambda>e. wrapped ''read mount table: '' (Raw e)) (os_ReadAll K ''/proc/self/mountinfo'') (\<lambda>raw.
       checked Plain (State_Monad.return (parseMountInfo raw target)) done_ok)"

definition mount_args :: "string \<Rightarrow> string \<Rightarrow> string \<Rightarrow> string list \<Rightarrow> string list" where
  "mount_args source target fsType options =
     [''-t'', fsType] @ (if options = [] then [] else [''-o'', Join options '','']) @ [source, target]"

definition Mount :: "kernel \<Rightarrow> string \<Rightarrow> string \<Rightarrow> string \<Rightarrow> string list \<Rightarrow> unit nres sys" where
  "Mount K source target fsType options =
     check_do (\<lambda>e. wrapped ''create mount target: '' (Raw e)) (os_do K (SysMkdirAll target 488)) (
     checked (\<lambda>e. wrapped ''inspect mount target: '' (Raw e)) (os_Lstat K target) (\<lambda>i.
       if not_real_dir i then give (msg ''mount target must be a real directory'')
       else do {
         (err, out) \<leftarrow> os_Exec K ''mount'' (mount_args source target fsType options);
         case err of
           Some e \<Rightarrow> give (msg (''mount '' @ fsType @ '' volume: '' @ oe_Text e @ '': '' @ TrimSpace out))
         | None \<Rightarrow> done_ok () }))"

definition Unmount :: "kernel \<Rightarrow> string \<Rightarrow> unit nres sys" where
  "Unmount K target = do {
     (err, out) \<leftarrow> os_Exec K ''umount'' [target];
     case err of
       Some e \<Rightarrow> give (msg (''unmount volume: '' @ oe_Text e @ '': '' @ TrimSpace out))
     | None \<Rightarrow> done_ok () }"

section \<open>Requests\<close>

record NodePublishRequest =
  np_VolumeId :: string
  np_TargetPath :: string
  np_StagingTargetPath :: string
  np_Capability :: "VolumeCapability option"
  np_Readonly :: bool
  np_PublishContext :: params
  np_VolumeContext :: params
  np_Secrets :: params

definition mount_flags :: "VolumeCapability option \<Rightarrow> string list" where
  "mount_flags cap = (case Option.bind cap vc_Mount of None \<Rightarrow> [] | Some m \<Rightarrow> mv_MountFlags m)"

definition mount_fs :: "VolumeCapability option \<Rightarrow> string" where
  "mount_fs cap = (case Option.bind cap vc_Mount of None \<Rightarrow> [] | Some m \<Rightarrow> mv_FsType m)"

definition access_mode :: "VolumeCapability option \<Rightarrow> int" where
  "access_mode cap = (case cap of None \<Rightarrow> mode_UNKNOWN | Some c \<Rightarrow> vc_Mode c)"

definition readerOnlyAccessMode :: "VolumeCapability option \<Rightarrow> bool" where
  "readerOnlyAccessMode cap \<longleftrightarrow> access_mode cap = mode_SINGLE_NODE_READER_ONLY \<or> access_mode cap = mode_MULTI_NODE_READER_ONLY"

record nodePublishFingerprintData =
  fd_VolumeID :: string
  fd_StagingTargetPath :: string
  fd_FSType :: string
  fd_AccessMode :: int
  fd_MountFlags :: "string list"
  fd_ReadOnly :: bool
  fd_PublishContext :: "string list"
  fd_VolumeContext :: "string list"

definition fingerprint_data :: "NodePublishRequest \<Rightarrow> nodePublishFingerprintData res" where
  "fingerprint_data req =
     and_then (sanitizedMountFlags (mount_flags (np_Capability req))) (\<lambda>flags. Inr
       \<lparr>fd_VolumeID = np_VolumeId req, fd_StagingTargetPath = np_StagingTargetPath req,
        fd_FSType = ToLower (TrimSpace (mount_fs (np_Capability req))), fd_AccessMode = access_mode (np_Capability req), fd_MountFlags = flags,
        fd_ReadOnly = np_Readonly req, fd_PublishContext = canonicalMapEntries (np_PublishContext req),
        fd_VolumeContext = canonicalMapEntries (np_VolumeContext req)\<rparr>)"

definition fingerprint_json :: "nodePublishFingerprintData \<Rightarrow> json" where
  "fingerprint_json d =
     JObj [(''volumeID'', JStr (fd_VolumeID d)), (''stagingTargetPath'', JStr (fd_StagingTargetPath d)), (''fsType'', JStr (fd_FSType d)),
           (''accessMode'', JNum (fd_AccessMode d)), (''mountFlags'', str_list (fd_MountFlags d)), (''readOnly'', JBool (fd_ReadOnly d)),
           (''publishContext'', str_list (fd_PublishContext d)), (''volumeContext'', str_list (fd_VolumeContext d))]"

definition nodePublishFingerprint :: "NodePublishRequest \<Rightarrow> string res" where
  "nodePublishFingerprint req =
     and_then (fingerprint_data req) (\<lambda>spec. Inr (hex_encode (sha256 (Marshal (fingerprint_json spec)))))"


section \<open>Target locks\<close>

text \<open>\<open>lockNodeTarget\<close>, with the table as it is while this call holds the lock of its target.\<close>

definition lock_target :: "string \<Rightarrow> (string \<Rightarrow> nodeTargetLock option) \<Rightarrow> (string \<Rightarrow> nodeTargetLock option)" where
  "lock_target key ts =
     ts(key \<mapsto> (case ts key of None \<Rightarrow> \<lparr>tl_refs = 1, tl_publishFingerprint = []\<rparr> | Some l \<Rightarrow> l\<lparr>tl_refs := tl_refs l + 1\<rparr>))"

definition unlock_target :: "string \<Rightarrow> (string \<Rightarrow> nodeTargetLock option) \<Rightarrow> (string \<Rightarrow> nodeTargetLock option)" where
  "unlock_target key ts =
     (case ts key of
        None \<Rightarrow> ts
      | Some l \<Rightarrow>
          (let l = l\<lparr>tl_refs := tl_refs l - 1\<rparr>
           in if tl_refs l = 0 \<and> tl_publishFingerprint l = [] then ts(key := None) else ts(key \<mapsto> l)))"

definition remembered :: "string \<Rightarrow> (string \<Rightarrow> nodeTargetLock option) \<Rightarrow> string" where
  "remembered key ts = (case ts key of None \<Rightarrow> [] | Some l \<Rightarrow> tl_publishFingerprint l)"

definition remember :: "string \<Rightarrow> string \<Rightarrow> (string \<Rightarrow> nodeTargetLock option) \<Rightarrow> (string \<Rightarrow> nodeTargetLock option)" where
  "remember key f ts = (case ts key of None \<Rightarrow> ts | Some l \<Rightarrow> ts(key \<mapsto> l\<lparr>tl_publishFingerprint := f\<rparr>))"

definition with_target_lock :: "string \<Rightarrow> 'a sys \<Rightarrow> 'a sys" where
  "with_target_lock target m = do {
     _ \<leftarrow> set_targets (lock_target (path_Clean target));
     deferred m (set_targets (unlock_target (path_Clean target))) }"

section \<open>Publish\<close>

definition nfs_blocked :: "string list" where
  "nfs_blocked =
     [''vers'', ''version'', ''nfsvers'', ''mountvers'', ''minorversion'', ''sec'', ''security'', ''xprtsec'',
      ''addr'', ''mountaddr'', ''mounthost'', ''clientaddr'', ''port'', ''mountport'', ''nfsprog'', ''mountprog'',
      ''proto'', ''protocol'', ''mountproto'', ''tcp'', ''tcp6'', ''udp'', ''udp6'', ''rdma'', ''rdma6'',
      ''timeo'', ''retrans'', ''soft'', ''softerr'', ''softreval'', ''nosoftreval'']"

definition smb_blocked :: "string list" where
  "smb_blocked =
     [''vers'', ''version'', ''sec'', ''security'', ''seal'', ''noseal'', ''sign'', ''nosign'',
      ''addr'', ''ip'', ''port'', ''unc'', ''source'', ''prefixpath'', ''prepath'',
      ''cred'', ''creds'', ''credential'', ''credentials'', ''credfile'', ''credentialsfile'', ''user'', ''username'',
      ''pass'', ''password'', ''pass2'', ''password2'', ''domain'', ''dom'', ''workgroup'', ''domainauto'',
      ''guest'', ''nullauth'', ''multiuser'', ''cruid'', ''upcall_target'', ''proto'', ''protocol'', ''tcp'', ''rdma'',
      ''soft'', ''softerr'', ''softreval'', ''sharesock'', ''nosharesock'']"

text \<open>The switch over the protocol: the handle with its NFS version, the type of the file system and the options of the driver.\<close>

definition mount_plan :: "volumeHandle \<Rightarrow> string list \<Rightarrow> (volumeHandle \<times> string \<times> string list) res" where
  "mount_plan h flags =
     (if vh_Protocol h = protocolNFS then
        (let h = (if vh_NFSVersion h = [] then h\<lparr>vh_NFSVersion := ''4.1''\<rparr> else h);
             base = [''vers='' @ vh_NFSVersion h, ''sec=sys'', ''hard'', ''timeo=600'', ''retrans=2'', ''nodev'', ''nosuid'']
         in and_then (rejectControlledMountOptions flags nfs_blocked) (\<lambda>_.
              Inr (h, if vh_NFSVersion h = ''3'' then ''nfs'' else ''nfs4'', if vh_NFSVersion h = ''3'' then base @ [''nolock''] else base)))
      else if vh_Protocol h = protocolSMB then
        and_then (rejectControlledMountOptions flags smb_blocked) (\<lambda>_.
          Inr (h, ''cifs'', [''vers=3.1.1'', ''nosharesock'', ''actimeo=30'', ''nodev'', ''nosuid'']
            @ (if vh_SMBEncrypted h then [''seal''] else [])))
      else Inr (h, [], []))"

definition node_status :: "code \<Rightarrow> node_error \<Rightarrow> go_error" where
  "node_status c err = EStatus c (node_text err)"

definition bad_arg :: "go_error \<Rightarrow> go_error" where
  "bad_arg err = EStatus InvalidArgument (error_text err)"

text \<open>The target is mounted already.\<close>

definition publish_again :: "kernel \<Rightarrow> Config \<Rightarrow> NodePublishRequest \<Rightarrow> volumeHandle \<Rightarrow> mountRecord \<Rightarrow> string \<Rightarrow> unit res sys" where
  "publish_again K cfg req h r fingerprint =
     (case validateExistingMount h r (np_Readonly req) (mount_flags (np_Capability req)) of
        Inl err \<Rightarrow> give (EStatus AlreadyExists (''target is already mounted incompatibly: '' @ error_text err))
      | Inr _ \<Rightarrow>
          checked (\<lambda>_. EStatus AlreadyExists ''target is already mounted but its original publish arguments cannot be verified'')
            (readPublishState K cfg (np_TargetPath req)) (\<lambda>persisted.
            if persisted \<noteq> fingerprint then give (EStatus AlreadyExists ''target is already mounted with different publish arguments'')
            else do {
              ts \<leftarrow> get_targets;
              if remembered (path_Clean (np_TargetPath req)) ts \<noteq> [] \<and> remembered (path_Clean (np_TargetPath req)) ts \<noteq> fingerprint
              then give (EStatus AlreadyExists ''target is already mounted with different publish arguments'')
              else do { _ \<leftarrow> set_targets (remember (path_Clean (np_TargetPath req)) fingerprint); done_ok () } }))"

text \<open>Nothing is mounted: \<open>base\<close> holds the options of the driver, the credentials file included.\<close>

definition publish_mount :: "kernel \<Rightarrow> Config \<Rightarrow> NodePublishRequest \<Rightarrow> volumeHandle \<Rightarrow> string \<Rightarrow> string list \<Rightarrow> string \<Rightarrow> unit res sys" where
  "publish_mount K cfg req h fsType base fingerprint =
     checked bad_arg (State_Monad.return (mergeMountOptions base (mount_flags (np_Capability req)) (np_Readonly req))) (\<lambda>options.
     checked (\<lambda>e. EStatus Internal (''persist node publish arguments: '' @ node_text e)) (writePublishState K cfg (np_TargetPath req) fingerprint) (\<lambda>_. do {
       _ \<leftarrow> set_targets (remember (path_Clean (np_TargetPath req)) fingerprint);
       checked (node_status Internal) (Mount K (mountSource h) (np_TargetPath req) fsType options) (\<lambda>_. done_ok ()) }))"

definition publish_new :: "kernel \<Rightarrow> Config \<Rightarrow> NodePublishRequest \<Rightarrow> volumeHandle \<Rightarrow> string \<Rightarrow> string list \<Rightarrow> string \<Rightarrow> unit res sys" where
  "publish_new K cfg req h fsType base fingerprint = do {
     _ \<leftarrow> set_targets (remember (path_Clean (np_TargetPath req)) []);
     if vh_Protocol h = protocolSMB then
       checked (node_status InvalidArgument) (writeSMBCredentials K (cc_StateDir cfg) (np_Secrets req)) (\<lambda>name.
         deferred (publish_mount K cfg req h fsType (base @ [''credentials='' @ name]) fingerprint) (remove_file K name))
     else publish_mount K cfg req h fsType base fingerprint }"

text \<open>The checks of a publish request before it looks at the target: the plan and the fingerprint.\<close>

definition publish_plan :: "Config \<Rightarrow> NodePublishRequest \<Rightarrow> (volumeHandle \<times> string \<times> string list \<times> string) res" where
  "publish_plan cfg req =
     and_then (decodeVolumeHandle (np_VolumeId req) cfg) (\<lambda>h.
     and_then (validateVolumeCapabilities (vh_Protocol h) [np_Capability req]) (\<lambda>_.
       if readerOnlyAccessMode (np_Capability req) \<and> \<not> np_Readonly req
       then Inl (EMsg ''reader-only volume access mode requires readonly=true'')
       else if np_VolumeContext req \<noteq> [] \<and> \<not> volumeContextCompatible (np_VolumeContext req) (volumeContextForHandle h)
       then Inl (EMsg ''volume context does not match the signed volume handle'')
       else and_then (nodePublishFingerprint req) (\<lambda>fingerprint.
            and_then (mount_plan h (mount_flags (np_Capability req))) (\<lambda>(h, fsType, base). Inr (h, fsType, base, fingerprint)))))"

definition target_request :: "kernel \<Rightarrow> Config \<Rightarrow> string \<Rightarrow> string \<Rightarrow> 'a res sys \<Rightarrow> 'a res sys" where
  "target_request K cfg volumeId target m =
     (if \<not> nodeEnabled cfg then give (EStatus Unimplemented ''node service is disabled'')
      else if TrimSpace volumeId = [] then give (EStatus InvalidArgument ''volume ID is required'')
      else if TrimSpace target = [] then give (EStatus InvalidArgument ''target path is required'')
      else checked (node_status InvalidArgument) (validateTargetPath K (cc_KubeletRoot cfg) target) (\<lambda>_. with_target_lock target m))"

definition NodePublishVolume :: "kernel \<Rightarrow> Config \<Rightarrow> NodePublishRequest \<Rightarrow> unit res sys" where
  "NodePublishVolume K cfg req =
     target_request K cfg (np_VolumeId req) (np_TargetPath req) (
     checked bad_arg (State_Monad.return (publish_plan cfg req)) (\<lambda>(h, fsType, base, fingerprint).
     checked (node_status Internal) (Lookup K (np_TargetPath req)) (\<lambda>found.
       case found of
         Some r \<Rightarrow> publish_again K cfg req h r fingerprint
       | None \<Rightarrow> publish_new K cfg req h fsType base fingerprint)))"

section \<open>Unpublish\<close>

definition forget_target :: "kernel \<Rightarrow> Config \<Rightarrow> string \<Rightarrow> unit res sys \<Rightarrow> unit res sys" where
  "forget_target K cfg target k =
     checked (\<lambda>e. EStatus Internal (''remove node publish state: '' @ node_text e)) (removePublishState K cfg target) (\<lambda>_. do {
       _ \<leftarrow> set_targets (remember (path_Clean target) []); k })"

definition unmount_and_forget :: "kernel \<Rightarrow> Config \<Rightarrow> string \<Rightarrow> volumeHandle res \<Rightarrow> mountRecord option \<Rightarrow> unit res sys" where
  "unmount_and_forget K cfg target handle found =
     checked id
       (case found of
          None \<Rightarrow> done_ok ()
        | Some r \<Rightarrow>
            (case and_then handle (\<lambda>h. Inr (validateMountedVolumeIdentity h r)) of
               Inr (Inl err) \<Rightarrow> give (EStatus FailedPrecondition (''target is mounted by a different volume: '' @ error_text err))
             | _ \<Rightarrow> checked (node_status Internal) (Unmount K target) done_ok))
       (\<lambda>_. forget_target K cfg target (do { _ \<leftarrow> remove_file K target; done_ok () }))"

definition NodeUnpublishVolume :: "kernel \<Rightarrow> Config \<Rightarrow> string \<Rightarrow> string \<Rightarrow> unit res sys" where
  "NodeUnpublishVolume K cfg volumeId target =
     target_request K cfg volumeId target (do {
       r \<leftarrow> Lookup K target;
       case r of
         Inl e \<Rightarrow> if os_IsNotExist e then forget_target K cfg target (done_ok ()) else give (node_status Internal e)
       | Inr found \<Rightarrow> unmount_and_forget K cfg target (decodeVolumeHandle volumeId cfg) found })"

section \<open>The other calls\<close>

definition NodeGetCapabilities :: "string list res" where
  "NodeGetCapabilities = Inr []"

definition NodeGetInfo :: "Config \<Rightarrow> string res" where
  "NodeGetInfo cfg = (if TrimSpace (cc_NodeID cfg) = [] then Inl (EStatus Unavailable ''node ID is not configured'') else Inr (cc_NodeID cfg))"

definition NodeExpandVolume :: "unit res" where
  "NodeExpandVolume = Inl (EStatus Unimplemented ''network filesystem volumes do not require node-side expansion'')"

end
