(* ===== verification/Node_Safety.thy ===== *)
theory Node_Safety
  imports Csi_Node
begin

text \<open>
  What the node service executes and leaves behind, for every kernel: the mounts of a publish and what precedes them, the unmounts of an
  unpublish, and the credentials file of SMB.
\<close>

section \<open>Which programs execute\<close>

text \<open>\<open>guarded G\<close>: each command that is executed satisfies \<open>G\<close>, given the calls before it.\<close>

fun no_exec :: "os_event \<Rightarrow> bool" where
  "no_exec (Exec _ _ _ _) \<longleftrightarrow> False"
| "no_exec _ \<longleftrightarrow> True"

definition guarded_calls :: "(os_event list \<Rightarrow> string \<Rightarrow> string list \<Rightarrow> bool) \<Rightarrow> os_event list \<Rightarrow> bool" where
  "guarded_calls G es \<longleftrightarrow> (\<forall>xs c args e out ys. es = xs @ Exec c args e out # ys \<longrightarrow> G xs c args)"

definition executes :: "(os_event list \<Rightarrow> string \<Rightarrow> string list \<Rightarrow> bool) \<Rightarrow> 'a sys \<Rightarrow> bool" where
  "executes G m \<longleftrightarrow> does m (\<lambda>es r. guarded_calls G es)"

lemma guarded_calls_append:
  assumes "list_all no_exec es" "guarded_calls (\<lambda>xs. G (es @ xs)) es'"
  shows "guarded_calls G (es @ es')"
  unfolding guarded_calls_def
proof (intro allI impI)
  fix xs c args e out ys assume s: "es @ es' = xs @ Exec c args e out # ys"
  have "\<not> length xs < length es"
  proof
    assume "length xs < length es"
    then have "(es @ es') ! length xs = es ! length xs" by (simp add: nth_append)
    then have "es ! length xs = Exec c args e out" using s by simp
    then show False using assms(1) \<open>length xs < length es\<close> by (auto simp: list_all_length)
  qed
  then have "es @ drop (length es) xs = xs" "es' = drop (length es) xs @ Exec c args e out # ys"
    using s by (auto simp: append_eq_append_conv_if split: if_splits dest: sym) (metis append_take_drop_id)+
  then show "G xs c args" using assms(2) unfolding guarded_calls_def by metis
qed

lemma no_exec_guarded: "list_all no_exec es \<Longrightarrow> guarded_calls G es"
  by (auto simp: guarded_calls_def)

lemma executes_none: "only no_exec m \<Longrightarrow> executes G m"
  unfolding only_def executes_def by (erule does_weaken) (rule no_exec_guarded)

lemma executes_weaken: "executes G m \<Longrightarrow> (\<And>xs c args. G xs c args \<Longrightarrow> H xs c args) \<Longrightarrow> executes H m"
  unfolding executes_def guarded_calls_def by (erule does_weaken) blast

lemma executes_bind:
  assumes "does m P" "\<And>es x. P es x \<Longrightarrow> list_all no_exec es \<and> executes (\<lambda>xs. G (es @ xs)) (f x)"
  shows "executes G (m \<bind> f)"
  unfolding executes_def
  by (rule does_bind [OF assms(1)]) (use assms(2) in \<open>auto simp: executes_def intro: does_weaken guarded_calls_append\<close>)

lemma executes_checked:
  assumes "does m P" "\<And>es r. P es r \<Longrightarrow> list_all no_exec es" "\<And>es x. P es (Inr x) \<Longrightarrow> executes (\<lambda>xs. G (es @ xs)) (k x)"
  shows "executes G (checked h m k)"
  unfolding executes_def
proof (rule does_checked [OF assms(1)])
  show "guarded_calls G es" if "P es (Inl e)" for es e using assms(2) [OF that] by (rule no_exec_guarded)
  show "does (k x) (\<lambda>es' r. guarded_calls G (es @ es'))" if "P es (Inr x)" for es x
    using assms(3) [OF that, unfolded executes_def] by (rule does_weaken) (rule guarded_calls_append [OF assms(2) [OF that]])
qed

lemma guarded_calls_then: "guarded_calls G es \<Longrightarrow> list_all no_exec es' \<Longrightarrow> guarded_calls G (es @ es')"
  unfolding guarded_calls_def
proof (intro allI impI)
  fix xs c args e out ys
  assume g: "\<forall>xs c args e out ys. es = xs @ Exec c args e out # ys \<longrightarrow> G xs c args"
    and n: "list_all no_exec es'" and s: "es @ es' = xs @ Exec c args e out # ys"
  have "Exec c args e out \<notin> set es'" using n by (auto simp: list_all_iff)
  then have "\<exists>zs. es = xs @ Exec c args e out # zs" using s by (auto simp: append_eq_append_conv2 append_eq_Cons_conv Cons_eq_append_conv)
  then show "G xs c args" using g by blast
qed

lemma executes_deferred: "executes G m \<Longrightarrow> only no_exec cleanup \<Longrightarrow> executes G (deferred m cleanup)"
  unfolding executes_def only_def by (erule does_deferred, erule does_weaken) (rule guarded_calls_then)

lemma executes_only: "only (\<lambda>e. case e of Exec c args _ _ \<Rightarrow> F c args | _ \<Rightarrow> True) m \<Longrightarrow> executes (\<lambda>_. F) m"
  unfolding executes_def only_def guarded_calls_def by (erule does_weaken) (auto simp: list_all_iff)

section \<open>The parts of the service\<close>

lemma state_no_exec: "state_event p e \<Longrightarrow> no_exec e" by (cases e) auto

lemma state_programs_no_exec:
  "only no_exec (readPublishState K cfg target)" "only no_exec (removePublishState K cfg target)"
  using state_only(9,10) state_no_exec by (blast intro: only_mono)+

lemma write_no_exec: "only no_exec (writePublishState K cfg target f)"
proof (cases "publishStatePath cfg target")
  case (Inr path)
  then show ?thesis using write_only state_no_exec by (blast intro: only_mono)
next
  case (Inl e)
  show ?thesis unfolding writePublishState_def Inl checked_return
    by (intro does_rules state_only [THEN only_mono] state_no_exec)
qed

lemma symlink_loop_no_exec: "only no_exec (symlink_loop K current cs)"
  by (induction K current cs rule: symlink_loop.induct) (auto intro!: does_rules)

lemmas node_defs =
  rejectExistingSymlinkComponents_def validateTargetPath_def remove_file_def close_file_def fill_credentials_def writeSMBCredentials_def
  Lookup_def with_target_lock_def publish_again_def forget_target_def

lemma node_no_exec:
  "only no_exec (validateTargetPath K root target)" "only no_exec (remove_file K p)" "only no_exec (fill_credentials K n content)"
  "only no_exec (writeSMBCredentials K dir secrets)" "only no_exec (Lookup K target)" "only no_exec (publish_again K cfg req h r f)"
  unfolding node_defs Let_def
  by (intro does_rules symlink_loop_no_exec state_programs_no_exec no_exec.simps [THEN iffD2] TrueI | simp)+


section \<open>Mounting\<close>

text \<open>What the mount table was last seen to say about the target.\<close>

definition table_said :: "string \<Rightarrow> mountRecord option \<Rightarrow> os_event list \<Rightarrow> bool" where
  "table_said target found es \<longleftrightarrow> (\<exists>raw. ReadAll ''/proc/self/mountinfo'' (Inr raw) \<in> set es \<and> parseMountInfo raw target = Inr found)"

text \<open>A file of mode 0600 in the state directory that holds the credentials.\<close>

definition credentials_written :: "Config \<Rightarrow> NodePublishRequest \<Rightarrow> string \<Rightarrow> os_event list \<Rightarrow> bool" where
  "credentials_written cfg req name es \<longleftrightarrow>
     subseq [CreateTemp (cc_StateDir cfg) ''smb-credentials-*'' (Inr name), Did (SysFchmod name 384) None,
       Did (SysWrite name (smb_credentials_text (np_Secrets req))) None, Did (SysClose name) None] es"

definition extra_options :: "Config \<Rightarrow> NodePublishRequest \<Rightarrow> volumeHandle \<Rightarrow> os_event list \<Rightarrow> string list \<Rightarrow> bool" where
  "extra_options cfg req h es extra \<longleftrightarrow>
     (if vh_Protocol h = protocolSMB then \<exists>name. extra = [''credentials='' @ name] \<and> credentials_written cfg req name es else extra = [])"

text \<open>The one command a publish may run, and when: the mount of the handle's source at the target with the options of the plan, when the table
  showed nothing there and the fingerprint of the request is on the disk.\<close>

definition mount_allowed :: "Config \<Rightarrow> NodePublishRequest \<Rightarrow> os_event list \<Rightarrow> string \<Rightarrow> string list \<Rightarrow> bool" where
  "mount_allowed cfg req es c args \<longleftrightarrow>
     (\<exists>h fsType base f extra options.
        publish_plan cfg req = Inr (h, fsType, base, f) \<and>
        c = ''mount'' \<and> args = mount_args (mountSource h) (np_TargetPath req) fsType options \<and>
        mergeMountOptions (base @ extra) (mount_flags (np_Capability req)) (np_Readonly req) = Inr options \<and>
        extra_options cfg req h es extra \<and> persisted cfg (np_TargetPath req) f es \<and> table_said (np_TargetPath req) None es)"

lemma facts_later:
  "persisted cfg t f ys \<Longrightarrow> persisted cfg t f (xs @ ys)" "persisted cfg t f ys \<Longrightarrow> persisted cfg t f (ys @ zs)"
  "table_said t r ys \<Longrightarrow> table_said t r (xs @ ys)" "table_said t r ys \<Longrightarrow> table_said t r (ys @ zs)"
  "extra_options cfg req h ys extra \<Longrightarrow> extra_options cfg req h (xs @ ys) extra"
  "extra_options cfg req h ys extra \<Longrightarrow> extra_options cfg req h (ys @ zs) extra"
  unfolding persisted_def table_said_def extra_options_def credentials_written_def
  by (auto 0 4 intro: list_emb_append2 subseq_order.trans [OF _ list_emb_prefix])

lemma Mount_executes: "executes (\<lambda>_ c args. c = ''mount'' \<and> args = mount_args source target fsType options) (Mount K source target fsType options)"
  unfolding Mount_def by (rule executes_only) (auto intro!: does_rules)

lemma publish_mount_executes:
  assumes "publish_plan cfg req = Inr (h, fsType, base, f)"
    "\<And>xs. extra_options cfg req h (pre @ xs) extra" "table_said (np_TargetPath req) None pre"
  shows "executes (\<lambda>xs. mount_allowed cfg req (pre @ xs)) (publish_mount K cfg req h fsType (base @ extra) f)"
proof (cases "mergeMountOptions (base @ extra) (mount_flags (np_Capability req)) (np_Readonly req)")
  case (Inl e)
  then show ?thesis by (simp add: publish_mount_def) (intro executes_none does_rules)
next
  case o: (Inr options)
  have w: "does (writePublishState K cfg (np_TargetPath req) f) (\<lambda>es r. list_all no_exec es \<and> (r = Inr () \<longrightarrow> persisted cfg (np_TargetPath req) f es))"
    using does_conj [OF write_no_exec [unfolded only_def] write_persists] .
  show ?thesis
    unfolding publish_mount_def o checked_return
  proof (rule executes_checked [OF w])
    fix es1 u assume p: "list_all no_exec es1 \<and> (Inr u = (Inr () :: unit nres) \<longrightarrow> persisted cfg (np_TargetPath req) f es1)"
    have allowed: "mount_allowed cfg req (pre @ es1 @ xs) ''mount'' (mount_args (mountSource h) (np_TargetPath req) fsType options)" for xs
      unfolding mount_allowed_def using assms o p facts_later by (intro exI conjI) (assumption | rule refl | simp)+
    have m: "executes (\<lambda>xs. mount_allowed cfg req (pre @ es1 @ xs)) (Mount K (mountSource h) (np_TargetPath req) fsType options)"
      using Mount_executes by (rule executes_weaken) (simp add: allowed)
    show "executes (\<lambda>xs. mount_allowed cfg req (pre @ es1 @ xs)) (do {
       _ \<leftarrow> set_targets (remember (path_Clean (np_TargetPath req)) f);
       checked (node_status Internal) (Mount K (mountSource h) (np_TargetPath req) fsType options) (\<lambda>_. done_ok ()) })"
    proof (rule executes_bind [OF does_targets(2) [of "\<lambda>es _. es = []"]])
      fix es2 :: "os_event list" and v :: unit assume "es2 = []"
      then show "list_all no_exec es2 \<and> executes (\<lambda>xs. mount_allowed cfg req (pre @ es1 @ es2 @ xs))
          (checked (node_status Internal) (Mount K (mountSource h) (np_TargetPath req) fsType options) (\<lambda>_. done_ok ()))"
        unfolding executes_def
        by (simp, intro does_checked [OF m [unfolded executes_def]] does_return) simp_all
    qed simp
  qed simp_all
qed


section \<open>Targets\<close>

text \<open>The target lies strictly below the root, and no component between them was seen to be a symbolic link.\<close>

definition component_paths :: "string \<Rightarrow> string list \<Rightarrow> nat \<Rightarrow> string" where
  "component_paths root rel k = foldl (\<lambda>current c. path_Join [current, c]) root (take (Suc k) rel)"

definition not_a_link :: "string \<Rightarrow> os_event list \<Rightarrow> bool" where
  "not_a_link p es \<longleftrightarrow> (\<exists>y. Lstat p y \<in> set es \<and> (case y of Inl e \<Rightarrow> oe_NotExist e | Inr i \<Rightarrow> \<not> fi_Symlink i))"

definition target_ok :: "string \<Rightarrow> string \<Rightarrow> os_event list \<Rightarrow> bool" where
  "target_ok root target es \<longleftrightarrow>
     (\<exists>rel. rel \<noteq> [] \<and> list_all plain_seg rel \<and> path_segs (path_Clean target) = path_segs (path_Clean root) @ rel \<and>
        (\<forall>k<length rel. not_a_link (component_paths (path_Clean root) rel k) es))"

lemma target_later: "target_ok root target ys \<Longrightarrow> target_ok root target (ys @ zs)"
  unfolding target_ok_def not_a_link_def by fastforce

lemma strip_common: "strip_common xs ys = (up, down) \<Longrightarrow> \<exists>c. xs = c @ up \<and> ys = c @ down"
proof (induction xs ys rule: strip_common.induct)
  case (1 x xs y ys)
  then show ?case by (cases "x = y") (auto intro: exI [of _ "[]"] exI [of _ "x # c" for c])
qed auto

lemma path_segs_clean: "HasPrefix p ''/'' \<Longrightarrow> list_all plain_seg (path_segs (path_Clean p))"
proof -
  assume "HasPrefix p ''/''"
  then obtain ss where ss: "list_all plain_seg ss" "path_Clean p = ''/'' @ Join ss ''/''" using path_Clean_rooted by blast
  have "path_segs (path_Clean p) = ss"
  proof (cases "ss = []")
    case True then show ?thesis by (simp add: ss(2) path_segs_def Split_def)
  next
    case False
    have "Split (Join ss ''/'') (CHR ''/'') = ss" by (rule Split_Join [OF False plain_no_slash [OF ss(1)]])
    moreover have "filter (\<lambda>x. x \<noteq> []) ss = ss" using ss(1) by (auto simp: list_all_iff plain_seg_def filter_id_conv)
    ultimately show ?thesis by (simp add: ss(2) path_segs_def Split_slash)
  qed
  then show ?thesis using ss(1) by simp
qed

lemma up_outside: "up \<noteq> [] \<Longrightarrow> Join (map (\<lambda>_. ''..'') up @ down) ''/'' = ''..'' \<or> HasPrefix (Join (map (\<lambda>_. ''..'') up @ down) ''/'') ''../''"
proof -
  assume "up \<noteq> []"
  then obtain u us where "up = u # us" by (cases up) auto
  then show ?thesis by (cases "map (\<lambda>_. ''..'') us @ down") (auto simp: HasPrefix_def)
qed

text \<open>A relative path that stays inside is the segments of the target below the root.\<close>

lemma Rel_inside:
  assumes "rel = filepath_Rel base targ" "rel \<noteq> ''.''" "rel \<noteq> ''..''" "\<not> HasPrefix rel ''../''" "list_all plain_seg (path_segs targ)"
  shows "\<exists>down. down \<noteq> [] \<and> list_all plain_seg down \<and> path_segs targ = path_segs base @ down \<and> Split rel (CHR ''/'') = down"
proof -
  obtain up down where s: "strip_common (path_segs base) (path_segs targ) = (up, down)" by (cases "strip_common (path_segs base) (path_segs targ)")
  have rel: "rel = (if up = [] \<and> down = [] then ''.'' else Join (map (\<lambda>_. ''..'') up @ down) ''/'')" by (simp add: assms(1) filepath_Rel_def s)
  have up: "up = []"
  proof (rule ccontr)
    assume "up \<noteq> []"
    then show False using up_outside [of up down] assms(3,4) by (simp add: rel)
  qed
  have down: "down \<noteq> []" using assms(2) rel up by auto
  have seg: "path_segs targ = path_segs base @ down" using strip_common [OF s] up by auto
  then have plain: "list_all plain_seg down" using assms(5) by simp
  have "Split (Join down ''/'') (CHR ''/'') = down" by (rule Split_Join [OF down plain_no_slash [OF plain]])
  then show ?thesis using down plain seg by (auto simp: rel up)
qed

lemma symlink_loop_checks:
  "does (symlink_loop K current cs) (\<lambda>es r. r = Inr () \<longrightarrow> (\<forall>k<length cs. not_a_link (component_paths current cs k) es))"
proof (induction cs arbitrary: current)
  case Nil
  then show ?case by (simp add: does_return)
next
  case (Cons c cs)
  let ?p = "path_Join [current, c]"
  have step: "component_paths current (c # cs) k = (case k of 0 \<Rightarrow> ?p | Suc k \<Rightarrow> component_paths ?p cs k)" for k
    by (cases k) (simp_all add: component_paths_def)
  have later: "not_a_link q es' \<Longrightarrow> not_a_link q (e # es')" for q e es' by (auto simp: not_a_link_def)
  have tail: "does (symlink_loop K ?p cs) (\<lambda>es' r. r = Inr () \<longrightarrow> (\<forall>k<length (c # cs). not_a_link (component_paths current (c # cs) k) (Lstat ?p y # es')))"
    if "case y of Inl e \<Rightarrow> oe_NotExist e | Inr i \<Rightarrow> \<not> fi_Symlink i" for y
  proof (rule does_weaken [OF Cons.IH], intro impI allI)
    fix es r k assume r: "r = Inr () \<longrightarrow> (\<forall>k<length cs. not_a_link (component_paths ?p cs k) es)" "r = Inr ()" "k < length (c # cs)"
    have "not_a_link ?p (Lstat ?p y # es)" using that by (auto simp: not_a_link_def)
    then show "not_a_link (component_paths current (c # cs) k) (Lstat ?p y # es)" using r later by (cases k) (simp_all add: step)
  qed
  show ?case
    unfolding symlink_loop.simps
  proof (rule does_bind [OF does_calls(2) [of "\<lambda>es y. es = [Lstat ?p y]"]])
    fix es y assume "es = [Lstat ?p y]"
    then show "does (case y of Inl e \<Rightarrow> if oe_NotExist e then symlink_loop K ?p cs else give (wrapped ''inspect target path: '' (Raw e))
        | Inr i \<Rightarrow> if fi_Symlink i then give (msg (''target path contains symlink component '' @ fmt_q ?p)) else symlink_loop K ?p cs)
      (\<lambda>es' r. r = Inr () \<longrightarrow> (\<forall>k<length (c # cs). not_a_link (component_paths current (c # cs) k) (es @ es')))"
      using tail [of y] by (cases y) (auto intro!: does_return simp del: length_Cons)
  qed simp
qed

lemma validateTargetPath_ok: "does (validateTargetPath K root target) (\<lambda>es r. r = Inr () \<longrightarrow> target_ok root target es)"
proof -
  have main: "does (rejectExistingSymlinkComponents K (path_Clean root) (filepath_Rel (path_Clean root) (path_Clean target)))
      (\<lambda>es r. r = Inr () \<longrightarrow> target_ok root target es)"
    if rel: "filepath_Rel (path_Clean root) (path_Clean target) \<noteq> ''.''" "filepath_Rel (path_Clean root) (path_Clean target) \<noteq> ''..''"
      "\<not> HasPrefix (filepath_Rel (path_Clean root) (path_Clean target)) ''../''" "HasPrefix target ''/''"
  proof -
    obtain down where d: "down \<noteq> []" "list_all plain_seg down" "path_segs (path_Clean target) = path_segs (path_Clean root) @ down"
        "Split (filepath_Rel (path_Clean root) (path_Clean target)) (CHR ''/'') = down"
      using Rel_inside [OF refl rel(1-3) path_segs_clean [OF rel(4)]] by blast
    show ?thesis
      unfolding rejectExistingSymlinkComponents_def d(4)
      by (rule does_weaken [OF symlink_loop_checks]) (use d(1-3) in \<open>auto simp: target_ok_def\<close>)
  qed
  show ?thesis unfolding validateTargetPath_def Let_def by (auto intro!: does_return main)
qed

section \<open>Publishing\<close>

lemma leaves_case:
  assumes "leaves xs k" "\<And>e. does (bad e) (\<lambda>es r. isl r)"
  shows "leaves (Did c None # xs) (do { r \<leftarrow> os_do K c; case r of Some e \<Rightarrow> bad e | None \<Rightarrow> k })"
  unfolding leaves_def
proof (rule does_bind [OF does_calls(1) [of "\<lambda>es r. es = [Did c r]"]])
  fix es r assume "es = [Did c r]"
  then show "does (case r of Some e \<Rightarrow> bad e | None \<Rightarrow> k) (\<lambda>es' r. isl r \<or> subseq (Did c None # xs) (es @ es'))"
    using does_weaken [OF assms(1) [unfolded leaves_def]] does_weaken [OF assms(2)] by (cases r) auto
qed simp

text \<open>What is known of the result alone.\<close>

definition gives_back :: "('a \<Rightarrow> bool) \<Rightarrow> 'a sys \<Rightarrow> bool" where
  "gives_back R m \<longleftrightarrow> does m (\<lambda>_ r. R r)"

lemma gives_back_bind: "only (\<lambda>_. True) m \<Longrightarrow> (\<And>x. gives_back R (f x)) \<Longrightarrow> gives_back R (m \<bind> f)"
  unfolding gives_back_def by (rule does_bind [OF does_any])

lemma gives_back_return: "R x \<Longrightarrow> gives_back R (State_Monad.return x)"
  unfolding gives_back_def by (rule does_return)

lemma gives_back_option: "(r = None \<Longrightarrow> gives_back R f) \<Longrightarrow> (\<And>x. r = Some x \<Longrightarrow> gives_back R (g x)) \<Longrightarrow> gives_back R (case r of None \<Rightarrow> f | Some x \<Rightarrow> g x)"
  by (simp split: option.split)

lemma fill_credentials_leaves:
  "leaves [Did (SysFchmod name 384) None, Did (SysWrite name content) None, Did (SysClose name) None] (fill_credentials K name content)"
  unfolding fill_credentials_def close_file_def remove_file_def
  by (intro leaves_case leaves_return) (fold gives_back_def, (intro gives_back_bind gives_back_return does_rules TrueI; simp)+)

lemma fill_credentials_name: "gives_back (\<lambda>r. \<forall>n. r = Inr n \<longrightarrow> n = name) (fill_credentials K name content)"
  unfolding fill_credentials_def close_file_def remove_file_def
  by (intro gives_back_bind gives_back_option gives_back_return does_rules TrueI) simp_all

lemma credentials_later: "credentials_written cfg req n ys \<Longrightarrow> credentials_written cfg req n (xs @ ys)"
  unfolding credentials_written_def by (rule list_emb_append2)

lemma does_if: "(b \<Longrightarrow> does m Q) \<Longrightarrow> (\<not> b \<Longrightarrow> does n Q) \<Longrightarrow> does (if b then m else n) Q"
  by simp

lemma credentials_file:
  "does (writeSMBCredentials K (cc_StateDir cfg) (np_Secrets req)) (\<lambda>es r. \<forall>n. r = Inr n \<longrightarrow> credentials_written cfg req n es)"
  (is "does ?m ?Q")
proof -
  have core: "does (checked (\<lambda>e. wrapped ''create SMB credentials file: '' (Raw e)) (os_CreateTemp K (cc_StateDir cfg) ''smb-credentials-*'')
      (\<lambda>name. fill_credentials K name (smb_credentials_text (np_Secrets req)))) ?Q"
  proof (rule does_checked [OF does_calls(3) [of "\<lambda>es z. es = [CreateTemp (cc_StateDir cfg) ''smb-credentials-*'' z]"]])
    fix es name assume e: "es = [CreateTemp (cc_StateDir cfg) ''smb-credentials-*'' (Inr name)]"
    show "does (fill_credentials K name (smb_credentials_text (np_Secrets req))) (\<lambda>es'. ?Q (es @ es'))"
    proof (rule does_weaken [OF does_conj [OF fill_credentials_name [unfolded gives_back_def] fill_credentials_leaves [unfolded leaves_def]]], intro allI impI)
      fix es' n and r :: "string nres"
      assume r: "(\<forall>n. r = Inr n \<longrightarrow> n = name) \<and> (isl r \<or> subseq [Did (SysFchmod name 384) None,
          Did (SysWrite name (smb_credentials_text (np_Secrets req))) None, Did (SysClose name) None] es')" "r = Inr n"
      then have "n = name" and "subseq [Did (SysFchmod name 384) None,
          Did (SysWrite name (smb_credentials_text (np_Secrets req))) None, Did (SysClose name) None] es'" by simp_all
      then show "credentials_written cfg req n (es @ es')" unfolding credentials_written_def e append_Cons append_Nil by (simp only: subseq_Cons2_iff simp_thms if_True)
    qed
  qed simp_all
  have call: "does (check_do h (os_do K c) k) ?Q" if "does k ?Q" for k :: "string nres sys" and h c
  proof (rule does_check_do [OF does_calls(1) [of "\<lambda>_ _. True"]])
    show "does k (\<lambda>es'. ?Q (es @ es'))" for es using that by (rule does_weaken) (blast intro: credentials_later)
  qed simp_all
  show ?thesis
  proof (cases "smb_secret_error (np_Secrets req)")
    case None
    show ?thesis
      unfolding writeSMBCredentials_def None option.case
      by (rule call, rule does_checked_later [where P = "\<lambda>_. True"], rule only_calls, rule TrueI, rule does_if, rule does_return, simp,
          rule call, rule core, rule credentials_later)
  next
    case (Some e)
    show ?thesis unfolding writeSMBCredentials_def Some option.case by (rule does_return) simp
  qed
qed

lemma publish_new_executes:
  assumes "publish_plan cfg req = Inr (h, fsType, base, f)" "table_said (np_TargetPath req) None pre"
  shows "executes (\<lambda>xs. mount_allowed cfg req (pre @ xs)) (publish_new K cfg req h fsType base f)"
  unfolding publish_new_def
proof (rule executes_bind [OF does_targets(2) [of "\<lambda>es _. es = []"]])
  fix es1 :: "os_event list" and u :: unit assume e1: "es1 = []"
  have "executes (\<lambda>xs. mount_allowed cfg req (pre @ xs)) (checked (node_status InvalidArgument) (writeSMBCredentials K (cc_StateDir cfg) (np_Secrets req))
      (\<lambda>name. deferred (publish_mount K cfg req h fsType (base @ [''credentials='' @ name]) f) (remove_file K name)))"
    if smb: "vh_Protocol h = protocolSMB"
  proof (rule executes_checked [OF does_conj [OF node_no_exec(4) [unfolded only_def] credentials_file]])
    fix es2 name
    assume e2: "list_all no_exec es2 \<and> (\<forall>n. (Inr name :: string nres) = Inr n \<longrightarrow> credentials_written cfg req n es2)"
    have "executes (\<lambda>xs. mount_allowed cfg req ((pre @ es2) @ xs)) (publish_mount K cfg req h fsType (base @ [''credentials='' @ name]) f)"
    proof (rule publish_mount_executes [OF assms(1)])
      have "extra_options cfg req h es2 [''credentials='' @ name]" using e2 smb by (auto simp: extra_options_def)
      then show "extra_options cfg req h ((pre @ es2) @ xs) [''credentials='' @ name]" for xs using facts_later(5,6) by blast
      show "table_said (np_TargetPath req) None (pre @ es2)" using assms(2) by (rule facts_later(4))
    qed
    then show "executes (\<lambda>xs. mount_allowed cfg req (pre @ es2 @ xs))
        (deferred (publish_mount K cfg req h fsType (base @ [''credentials='' @ name]) f) (remove_file K name))"
      by (intro executes_deferred node_no_exec) simp
  qed simp
  moreover have "executes (\<lambda>xs. mount_allowed cfg req (pre @ xs)) (publish_mount K cfg req h fsType base f)" if "vh_Protocol h \<noteq> protocolSMB"
    using publish_mount_executes [OF assms(1) _ assms(2), of "[]"] that by (simp add: extra_options_def)
  ultimately show "list_all no_exec es1 \<and> executes (\<lambda>xs. mount_allowed cfg req (pre @ es1 @ xs))
      (if vh_Protocol h = protocolSMB then checked (node_status InvalidArgument) (writeSMBCredentials K (cc_StateDir cfg) (np_Secrets req))
         (\<lambda>name. deferred (publish_mount K cfg req h fsType (base @ [''credentials='' @ name]) f) (remove_file K name))
       else publish_mount K cfg req h fsType base f)"
    by (simp add: e1)
qed simp

lemma Lookup_says: "does (Lookup K target) (\<lambda>es r. \<forall>found. r = Inr found \<longrightarrow> table_said target found es)"
  unfolding Lookup_def
proof (rule does_checked [OF does_calls(4) [of "\<lambda>es v. es = [ReadAll ''/proc/self/mountinfo'' v]"]])
  fix es raw assume "es = [ReadAll ''/proc/self/mountinfo'' (Inr raw)]"
  then show "does (checked Plain (State_Monad.return (parseMountInfo raw target)) done_ok)
      (\<lambda>es' r. \<forall>found. r = Inr found \<longrightarrow> table_said target found (es @ es'))"
    by (cases "parseMountInfo raw target") (auto intro!: does_return simp: table_said_def)
qed simp_all

text \<open>A request passes the checks of its target, then runs under the lock of the target.\<close>

lemma target_request_executes:
  assumes "\<And>pre. list_all no_exec pre \<Longrightarrow> target_ok (cc_KubeletRoot cfg) target pre \<Longrightarrow> executes (\<lambda>xs. G (pre @ xs)) m"
  shows "executes G (target_request K cfg volumeId target m)"
proof -
  have "executes (\<lambda>xs. G (pre @ xs)) (with_target_lock target m)"
    if pre: "list_all no_exec pre" "target_ok (cc_KubeletRoot cfg) target pre" for pre
    unfolding with_target_lock_def
    by (rule executes_bind [OF does_targets(2) [of "\<lambda>es _. es = []"]]) (simp_all add: executes_deferred assms pre only_targets)
  then have "executes G (checked (node_status InvalidArgument) (validateTargetPath K (cc_KubeletRoot cfg) target) (\<lambda>_. with_target_lock target m))"
    by (intro executes_checked [OF does_conj [OF node_no_exec(1) [unfolded only_def] validateTargetPath_ok]]) simp_all
  then show ?thesis unfolding target_request_def by (simp add: executes_none only_return)
qed

text \<open>A command at a target is run only when the target was checked.\<close>

definition at_target :: "(os_event list \<Rightarrow> string \<Rightarrow> string list \<Rightarrow> bool) \<Rightarrow> Config \<Rightarrow> string \<Rightarrow> os_event list \<Rightarrow> string \<Rightarrow> string list \<Rightarrow> bool" where
  "at_target G cfg target es c args \<longleftrightarrow> G es c args \<and> target_ok (cc_KubeletRoot cfg) target es"

lemma executes_at_target:
  assumes "executes (\<lambda>xs. G (pre @ xs)) m" "target_ok (cc_KubeletRoot cfg) target pre"
  shows "executes (\<lambda>xs. at_target G cfg target (pre @ xs)) m"
  using assms(1) by (rule executes_weaken) (simp add: at_target_def target_later assms(2))

lemma publish_executes: "executes (at_target (mount_allowed cfg req) cfg (np_TargetPath req)) (NodePublishVolume K cfg req)"
  unfolding NodePublishVolume_def
proof (rule target_request_executes, rule executes_at_target)
  fix pre assume pre: "list_all no_exec pre"
  show "executes (\<lambda>xs. mount_allowed cfg req (pre @ xs)) (checked bad_arg (State_Monad.return (publish_plan cfg req)) (\<lambda>(h, fsType, base, fingerprint).
     checked (node_status Internal) (Lookup K (np_TargetPath req)) (\<lambda>found.
       case found of Some r \<Rightarrow> publish_again K cfg req h r fingerprint | None \<Rightarrow> publish_new K cfg req h fsType base fingerprint)))"
  proof (cases "publish_plan cfg req")
    case (Inl e) then show ?thesis by (simp add: executes_none only_return)
  next
    case (Inr p)
    obtain h fsType base f where p: "publish_plan cfg req = Inr (h, fsType, base, f)" using Inr by (cases p) simp
    show ?thesis
      unfolding p checked_return prod.case
    proof (rule executes_checked [OF does_conj [OF node_no_exec(5) [unfolded only_def] Lookup_says]])
      fix es found assume e: "list_all no_exec es \<and> (\<forall>x. (Inr found :: mountRecord option nres) = Inr x \<longrightarrow> table_said (np_TargetPath req) x es)"
      then show "executes (\<lambda>xs. mount_allowed cfg req (pre @ es @ xs))
          (case found of Some r \<Rightarrow> publish_again K cfg req h r f | None \<Rightarrow> publish_new K cfg req h fsType base f)"
        using publish_new_executes [OF p facts_later(3) [of "np_TargetPath req" None es pre]]
        by (cases found) (simp_all add: executes_none node_no_exec)
    qed simp
  qed
qed

section \<open>What a published volume means\<close>

definition mounted :: "os_event list \<Rightarrow> bool" where
  "mounted es \<longleftrightarrow> (\<exists>args out. Exec ''mount'' args None out \<in> set es)"

definition published_before :: "Config \<Rightarrow> NodePublishRequest \<Rightarrow> volumeHandle \<Rightarrow> string \<Rightarrow> os_event list \<Rightarrow> bool" where
  "published_before cfg req h f es \<longleftrightarrow>
     (\<exists>r. table_said (np_TargetPath req) (Some r) es \<and> validateExistingMount h r (np_Readonly req) (mount_flags (np_Capability req)) = Inr () \<and>
        state_was_read cfg (np_TargetPath req) f es)"

text \<open>Success is known from what was called before, whatever is called after.\<close>

definition succeeds_with :: "(os_event list \<Rightarrow> bool) \<Rightarrow> ('e + 'a) sys \<Rightarrow> bool" where
  "succeeds_with R m \<longleftrightarrow> does m (\<lambda>es r. isl r \<or> R es)"

lemma succeeds_return: "succeeds_with R (give e)" "R [] \<Longrightarrow> succeeds_with R (done_ok x)"
  unfolding succeeds_with_def by (rule does_return; simp)+

abbreviation runs :: "'a sys \<Rightarrow> bool" where "runs m \<equiv> only (\<lambda>_. True) m"

lemma succeeds_bind:
  assumes "runs m" "\<And>x. succeeds_with R (f x)" "\<And>es es'. R es' \<Longrightarrow> R (es @ es')"
  shows "succeeds_with R (m \<bind> f)"
  unfolding succeeds_with_def
proof (rule does_bind [OF does_any [OF assms(1)]])
  show "does (f x) (\<lambda>es' r. isl r \<or> R (es @ es'))" for es x
    using assms(2) [of x, unfolded succeeds_with_def] by (rule does_weaken) (use assms(3) in blast)
qed

lemma succeeds_checked:
  assumes "runs m" "\<And>x. succeeds_with R (k x)" "\<And>es es'. R es' \<Longrightarrow> R (es @ es')"
  shows "succeeds_with R (checked h m k)"
  unfolding checked_def using assms by (intro succeeds_bind) (auto split: sum.splits intro: succeeds_return)

lemma succeeds_check_do:
  assumes "runs m" "succeeds_with R k" "\<And>es es'. R es' \<Longrightarrow> R (es @ es')"
  shows "succeeds_with R (check_do h m k)"
  unfolding check_do_def using assms by (intro succeeds_bind) (auto split: option.splits intro: succeeds_return)

lemma succeeds_before:
  assumes "succeeds_with R m" "\<And>x. runs (k x)" "\<And>es es'. R es \<Longrightarrow> R (es @ es')"
  shows "succeeds_with R (checked h m k)"
  unfolding succeeds_with_def
proof (rule does_checked [OF assms(1) [unfolded succeeds_with_def]])
  show "does (k x) (\<lambda>es' r. isl r \<or> R (es @ es'))" if "isl (Inr x) \<or> R es" for es x
    using does_any [OF assms(2), of x] by (rule does_weaken) (use that assms(3) in simp)
qed simp

lemma succeeds_deferred:
  assumes "succeeds_with R m" "runs c" "\<And>es es'. R es \<Longrightarrow> R (es @ es')"
  shows "succeeds_with R (deferred m c)"
  unfolding succeeds_with_def
proof (rule does_deferred [OF assms(1) [unfolded succeeds_with_def]])
  show "does c (\<lambda>es' _. isl r \<or> R (es @ es'))" if "isl r \<or> R es" for es r
    using does_any [OF assms(2)] by (rule does_weaken) (use that assms(3) in blast)
qed

lemma succeeds_weaken: "succeeds_with R m \<Longrightarrow> (\<And>es. R es \<Longrightarrow> S es) \<Longrightarrow> succeeds_with S m"
  unfolding succeeds_with_def by (erule does_weaken) auto

lemma mounted_later: "mounted ys \<Longrightarrow> mounted (xs @ ys)" "mounted ys \<Longrightarrow> mounted (ys @ zs)"
  by (auto simp: mounted_def)

lemma if_both: "P m \<Longrightarrow> P n \<Longrightarrow> P (if b then m else n)"
  by simp

lemma Mount_mounts: "succeeds_with mounted (Mount K source target fsType options)"
proof -
  have exec: "succeeds_with mounted (do { (err, out) \<leftarrow> os_Exec K ''mount'' args; case err of Some e \<Rightarrow> give (bad e out) | None \<Rightarrow> done_ok () })" for args bad
    unfolding succeeds_with_def
    by (rule does_bind [OF does_calls(5) [of "\<lambda>es (e, out). es = [Exec ''mount'' args e out]"]])
      (auto split: option.splits intro!: does_return simp: mounted_def)
  have stat: "succeeds_with mounted (checked h (os_Lstat K target) (\<lambda>i. if not_real_dir i then give b else
      do { (err, out) \<leftarrow> os_Exec K ''mount'' args; case err of Some e \<Rightarrow> give (bad e out) | None \<Rightarrow> done_ok () }))" for h b args bad
    by (rule succeeds_checked, rule only_calls, rule TrueI, rule if_both, rule succeeds_return, rule exec, rule mounted_later, assumption)
  show ?thesis
    unfolding Mount_def by (rule succeeds_check_do, rule only_calls, rule TrueI, rule stat, rule mounted_later, assumption)
qed

lemma any_only: "only no_exec m \<Longrightarrow> runs m" by (erule only_mono) simp

lemma publish_new_mounts: "succeeds_with mounted (publish_new K cfg req h fsType base f)"
proof -
  have m: "succeeds_with mounted (publish_mount K cfg req h fsType b f)" for b
    unfolding publish_mount_def
    by (rule succeeds_checked, rule only_return, rule succeeds_checked, rule any_only, rule write_no_exec, rule succeeds_bind, rule only_targets,
        rule succeeds_before, rule Mount_mounts, rule only_return, (rule mounted_later, assumption)+)
  show ?thesis
    unfolding publish_new_def
    by (rule succeeds_bind, rule only_targets, rule if_both, rule succeeds_checked, rule any_only, rule node_no_exec, rule succeeds_deferred,
        rule m, rule any_only, rule node_no_exec, (rule mounted_later, assumption)+, rule m, rule mounted_later, assumption)
qed


lemma publish_again_done:
  "does (publish_again K cfg req h r f) (\<lambda>es res. isl res \<or>
     validateExistingMount h r (np_Readonly req) (mount_flags (np_Capability req)) = Inr () \<and> state_was_read cfg (np_TargetPath req) f es)"
proof (cases "validateExistingMount h r (np_Readonly req) (mount_flags (np_Capability req))")
  case (Inl err) then show ?thesis by (simp add: publish_again_def does_return)
next
  case v: (Inr u)
  let ?t = "path_Clean (np_TargetPath req)"
  have again: "does (if persisted \<noteq> f then give (EStatus AlreadyExists ''target is already mounted with different publish arguments'')
      else do {
        ts \<leftarrow> get_targets;
        if remembered ?t ts \<noteq> [] \<and> remembered ?t ts \<noteq> f
        then give (EStatus AlreadyExists ''target is already mounted with different publish arguments'')
        else do { _ \<leftarrow> set_targets (remember ?t f); done_ok () } }) (\<lambda>es' res. isl res \<or> state_was_read cfg (np_TargetPath req) f (es @ es'))"
    if "state_was_read cfg (np_TargetPath req) persisted es" for persisted es
  proof (cases "persisted = f")
    case True
    have s: "state_was_read cfg (np_TargetPath req) f (es @ es')" for es' using that True by (auto simp: state_was_read_def)
    have "runs (do {
        ts \<leftarrow> get_targets;
        if remembered ?t ts \<noteq> [] \<and> remembered ?t ts \<noteq> f
        then give (EStatus AlreadyExists ''target is already mounted with different publish arguments'')
        else do { _ \<leftarrow> set_targets (remember ?t f); done_ok () } })" by (intro does_rules)
    from does_weaken [OF does_any [OF this]] s True show ?thesis by simp
  qed (simp add: does_return)
  have "does (publish_again K cfg req h r f) (\<lambda>es res. isl res \<or> state_was_read cfg (np_TargetPath req) f es)"
    unfolding publish_again_def v sum.case
    by (rule does_checked [OF read_reads], simp, rule again, simp)
  then show ?thesis using v by simp
qed

definition publish_done :: "Config \<Rightarrow> NodePublishRequest \<Rightarrow> os_event list \<Rightarrow> bool" where
  "publish_done cfg req es \<longleftrightarrow>
     (\<exists>h fsType base f. publish_plan cfg req = Inr (h, fsType, base, f) \<and> (mounted es \<or> published_before cfg req h f es))"

lemma state_was_read_more: "state_was_read cfg t f ys \<Longrightarrow> state_was_read cfg t f (ys @ zs)"
  unfolding state_was_read_def by auto

lemma published_before_later:
  "published_before cfg req h f ys \<Longrightarrow> published_before cfg req h f (xs @ ys)"
  "published_before cfg req h f ys \<Longrightarrow> published_before cfg req h f (ys @ zs)"
  unfolding published_before_def using facts_later(3,4) state_was_read_later state_was_read_more by metis+

lemma publish_done_later: "publish_done cfg req ys \<Longrightarrow> publish_done cfg req (xs @ ys)" "publish_done cfg req ys \<Longrightarrow> publish_done cfg req (ys @ zs)"
  unfolding publish_done_def using published_before_later mounted_later by metis+

text \<open>A successful request at a target ran what it was for.\<close>

lemma target_request_succeeds:
  assumes "succeeds_with R m" "\<And>es es'. R es' \<Longrightarrow> R (es @ es')" "\<And>es es'. R es \<Longrightarrow> R (es @ es')"
  shows "succeeds_with R (target_request K cfg volumeId target m)"
  unfolding target_request_def with_target_lock_def
  by (rule if_both, rule succeeds_return, rule if_both, rule succeeds_return, rule if_both, rule succeeds_return, rule succeeds_checked, rule any_only, rule node_no_exec, rule succeeds_bind, rule only_targets,
      rule succeeds_deferred, rule assms(1), rule only_targets, (erule assms)+)

lemma publish_succeeds: "succeeds_with (publish_done cfg req) (NodePublishVolume K cfg req)"
  unfolding NodePublishVolume_def
proof (rule target_request_succeeds)
  show "succeeds_with (publish_done cfg req) (checked bad_arg (State_Monad.return (publish_plan cfg req)) (\<lambda>(h, fsType, base, fingerprint).
     checked (node_status Internal) (Lookup K (np_TargetPath req)) (\<lambda>found.
       case found of Some r \<Rightarrow> publish_again K cfg req h r fingerprint | None \<Rightarrow> publish_new K cfg req h fsType base fingerprint)))"
  proof (cases "publish_plan cfg req")
    case (Inl e) then show ?thesis by (simp add: succeeds_return)
  next
    case (Inr p)
    obtain h fsType base f where p: "publish_plan cfg req = Inr (h, fsType, base, f)" using Inr by (cases p) simp
    show ?thesis
      unfolding succeeds_with_def Inr checked_return
      unfolding Inr [symmetric]
    proof -
      have "does (checked (node_status Internal) (Lookup K (np_TargetPath req)) (\<lambda>found.
          case found of Some r \<Rightarrow> publish_again K cfg req h r f | None \<Rightarrow> publish_new K cfg req h fsType base f))
        (\<lambda>es r. isl r \<or> publish_done cfg req es)"
      proof (rule does_checked [OF Lookup_says])
        fix es found assume "\<forall>x. (Inr found :: mountRecord option nres) = Inr x \<longrightarrow> table_said (np_TargetPath req) x es"
        then have t: "table_said (np_TargetPath req) found es" by simp
        show "does (case found of Some r \<Rightarrow> publish_again K cfg req h r f | None \<Rightarrow> publish_new K cfg req h fsType base f)
            (\<lambda>es' r. isl r \<or> publish_done cfg req (es @ es'))"
        proof (cases found)
          case None
          have "does (publish_new K cfg req h fsType base f) (\<lambda>es' r. isl r \<or> publish_done cfg req (es @ es'))"
            by (rule does_weaken [OF publish_new_mounts [unfolded succeeds_with_def]]) (use mounted_later(1) p in \<open>auto simp: publish_done_def\<close>)
          then show ?thesis using None by simp
        next
          case (Some r)
          then have "table_said (np_TargetPath req) (Some r) (es @ es')" for es' using t facts_later(4) by blast
          then have "does (publish_again K cfg req h r f) (\<lambda>es' r. isl r \<or> publish_done cfg req (es @ es'))"
            by (intro does_weaken [OF publish_again_done]) (auto simp: publish_done_def p published_before_def intro: state_was_read_later)
          then show ?thesis using Some by simp
        qed
      qed simp
      then show "does ((\<lambda>(h, fsType, base, fingerprint).
     checked (node_status Internal) (Lookup K (np_TargetPath req)) (\<lambda>found.
       case found of Some r \<Rightarrow> publish_again K cfg req h r fingerprint | None \<Rightarrow> publish_new K cfg req h fsType base fingerprint)) p)
        (\<lambda>es r. isl r \<or> publish_done cfg req es)" using p Inr by simp
    qed
  qed
qed (rule publish_done_later, assumption)+

text \<open>C13: Publishing a volume runs at most the mount of the signed handle's source at a target strictly below the kubelet's root whose components
  are no symbolic links, with the options of the plan, after the table showed nothing mounted there and the fingerprint of the request was made
  durable; and when it succeeds, that mount was made or the target already carries this volume, published with the same arguments.\<close>

theorem NodePublishVolume_safe:
  assumes "run_state (NodePublishVolume K cfg req) s = (r, s')"
  shows "\<exists>es. ns_trace s' = ns_trace s @ es \<and> guarded_calls (at_target (mount_allowed cfg req) cfg (np_TargetPath req)) es \<and>
    (r = Inr () \<longrightarrow> publish_done cfg req es)"
proof -
  have "does (NodePublishVolume K cfg req) (\<lambda>es r. guarded_calls (at_target (mount_allowed cfg req) cfg (np_TargetPath req)) es \<and>
      (isl r \<or> publish_done cfg req es))"
    using does_conj [OF publish_executes [unfolded executes_def] publish_succeeds [unfolded succeeds_with_def]] .
  then obtain es where "ns_trace s' = ns_trace s @ es" "guarded_calls (at_target (mount_allowed cfg req) cfg (np_TargetPath req)) es"
      "isl r \<or> publish_done cfg req es"
    using assms by (rule doesD) blast
  then show ?thesis by (cases r) auto
qed

end
