(* ===== verification/Node_Cleanup.thy ===== *)
theory Node_Cleanup
  imports Node_Safety
begin

text \<open>
  What the node service takes back: the credentials file of a publish, the mount and the state of an unpublish; and what the fingerprint of a
  publish request tells two requests apart by.
\<close>

section \<open>No credentials are left\<close>

fun removes :: "string \<Rightarrow> os_event \<Rightarrow> bool" where
  "removes n (Did (SysRemove m) r) \<longleftrightarrow> m = n"
| "removes n e \<longleftrightarrow> False"

text \<open>The credentials files that were made and not removed after.\<close>

fun leftover :: "os_event list \<Rightarrow> string list" where
  "leftover [] = []"
| "leftover (CreateTemp d p (Inr n) # es) =
     (if p = ''smb-credentials-*'' \<and> \<not> list_ex (removes n) es then n # leftover es else leftover es)"
| "leftover (_ # es) = leftover es"

fun no_secret :: "os_event \<Rightarrow> bool" where
  "no_secret (CreateTemp d p r) \<longleftrightarrow> p \<noteq> ''smb-credentials-*''"
| "no_secret _ \<longleftrightarrow> True"

lemma leftover_append: "leftover (xs @ ys) = filter (\<lambda>n. \<not> list_ex (removes n) ys) (leftover xs) @ leftover ys"
  by (induction xs rule: leftover.induct) auto

lemma leftover_none: "list_all no_secret es \<Longrightarrow> leftover es = []"
  by (induction es rule: leftover.induct) auto

lemma state_no_secret: "state_event p e \<Longrightarrow> no_secret e" by (cases e) auto

lemma no_secret_only:
  "only no_secret (readPublishState K cfg target)" "only no_secret (removePublishState K cfg target)"
  using state_only(9,10) state_no_secret by (blast intro: only_mono)+

lemma write_no_secret: "only no_secret (writePublishState K cfg target f)"
proof (cases "publishStatePath cfg target")
  case (Inr path)
  then show ?thesis using write_only state_no_secret by (blast intro: only_mono)
next
  case (Inl e)
  show ?thesis unfolding writePublishState_def Inl checked_return
    by (intro does_rules state_only [THEN only_mono] state_no_secret)
qed

lemma symlink_loop_no_secret: "only no_secret (symlink_loop K current cs)"
  by (induction K current cs rule: symlink_loop.induct) (auto intro!: does_rules)

lemma node_no_secret:
  "only no_secret (validateTargetPath K root target)" "only no_secret (remove_file K p)" "only no_secret (fill_credentials K n content)"
  "only no_secret (Lookup K target)" "only no_secret (publish_again K cfg req h r f)" "only no_secret (Mount K source target fsType options)"
  "only no_secret (publish_mount K cfg req h fsType base f)"
  unfolding node_defs Let_def Mount_def publish_mount_def
  by (intro does_rules symlink_loop_no_secret no_secret_only write_no_secret no_secret.simps [THEN iffD2] TrueI | simp)+

definition tidy :: "'a sys \<Rightarrow> bool" where
  "tidy m \<longleftrightarrow> does m (\<lambda>es _. leftover es = [])"

lemma tidy_none: "only no_secret m \<Longrightarrow> tidy m"
  unfolding tidy_def only_def by (erule does_weaken) (rule leftover_none)

lemma tidy_bind: "tidy m \<Longrightarrow> (\<And>x. tidy (f x)) \<Longrightarrow> tidy (m \<bind> f)"
  unfolding tidy_def by (erule does_bind, rule does_weaken, blast) (simp add: leftover_append)

lemma tidy_checked: "tidy m \<Longrightarrow> (\<And>x. tidy (k x)) \<Longrightarrow> tidy (checked h m k)"
  unfolding checked_def by (erule tidy_bind) (simp add: tidy_none only_return split: sum.split)

lemma tidy_deferred: "tidy m \<Longrightarrow> tidy c \<Longrightarrow> tidy (deferred m c)"
  unfolding deferred_def by (erule tidy_bind, erule tidy_bind, rule tidy_none, rule only_return)

text \<open>A failure that removed the file before.\<close>

definition fails_clean :: "string \<Rightarrow> ('e + 'a) sys \<Rightarrow> bool" where
  "fails_clean n m \<longleftrightarrow> does m (\<lambda>es r. isl r \<longrightarrow> list_ex (removes n) es)"

lemma fails_clean_bind: "runs m \<Longrightarrow> (\<And>x. fails_clean n (f x)) \<Longrightarrow> fails_clean n (m \<bind> f)"
  unfolding fails_clean_def by (rule does_bind, erule does_any, rule does_weaken, blast) simp

lemma fails_clean_done: "fails_clean n (done_ok x)"
  unfolding fails_clean_def by (rule does_return) simp

lemma remove_file_removes: "does (remove_file K n) (\<lambda>es _. list_ex (removes n) es)"
  unfolding remove_file_def by (rule does_bind [OF does_calls(1) [of "\<lambda>es x. es = [Did (SysRemove n) x]"]], simp, rule does_return, simp)

lemma fails_clean_removed: "fails_clean n (do { _ \<leftarrow> remove_file K n; give e })"
  unfolding fails_clean_def by (rule does_bind [OF remove_file_removes], rule does_return) simp

lemma fails_clean_option:
  "(r = None \<Longrightarrow> fails_clean n f) \<Longrightarrow> (\<And>x. r = Some x \<Longrightarrow> fails_clean n (g x)) \<Longrightarrow> fails_clean n (case r of None \<Rightarrow> f | Some x \<Rightarrow> g x)"
  by (simp split: option.split)

lemma close_runs: "runs (close_file K n)"
  unfolding close_file_def by (intro does_rules TrueI)

lemma fill_credentials_fails: "fails_clean n (fill_credentials K n content)"
  unfolding fill_credentials_def
  by (rule fails_clean_bind, rule only_calls, rule TrueI, rule fails_clean_option, rule fails_clean_bind, rule only_calls, rule TrueI,
      rule fails_clean_option, rule fails_clean_bind, rule only_calls, rule TrueI, rule fails_clean_option, rule fails_clean_done,
      rule fails_clean_removed, (rule fails_clean_bind, rule close_runs, rule fails_clean_removed)+)

text \<open>After \<open>writeSMBCredentials\<close> at most the file it returns is left.\<close>

definition leaves_only :: "string nres sys \<Rightarrow> bool" where
  "leaves_only m \<longleftrightarrow> does m (\<lambda>es r. set (leftover es) \<subseteq> (case r of Inl _ \<Rightarrow> {} | Inr n \<Rightarrow> {n}))"

lemma leaves_only_skip:
  assumes "only no_secret m" "\<And>x. leaves_only (f x)"
  shows "leaves_only (m \<bind> f)"
  unfolding leaves_only_def
proof (rule does_bind [OF assms(1) [unfolded only_def]])
  show "does (f x) (\<lambda>es' r. set (leftover (es @ es')) \<subseteq> (case r of Inl _ \<Rightarrow> {} | Inr n \<Rightarrow> {n}))" if "list_all no_secret es" for es x
    using assms(2) [of x, unfolded leaves_only_def] by (rule does_weaken) (simp add: leftover_append leftover_none that)
qed

lemma leaves_only_give: "leaves_only (give e)"
  unfolding leaves_only_def by (rule does_return) simp

lemma write_leaves_only: "leaves_only (writeSMBCredentials K dir secrets)"
proof -
  have make: "leaves_only (checked h (os_CreateTemp K dir ''smb-credentials-*'') (\<lambda>name. fill_credentials K name content))" for h content
    unfolding leaves_only_def
  proof (rule does_checked [OF does_calls(3) [of "\<lambda>es z. es = [CreateTemp dir ''smb-credentials-*'' z]"]])
    fix es name assume e: "es = [CreateTemp dir ''smb-credentials-*'' (Inr name)]"
    show "does (fill_credentials K name content) (\<lambda>es' r. set (leftover (es @ es')) \<subseteq> (case r of Inl _ \<Rightarrow> {} | Inr n \<Rightarrow> {n}))"
    proof (rule does_weaken [OF does_conj [OF node_no_secret(3) [unfolded only_def]
            does_conj [OF fill_credentials_fails [unfolded fails_clean_def] fill_credentials_name [unfolded gives_back_def]]]])
      fix es' and r :: "string nres"
      assume a: "list_all no_secret es' \<and> (isl r \<longrightarrow> list_ex (removes name) es') \<and> (\<forall>n. r = Inr n \<longrightarrow> n = name)"
      then have "leftover es' = []" by (simp add: leftover_none)
      then show "set (leftover (es @ es')) \<subseteq> (case r of Inl _ \<Rightarrow> {} | Inr n \<Rightarrow> {n})" using a by (cases r) (auto simp: e)
    qed
  qed simp_all
  have call: "leaves_only (check_do h (os_do K c) k)" if "leaves_only k" for h c k
    unfolding check_do_def
  proof (rule leaves_only_skip)
    show "only no_secret (os_do K c)" by (rule only_calls) simp
    show "leaves_only (case r of None \<Rightarrow> k | Some e \<Rightarrow> give (h e))" for r using that by (cases r) (simp_all add: leaves_only_give)
  qed
  have stat: "leaves_only (checked h (os_Lstat K p) k)" if "\<And>i. leaves_only (k i)" for h p k
    unfolding checked_def
  proof (rule leaves_only_skip)
    show "only no_secret (os_Lstat K p)" by (rule only_calls) simp
    show "leaves_only (case r of Inl e \<Rightarrow> give (h e) | Inr x \<Rightarrow> k x)" for r using that by (cases r) (simp_all add: leaves_only_give)
  qed
  show ?thesis
  proof (cases "smb_secret_error secrets")
    case (Some err)
    show ?thesis unfolding writeSMBCredentials_def Some option.case by (rule leaves_only_give)
  next
    case None
    show ?thesis unfolding writeSMBCredentials_def None option.case
      by (rule call, rule stat, rule if_both, rule leaves_only_give, rule call, rule make)
  qed
qed

lemma publish_new_tidy: "tidy (publish_new K cfg req h fsType base f)"
proof -
  have smb: "tidy (checked (node_status InvalidArgument) (writeSMBCredentials K (cc_StateDir cfg) (np_Secrets req))
      (\<lambda>name. deferred (publish_mount K cfg req h fsType (base @ [''credentials='' @ name]) f) (remove_file K name)))"
    unfolding tidy_def
  proof (rule does_checked [OF write_leaves_only [unfolded leaves_only_def]])
    fix es name assume l: "set (leftover es) \<subseteq> (case Inr name :: string nres of Inl _ \<Rightarrow> {} | Inr n \<Rightarrow> {n})"
    show "does (deferred (publish_mount K cfg req h fsType (base @ [''credentials='' @ name]) f) (remove_file K name))
        (\<lambda>es' _. leftover (es @ es') = [])"
    proof (rule does_deferred [OF node_no_secret(7) [unfolded only_def]])
      fix es1 assume e1: "list_all no_secret es1"
      show "does (remove_file K name) (\<lambda>es' _. leftover (es @ es1 @ es') = [])"
      proof (rule does_weaken [OF does_conj [OF node_no_secret(2) [unfolded only_def] remove_file_removes]])
        fix es' and u :: unit assume a: "list_all no_secret es' \<and> list_ex (removes name) es'"
        have "filter (\<lambda>n. \<not> list_ex (removes n) (es1 @ es')) (leftover es) = []"
          using l a by (auto simp: filter_empty_conv)
        then show "leftover (es @ es1 @ es') = []"
          using a e1 leftover_append [of es "es1 @ es'"] leftover_append [of es1 es'] by (simp add: leftover_none)
      qed
    qed
  qed simp
  show ?thesis
    unfolding publish_new_def
    by (rule tidy_bind, rule tidy_none, rule only_targets, rule if_both, rule smb, rule tidy_none, rule node_no_secret)
qed

lemma target_request_tidy: "tidy m \<Longrightarrow> tidy (target_request K cfg volumeId target m)"
  unfolding target_request_def with_target_lock_def
  by (rule if_both, rule tidy_none, rule only_return, rule if_both, rule tidy_none, rule only_return, rule if_both, rule tidy_none, rule only_return,
      rule tidy_checked, rule tidy_none, rule node_no_secret, rule tidy_bind, rule tidy_none, rule only_targets, erule tidy_deferred,
      rule tidy_none, rule only_targets)



section \<open>Unpublishing\<close>

text \<open>The one command an unpublish may run: the unmount of the target, when the table showed a mount there that the handle does not contradict.\<close>

definition unmount_allowed :: "Config \<Rightarrow> string \<Rightarrow> string \<Rightarrow> os_event list \<Rightarrow> string \<Rightarrow> string list \<Rightarrow> bool" where
  "unmount_allowed cfg volumeId target es c args \<longleftrightarrow>
     c = ''umount'' \<and> args = [target] \<and>
     (\<exists>r. table_said target (Some r) es \<and> (\<forall>h. decodeVolumeHandle volumeId cfg = Inr h \<longrightarrow> validateMountedVolumeIdentity h r = Inr ()))"

text \<open>Nothing was mounted, or it was unmounted; and the state file or its directory was missing or removed.\<close>

definition unmounted :: "string \<Rightarrow> os_event list \<Rightarrow> bool" where
  "unmounted target es \<longleftrightarrow> table_said target None es \<or> (\<exists>out. Exec ''umount'' [target] None out \<in> set es)"

definition absent :: "string \<Rightarrow> os_event list \<Rightarrow> bool" where
  "absent p es \<longleftrightarrow> (\<exists>e. Lstat p (Inl e) \<in> set es \<and> oe_NotExist e) \<or> Did (SysRemove p) None \<in> set es \<or>
     (\<exists>e. Did (SysRemove p) (Some e) \<in> set es \<and> oe_NotExist e)"

definition forgotten :: "Config \<Rightarrow> string \<Rightarrow> os_event list \<Rightarrow> bool" where
  "forgotten cfg target es \<longleftrightarrow>
     (\<exists>dir path. publishStateDirectory cfg = Inr dir \<and> publishStatePath cfg target = Inr path \<and> (absent dir es \<or> absent path es))"

definition unpublish_done :: "Config \<Rightarrow> string \<Rightarrow> os_event list \<Rightarrow> bool" where
  "unpublish_done cfg target es \<longleftrightarrow> unmounted target es \<and> forgotten cfg target es"

lemma forgotten_later: "forgotten cfg t ys \<Longrightarrow> forgotten cfg t (xs @ ys)" "forgotten cfg t ys \<Longrightarrow> forgotten cfg t (ys @ zs)"
  by (fastforce simp: forgotten_def absent_def)+

lemma unmounted_later: "unmounted t ys \<Longrightarrow> unmounted t (xs @ ys)" "unmounted t ys \<Longrightarrow> unmounted t (ys @ zs)"
  using facts_later(3,4) by (fastforce simp: unmounted_def)+

lemma inspect_missing:
  "does (inspectPublishStateFile K path m) (\<lambda>es r. r = Inr None \<longrightarrow> absent path es)"
  unfolding inspectPublishStateFile_def
  by (rule does_bind [OF does_calls(2) [of "\<lambda>es y. es = [Lstat path y]"]], simp)
    (auto split: sum.split intro!: does_return simp: absent_def)

lemma succeeds_known:
  assumes "does m P" "\<And>es x. P es x \<Longrightarrow> R es \<or> succeeds_with R (f x)" "\<And>x. runs (f x)" "\<And>es es'. R es' \<Longrightarrow> R (es @ es')" "\<And>es es'. R es \<Longrightarrow> R (es @ es')"
  shows "succeeds_with R (m \<bind> f)"
  unfolding succeeds_with_def
proof (rule does_bind [OF assms(1)])
  fix es x assume "P es x"
  then consider "R es" | "does (f x) (\<lambda>es r. isl r \<or> R es)" using assms(2) unfolding succeeds_with_def by blast
  then show "does (f x) (\<lambda>es' r. isl r \<or> R (es @ es'))"
  proof cases
    case 1 then show ?thesis by (intro does_weaken [OF does_any [OF assms(3)]]) (simp add: assms(5))
  next
    case 2 then show ?thesis by (rule does_weaken) (use assms(4) in blast)
  qed
qed

lemma remove_runs:
  "runs (syncPublishStateDirectory K dir)" "runs (remove_file_state K dir path)" "runs (inspectPublishStateFile K path m)"
  "runs (remove_if_found K dir path)" "runs (check_state_dir K dir i)" "runs (validatePublishStateBase K dir)" "runs (removePublishState K cfg target)"
  unfolding state_defs by (intro does_rules TrueI)+

lemma remove_forgets: "succeeds_with (forgotten cfg target) (removePublishState K cfg target)"
proof (cases "publishStateDirectory cfg")
  case (Inl e)
  then show ?thesis by (simp add: removePublishState_def succeeds_return)
next
  case (Inr dir)
  then obtain path where path: "publishStatePath cfg target = Inr path" by (simp add: publishStatePath_def and_then_def)
  have gone: "absent dir es \<or> absent path es \<Longrightarrow> forgotten cfg target es" for es using Inr path by (simp add: forgotten_def)
  have 1: "succeeds_with (forgotten cfg target) (remove_file_state K dir path)"
    unfolding remove_file_state_def
  proof (rule succeeds_known [OF does_calls(1) [of "\<lambda>es x. es = [Did (SysRemove path) x]"]])
    fix es x assume "es = [Did (SysRemove path) x]"
    then show "forgotten cfg target es \<or> succeeds_with (forgotten cfg target)
        (case x of Some e \<Rightarrow> if \<not> oe_NotExist e then give (wrapped ''remove durable publish state: '' (Raw e)) else syncPublishStateDirectory K dir
         | None \<Rightarrow> syncPublishStateDirectory K dir)"
      using gone [of es] by (cases x) (auto simp: absent_def succeeds_return)
  qed (simp_all add: forgotten_later only_option only_if only_return remove_runs)
  have 2: "succeeds_with (forgotten cfg target) (remove_if_found K dir path)"
    unfolding remove_if_found_def checked_def
  proof (rule succeeds_known [OF inspect_missing])
    fix es and r :: "file_info option nres" assume "r = Inr None \<longrightarrow> absent path es"
    then show "forgotten cfg target es \<or> succeeds_with (forgotten cfg target)
        (case r of Inl e \<Rightarrow> give (wrapped ''inspect durable publish state before removal: '' e)
         | Inr found \<Rightarrow> if found = None then done_ok () else remove_file_state K dir path)"
      using gone [of es] 1 by (cases r) (auto simp: succeeds_return)
  qed (simp_all add: forgotten_later only_sum only_if only_return remove_runs)
  show ?thesis
    unfolding removePublishState_def Inr checked_return
  proof (rule succeeds_checked [OF remove_runs(6)], rule succeeds_known [OF does_calls(2) [of "\<lambda>es y. es = [Lstat dir y]"]])
    fix es y assume "es = [Lstat dir y]"
    then show "forgotten cfg target es \<or> succeeds_with (forgotten cfg target)
        (case y of Inl e \<Rightarrow> if oe_NotExist e then done_ok () else give (wrapped ''inspect durable publish state directory: '' (Raw e))
         | Inr i \<Rightarrow> checked id (check_state_dir K dir i) (\<lambda>_. checked Plain (State_Monad.return (publishStatePath cfg target)) (remove_if_found K dir)))"
      using gone [of es] succeeds_checked [OF remove_runs(5), of "forgotten cfg target" "\<lambda>_. remove_if_found K dir path", OF 2] forgotten_later(1)
      by (cases y) (auto simp: absent_def succeeds_return path)
  qed (simp_all add: forgotten_later only_sum only_if only_return only_checked remove_runs path)
qed


text \<open>\<open>os.IsNotExist\<close> never holds of an error of \<open>Lookup\<close>, which wraps every one.\<close>

lemma Lookup_error: "does (Lookup K target) (\<lambda>_ r. \<forall>e. r = Inl e \<longrightarrow> \<not> os_IsNotExist e)"
  unfolding Lookup_def
proof (rule does_checked [OF does_calls(4) [of "\<lambda>_ _. True"]])
  show "does (checked Plain (State_Monad.return (parseMountInfo raw target)) done_ok) (\<lambda>_ r. \<forall>e. r = Inl e \<longrightarrow> \<not> os_IsNotExist e)" for raw
    by (cases "parseMountInfo raw target") (simp_all add: does_return)
qed (simp_all add: wrapped_def)

lemma executes_before:
  assumes "executes G m" "\<And>x. only no_exec (k x)"
  shows "executes G (checked h m k)"
  unfolding executes_def
proof (rule does_checked [OF assms(1) [unfolded executes_def]])
  show "does (k x) (\<lambda>es' r. guarded_calls G (es @ es'))" if "guarded_calls G es" for es x
    using assms(2) [of x, unfolded only_def] by (rule does_weaken) (rule guarded_calls_then [OF that])
qed simp

lemma forget_no_exec: "only no_exec k \<Longrightarrow> only no_exec (forget_target K cfg target k)"
  unfolding forget_target_def by (intro does_rules state_programs_no_exec)

lemma remove_target_no_exec: "only no_exec (do { _ \<leftarrow> remove_file K target; done_ok () })"
  by (rule only_bind, rule node_no_exec, rule only_return)

lemma Unmount_executes: "executes (\<lambda>_ c args. c = ''umount'' \<and> args = [target]) (checked h (Unmount K target) done_ok)"
  unfolding Unmount_def by (rule executes_only) (auto intro!: does_rules)

lemma unmount_and_forget_executes:
  assumes "table_said target found pre"
  shows "executes (\<lambda>xs. unmount_allowed cfg volumeId target (pre @ xs)) (unmount_and_forget K cfg target (decodeVolumeHandle volumeId cfg) found)"
  unfolding unmount_and_forget_def
proof (rule executes_before)
  show "only no_exec (forget_target K cfg target (do { _ \<leftarrow> remove_file K target; done_ok () }))"
    by (rule forget_no_exec, rule remove_target_no_exec)
next
  show "executes (\<lambda>xs. unmount_allowed cfg volumeId target (pre @ xs)) (case found of None \<Rightarrow> done_ok ()
      | Some r \<Rightarrow> (case and_then (decodeVolumeHandle volumeId cfg) (\<lambda>h. Inr (validateMountedVolumeIdentity h r)) of
           Inr (Inl err) \<Rightarrow> give (EStatus FailedPrecondition (''target is mounted by a different volume: '' @ error_text err))
         | _ \<Rightarrow> checked (node_status Internal) (Unmount K target) done_ok))"
  proof (cases found)
    case None then show ?thesis by (simp add: executes_none only_return)
  next
    case (Some r)
    have said: "table_said target (Some r) (pre @ xs)" for xs using assms Some facts_later(4) by blast
    have ok: "executes (\<lambda>xs. unmount_allowed cfg volumeId target (pre @ xs)) (checked (node_status Internal) (Unmount K target) done_ok)"
      if "\<And>h. decodeVolumeHandle volumeId cfg = Inr h \<Longrightarrow> validateMountedVolumeIdentity h r = Inr ()"
      using Unmount_executes by (rule executes_weaken) (use that said in \<open>auto simp: unmount_allowed_def\<close>)
    show ?thesis
    proof (cases "decodeVolumeHandle volumeId cfg")
      case (Inl e) then show ?thesis using ok by (simp add: Some and_then_def)
    next
      case (Inr h)
      then show ?thesis using ok by (cases "validateMountedVolumeIdentity h r") (simp_all add: Some and_then_def executes_none only_return)
    qed
  qed
qed

lemma unpublish_executes: "executes (at_target (unmount_allowed cfg volumeId target) cfg target) (NodeUnpublishVolume K cfg volumeId target)"
  unfolding NodeUnpublishVolume_def
proof (rule target_request_executes, rule executes_at_target)
  fix pre
  show "executes (\<lambda>xs. unmount_allowed cfg volumeId target (pre @ xs)) (do {
       r \<leftarrow> Lookup K target;
       case r of Inl e \<Rightarrow> if os_IsNotExist e then forget_target K cfg target (done_ok ()) else give (node_status Internal e)
       | Inr found \<Rightarrow> unmount_and_forget K cfg target (decodeVolumeHandle volumeId cfg) found })"
  proof (rule executes_bind [OF does_conj [OF node_no_exec(5) [unfolded only_def] Lookup_says]])
    fix es and r :: "mountRecord option nres" assume a: "list_all no_exec es \<and> (\<forall>found. r = Inr found \<longrightarrow> table_said target found es)"
    have "executes (\<lambda>xs. unmount_allowed cfg volumeId target (pre @ es @ xs)) (case r of
        Inl e \<Rightarrow> if os_IsNotExist e then forget_target K cfg target (done_ok ()) else give (node_status Internal e)
      | Inr found \<Rightarrow> unmount_and_forget K cfg target (decodeVolumeHandle volumeId cfg) found)"
    proof (cases r)
      case (Inl e) then show ?thesis by (simp add: executes_none forget_no_exec only_return)
    next
      case (Inr found)
      then have "table_said target found (pre @ es)" using a facts_later(3) by blast
      from unmount_and_forget_executes [OF this] show ?thesis using Inr by simp
    qed
    then show "list_all no_exec es \<and> executes (\<lambda>xs. unmount_allowed cfg volumeId target (pre @ es @ xs)) (case r of
        Inl e \<Rightarrow> if os_IsNotExist e then forget_target K cfg target (done_ok ()) else give (node_status Internal e)
      | Inr found \<Rightarrow> unmount_and_forget K cfg target (decodeVolumeHandle volumeId cfg) found)" using a by simp
  qed
qed

section \<open>What an unpublished volume means\<close>

lemma forget_succeeds: "runs k \<Longrightarrow> succeeds_with (forgotten cfg target) (forget_target K cfg target k)"
  unfolding forget_target_def by (rule succeeds_before, rule remove_forgets, rule only_bind, rule only_targets, assumption, rule forgotten_later)

lemma Unmount_unmounts: "succeeds_with (unmounted target) (checked h (Unmount K target) done_ok)"
proof (rule succeeds_before)
  show "succeeds_with (unmounted target) (Unmount K target)"
    unfolding succeeds_with_def Unmount_def
    by (rule does_bind [OF does_calls(5) [of "\<lambda>es (e, out). es = [Exec ''umount'' [target] e out]"]])
      (auto split: option.splits intro!: does_return simp: unmounted_def)
qed (simp_all add: only_return unmounted_later)

lemma unmount_and_forget_succeeds:
  assumes "table_said target found pre"
  shows "does (unmount_and_forget K cfg target handle found) (\<lambda>es r. isl r \<or> unpublish_done cfg target (pre @ es))"
proof -
  have un: "does (case found of None \<Rightarrow> done_ok ()
      | Some r \<Rightarrow> (case and_then handle (\<lambda>h. Inr (validateMountedVolumeIdentity h r)) of
           Inr (Inl err) \<Rightarrow> give (EStatus FailedPrecondition (''target is mounted by a different volume: '' @ error_text err))
         | _ \<Rightarrow> checked (node_status Internal) (Unmount K target) done_ok)) (\<lambda>es r. isl r \<or> unmounted target (pre @ es))"
  proof (cases found)
    case None
    then have "unmounted target (pre @ [])" using assms by (simp add: unmounted_def)
    then show ?thesis using None by (simp add: does_return)
  next
    case (Some r)
    have "does (checked (node_status Internal) (Unmount K target) done_ok) (\<lambda>es r. isl r \<or> unmounted target (pre @ es))"
      by (rule does_weaken [OF Unmount_unmounts [unfolded succeeds_with_def]]) (use unmounted_later(1) in blast)
    then show ?thesis using Some by (auto split: sum.split intro: does_return)
  qed
  show ?thesis
    unfolding unmount_and_forget_def
  proof (rule does_checked [OF un])
    fix es u assume "isl (Inr u) \<or> unmounted target (pre @ es)"
    then have m: "unmounted target ((pre @ es) @ es')" for es' using unmounted_later(2) by fastforce
    have "runs (do { _ \<leftarrow> remove_file K target; done_ok () })" using remove_target_no_exec by (rule any_only)
    from forget_succeeds [OF this, unfolded succeeds_with_def]
    show "does (forget_target K cfg target (do { _ \<leftarrow> remove_file K target; done_ok () })) (\<lambda>es' r. isl r \<or> unpublish_done cfg target (pre @ es @ es'))"
      by (rule does_weaken) (use m forgotten_later(1) [of cfg target _ "pre @ es"] in \<open>auto simp: unpublish_done_def\<close>)
  qed simp
qed

lemma unpublish_done_later: "unpublish_done cfg t ys \<Longrightarrow> unpublish_done cfg t (xs @ ys)" "unpublish_done cfg t ys \<Longrightarrow> unpublish_done cfg t (ys @ zs)"
  by (simp_all add: unpublish_done_def unmounted_later forgotten_later)

lemma unpublish_succeeds: "succeeds_with (unpublish_done cfg target) (NodeUnpublishVolume K cfg volumeId target)"
  unfolding NodeUnpublishVolume_def
proof (rule target_request_succeeds)
  show "succeeds_with (unpublish_done cfg target) (do {
       r \<leftarrow> Lookup K target;
       case r of Inl e \<Rightarrow> if os_IsNotExist e then forget_target K cfg target (done_ok ()) else give (node_status Internal e)
       | Inr found \<Rightarrow> unmount_and_forget K cfg target (decodeVolumeHandle volumeId cfg) found })"
    unfolding succeeds_with_def
  proof (rule does_bind [OF does_conj [OF Lookup_says Lookup_error]])
    fix es and r :: "mountRecord option nres" assume a: "(\<forall>found. r = Inr found \<longrightarrow> table_said target found es) \<and> (\<forall>e. r = Inl e \<longrightarrow> \<not> os_IsNotExist e)"
    show "does (case r of Inl e \<Rightarrow> if os_IsNotExist e then forget_target K cfg target (done_ok ()) else give (node_status Internal e)
       | Inr found \<Rightarrow> unmount_and_forget K cfg target (decodeVolumeHandle volumeId cfg) found) (\<lambda>es' r. isl r \<or> unpublish_done cfg target (es @ es'))"
      using a unmount_and_forget_succeeds [of target _ es] by (cases r) (auto intro: does_return)
  qed
qed (rule unpublish_done_later, assumption)+


section \<open>Fingerprints\<close>

text \<open>The strings of a request are text, as the protocol demands.\<close>

definition text_data :: "nodePublishFingerprintData \<Rightarrow> bool" where
  "text_data d \<longleftrightarrow>
     list_all utf8_valid ([fd_VolumeID d, fd_StagingTargetPath d, fd_FSType d] @ fd_MountFlags d @ fd_PublishContext d @ fd_VolumeContext d)"

lemma fingerprint_json_ok: "text_data d \<Longrightarrow> json_ok (fingerprint_json d)"
proof -
  assume t: "text_data d"
  have keys: "list_all utf8_valid [''volumeID'', ''stagingTargetPath'', ''fsType'', ''accessMode'', ''mountFlags'', ''readOnly'', ''publishContext'', ''volumeContext'']"
    by code_simp
  show ?thesis using t keys by (simp add: text_data_def fingerprint_json_def str_list_def list.pred_map comp_def)
qed

lemma str_list_inject: "str_list xs = str_list ys \<longleftrightarrow> xs = ys"
  unfolding str_list_def by (simp add: inj_map_eq_map inj_def)

lemma fingerprint_json_inject: "fingerprint_json c = fingerprint_json d \<Longrightarrow> c = d"
  unfolding fingerprint_json_def by (rule nodePublishFingerprintData.equality) (simp_all add: str_list_inject)

lemma hex_encode_inject: "hex_encode a = hex_encode b \<Longrightarrow> a = b"
proof -
  assume "hex_encode a = hex_encode b"
  then have "hex_decode (hex_encode a) = hex_decode (hex_encode b)" by (rule arg_cong)
  then show ?thesis by simp
qed


end
