(* ===== verification/Node_Runs.thy ===== *)
theory Node_Runs
  imports Node_Cleanup Csi_Runs
begin

text \<open>
  The properties of the node service applied to a run: an NFS volume is published at \<^verbatim>\<open>/k/t\<close> and unpublished again, on a kernel whose directories
  are in order and where nothing is mounted.
\<close>

section \<open>Evaluation\<close>

definition gives :: "'a sys \<Rightarrow> 'a \<Rightarrow> bool" where
  "gives m x \<longleftrightarrow> (\<forall>s. fst (run_state m s) = x)"

named_theorems gives_rules

lemma gives_bind: "gives m x \<Longrightarrow> gives (f x) y \<Longrightarrow> gives (m \<bind> f) y"
  by (cases m) (auto simp: gives_def State_Monad.bind_def split: prod.splits, metis fst_conv)

lemma gives_return: "gives (State_Monad.return x) x"
  by (simp add: gives_def State_Monad.return_def)

lemma gives_checked: "gives m (Inr x) \<Longrightarrow> gives (k x) y \<Longrightarrow> gives (checked h m k) y"
  unfolding checked_def by (erule gives_bind) simp

lemma gives_check_do: "gives m None \<Longrightarrow> gives k y \<Longrightarrow> gives (check_do h m k) y"
  unfolding check_do_def by (erule gives_bind) simp

lemma gives_runs: "\<exists>y. gives m y \<Longrightarrow> gives k x \<Longrightarrow> gives (do { _ \<leftarrow> m; k }) x"
  by (auto intro: gives_bind)

lemma gives_targets: "gives (set_targets f) ()"
  by (simp add: gives_def)

lemma gives_deferred: "gives m x \<Longrightarrow> gives (deferred m c) x"
  unfolding deferred_def
  by (rule gives_bind, assumption) (cases c, auto simp: gives_def State_Monad.bind_def State_Monad.return_def split: prod.splits)

text \<open>The kernel.\<close>

definition missing :: os_error where
  "missing = \<lparr>oe_Text = ''no such file'', oe_NotExist = True, oe_Exist = False\<rparr>"

definition real_dir :: file_info where
  "real_dir = \<lparr>fi_Dir = True, fi_Symlink = False, fi_Regular = False, fi_Perm = 448, fi_Size = 4096\<rparr>"

definition state_dir :: string where
  "state_dir = ''/csi/.qumulo-csi-publish-state''"

definition good_kernel :: kernel where
  "good_kernel =
     \<lparr>k_do = \<lambda>_ _. None,
      k_lstat = \<lambda>_ p. if HasPrefix p (state_dir @ ''/'') then Inl missing else Inr real_dir,
      k_temp = \<lambda>_ dir _. Inr (dir @ ''/1''),
      k_read = \<lambda>_ _. Inr [],
      k_exec = \<lambda>_ _ _. (None, [])\<rparr>"

lemma good_calls:
  "gives (os_do good_kernel c) None" "gives (os_CreateTemp good_kernel d p) (Inr (d @ ''/1''))" "gives (os_ReadAll good_kernel q) (Inr [])"
  "gives (os_Exec good_kernel n args) (None, [])"
  "gives (os_Lstat good_kernel q) (if HasPrefix q (state_dir @ ''/'') then Inl missing else Inr real_dir)"
  by (simp_all add: gives_def os_do_def os_CreateTemp_def os_ReadAll_def os_Exec_def os_Lstat_def observe_def good_kernel_def Let_def)

lemma good_dir: "\<not> HasPrefix q (state_dir @ ''/'') \<Longrightarrow> gives (os_Lstat good_kernel q) (Inr real_dir)"
  using good_calls(5) [of q] by simp

section \<open>The request\<close>

definition node_request :: NodePublishRequest where
  "node_request =
     \<lparr>np_VolumeId = sample_id True, np_TargetPath = ''/k/t'', np_StagingTargetPath = [],
      np_Capability = Some \<lparr>vc_Mount = Some \<lparr>mv_FsType = [], mv_MountFlags = []\<rparr>, vc_Mode = 1\<rparr>, np_Readonly = False,
      np_PublishContext = [], np_VolumeContext = [], np_Secrets = []\<rparr>"

definition node_data :: nodePublishFingerprintData where
  "node_data =
     \<lparr>fd_VolumeID = sample_id True, fd_StagingTargetPath = [], fd_FSType = [], fd_AccessMode = 1, fd_MountFlags = [], fd_ReadOnly = False,
      fd_PublishContext = [], fd_VolumeContext = []\<rparr>"

definition node_print :: string where
  "node_print = hex_encode (sha256 (Marshal (fingerprint_json node_data)))"

definition nfs_base :: "string list" where
  "nfs_base = [''vers=4.1'', ''sec=sys'', ''hard'', ''timeo=600'', ''retrans=2'', ''nodev'', ''nosuid'']"

lemma no_flags: "sanitizedMountFlags [] = Inr []" "rejectControlledMountOptions [] ks = Inr ()"
  by (simp_all add: sanitizedMountFlags_def option_items_def rejectControlledMountOptions_def and_then_def)

lemma node_fingerprint_data: "fingerprint_data node_request = Inr node_data"
  by (simp add: fingerprint_data_def node_request_def node_data_def mount_flags_def mount_fs_def access_mode_def no_flags and_then_def
      canonicalMapEntries_def TrimSpace_def ToLower_def)

lemma node_fingerprint: "nodePublishFingerprint node_request = Inr node_print"
  by (simp add: nodePublishFingerprint_def node_fingerprint_data and_then_def node_print_def)

lemma node_capability: "validateVolumeCapabilities protocolNFS [Some \<lparr>vc_Mount = Some \<lparr>mv_FsType = [], mv_MountFlags = []\<rparr>, vc_Mode = 1\<rparr>] = Inr ()"
  by (simp add: validateVolumeCapabilities_def capability_ok_def protocol_flags_ok_def no_flags and_then_def mode_UNKNOWN_def TrimSpace_def ToLower_def)

lemma node_plan: "publish_plan sample_cfg node_request = Inr (sample_handle True, ''nfs4'', nfs_base, node_print)"
proof -
  have sel: "np_VolumeId node_request = sample_id True" "np_Capability node_request = Some \<lparr>vc_Mount = Some \<lparr>mv_FsType = [], mv_MountFlags = []\<rparr>, vc_Mode = 1\<rparr>"
    "np_VolumeContext node_request = []" by (simp_all add: node_request_def)
  have plan: "mount_plan (sample_handle True) [] = Inr (sample_handle True, ''nfs4'', nfs_base)"
    by (simp add: mount_plan_def no_flags and_then_def nfs_base_def)
  show ?thesis
    unfolding publish_plan_def sel sample_decoded
    by (simp add: node_capability readerOnlyAccessMode_def access_mode_def mode_SINGLE_NODE_READER_ONLY_def mode_MULTI_NODE_READER_ONLY_def
        node_fingerprint plan mount_flags_def and_then_def)
qed

lemma print_valid: "validatePublishFingerprint (hex_encode (sha256 s)) = Inr ()"
  using fingerprint_ok(1) [of s] by (simp add: handle_spec_ok_def validatePublishFingerprint_def)

text \<open>Where the state of the target is.\<close>

lemma node_state_dir: "publishStateDirectory sample_cfg = Inr state_dir"
  by (simp add: publishStateDirectory_def sample_cfg_def) code_simp

lemma hex_seg: "plain_seg (hex_encode (sha256 x) @ ''.json'')"
proof -
  have "CHR ''/'' \<notin> set (hex_encode (sha256 x))"
    using hex_encode_hex [of "CHR ''/''" "sha256 x"] by (auto simp: lower_alnum_def is_lower_def is_digit_def)
  moreover have "length (hex_encode (sha256 x) @ ''.json'') \<noteq> length s" if "s \<in> {[], ''.'', ''..''}" for s using that by auto
  then have "hex_encode (sha256 x) @ ''.json'' \<notin> {[], ''.'', ''..''}" by blast
  ultimately show ?thesis by (simp add: plain_seg_def)
qed

definition node_path :: string where
  "node_path = state_dir @ ''/'' @ hex_encode (sha256 (path_Clean ''/k/t'')) @ ''.json''"

lemma node_state_path: "publishStatePath sample_cfg ''/k/t'' = Inr node_path"
proof -
  have "path_Clean state_dir = state_dir" "HasPrefix state_dir ''/''" "state_dir \<noteq> ''/''" by (simp_all add: state_dir_def) code_simp+
  then have "path_Join [state_dir, hex_encode (sha256 (path_Clean ''/k/t'')) @ ''.json''] = node_path"
    using path_Join_below [of state_dir "[hex_encode (sha256 (path_Clean ''/k/t'')) @ ''.json'']"] hex_seg by (simp add: node_path_def)
  then show ?thesis by (simp add: publishStatePath_def node_state_dir and_then_def)
qed

section \<open>The run\<close>

lemma node_state_missing: "gives (os_Lstat good_kernel node_path) (Inl missing)"
  using good_calls(5) [of node_path] by (simp add: node_path_def HasPrefix_append [of "state_dir @ ''/''", simplified])

lemma state_dir_real: "gives (os_Lstat good_kernel state_dir) (Inr real_dir)" "gives (os_Lstat good_kernel (path_Dir state_dir)) (Inr real_dir)"
  "gives (os_Lstat good_kernel ''/k/t'') (Inr real_dir)"
  by (rule good_dir, code_simp)+

lemma real_dir_sel [simp]: "fi_Dir real_dir" "\<not> fi_Symlink real_dir" "fi_Perm real_dir = 448" "fi_Perm real_dir AND 18 = 0"
  by (simp_all add: real_dir_def)

lemma node_base: "gives (validatePublishStateBase good_kernel state_dir) (Inr ())"
  unfolding validatePublishStateBase_def by (rule gives_checked [OF state_dir_real(2)]) (simp add: gives_return)

lemma node_dir: "gives (ensurePublishStateDirectory good_kernel sample_cfg) (Inr state_dir)"
proof -
  have "gives (secure_dir good_kernel state_dir) (Inr state_dir)"
    unfolding secure_dir_def
    by (rule gives_checked [OF state_dir_real(1)], simp, rule gives_check_do [OF good_calls(1)], rule gives_bind [OF state_dir_real(1)], simp add: gives_return)
  then show ?thesis
    unfolding ensurePublishStateDirectory_def node_state_dir checked_return
    by (intro gives_checked [OF node_base] gives_bind [OF good_calls(1)]) simp
qed

lemma node_file: "gives (inspectPublishStateFile good_kernel node_path True) (Inr None)"
  unfolding inspectPublishStateFile_def by (rule gives_bind [OF node_state_missing]) (simp add: missing_def gives_return)

lemma node_sync: "gives (syncPublishStateDirectory good_kernel d) (Inr ())"
  unfolding syncPublishStateDirectory_def by (rule gives_check_do [OF good_calls(1)], rule gives_deferred, rule gives_check_do [OF good_calls(1)], rule gives_return)

lemma node_write: "gives (writePublishState good_kernel sample_cfg ''/k/t'' (hex_encode (sha256 x))) (Inr ())"
  unfolding writePublishState_def print_valid node_state_path checked_return replace_state_def
  by (rule gives_checked [OF node_dir], rule gives_checked [OF node_file], rule gives_checked [OF good_calls(2)], rule gives_deferred,
      (rule gives_check_do [OF good_calls(1)])+, rule node_sync)

lemma node_merge: "\<exists>options. mergeMountOptions nfs_base [] False = Inr options"
  by (simp add: mergeMountOptions_def no_flags and_then_def split: prod.split)

lemma node_Mount: "gives (Mount good_kernel source ''/k/t'' fsType options) (Inr ())"
  unfolding Mount_def
  by (rule gives_check_do [OF good_calls(1)], rule gives_checked [OF state_dir_real(3)], simp, rule gives_bind [OF good_calls(4)], simp add: gives_return)

lemma node_target: "gives (validateTargetPath good_kernel ''/k'' ''/k/t'') (Inr ())"
proof -
  have rel: "filepath_Rel ''/k'' ''/k/t'' = ''t''" "path_Clean ''/k'' = ''/k''" "path_Join [''/k'', ''t''] = ''/k/t''"
    "TrimSpace ''/k'' = ''/k''" "TrimSpace ''/k/t'' = ''/k/t''" "HasPrefix ''/k'' ''/''" "HasPrefix ''/k/t'' ''/''"
    "Split ''t'' (CHR ''/'') = [''t'']" "HasPrefix ''t'' ''../'' = False" "path_Clean ''/k/t'' = ''/k/t''"
    by code_simp+
  have "gives (symlink_loop good_kernel ''/k'' [''t'']) (Inr ())"
    unfolding symlink_loop.simps rel(3) by (rule gives_bind [OF state_dir_real(3)]) (simp add: gives_return)
  then show ?thesis unfolding validateTargetPath_def rejectExistingSymlinkComponents_def Let_def rel by (simp add: rel del: symlink_loop.simps)
qed

lemma node_lookup: "gives (Lookup good_kernel ''/k/t'') (Inr None)"
proof -
  have "parseMountInfo [] ''/k/t'' = Inr None" by code_simp
  then show ?thesis unfolding Lookup_def by (intro gives_checked [OF good_calls(3)]) (simp add: gives_return)
qed

lemma node_request_run:
  assumes "gives m y"
  shows "gives (target_request good_kernel sample_cfg (sample_id True) ''/k/t'' m) y"
proof -
  have cfg: "nodeEnabled sample_cfg" "cc_KubeletRoot sample_cfg = ''/k''" "TrimSpace ''/k/t'' = ''/k/t''"
    by (simp_all add: nodeEnabled_def) (simp add: sample_cfg_def, code_simp)
  show ?thesis
    unfolding target_request_def with_target_lock_def cfg(2)
    using cfg sample_id_present
    by (simp, intro gives_checked [OF node_target] gives_bind [OF gives_targets] gives_deferred assms)
qed

lemma published: "gives (NodePublishVolume good_kernel sample_cfg node_request) (Inr ())"
proof -
  have sel: "np_VolumeId node_request = sample_id True" "np_TargetPath node_request = ''/k/t''" "mount_flags (np_Capability node_request) = []"
    "np_Readonly node_request = False" by (simp_all add: node_request_def mount_flags_def)
  obtain options where o: "mergeMountOptions nfs_base [] False = Inr options" using node_merge ..
  have m: "gives (publish_mount good_kernel sample_cfg node_request (sample_handle True) ''nfs4'' nfs_base node_print) (Inr ())"
    unfolding publish_mount_def sel o checked_return node_print_def
    by (rule gives_checked [OF node_write], rule gives_bind [OF gives_targets], rule gives_checked [OF node_Mount], rule gives_return)
  have "protocolNFS \<noteq> protocolSMB" by (simp add: protocolNFS_def protocolSMB_def)
  then have "gives (publish_new good_kernel sample_cfg node_request (sample_handle True) ''nfs4'' nfs_base node_print) (Inr ())"
    unfolding publish_new_def by (intro gives_bind [OF gives_targets]) (simp add: m)
  then show ?thesis
    unfolding NodePublishVolume_def sel node_plan checked_return prod.case
    by (intro node_request_run gives_checked [OF node_lookup]) simp
qed

lemma unpublished: "gives (NodeUnpublishVolume good_kernel sample_cfg (sample_id True) ''/k/t'') (Inr ())"
proof -
  have "gives (remove_if_found good_kernel state_dir node_path) (Inr ())"
    unfolding remove_if_found_def by (rule gives_checked [OF node_file]) (simp add: gives_return)
  moreover have "gives (check_state_dir good_kernel state_dir real_dir) (Inr ())" by (simp add: check_state_dir_def gives_return)
  ultimately have r: "gives (removePublishState good_kernel sample_cfg ''/k/t'') (Inr ())"
    unfolding removePublishState_def node_state_dir node_state_path checked_return
    by (intro gives_checked [OF node_base] gives_bind [OF state_dir_real(1)]) (simp, erule gives_checked, assumption)
  have "gives (forget_target good_kernel sample_cfg ''/k/t'' (do { _ \<leftarrow> remove_file good_kernel ''/k/t''; done_ok () })) (Inr ())"
    unfolding forget_target_def remove_file_def
    by (rule gives_checked [OF r], rule gives_bind [OF gives_targets], rule gives_bind, rule gives_bind [OF good_calls(1)], rule gives_return, rule gives_return)
  then have "gives (unmount_and_forget good_kernel sample_cfg ''/k/t'' h None) (Inr ())" for h
    unfolding unmount_and_forget_def by (intro gives_checked [where x = "()"]) (simp_all add: gives_return)
  then show ?thesis
    unfolding NodeUnpublishVolume_def by (intro node_request_run gives_bind [OF node_lookup]) simp
qed

lemma b64_ascii: "list_all (\<lambda>c. ch c < 128) (b64_encode s)"
proof -
  have "ch (b64d n) < 128" if "n < 64" for n using that by (auto simp: b64d_def)
  then show ?thesis by (induction s rule: b64_encode.induct) simp_all
qed

section \<open>The properties applied\<close>

definition fresh :: node_state where
  "fresh = \<lparr>ns_trace = [], ns_targets = (\<lambda>_. None)\<rparr>"

lemma gives_run: "gives m x \<Longrightarrow> run_state m s = (x, snd (run_state m s))"
  by (simp add: gives_def prod_eq_iff)

theorem NodePublishVolume_safe_witness:
  "\<exists>es. guarded_calls (at_target (mount_allowed sample_cfg node_request) sample_cfg ''/k/t'') es \<and> publish_done sample_cfg node_request es"
  using NodePublishVolume_safe [OF gives_run [OF published, where s = fresh]] by (auto simp: node_request_def)


theorem writePublishState_durable_witness:
  "\<exists>es. list_all (state_event node_path) es \<and> persisted sample_cfg ''/k/t'' (hex_encode (sha256 [])) es"
  using writePublishState_durable [OF gives_run [OF node_write, where s = fresh]] by (auto simp: node_state_path)

theorem publish_state_roundtrip_witness:
  "decode_state (state_text (hex_encode (sha256 []))) = Inr (hex_encode (sha256 []))"
  using publish_state_roundtrip [OF print_valid] by blast


end
