(* ===== verification/Spec2Isabelle.thy ===== *)
theory Spec2Isabelle
  imports Csi_Runs Name_Locks Node_Runs
begin

text \<open>
  A verification library for the Qumulo COSI and CSI drivers (\<^verbatim>\<open>internal/\<close> of the repository): a bucket driver that turns Kubernetes
  bucket requests into REST calls on a Qumulo cluster, and a volume driver that does the same for NFS and SMB volumes and mounts them on the
  nodes.

  \<^bold>\<open>The model of execution.\<close>  A REST operation is a program in the state monad of \<open>Rest_Client\<close>: its state holds the bearer token and the
  caches of a connection and the trace of what was sent, answered and slept.  The cluster is an arbitrary function of the trace and the
  request (\<open>c_cluster\<close>), so every property holds for every cluster, every other client working on it in between, and every fault of the
  network; cancellation (\<open>c_ctx_err\<close>) and randomness (\<open>c_rand\<close>, \<open>c_password\<close>) are functions of the trace as well.  Bodies are JSON values
  (\<open>Json\<close>), errors are values with the wrapping of \<^verbatim>\<open>fmt.Errorf\<close> (\<open>Go_Error\<close>), strings are byte strings.  \<open>Trace_Logic\<close> is the program
  logic: \<open>emits\<close> relates a program's result to the events it adds, \<open>sends\<close> bounds the requests it makes, \<open>guarded\<close> says that a kind of
  request happens only after something has been shown.  The node service runs in the same way over a trace of system calls that an arbitrary
  kernel answers (\<open>Node_System\<close>, with \<open>does\<close>, \<open>only\<close>, \<open>leaves\<close> and, in \<open>Node_Safety\<close>, \<open>executes\<close>).  Where callers share state, the code
  is a step relation: \<open>Conn_Cache\<close> and \<open>Name_Locks\<close>.

  \<^bold>\<open>Foundations and the REST client.\<close>
  \<^item> \<open>Prelude\<close>, \<open>Go_Encoding\<close>, \<open>Go_Url\<close>, \<open>Json\<close>, \<open>Json_Text\<close>: the parts of Go's standard library that the code uses: string functions, number
    parsing, escaping, base64, hex, SHA-256 and HMAC, \<^verbatim>\<open>net/url\<close>, \<^verbatim>\<open>path.Clean\<close>, the field rules of \<^verbatim>\<open>encoding/json\<close> and its text, written
    and read back.
  \<^item> \<open>Interfaces\<close>, \<open>Claims\<close>: the contracts as locales: a store of keyed entries, which the bucket policy (\<open>Cosi_Policy\<close>) and the directory ACL
    (\<open>Files_Acl\<close>) provide and the proofs of grant and revoke use; the claim of a named resource, which exports and shares provide.
    \<open>Lawful\<close> and \<open>Error_Kinds\<close> hold laws that several components share.
  \<^item> \<open>Naming\<close> (\<^verbatim>\<open>naming/naming.go\<close>): bucket and account identifiers and their parsers, bucket and user names.
  \<^item> \<open>Go_Error\<close> (\<^verbatim>\<open>qumulo/errors.go\<close>), \<open>Rest_Client\<close> and \<open>Conn_Cache\<close> (\<^verbatim>\<open>qumulo/client.go\<close>): the error envelope, the request loop with login,
    retries and backoff, dialling, and the connection cache as a step relation over concurrent callers.
  \<^item> \<open>Buckets\<close>, \<open>Users_Keys\<close>, \<open>Quotas\<close>, \<open>Files_Acl\<close>, \<open>Directories\<close>, \<open>Tree_Delete\<close>, \<open>Core_Version\<close>, \<open>Cosi_Policy\<close>, \<open>Nfs_Exports\<close>, \<open>Smb_Shares\<close>:
    one theory per file of \<^verbatim>\<open>internal/qumulo/\<close> (and \<^verbatim>\<open>policy/actions.go\<close>), one definition per operation.

  \<^bold>\<open>The COSI driver.\<close>  \<open>Config_Class\<close> (\<^verbatim>\<open>config/config.go\<close>), \<open>Status_Map\<close> (\<^verbatim>\<open>driver/errors.go\<close>), \<open>Cosi_Driver\<close>, \<open>Cosi_Delete\<close>, \<open>Cosi_Access\<close>
  (\<^verbatim>\<open>driver/driver.go\<close>): class parameters and credentials, gRPC codes, and the four bucket RPCs.  \<open>Concrete_Runs\<close> applies its properties.

  \<^bold>\<open>The CSI driver\<close> (\<^verbatim>\<open>internal/csidriver/\<close>).
  \<^item> \<open>Csi_Config\<close> (\<^verbatim>\<open>config.go\<close>), \<open>Csi_Handle\<close> (\<^verbatim>\<open>handle.go\<close>): the process configuration, the closed parser of volume parameters, the signed
    volume ID.
  \<^item> \<open>Csi_Connector\<close> (\<^verbatim>\<open>connector.go\<close>), \<open>Csi_Backend\<close> (\<^verbatim>\<open>backend.go\<close>), \<open>Csi_Driver\<close> (\<^verbatim>\<open>driver.go\<close>): which credential a call uses, the operations
    on volumes, and the RPCs of the identity and controller services; \<open>Volume_Logic\<close> and \<open>Directory_Logic\<close> say what they send,
    \<open>Csi_Control\<close> and \<open>Csi_Create\<close> hold the properties of deletion, expansion and creation.
  \<^item> \<open>Name_Locks\<close> (\<open>lockCreateName\<close> of \<^verbatim>\<open>driver.go\<close>): the locks by name and path under every interleaving of create and delete requests.
  \<^item> \<open>Csi_Mount\<close> (\<^verbatim>\<open>mount.go\<close>, \<^verbatim>\<open>mount_linux.go\<close>): mount options, the mount table, the comparison with an existing mount.
  \<^item> \<open>Publish_State\<close> (\<^verbatim>\<open>publish_state.go\<close>), \<open>Csi_Node\<close> (\<^verbatim>\<open>node.go\<close>): the durable fingerprint of a target, publish and unpublish, with every system
    call; \<open>Node_Safety\<close> and \<open>Node_Cleanup\<close> hold their properties.
  \<^item> \<open>Csi_Runs\<close>, \<open>Node_Runs\<close>: every property with a hypothesis applied to a value or a run the model evaluates.

  \<^bold>\<open>What is shown.\<close>  Of the REST layer: at most one execution of a request that must not be repeated, results grounded in answers, bounded
  waits.  Of each component: read-modify-write loops write only what they read under its ETag, listings are complete, quotas never shrink,
  a recursive delete succeeds only when the cluster said so.  Of the bucket driver: a delete verifies the recorded file id before it destroys,
  touches only what the handle names and retains what the driver did not make; a failed grant takes its key back and a successful one
  returns the identity it set up; a revoke touches the recorded identity only.  Identifiers are read back as they were written.  Of the volume
  driver: an ID that decodes was signed by the driver; a creation claims its resource before it changes anything and returns a handle that
  decodes to what was claimed and validated; a deletion leaves a tombstone before it removes data whose identity it saw; locks exclude and never
  deadlock.  Of the node: what is mounted is the signed volume, at a checked target below the kubelet's root, with the driver's options kept and
  the fingerprint on the disk before; credentials files do not outlive the call; only a mount that the handle describes is taken away.

  \<^bold>\<open>Bounds.\<close>  The request loop has the six attempts of the code, the policy and ACL loops their eight and five, quotas four, the claims and
  tombstones of volumes three; they are parameters of structural recursions.  Only the polling of a tree delete and the listing of pages have
  no bound in the code: they run on the fuel \<open>c_fuel\<close> and fail with \<open>EDiverged\<close> when it ends; \<open>ListUploads_returns\<close> shows how much fuel is enough.

  \<^bold>\<open>Not modelled.\<close>  gRPC servers, metrics, logging and the programs' entry points (I/O of libraries); \<^verbatim>\<open>config/k8s.go\<close> (a call of client-go
  whose answer is a parameter); semantic versions (a third-party package, a parameter with its order); the branches for Windows and
  \<^verbatim>\<open>mount_unsupported.go\<close>; the fake cluster of the tests.  One call of the node service is modelled as it runs while it holds the lock of its target;
  the counting of those locks under contention is not.
\<close>

end
